(* ===== verification/Prelude.thy ===== *)
theory Prelude
  imports Main "HOL-Library.Word"
begin

text \<open>
  Shared vocabulary of the development: the machine types of the C sources, the outcome type that
  every operation with an error path returns, and the generic lemmas on outcomes, words and lists
  that the component theories use.

  The C sources are those of \<^verbatim>\<open>tools/asasm/src\<close>.  A 32-bit \<^verbatim>\<open>int\<close>, \<^verbatim>\<open>unsigned\<close>,
  \<^verbatim>\<open>uint32_t\<close> or \<^verbatim>\<open>ARMWord\<close> is a \<open>32 word\<close>; a signed reading is taken
  with \<open>sint\<close> where the code compares or converts a signed value.  Signed overflow, which the
  C standard leaves undefined, is two's complement wrap-around here, as on every host the assembler
  is built for.
\<close>

unbundle bit_operations_syntax

type_synonym u8 = "8 word"
type_synonym u16 = "16 word"
type_synonym u32 = "32 word"
type_synonym u64 = "64 word"

text \<open>
  Facts collected under \<open>asm_defs\<close> unfold the model's operations; those under \<open>frame\<close>
  say which parts of the state an operation leaves alone.
\<close>

named_theorems asm_defs
named_theorems frame

section \<open>Outcomes\<close>

text \<open>
  An operation either returns a value or does not return: a failed \<^verbatim>\<open>assert\<close>, the
  \<^verbatim>\<open>longjmp\<close> of \<^verbatim>\<open>fixup()\<close> in \<^verbatim>\<open>error.c\<close> (which keeps the state reached so far), a
  C construct whose behaviour is undefined, or a loop that outlives the fuel it was given.
\<close>

datatype 's fault =
    AssertFailed
  | Fixup 's
  | Undefined
  | OutOfFuel

type_synonym ('s, 'a) res = "'s fault + 'a"

definition rbind :: "('s, 'a) res \<Rightarrow> ('a \<Rightarrow> ('s, 'b) res) \<Rightarrow> ('s, 'b) res" where
  "rbind m f = (case m of Inl e \<Rightarrow> Inl e | Inr x \<Rightarrow> f x)"

lemma rbind_Inl [simp]: "rbind (Inl e) f = Inl e"
  by (simp add: rbind_def)

lemma rbind_Inr [simp]: "rbind (Inr x) f = f x"
  by (simp add: rbind_def)

lemma rbind_eq_Inr: "rbind m f = Inr y \<longleftrightarrow> (\<exists>x. m = Inr x \<and> f x = Inr y)"
  by (cases m) auto

lemma rbind_eq_Inl: "rbind m f = Inl e \<longleftrightarrow> m = Inl e \<or> (\<exists>x. m = Inr x \<and> f x = Inl e)"
  by (cases m) auto

lemma rbind_InrE:
  assumes "rbind m f = Inr y"
  obtains x where "m = Inr x" and "f x = Inr y"
  using assms by (auto simp: rbind_eq_Inr)

lemma rbind_assoc: "rbind (rbind m f) g = rbind m (\<lambda>x. rbind (f x) g)"
  by (cases m) auto

lemma rbind_cong [fundef_cong]:
  "m = m' \<Longrightarrow> (\<And>x. m' = Inr x \<Longrightarrow> f x = f' x) \<Longrightarrow> rbind m f = rbind m' f'"
  by (cases m') auto

lemma rbind_split:
  "P (rbind m f) \<longleftrightarrow> (\<forall>e. m = Inl e \<longrightarrow> P (Inl e)) \<and> (\<forall>x. m = Inr x \<longrightarrow> P (f x))"
  by (cases m) auto

text \<open>\<open>assert\<close> of the sources: it either does nothing or ends the run.\<close>

definition rassert :: "bool \<Rightarrow> ('s, unit) res" where
  "rassert b = (if b then Inr () else Inl AssertFailed)"

lemma rassert_True [simp]: "rassert True = Inr ()"
  by (simp add: rassert_def)

lemma rassert_False [simp]: "rassert False = Inl AssertFailed"
  by (simp add: rassert_def)

lemma rassert_eq_Inr [simp]: "rassert b = Inr u \<longleftrightarrow> b"
  by (simp add: rassert_def)

text \<open>The value an operation returned, if it did; concrete runs are evaluated through it.\<close>

definition returned :: "('s, 'a) res \<Rightarrow> 'a option" where
  "returned m = (case m of Inl _ \<Rightarrow> None | Inr x \<Rightarrow> Some x)"

lemma returned_eq_Some [simp]: "returned m = Some x \<longleftrightarrow> m = Inr x"
  by (cases m) (auto simp: returned_def)

text \<open>The faults that are defects of a program rather than its error handling.\<close>

definition crashes :: "('s, 'a) res \<Rightarrow> bool" where
  "crashes m \<longleftrightarrow> m = Inl AssertFailed \<or> m = Inl Undefined"

lemma crashes_Inr [simp]: "\<not> crashes (Inr x)"
  by (simp add: crashes_def)

lemma crashes_Fixup [simp]: "\<not> crashes (Inl (Fixup s))"
  by (simp add: crashes_def)

lemma crashes_OutOfFuel [simp]: "\<not> crashes (Inl OutOfFuel)"
  by (simp add: crashes_def)

lemma crashes_rbind:
  "crashes (rbind m f) \<longleftrightarrow> crashes m \<or> (\<exists>x. m = Inr x \<and> crashes (f x))"
  by (cases m) (auto simp: crashes_def)

lemma not_crashes_rbindI:
  "\<not> crashes m \<Longrightarrow> (\<And>x. m = Inr x \<Longrightarrow> \<not> crashes (f x)) \<Longrightarrow> \<not> crashes (rbind m f)"
  by (auto simp: crashes_rbind)

section \<open>Words\<close>

text \<open>The shift operators of C on a 32-bit operand; the count is what the source computes.\<close>

abbreviation shl32 :: "u32 \<Rightarrow> nat \<Rightarrow> u32" where
  "shl32 x n \<equiv> push_bit n x"

abbreviation shr32 :: "u32 \<Rightarrow> nat \<Rightarrow> u32" where
  "shr32 x n \<equiv> drop_bit n x"

definition flag :: "u32 \<Rightarrow> u32 \<Rightarrow> bool" where
  "flag x m \<longleftrightarrow> x AND m \<noteq> 0"

definition UINT32_MAX :: u32 where
  "UINT32_MAX = 0xFFFFFFFF"

lemma word_eq_by_bits:
  fixes a b :: "'a::len word"
  assumes "\<And>n. n < LENGTH('a) \<Longrightarrow> bit a n = bit b n"
  shows "a = b"
  using assms by (rule bit_word_eqI)

text \<open>A quantifier over the 32 bit positions of a word is a finite conjunction.\<close>

lemma all_less_32:
  "(\<forall>n<32. P n) \<longleftrightarrow> (\<forall>n\<in>set [0..<32]. P (n::nat))"
  by auto

lemma or_field: "x AND m = 0 \<Longrightarrow> y AND m = y \<Longrightarrow> (x OR y) AND m = (y :: 'a::len word)"
  by (simp add: bit.conj_disj_distrib2)

lemma or_outside: "y AND m = 0 \<Longrightarrow> (x OR y) AND m = (x :: 'a::len word) AND m"
  by (simp add: bit.conj_disj_distrib2)

lemma and_disjoint:
  assumes "e AND a = e" and "a AND b = 0"
  shows "e AND b = (0 :: 'a::len word)"
proof -
  have "e AND b = (e AND a) AND b" by (simp add: assms(1))
  also have "\<dots> = e AND (a AND b)" by (simp only: and.assoc)
  finally show ?thesis by (simp add: assms(2))
qed

lemma sub_field:
  assumes "x AND m = v" and "m AND k = k"
  shows "x AND k = (v :: 'a::len word) AND k"
proof -
  have "x AND k = (x AND m) AND k" by (simp add: and.assoc assms(2))
  then show ?thesis by (simp add: assms(1))
qed

lemma sint_u32: "sint (w::u32) = (if uint w < 2 ^ 31 then uint w else uint w - 2 ^ 32)"
proof -
  have "sint w = (uint w + 2 ^ 31) mod 2 ^ 32 - 2 ^ 31"
    by (simp add: sint_uint signed_take_bit_eq_take_bit_shift take_bit_eq_mod)
  moreover have "0 \<le> uint w" and "uint w < 2 ^ 32"
    using uint_lt2p [of w] by simp_all
  moreover have "(u + 2 ^ 31) mod 2 ^ 32 = u - 2 ^ 31" if "2 ^ 31 \<le> u" "u < 2 ^ 32" for u :: int
  proof -
    have "(u + 2 ^ 31) mod 2 ^ 32 = ((u - 2 ^ 31) + 2 ^ 32) mod 2 ^ 32" by (simp add: add.commute)
    also have "\<dots> = (u - 2 ^ 31) mod 2 ^ 32" by (rule mod_add_self2)
    also have "\<dots> = u - 2 ^ 31" using that by (intro mod_pos_pos_trivial) simp_all
    finally show ?thesis .
  qed
  ultimately show ?thesis by auto
qed

lemma uint_neg_u32: "(y::u32) \<noteq> 0 \<Longrightarrow> uint (- y) = 2 ^ 32 - uint y"
proof -
  assume "y \<noteq> 0"
  then have "uint y \<noteq> 0" by (simp add: unsigned_eq_0_iff)
  moreover have "0 \<le> uint y" and "uint y < 2 ^ 32"
    using uint_lt2p [of y] by simp_all
  ultimately have "(- uint y) mod 2 ^ 32 = 2 ^ 32 - uint y"
    by (simp add: zmod_zminus1_eq_if)
  then show ?thesis by (simp add: uint_word_ariths)
qed

lemma uint_not_u32: "uint (NOT y :: u32) = 2 ^ 32 - 1 - uint y"
proof -
  have "0 \<le> uint y" and "uint y < 2 ^ 32" using uint_lt2p [of y] by simp_all
  moreover have "(- u - 1) mod 2 ^ 32 = 2 ^ 32 - 1 - u" if "0 \<le> u" "u < 2 ^ 32" for u :: int
  proof -
    have "(- u - 1) mod 2 ^ 32 = ((- u - 1) + 2 ^ 32) mod 2 ^ 32" by (rule mod_add_self2 [symmetric])
    also have "\<dots> = (2 ^ 32 - 1 - u) mod 2 ^ 32" by simp
    also have "\<dots> = 2 ^ 32 - 1 - u" using that by (intro mod_pos_pos_trivial) simp_all
    finally show ?thesis .
  qed
  ultimately have "(- uint y - 1) mod 2 ^ 32 = 2 ^ 32 - 1 - uint y" by simp
  then show ?thesis by (simp add: unsigned_not_eq take_bit_eq_mod not_int_def)
qed

lemma int_unat_sint: "0 \<le> sint w \<Longrightarrow> int (unat w) = sint (w::u32)"
  using uint_lt2p [of w] by (auto simp: sint_u32 split: if_splits)

lemma unat_and_mask: "unat (x AND mask n :: 'a::len word) = unat x mod 2 ^ n"
  by (simp flip: take_bit_eq_mask take_bit_eq_mod add: unsigned_take_bit_eq)

lemma small_word_field: "unat (w :: 'a::len word) < 2 ^ n \<Longrightarrow> w AND mask n = w"
  by (simp add: word_unat_eq_iff unat_and_mask)

lemma mask_12: "(0xFFF :: u32) = mask 12" and mask_8: "(0xFF :: u32) = mask 8"
  and mask_4: "(0xF :: u32) = mask 4"
  by (simp_all add: mask_eq_exp_minus_1)

lemma and_mask_below: "unat (x AND mask n :: 'a::len word) < 2 ^ n"
  by (simp add: unat_and_mask)

lemma unat_and_not_mask:
  fixes x :: u32
  shows "unat (x AND NOT (mask k)) = unat x div 2 ^ k * 2 ^ k"
proof -
  have "x AND NOT (mask k) = push_bit k (drop_bit k x)"
    by (rule bit_word_eqI) (auto simp: bit_and_iff bit_not_iff bit_mask_iff bit_push_bit_iff bit_drop_bit_eq)
  moreover have "unat x div 2 ^ k * 2 ^ k < 2 ^ 32"
    using unsigned_less [of x] by (intro le_less_trans [OF div_times_less_eq_dividend]) simp
  moreover have "unat x mod 2 ^ 32 = unat x" using unsigned_less [of x, where 'a = nat] by simp
  ultimately show ?thesis
    by (simp only: unsigned_push_bit_eq unsigned_drop_bit_eq take_bit_length_eq)
      (simp add: push_bit_eq_mult drop_bit_eq_div take_bit_eq_mod)
qed

lemma unat_power2: "k < 32 \<Longrightarrow> unat (2 ^ k :: u32) = 2 ^ k"
proof -
  assume "k < 32"
  then have "(2::nat) ^ k < 2 ^ 32" by (intro power_strict_increasing) simp_all
  then have "unat (of_nat (2 ^ k) :: u32) = 2 ^ k"
    by (simp only: unsigned_of_nat take_bit_eq_mod) simp
  then show "unat (2 ^ k :: u32) = 2 ^ k" by simp
qed

text \<open>Rounding up to a multiple of a power of two, as the sources compute it.\<close>

lemma unat_align_up:
  fixes x :: u32
  assumes "unat x + 2 ^ k \<le> 2 ^ 32" and "k < 32"
  shows "unat ((x + 2 ^ k - 1) AND - (2 ^ k)) = (unat x + 2 ^ k - 1) div 2 ^ k * 2 ^ k"
proof -
  have p: "(1::nat) \<le> 2 ^ k" by simp
  have "unat (2 ^ k :: u32) = 2 ^ k" by (rule unat_power2 [OF assms(2)])
  moreover have "(1::u32) \<le> 2 ^ k" using calculation p by (simp add: word_le_nat_alt)
  ultimately have one: "unat (2 ^ k - 1 :: u32) = 2 ^ k - 1" by (simp add: unat_sub)
  have "x + 2 ^ k - 1 = x + (2 ^ k - 1)" by (rule add_diff_eq [symmetric])
  moreover have "unat (x + (2 ^ k - 1)) = unat x + (2 ^ k - 1)"
    using assms(1) one p by (subst unat_add_lem [THEN iffD1]) auto
  ultimately have "unat (x + 2 ^ k - 1) = unat x + 2 ^ k - 1" using p by (simp only: add_diff_assoc)
  then show ?thesis by (simp add: minus_exp_eq_not_mask unat_and_not_mask)
qed

lemma round_up_nat:
  fixes n d :: nat
  assumes "0 < d"
  shows "d dvd (n + d - 1) div d * d" and "n \<le> (n + d - 1) div d * d" and "(n + d - 1) div d * d < n + d"
proof -
  have "(n + d - 1) div d * d + (n + d - 1) mod d = n + d - 1" by simp
  moreover have "(n + d - 1) mod d < d" using assms by simp
  ultimately show "n \<le> (n + d - 1) div d * d" and "(n + d - 1) div d * d < n + d" using assms by linarith+
qed simp

lemma pow2_test: "k < 32 \<Longrightarrow> (2 ^ k :: u32) \<noteq> 0 \<and> 2 ^ k AND (2 ^ k - 1 :: u32) = 0"
proof
  show "(2 ^ k :: u32) \<noteq> 0" if "k < 32" using that by simp
  have "(2 ^ k :: u32) AND mask k = 0"
    by (rule bit_word_eqI) (auto simp: bit_and_iff bit_mask_iff bit_exp_iff)
  then show "2 ^ k AND (2 ^ k - 1 :: u32) = 0" by (simp add: mask_eq_exp_minus_1)
qed

lemma unat_drop_bit: "unat (drop_bit n (w :: 'a::len word)) = unat w div 2 ^ n"
proof -
  have "take_bit LENGTH('a) (unat w) = unat w"
    using unsigned_less [of w, where 'a = nat] by (simp add: take_bit_nat_eq_self)
  then show ?thesis by (simp only: unsigned_drop_bit_eq) (simp add: drop_bit_eq_div)
qed

lemma nat_bytes:
  fixes u :: nat
  assumes "u < 2 ^ 32"
  shows "u mod 256 + u div 2 ^ 8 mod 256 * 2 ^ 8 + u div 2 ^ 16 mod 256 * 2 ^ 16
    + u div 2 ^ 24 mod 256 * 2 ^ 24 = u"
proof -
  have d: "u div 2 ^ 16 = u div 2 ^ 8 div 256" "u div 2 ^ 24 = u div 2 ^ 16 div 256"
    by (simp_all flip: div_mult2_eq)
  have "u div 2 ^ 24 < 256" using assms by (simp add: less_mult_imp_div_less)
  then have l: "u div 2 ^ 24 mod 256 = u div 2 ^ 24" by simp
  have "u = 256 * (u div 2 ^ 8) + u mod 256" "u div 2 ^ 8 = 256 * (u div 2 ^ 16) + u div 2 ^ 8 mod 256"
    "u div 2 ^ 16 = 256 * (u div 2 ^ 24) + u div 2 ^ 16 mod 256"
    unfolding d by simp_all
  moreover have "r0 + r1 * 2 ^ 8 + r2 * 2 ^ 16 + q3 * 2 ^ 24 = u"
    if "u = 256 * q1 + r0" "q1 = 256 * q2 + r1" "q2 = 256 * q3 + r2" for q1 q2 q3 r0 r1 r2 :: nat
    using that by simp
  ultimately show ?thesis unfolding l by blast
qed

lemma unat_inverse_word: "of_nat (unat w) = (w :: 'a::len word)"
  by simp

lemma unat_add_small: "unat (i::u32) + n < 2 ^ 32 \<Longrightarrow> unat (i + of_nat n) = unat i + n"
proof -
  assume "unat i + n < 2 ^ 32"
  then have "unat (of_nat n :: u32) = n" by (simp only: unsigned_of_nat take_bit_eq_mod) simp
  then show "unat (i + of_nat n) = unat i + n"
    using \<open>unat i + n < 2 ^ 32\<close> by (subst unat_add_lem [THEN iffD1]) simp_all
qed

lemma and_power2_word: "k < 32 \<Longrightarrow> unat ((w :: u32) AND 2 ^ k) = (if odd (unat w div 2 ^ k) then 2 ^ k else 0)"
proof -
  assume k: "k < 32"
  have "w AND 2 ^ k = (if bit w k then 2 ^ k else 0)"
    by (rule bit_word_eqI) (auto simp: bit_and_iff bit_exp_iff)
  moreover have "bit w k = odd (unat w div 2 ^ k)"
    using k by (simp add: bit_unsigned_iff flip: bit_iff_odd [of "unat w"])
  ultimately show ?thesis using unat_power2 [OF k] by simp
qed

lemma shr32_of_nat: "shr32 x n = of_nat (unat x div 2 ^ n)"
  using unat_inverse_word [of "shr32 x n"] by (simp add: unat_drop_bit)

lemma drop_push_field:
  "m AND mask (32 - n) = m \<Longrightarrow> drop_bit n (push_bit n (x AND m) :: u32) = x AND m"
proof -
  assume m: "m AND mask (32 - n) = m"
  have "drop_bit n (push_bit n ((x AND m) AND mask (32 - n)) :: u32) = (x AND m) AND mask (32 - n)"
    by (rule bit_word_eqI) (auto simp: bit_simps)
  then show ?thesis by (simp add: and.assoc m)
qed

lemma push_drop_field:
  "push_bit n (drop_bit n (x AND push_bit n m)) = (x AND push_bit n m :: u32)"
  by (rule bit_word_eqI) (auto simp: bit_simps)

section \<open>Lists\<close>

lemma list_update_append_mid:
  "length xs = n \<Longrightarrow> (xs @ y # ys)[n := z] = xs @ z # ys"
  by (simp add: list_update_append)

section \<open>An interface: encodings of values into instruction fields\<close>

text \<open>
  Several parts of the assembler turn a value into a field of an instruction that the processor
  decodes again.  The contract: what is encoded decodes to the value, and every value a field can
  express is encoded.
\<close>

locale field_codec =
  fixes encode :: "'v \<Rightarrow> 'e option"
    and decode :: "'e \<Rightarrow> 'v"
    and field :: "'e \<Rightarrow> bool"
  assumes decode_encode: "encode v = Some e \<Longrightarrow> field e \<and> decode e = v"
    and encode_decode: "field e \<Longrightarrow> encode (decode e) \<noteq> None"
begin

lemma encode_inj: "encode v = Some e \<Longrightarrow> encode w = Some e \<Longrightarrow> v = w"
  using decode_encode by blast

lemma encode_None_iff: "encode v = None \<longleftrightarrow> (\<forall>e. field e \<longrightarrow> decode e \<noteq> v)"
proof
  assume "encode v = None"
  then show "\<forall>e. field e \<longrightarrow> decode e \<noteq> v" using encode_decode by metis
next
  assume "\<forall>e. field e \<longrightarrow> decode e \<noteq> v"
  then show "encode v = None" using decode_encode by (cases "encode v") auto
qed

lemma encode_Some_iff: "(\<exists>e. encode v = Some e) \<longleftrightarrow> (\<exists>e. field e \<and> decode e = v)"
  using encode_None_iff [of v] by auto

end

end
