(* ===== verification/ARM_Float.thy ===== *)
theory ARM_Float
  imports Prelude "HOL-Library.Log_Nat"
begin

text \<open>
  The C type \<^verbatim>\<open>double\<close> behind \<^verbatim>\<open>ARMFloat\<close> (\<^verbatim>\<open>global.h\<close>): the 64 bits of
  an IEEE~754 binary64 number and the arithmetic, comparisons and conversions the assembler does on
  it.  Every operation computes the exact rational result with integers and rounds it once, to
  nearest with ties to even (the default rounding of the C environment).  The same rounding gives
  the conversion \<^verbatim>\<open>(float)data\<close>.  A result that is not a number is the canonical quiet NaN:
  the C standard does not fix its payload.
\<close>

type_synonym ARMFloat = u64

section \<open>Rounding a rational\<close>

text \<open>
  \<open>scale2 e (n, d)\<close> is the fraction \<open>n / d\<close> divided by \<open>2 ^ e\<close>.
\<close>

definition scale2 :: "int \<Rightarrow> nat \<times> nat \<Rightarrow> nat \<times> nat" where
  "scale2 e nd = (if 0 \<le> e then (fst nd, snd nd * 2 ^ nat e) else (fst nd * 2 ^ nat (- e), snd nd))"

text \<open>The nearest integer of \<open>n / d\<close>, ties to even.\<close>

definition div_even :: "nat \<Rightarrow> nat \<Rightarrow> nat" where
  "div_even n d =
     (let q = n div d; r = n mod d
      in if d < 2 * r \<or> (2 * r = d \<and> odd q) then q + 1 else q)"

text \<open>
  The magnitude bits (exponent and fraction field) of the value \<open>n / d\<close> in the binary format
  with \<open>p\<close> significant bits, least exponent \<open>qmin\<close> and \<open>w\<close> exponent bits.  For a normal
  number the significand's leading one carries into the exponent field, so one sum covers normal
  numbers, subnormal numbers and the carry of a rounding up to the next power of two.
\<close>

definition ieee_round :: "nat \<Rightarrow> int \<Rightarrow> nat \<Rightarrow> nat \<Rightarrow> nat \<Rightarrow> nat" where
  "ieee_round p qmin w n d =
     (if n = 0 then 0
      else
        let e0 = int (floorlog 2 n) - int (floorlog 2 d) - int p;
            (n0, d0) = scale2 (e0 + int p) (n, d);
            e = max qmin (if d0 \<le> n0 then e0 + 1 else e0);
            (n1, d1) = scale2 e (n, d);
            bits = nat (e - qmin) * 2 ^ (p - 1) + div_even n1 d1;
            inf = (2 ^ w - 1) * 2 ^ (p - 1)
        in min bits inf)"

abbreviation dbl_round_bits :: "nat \<Rightarrow> nat \<Rightarrow> nat" where
  "dbl_round_bits \<equiv> ieee_round 53 (- 1074) 11"

abbreviation flt_round_bits :: "nat \<Rightarrow> nat \<Rightarrow> nat" where
  "flt_round_bits \<equiv> ieee_round 24 (- 149) 8"

section \<open>Fields\<close>

definition dbl_neg :: "ARMFloat \<Rightarrow> bool" where
  "dbl_neg f = bit f 63"

definition dbl_exp :: "ARMFloat \<Rightarrow> nat" where
  "dbl_exp f = unat (drop_bit 52 f) mod 2048"

definition dbl_frac :: "ARMFloat \<Rightarrow> nat" where
  "dbl_frac f = unat f mod 2 ^ 52"

definition dbl_pack :: "bool \<Rightarrow> nat \<Rightarrow> ARMFloat" where
  "dbl_pack s m = of_nat ((if s then 2 ^ 63 else 0) + m)"

definition dbl_inf :: "bool \<Rightarrow> ARMFloat" where
  "dbl_inf s = dbl_pack s (2047 * 2 ^ 52)"

definition dbl_nan :: ARMFloat where
  "dbl_nan = dbl_pack False (2047 * 2 ^ 52 + 2 ^ 51)"

definition dbl_is_nan :: "ARMFloat \<Rightarrow> bool" where
  "dbl_is_nan f \<longleftrightarrow> dbl_exp f = 2047 \<and> dbl_frac f \<noteq> 0"

definition dbl_is_inf :: "ARMFloat \<Rightarrow> bool" where
  "dbl_is_inf f \<longleftrightarrow> dbl_exp f = 2047 \<and> dbl_frac f = 0"

definition dbl_is_zero :: "ARMFloat \<Rightarrow> bool" where
  "dbl_is_zero f \<longleftrightarrow> dbl_exp f = 0 \<and> dbl_frac f = 0"

text \<open>A finite number is \<open>dbl_mant f * 2 ^ dbl_qexp f\<close>, with the sign of \<open>dbl_neg\<close>.\<close>

definition dbl_mant :: "ARMFloat \<Rightarrow> nat" where
  "dbl_mant f = (if dbl_exp f = 0 then dbl_frac f else dbl_frac f + 2 ^ 52)"

definition dbl_qexp :: "ARMFloat \<Rightarrow> int" where
  "dbl_qexp f = (if dbl_exp f = 0 then - 1074 else int (dbl_exp f) - 1075)"

definition dbl_signed_mant :: "ARMFloat \<Rightarrow> int" where
  "dbl_signed_mant f = (if dbl_neg f then - int (dbl_mant f) else int (dbl_mant f))"

text \<open>Round the value \<open>m * 2 ^ e\<close>; \<open>z\<close> is the sign of a zero result.\<close>

definition dbl_of_scaled :: "bool \<Rightarrow> int \<Rightarrow> int \<Rightarrow> ARMFloat" where
  "dbl_of_scaled z m e =
     (if m = 0 then dbl_pack z 0
      else let (n, d) = scale2 (- e) (nat \<bar>m\<bar>, 1) in dbl_pack (m < 0) (dbl_round_bits n d))"

section \<open>Arithmetic\<close>

definition dbl_of_int :: "int \<Rightarrow> ARMFloat" where
  "dbl_of_int i = dbl_of_scaled False i 0"

definition dbl_minus :: "ARMFloat \<Rightarrow> ARMFloat" where
  "dbl_minus f = f XOR push_bit 63 1"

definition dbl_add :: "ARMFloat \<Rightarrow> ARMFloat \<Rightarrow> ARMFloat" where
  "dbl_add a b =
     (if dbl_is_nan a \<or> dbl_is_nan b then dbl_nan
      else if dbl_is_inf a then
        (if dbl_is_inf b \<and> dbl_neg a \<noteq> dbl_neg b then dbl_nan else a)
      else if dbl_is_inf b then b
      else
        let e = min (dbl_qexp a) (dbl_qexp b)
        in dbl_of_scaled (dbl_neg a \<and> dbl_neg b)
             (dbl_signed_mant a * 2 ^ nat (dbl_qexp a - e) + dbl_signed_mant b * 2 ^ nat (dbl_qexp b - e)) e)"

definition dbl_sub :: "ARMFloat \<Rightarrow> ARMFloat \<Rightarrow> ARMFloat" where
  "dbl_sub a b = dbl_add a (if dbl_is_nan b then b else dbl_minus b)"

definition dbl_mul :: "ARMFloat \<Rightarrow> ARMFloat \<Rightarrow> ARMFloat" where
  "dbl_mul a b =
     (let s = (dbl_neg a \<noteq> dbl_neg b)
      in if dbl_is_nan a \<or> dbl_is_nan b then dbl_nan
         else if dbl_is_inf a \<or> dbl_is_inf b then
           (if dbl_is_zero a \<or> dbl_is_zero b then dbl_nan else dbl_inf s)
         else dbl_of_scaled s (dbl_signed_mant a * dbl_signed_mant b) (dbl_qexp a + dbl_qexp b))"

definition dbl_div :: "ARMFloat \<Rightarrow> ARMFloat \<Rightarrow> ARMFloat" where
  "dbl_div a b =
     (let s = (dbl_neg a \<noteq> dbl_neg b)
      in if dbl_is_nan a \<or> dbl_is_nan b then dbl_nan
         else if dbl_is_inf a then (if dbl_is_inf b then dbl_nan else dbl_inf s)
         else if dbl_is_inf b then dbl_pack s 0
         else if dbl_is_zero b then (if dbl_is_zero a then dbl_nan else dbl_inf s)
         else
           let (n, d) = scale2 (dbl_qexp b - dbl_qexp a) (dbl_mant a, dbl_mant b)
           in dbl_pack s (dbl_round_bits n d))"

section \<open>Comparison\<close>

text \<open>
  The sign of \<open>a - b\<close> for two operands that are not NaN.  Ordered by magnitude bits, which
  also places the infinities; the two zeros have magnitude 0.
\<close>

definition dbl_key :: "ARMFloat \<Rightarrow> int" where
  "dbl_key f = (let m = int (unat f mod 2 ^ 63) in if dbl_neg f then - m else m)"

definition dbl_less :: "ARMFloat \<Rightarrow> ARMFloat \<Rightarrow> bool" where
  "dbl_less a b \<longleftrightarrow> \<not> dbl_is_nan a \<and> \<not> dbl_is_nan b \<and> dbl_key a < dbl_key b"

definition dbl_le :: "ARMFloat \<Rightarrow> ARMFloat \<Rightarrow> bool" where
  "dbl_le a b \<longleftrightarrow> \<not> dbl_is_nan a \<and> \<not> dbl_is_nan b \<and> dbl_key a \<le> dbl_key b"

definition dbl_eq :: "ARMFloat \<Rightarrow> ARMFloat \<Rightarrow> bool" where
  "dbl_eq a b \<longleftrightarrow> \<not> dbl_is_nan a \<and> \<not> dbl_is_nan b \<and> dbl_key a = dbl_key b"

section \<open>Conversion to single precision and to decimal\<close>

text \<open>The bit pattern of \<^verbatim>\<open>(float)f\<close>; a NaN keeps its sign and top fraction bits, quietened.\<close>

definition flt_of_dbl :: "ARMFloat \<Rightarrow> u32" where
  "flt_of_dbl f =
     of_nat ((if dbl_neg f then 2 ^ 31 else 0) +
       (if dbl_is_nan f then 255 * 2 ^ 23 + (dbl_frac f div 2 ^ 29) mod 2 ^ 22 + 2 ^ 22
        else if dbl_is_inf f then 255 * 2 ^ 23
        else let (n, d) = scale2 (- dbl_qexp f) (dbl_mant f, 1) in flt_round_bits n d))"

fun dec_digits :: "nat \<Rightarrow> string" where
  "dec_digits n =
     (if n < 10 then [char_of (48 + n)] else dec_digits (n div 10) @ [char_of (48 + n mod 10)])"

declare dec_digits.simps [simp del]

definition pad_left :: "nat \<Rightarrow> char \<Rightarrow> string \<Rightarrow> string" where
  "pad_left k c xs = replicate (k - length xs) c @ xs"

text \<open>\<^verbatim>\<open>printf\<close>'s conversion \<^verbatim>\<open>%f\<close>: six decimals of the exact value, ties to even.\<close>

definition dbl_printf_f :: "ARMFloat \<Rightarrow> string" where
  "dbl_printf_f f =
     (if dbl_neg f then ''-'' else []) @
     (if dbl_is_nan f then ''nan''
      else if dbl_is_inf f then ''inf''
      else
        let (n, d) = scale2 (- dbl_qexp f) (dbl_mant f, 1);
            m = div_even (n * 10 ^ 6) d
        in dec_digits (m div 10 ^ 6) @ ''.'' @ pad_left 6 CHR ''0'' (dec_digits (m mod 10 ^ 6)))"

end
