(* ===== verification/Asm_State.thy ===== *)
theory Asm_State
  imports ARM_Float
begin

text \<open>
  The data the parts of the assembler share: values and expression code (\<^verbatim>\<open>value.h\<close>,
  \<^verbatim>\<open>code.h\<close>, \<^verbatim>\<open>lex.h\<close>), symbols (\<^verbatim>\<open>symbol.h\<close>), areas with their IT and
  relocation state (\<^verbatim>\<open>area.h\<close>, \<^verbatim>\<open>it.h\<close>, \<^verbatim>\<open>reloc.h\<close>), the file-scope
  variables of the translation units as one record, and the error reporting of \<^verbatim>\<open>error.c\<close>.

  A \<^verbatim>\<open>Symbol *\<close> is an address (\<open>symref\<close>) into the store \<open>syms\<close>.  An \<^verbatim>\<open>Area\<close> is
  reached through its symbol only, so it is stored in it; \<open>None\<close> is the NULL pointer.  File names
  and line numbers that only decorate messages, and the ownership flags that only steer
  \<^verbatim>\<open>free()\<close>, are left out.
\<close>

section \<open>Operators, values and code\<close>

datatype Phase_e = eStartUp | ePassOne | ePassTwo | eOutput | eCleanUp

datatype Operator_e =
    eOp_FLoad | eOp_FExec | eOp_FSize | eOp_FAttr
  | eOp_LNot | eOp_Not | eOp_Neg | eOp_Pos
  | eOp_Base | eOp_Index | eOp_Len | eOp_Str | eOp_Chr
  | eOp_Size
  | eOp_LowerCase | eOp_UpperCase | eOp_RevCC
  | eOp_CCEnc | eOp_RConst
  | eOp_Mul | eOp_Div | eOp_Mod
  | eOp_Left | eOp_Right | eOp_Concat
  | eOp_ASR | eOp_SHR | eOp_SHL | eOp_ROR | eOp_ROL
  | eOp_Add | eOp_Sub | eOp_And | eOp_Or | eOp_XOr
  | eOp_LE | eOp_GE | eOp_LT | eOp_GT | eOp_EQ | eOp_NE
  | eOp_LAnd | eOp_LOr | eOp_LEOr

text \<open>\<^verbatim>\<open>Lex_IsUnop\<close> compares with the last unary enumerator; the unary ones come first.\<close>

definition Lex_IsUnop :: "Operator_e \<Rightarrow> bool" where
  "Lex_IsUnop op \<longleftrightarrow>
     op \<in> {eOp_FLoad, eOp_FExec, eOp_FSize, eOp_FAttr, eOp_LNot, eOp_Not, eOp_Neg, eOp_Pos,
           eOp_Base, eOp_Index, eOp_Len, eOp_Str, eOp_Chr, eOp_Size, eOp_LowerCase, eOp_UpperCase,
           eOp_RevCC, eOp_CCEnc, eOp_RConst}"

datatype IntType_e =
    eIntType_PureInt | eIntType_CPURList | eIntType_CPU | eIntType_FPU | eIntType_NeonQuadReg
  | eIntType_NeonOrVFPDoubleReg | eIntType_VFPSingleReg | eIntType_CoProReg | eIntType_CoProNum

type_synonym symref = nat

datatype Value =
    ValueIllegal
  | ValueInt u32 IntType_e
  | ValueInt64 u64
  | ValueFloat ARMFloat
  | ValueString string
  | ValueBool bool
  | ValueCode "Code list"
  | ValueAddr u32 u32 \<comment> \<open>register and offset\<close>
  | ValueSymbol u32 symref u32 \<comment> \<open>factor, symbol and offset\<close>
and Code =
    CodeOperator Operator_e
  | CodeValue Value

text \<open>The bits of \<^verbatim>\<open>ValueTag\<close>, used in the masks of acceptable results.\<close>

definition "tInt = (1 :: u32)"
definition "tInt64 = (2 :: u32)"
definition "tFloat = (4 :: u32)"
definition "tString = (8 :: u32)"
definition "tBool = (16 :: u32)"
definition "tCode = (32 :: u32)"
definition "tAddr = (64 :: u32)"
definition "tSymbol = (128 :: u32)"
definition "tAll = (255 :: u32)"

lemmas tag_defs [asm_defs] =
  tInt_def tInt64_def tFloat_def tString_def tBool_def tCode_def tAddr_def tSymbol_def tAll_def

fun Tag :: "Value \<Rightarrow> u32" where
  "Tag ValueIllegal = 0"
| "Tag (ValueInt _ _) = tInt"
| "Tag (ValueInt64 _) = tInt64"
| "Tag (ValueFloat _) = tFloat"
| "Tag (ValueString _) = tString"
| "Tag (ValueBool _) = tBool"
| "Tag (ValueCode _) = tCode"
| "Tag (ValueAddr _ _) = tAddr"
| "Tag (ValueSymbol _ _ _) = tSymbol"

section \<open>Areas and symbols\<close>

definition "AREA_ALIGN_MASK = (0x000000FF :: u32)"
definition "AREA_ABS = (0x00000100 :: u32)"
definition "AREA_CODE = (0x00000200 :: u32)"
definition "AREA_COMMONDEF = (0x00000400 :: u32)"
definition "AREA_COMMONREF = (0x00000800 :: u32)"
definition "AREA_UDATA = (0x00001000 :: u32)"
definition "AREA_READONLY = (0x00002000 :: u32)"
definition "AREA_PIC = (0x00004000 :: u32)"
definition "AREA_DEBUG = (0x00008000 :: u32)"
definition "AREA_32BITAPCS = (0x00010000 :: u32)"
definition "AREA_REENTRANT = (0x00020000 :: u32)"
definition "AREA_EXTFPSET = (0x00040000 :: u32)"
definition "AREA_NOSWSTACKCHECK = (0x00080000 :: u32)"
definition "AREA_HALFWORD = (0x00200000 :: u32)"
definition "AREA_INTERWORK = (0x00400000 :: u32)"
definition "AREA_BASED = (0x00100000 :: u32)"
definition "AREA_MASKBASEREG = (0x0F000000 :: u32)"
definition "AREA_VFP = (0x80000000 :: u32)"
definition "AREA_INT_DWARF = (0x20000000 :: u32)"
definition "AREA_INT_CODEALIGN = (0x40000000 :: u32)"
definition "AREA_INT_DATAMASK = (0x8F30FFFF :: u32)"
definition "AREA_INT_CODEMASK = (0xC7FFFFFF :: u32)"
definition "AREA_DEFAULT_ALIGNMENT = (2 :: u32)"

lemmas area_flag_defs [asm_defs] =
  AREA_ALIGN_MASK_def AREA_ABS_def AREA_CODE_def AREA_UDATA_def AREA_READONLY_def AREA_BASED_def
  AREA_MASKBASEREG_def AREA_VFP_def AREA_COMMONDEF_def AREA_COMMONREF_def AREA_PIC_def AREA_DEBUG_def
  AREA_32BITAPCS_def AREA_REENTRANT_def AREA_EXTFPSET_def AREA_NOSWSTACKCHECK_def AREA_HALFWORD_def
  AREA_INTERWORK_def AREA_INT_DWARF_def AREA_INT_CODEALIGN_def AREA_INT_DATAMASK_def
  AREA_INT_CODEMASK_def AREA_DEFAULT_ALIGNMENT_def

datatype Area_eEntryType = eInvalid | eARM | eData | eThumb | eThumbEE

record IT_State_t =
  it_isThen :: "bool list"
  it_maxIdx :: nat
  it_curIdx :: nat
  it_implicitIT :: bool
  it_cc :: u32
  it_areaCurIdx :: u32

record RelocInt =
  rel_how :: u32
  rel_offset :: u32
  rel_symP :: "symref option"

text \<open>
  The literals of \<^verbatim>\<open>lit.h\<close> and \<^verbatim>\<open>lit.c\<close> that wait in the pool of an area.  \<open>lit_addr\<close> is the address of the
  block, which is part of the name of the literal's symbol.
\<close>

datatype Lit_eSize =
    eLitIntUByte | eLitIntSByte | eLitIntUHalfWord | eLitIntSHalfWord | eLitIntWord | eLitFloat | eLitDouble

datatype Status_e = eNotYetAssembled | eNoNeedToAssemble | eAssembledPassOne | eAssembledPassTwo

record LitPool =
  lit_addr :: nat
  lit_offset :: u32
  lit_value :: Value
  lit_size :: Lit_eSize
  lit_status :: Status_e

text \<open>
  The image is the malloced block of an area; a byte that \<^verbatim>\<open>realloc()\<close> added and nobody has
  written is \<open>None\<close>.  \<^verbatim>\<open>imagesize\<close> is its length.
\<close>

record Area =
  area_next :: "symref option"
  area_type :: u32
  image :: "u8 option list"
  curIdx :: u32
  maxIdx :: u32
  entryType :: Area_eEntryType
  relocIntP :: "RelocInt list"
  offsetForExplicitReloc :: u32
  litPool :: "LitPool list"
  area_it :: IT_State_t
  area_number :: u32

abbreviation imagesize :: "Area \<Rightarrow> nat" where
  "imagesize a \<equiv> length (image a)"

definition "SYMBOL_LOCAL = (0x0001 :: u32)"
definition "SYMBOL_REFERENCE = (0x0002 :: u32)"
definition "SYMBOL_GLOBAL = (0x0003 :: u32)"
definition "SYMBOL_DEFINED = (0x0001 :: u32)"
definition "SYMBOL_EXPORT = (0x0002 :: u32)"
definition "SYMBOL_ABSOLUTE = (0x0004 :: u32)"
definition "SYMBOL_COMMON = (0x0040 :: u32)"
definition "SYMBOL_MACRO_LOCAL = (0x04000000 :: u32)"
definition "SYMBOL_NO_EXPORT = (0x08000000 :: u32)"
definition "SYMBOL_CONSTANT = (0x10000000 :: u32)"
definition "SYMBOL_RW = (0x20000000 :: u32)"
definition "SYMBOL_KEEP = (0x40000000 :: u32)"
definition "SYMBOL_AREA = (0x80000000 :: u32)"

lemmas symbol_flag_defs [asm_defs] =
  SYMBOL_LOCAL_def SYMBOL_REFERENCE_def SYMBOL_GLOBAL_def SYMBOL_DEFINED_def SYMBOL_EXPORT_def
  SYMBOL_ABSOLUTE_def SYMBOL_COMMON_def SYMBOL_KEEP_def SYMBOL_AREA_def SYMBOL_MACRO_LOCAL_def
  SYMBOL_NO_EXPORT_def SYMBOL_CONSTANT_def SYMBOL_RW_def

definition SYMBOL_KIND :: "u32 \<Rightarrow> u32" where
  "SYMBOL_KIND x = x AND 3"

record Symbol =
  sym_str :: string
  attr_type :: u32
  attr_value :: Value
  attr_codeSize :: u32
  attr_area :: "Area option"
  attr_used :: int
  attr_fileName :: string
  attr_lineNumber :: u32

section \<open>The state of the assembler\<close>

datatype ErrorTag = ErrorInfo | ErrorWarning | ErrorError | ErrorAbort

datatype Syntax_e = eSyntax_PreUALOnly | eSyntax_UALOnly | eSyntax_Both

datatype InstrType_e = eInstrType_ARM | eInstrType_Thumb | eInstrType_ThumbEE

datatype SyntaxInstrState_e = eState_Code32 | eState_Code16 | eState_Thumb | eState_ThumbEE

text \<open>What \<^verbatim>\<open>Include_Find\<close> learns about a file (\<^verbatim>\<open>ASFile\<close> of \<^verbatim>\<open>os.h\<close>).\<close>

record ASFile =
  canonName :: string
  asf_size :: nat
  loadAddress :: u32
  execAddress :: u32
  attribs :: u8

datatype Preserve8_eValue = ePreserve8_Guess | ePreserve8_Yes | ePreserve8_No

text \<open>\<^verbatim>\<open>oPendingORG\<close> and the other file-scope variables of \<^verbatim>\<open>area.c\<close> and \<^verbatim>\<open>targetcpu.c\<close>.\<close>

record PendingORG =
  org_isValid :: bool
  org_value :: u32

record Area_Vars =
  areaEntrySymbol :: "symref option"
  areaEntryOffset :: u32
  gArea_Require8 :: bool
  gArea_Preserve8 :: Preserve8_eValue
  gArea_Preserve8Guessed :: bool
  oPendingORG :: PendingORG

record Target_Vars =
  oTarget_CPUFeatures :: u64
  oTarget_FPUFeatures :: u32
  oTarget_Device :: bool \<comment> \<open>a device was selected\<close>
  oTarget_isArch :: bool \<comment> \<open>an architecture rather than a core was selected\<close>
  oTarget_cpu_arch :: string \<comment> \<open>\<^verbatim>\<open>oTarget_CPU->cpu_arch\<close>\<close>
  oTarget_arch :: string \<comment> \<open>\<^verbatim>\<open>cpu_arch\<close> of the architecture of a core\<close>
  oTarget_fpu :: string

text \<open>
  Macros (\<^verbatim>\<open>macros.h\<close>).  \<open>mac_args\<close> are the names of the label argument, the suffix and the parameters, as far as
  the macro has them; \<^verbatim>\<open>numArgs\<close> is its length.  In \<open>mac_buf\<close> the character \<^verbatim>\<open>MACRO_ARG0 + i\<close> stands for the
  argument \<open>i\<close>.  A \<open>VarPos\<close> says how a variable that was made local is restored.
\<close>

record Macro =
  mac_name :: string
  mac_fileName :: string
  mac_buf :: string
  labelArg :: bool
  suffixArg :: bool
  mac_args :: "string list"
  defArgs :: "string option list"
  startLineNum :: u32

record VarPos =
  vp_symbolP :: "symref option"
  vp_symbolAttr :: Symbol
  vp_name :: string

text \<open>
  The parsable objects of \<^verbatim>\<open>filestack.h\<close>: files and macro calls that are being read.  \<open>po_text\<close> is the
  contents of a file, on disk or in the cache, and \<open>po_pos\<close> the file position or \<^verbatim>\<open>curP - startP\<close>; the fields
  from \<open>po_macro\<close> on are those of a macro, with \<open>po_curPtr\<close> for \<^verbatim>\<open>curPtr - macro->buf\<close>.  Which of them the union
  holds is said by \<open>po_type\<close>, which also selects \<^verbatim>\<open>GetLine\<close>.
\<close>

datatype POType_e = POType_eFile | POType_eCachedFile | POType_eMacro

record PObject =
  po_type :: POType_e
  po_text :: string
  po_pos :: nat
  po_macro :: Macro
  po_curPtr :: nat
  po_args :: "string option list"
  varListP :: "VarPos list"
  optDirective :: u32
  po_fileName :: string
  po_lineNum :: u32
  whileIfCurDepth :: nat
  whileIfStartDepth :: nat
  lastLineSize :: nat

text \<open>
  The blocks of \<^verbatim>\<open>whileif.c\<close>, with the line they start at; a loop also with the position of its first line in
  the parsable object.
\<close>

datatype WhileIf_t = WhileIf_eIsIf u32 | WhileIf_eIsWhile u32 nat

text \<open>
  The file-scope variables of \<^verbatim>\<open>input.c\<close>, \<^verbatim>\<open>whileif.c\<close>, \<^verbatim>\<open>macros.c\<close> and \<^verbatim>\<open>filestack.c\<close>; \<open>preDef_toggle\<close> is
  the static variable of \<^verbatim>\<open>Input_NextLineCore\<close>.  A cached file is its name and its bytes.
\<close>

record Reader_Vars =
  oPreDefines :: "string list"
  oPreDefIdx :: nat
  preDef_toggle :: bool
  oWhileIfs :: "nat \<Rightarrow> WhileIf_t"
  oMacroListP :: "Macro list"
  oFileCacheSize :: nat
  oCachedFileListP :: "(string \<times> string) list"

text \<open>
  The variables of \<^verbatim>\<open>local.c\<close>: the current routine, the local labels by macro depth and number, and the
  references forward that wait for their label.
\<close>

datatype LocalLabel_eDir = eBackward | eForward | eBackwardThenForward

datatype LocalLabel_eLevel = eThisLevelOnly | eAllLevels | eThisLevelAndHigher

record ROUT_t =
  rout_id :: "string option"
  rout_counter :: u32
  rout_known :: bool \<comment> \<open>\<^verbatim>\<open>fileName\<close> is not NULL\<close>

record Local_Label_t =
  lbl_num :: u32
  lbl_instance :: u32

record Local_OutstandingForward =
  fwd_counter :: u32
  fwd_level :: LocalLabel_eLevel
  fwd_dir :: LocalLabel_eDir
  fwd_label :: u32
  fwd_macroDepth :: nat

record Local_Vars =
  oLocal_CurROUT :: ROUT_t
  oLocal_LabelNumP :: "nat \<Rightarrow> nat \<Rightarrow> Local_Label_t list"
  oLocal_OutstandingForwardP :: "Local_OutstandingForward list"
  oLocal_OutstandingForwardCounter :: u32

text \<open>
  What the compiled program does where the C standard leaves a shift undefined and the program does not avoid it:
  \<open>full_shr x\<close> is the value of \<^verbatim>\<open>x >> 32\<close> for an unsigned \<^verbatim>\<open>x\<close>, \<open>top_pair\<close> that of \<^verbatim>\<open>0x3 << 30\<close>, which overflows an
  \<^verbatim>\<open>int\<close>.  The processors the program runs on shift out all bits (Arm) or take the count modulo 32 (x86), and
  gcc documents that it shifts into the sign bit: \<open>host_ok\<close> says that it is so.
\<close>

record Host_Ops =
  full_shr :: "u32 \<Rightarrow> u32"
  top_pair :: u32

definition host_ok :: "Host_Ops \<Rightarrow> bool" where
  "host_ok h \<longleftrightarrow> (\<forall>x. full_shr h x = 0 \<or> full_shr h x = x) \<and> top_pair h = 0xC0000000"

definition arm_host :: Host_Ops where
  "arm_host = \<lparr>full_shr = (\<lambda>_. 0), top_pair = 0xC0000000\<rparr>"

definition x86_host :: Host_Ops where
  "x86_host = \<lparr>full_shr = (\<lambda>x. x), top_pair = 0xC0000000\<rparr>"

text \<open>
  The file-scope variables.  \<open>Include_Find\<close> stands for the search of the host's file system along
  the include path, \<open>host_realloc\<close> for the block sizes \<^verbatim>\<open>realloc()\<close> grants and \<open>host_ptr\<close> for the text
  \<^verbatim>\<open>%p\<close> prints for a symbol, which only the host can answer; \<open>host_file\<close> gives the contents of the files that can be opened, by their canonical name, and \<open>host_lit\<close> the
  text \<^verbatim>\<open>%p\<close> prints for a literal.  \<open>asasm_version\<close> is set by the build.  \<open>Program\<close> and \<open>Stack\<close> are the
  static arrays of \<^verbatim>\<open>code.c\<close>.  \<open>input_buff\<close> is the current line up to its NUL and \<open>input_pos\<close> its
  unread rest.  \<open>gPOStack\<close> lists the parsable objects, the current one first.
  \<open>symbolTable\<close> gives the chain of each hash value; addresses from \<open>symNext\<close> on, and from \<open>litNext\<close> on for literals, are not allocated yet.
  \<open>oMessages\<close> records the diagnostics (format strings) in reverse order.
\<close>

record asm =
  gPhase :: Phase_e
  option_fussy :: bool
  option_nowarn :: bool
  option_pedantic :: bool
  option_uppercase :: bool
  option_aof :: bool
  option_abs :: bool
  oNumErrors :: nat
  oNumWarnings :: nat
  oMessages :: "(ErrorTag \<times> string) list"
  input_buff :: string
  input_pos :: string
  syms :: "symref \<Rightarrow> Symbol"
  symbolTable :: "nat \<Rightarrow> symref list"
  symNext :: symref
  areaVars :: Area_Vars
  targetVars :: Target_Vars
  gOptionAPCS :: u32
  areaCurrentSymbol :: "symref option"
  areaHeadSymbol :: "symref option"
  oDefaultSyntaxInstrType :: SyntaxInstrState_e
  oCurrentSyntax :: Syntax_e
  oCurrentInstrType :: InstrType_e
  Include_Find :: "string \<Rightarrow> ASFile option"
  host_realloc :: "nat \<Rightarrow> bool"
  gFileNameListP :: "string list"
  Program :: "nat \<Rightarrow> Code"
  FirstFreeIns :: nat
  Stack :: "nat \<Rightarrow> Value"
  host_ptr :: "symref \<Rightarrow> string"
  asasm_version :: u32
  gSourceFileName_Canon :: string
  oStorageMapValue :: Value
  gOpt_DirectiveValue :: u32
  gPOStack :: "PObject list"
  localVars :: Local_Vars
  readVars :: Reader_Vars
  host_file :: "string \<Rightarrow> string option"
  host_lit :: "nat \<Rightarrow> string"
  litNext :: nat
  host_ops :: Host_Ops

type_synonym 'a outcome = "(asm, 'a) res"

text \<open>
  A state to run examples from: pass two, no diagnostics so far, no files, an empty symbol table and
  zero-initialised arrays.
\<close>

definition sym0 :: Symbol where
  "sym0 = \<lparr>sym_str = [], attr_type = 0, attr_value = ValueIllegal, attr_codeSize = 0,
           attr_area = None, attr_used = - 1, attr_fileName = [], attr_lineNumber = 0\<rparr>"

definition asm0 :: asm where
  "asm0 = \<lparr>gPhase = ePassTwo, option_fussy = False, option_nowarn = False, option_pedantic = False,
           option_uppercase = False, option_aof = False,
           option_abs = False, oNumErrors = 0, oNumWarnings = 0, oMessages = [], input_buff = [], input_pos = [],
           syms = (\<lambda>_. sym0), symbolTable = (\<lambda>_. []), symNext = 0,
           areaVars = \<lparr>areaEntrySymbol = None, areaEntryOffset = 0, gArea_Require8 = False,
             gArea_Preserve8 = ePreserve8_Guess, gArea_Preserve8Guessed = True,
             oPendingORG = \<lparr>org_isValid = False, org_value = 0\<rparr>\<rparr>,
           targetVars = \<lparr>oTarget_CPUFeatures = - 1, oTarget_FPUFeatures = - 1, oTarget_Device = False,
             oTarget_isArch = True, oTarget_cpu_arch = [], oTarget_arch = [], oTarget_fpu = []\<rparr>,
           gOptionAPCS = 0, areaCurrentSymbol = None, areaHeadSymbol = None,
           oDefaultSyntaxInstrType = eState_Code32, oCurrentSyntax = eSyntax_Both,
           oCurrentInstrType = eInstrType_ARM, Include_Find = (\<lambda>_. None),
           host_realloc = (\<lambda>_. True), gFileNameListP = [],
           Program = (\<lambda>_. CodeOperator eOp_FLoad), FirstFreeIns = 0, Stack = (\<lambda>_. ValueIllegal),
           host_ptr = (\<lambda>_. []), asasm_version = 0, gSourceFileName_Canon = [],
           oStorageMapValue = ValueInt 0 eIntType_PureInt, gOpt_DirectiveValue = 0, gPOStack = [],
           localVars = \<lparr>oLocal_CurROUT = \<lparr>rout_id = None, rout_counter = 0, rout_known = False\<rparr>,
             oLocal_LabelNumP = (\<lambda>_ _. []), oLocal_OutstandingForwardP = [],
             oLocal_OutstandingForwardCounter = 0\<rparr>,
           readVars = \<lparr>oPreDefines = [], oPreDefIdx = 0, preDef_toggle = False,
             oWhileIfs = (\<lambda>_. WhileIf_eIsIf 0), oMacroListP = [], oFileCacheSize = 0, oCachedFileListP = []\<rparr>,
           host_file = (\<lambda>_. None), host_lit = (\<lambda>_. []), litNext = 0, host_ops = x86_host\<rparr>"

lemma host_ok_hosts [simp]: "host_ok arm_host" "host_ok x86_host" "host_ops asm0 = x86_host"
  by (simp_all add: host_ok_def arm_host_def x86_host_def asm0_def)

text \<open>Where the assembler is reading.\<close>

definition FS_GetCurFileName :: "asm \<Rightarrow> string" where
  "FS_GetCurFileName s = (case gPOStack s of [] \<Rightarrow> gSourceFileName_Canon s | po # _ \<Rightarrow> po_fileName po)"

definition FS_GetCurLineNumber :: "asm \<Rightarrow> u32" where
  "FS_GetCurLineNumber s = (case gPOStack s of [] \<Rightarrow> 0 | po # _ \<Rightarrow> po_lineNum po)"

section \<open>Error reporting\<close>

definition MAXERR :: nat where
  "MAXERR = 30"

definition Error_SuppressMsg :: "asm \<Rightarrow> ErrorTag \<Rightarrow> bool" where
  "Error_SuppressMsg s e \<longleftrightarrow>
     (gPhase s = ePassOne \<or> option_nowarn s) \<and> (e = ErrorInfo \<or> e = ErrorWarning)"

definition errorCore :: "ErrorTag \<Rightarrow> string \<Rightarrow> asm \<Rightarrow> asm" where
  "errorCore e msg s =
     (let s1 = s\<lparr>oMessages := (e, msg) # oMessages s\<rparr>
      in case e of
           ErrorInfo \<Rightarrow> s1
         | ErrorWarning \<Rightarrow> s1\<lparr>oNumWarnings := oNumWarnings s1 + 1\<rparr>
         | ErrorError \<Rightarrow> s1\<lparr>oNumErrors := oNumErrors s1 + 1\<rparr>
         | ErrorAbort \<Rightarrow> s1\<lparr>oNumErrors := oNumErrors s1 + 1\<rparr>)"

definition Input_Rest :: "asm \<Rightarrow> asm" where
  "Input_Rest s = s\<lparr>input_pos := []\<rparr>"

definition Error :: "ErrorTag \<Rightarrow> string \<Rightarrow> asm \<Rightarrow> asm outcome" where
  "Error e msg s =
     (if Error_SuppressMsg s e then Inr s
      else
        let s1 = errorCore e msg s
        in if e = ErrorAbort \<or> oNumErrors s1 > MAXERR then Inl (Fixup s1)
           else if e = ErrorError then Inr (Input_Rest s1)
           else Inr s1)"

definition Error_Abort :: "string \<Rightarrow> asm \<Rightarrow> 'a outcome" where
  "Error_Abort msg s = Inl (Fixup (errorCore ErrorAbort msg s))"

definition Error_OutOfMem :: "asm \<Rightarrow> 'a outcome" where
  "Error_OutOfMem s = Error_Abort ''Out of memory'' s"

definition errorCoreLine :: "ErrorTag \<Rightarrow> string \<Rightarrow> asm \<Rightarrow> asm" where
  "errorCoreLine e msg s =
     (let s1 = s\<lparr>oMessages := (e, msg) # oMessages s\<rparr>
      in case e of
           ErrorInfo \<Rightarrow> s1
         | ErrorWarning \<Rightarrow> s1\<lparr>oNumWarnings := oNumWarnings s1 + 1\<rparr>
         | ErrorError \<Rightarrow> s1\<lparr>oNumErrors := oNumErrors s1 + 1\<rparr>
         | ErrorAbort \<Rightarrow> s1\<lparr>oNumErrors := oNumErrors s1 + 1\<rparr>)"

definition Error_Line :: "ErrorTag \<Rightarrow> string \<Rightarrow> asm \<Rightarrow> asm outcome" where
  "Error_Line e msg s =
     (if Error_SuppressMsg s e then Inr s
      else
        let s1 = errorCoreLine e msg s
        in if e = ErrorAbort \<or> oNumErrors s1 > MAXERR then Inl (Fixup s1)
           else if e = ErrorError then Inr (Input_Rest s1)
           else Inr s1)"

definition Error_GetExitStatus :: "asm \<Rightarrow> nat" where
  "Error_GetExitStatus s = (if oNumErrors s \<noteq> 0 then 1 else 0)"

text \<open>Two states that differ at most in what error reporting writes.\<close>

definition same_but_errors :: "asm \<Rightarrow> asm \<Rightarrow> bool" where
  "same_but_errors s t \<longleftrightarrow>
     t = s\<lparr>oNumErrors := oNumErrors t, oNumWarnings := oNumWarnings t,
           oMessages := oMessages t, input_pos := input_pos t\<rparr>"

lemma same_but_errors_refl [simp]: "same_but_errors s s"
  by (simp add: same_but_errors_def)

lemma same_but_errors_trans [trans]:
  "same_but_errors s t \<Longrightarrow> same_but_errors t u \<Longrightarrow> same_but_errors s u"
  by (cases s; cases t; cases u) (simp add: same_but_errors_def)

lemma same_but_errorsD:
  assumes "same_but_errors s t"
  shows "gPhase t = gPhase s" and "syms t = syms s" and "Program t = Program s"
    and "FirstFreeIns t = FirstFreeIns s" and "Stack t = Stack s"
    and "areaCurrentSymbol t = areaCurrentSymbol s" and "option_aof t = option_aof s"
    and "option_fussy t = option_fussy s" and "option_nowarn t = option_nowarn s"
    and "oCurrentInstrType t = oCurrentInstrType s" and "Include_Find t = Include_Find s"
    and "gFileNameListP t = gFileNameListP s" and "areaHeadSymbol t = areaHeadSymbol s"
    and "symbolTable t = symbolTable s" and "symNext t = symNext s" and "areaVars t = areaVars s"
    and "targetVars t = targetVars s" and "gOptionAPCS t = gOptionAPCS s"
    and "host_realloc t = host_realloc s" and "option_abs t = option_abs s" and "oCurrentSyntax t = oCurrentSyntax s"
    and "oDefaultSyntaxInstrType t = oDefaultSyntaxInstrType s"
    and "host_ptr t = host_ptr s" and "asasm_version t = asasm_version s"
    and "gSourceFileName_Canon t = gSourceFileName_Canon s" and "input_buff t = input_buff s" and "oStorageMapValue t = oStorageMapValue s"
    and "gOpt_DirectiveValue t = gOpt_DirectiveValue s" and "gPOStack t = gPOStack s" and "localVars t = localVars s"
    and "readVars t = readVars s" and "host_file t = host_file s" and "host_lit t = host_lit s"
    and "litNext t = litNext s" and "option_pedantic t = option_pedantic s" and "option_uppercase t = option_uppercase s"
    and "host_ops t = host_ops s"
  using assms by (cases s; cases t; simp add: same_but_errors_def)+

lemma errorCore_same [simp]: "same_but_errors s (errorCore e msg s)"
  by (simp add: same_but_errors_def errorCore_def Let_def split: ErrorTag.split)

lemma Error_same: "Error e msg s = Inr t \<Longrightarrow> same_but_errors s t"
  by (cases s) (auto simp: Error_def Let_def Input_Rest_def errorCore_def same_but_errors_def
      split: if_splits ErrorTag.splits)

text \<open>Up to the position it prints, \<^verbatim>\<open>Error_Line\<close> is \<^verbatim>\<open>Error\<close>.\<close>

lemma Error_Line_eq [simp]: "Error_Line = Error"
  by (auto simp: Error_Line_def Error_def errorCoreLine_def errorCore_def fun_eq_iff)

lemma Error_not_crashes [simp]: "\<not> crashes (Error e msg s)"
  by (simp add: Error_def Let_def)

lemma Error_Fixup_only: "Error e msg s = Inl f \<Longrightarrow> \<exists>t. f = Fixup t"
  by (auto simp: Error_def Let_def split: if_splits)

text \<open>An error always counts: after it returns, the exit status is a failure.\<close>

lemma Error_ErrorError_counts:
  "Error ErrorError msg s = Inr t \<Longrightarrow> oNumErrors t = oNumErrors s + 1 \<and> Error_GetExitStatus t = 1"
  by (auto simp: Error_def Error_SuppressMsg_def errorCore_def Let_def Input_Rest_def
      Error_GetExitStatus_def split: if_splits)

section \<open>Symbols and areas of a state\<close>

definition upd_sym :: "symref \<Rightarrow> (Symbol \<Rightarrow> Symbol) \<Rightarrow> asm \<Rightarrow> asm" where
  "upd_sym r f s = s\<lparr>syms := (syms s)(r := f (syms s r))\<rparr>"

text \<open>The area of a symbol, which the C code reads through a pointer that must not be NULL.\<close>

definition sym_area :: "asm \<Rightarrow> symref \<Rightarrow> Area outcome" where
  "sym_area s r = (case attr_area (syms s r) of None \<Rightarrow> Inl Undefined | Some a \<Rightarrow> Inr a)"

definition set_area :: "symref \<Rightarrow> Area \<Rightarrow> asm \<Rightarrow> asm" where
  "set_area r a s = upd_sym r (\<lambda>sym. sym\<lparr>attr_area := Some a\<rparr>) s"

definition cur_sym :: "asm \<Rightarrow> symref outcome" where
  "cur_sym s = (case areaCurrentSymbol s of None \<Rightarrow> Inl Undefined | Some r \<Rightarrow> Inr r)"

definition Area_IsNoInit :: "Area \<Rightarrow> bool" where
  "Area_IsNoInit a = flag (area_type a) AREA_UDATA"

definition Area_GetBaseReg :: "Area \<Rightarrow> u32 outcome" where
  "Area_GetBaseReg a =
     rbind (rassert (flag (area_type a) AREA_BASED))
       (\<lambda>_. Inr (shr32 (area_type a AND AREA_MASKBASEREG) 24))"

definition Area_GetBaseAddress :: "asm \<Rightarrow> symref \<Rightarrow> u32 outcome" where
  "Area_GetBaseAddress s r =
     rbind (rassert (flag (attr_type (syms s r)) SYMBOL_AREA))
       (\<lambda>_. rbind (sym_area s r)
         (\<lambda>a. rbind (rassert (flag (area_type a) AREA_ABS))
           (\<lambda>_. case attr_value (syms s r) of
                   ValueInt i eIntType_PureInt \<Rightarrow> Inr i
                 | _ \<Rightarrow> Inl AssertFailed)))"

text \<open>
  What the symbol table always satisfies: a symbol marked \<^verbatim>\<open>SYMBOL_AREA\<close> owns an area and has a
  plain integer as value (see the comment on \<^verbatim>\<open>SymbolAttr\<close> and the callers of
  \<^verbatim>\<open>Area_Create\<close>).
\<close>

definition wf_sym :: "Symbol \<Rightarrow> bool" where
  "wf_sym y \<longleftrightarrow>
     (flag (attr_type y) SYMBOL_AREA \<longrightarrow>
        attr_area y \<noteq> None \<and> (\<exists>i. attr_value y = ValueInt i eIntType_PureInt))"

definition wf_syms :: "asm \<Rightarrow> bool" where
  "wf_syms s \<longleftrightarrow> (\<forall>r. wf_sym (syms s r))"

lemma wf_syms_areaE:
  assumes "wf_syms s" and "flag (attr_type (syms s r)) SYMBOL_AREA"
  obtains a i where "attr_area (syms s r) = Some a" and "attr_value (syms s r) = ValueInt i eIntType_PureInt"
  using assms by (auto simp: wf_syms_def wf_sym_def)

lemma wf_syms_same: "same_but_errors s t \<Longrightarrow> wf_syms t = wf_syms s"
  by (simp add: wf_syms_def same_but_errorsD)

end
