(* ===== verification/Symbol_Table.thy ===== *)
theory Symbol_Table
  imports Asm_State
begin

text \<open>
  The hashed symbol table of \<^verbatim>\<open>symbol.c\<close>: \<^verbatim>\<open>Symbol_CalculateHash\<close>, \<^verbatim>\<open>Symbol_New\<close>,
  \<^verbatim>\<open>Symbol_Get\<close>, \<^verbatim>\<open>Symbol_Find\<close>, \<^verbatim>\<open>Symbol_Remove\<close>, \<^verbatim>\<open>Symbol_RemoveVariables\<close>,
  \<^verbatim>\<open>Symbol_MarkToOutput\<close> and \<^verbatim>\<open>Symbol_GetDescription\<close>.  The interface \<open>name_table\<close> says what a
  client may rely on; the table is an instance of it.

  A name is the character sequence \<^verbatim>\<open>symNameP[0 .. symLen-1]\<close>; names are never empty.  The chain of
  a hash value is the list of the symbols linked by \<^verbatim>\<open>Symbol::next\<close>.
\<close>

section \<open>Operations\<close>

definition SYMBOL_TABLESIZE :: nat where
  "SYMBOL_TABLESIZE = 1024"

definition hashtab :: "u8 list" where
  "hashtab =
    [1, 87, 49, 12, 176, 178, 102, 166, 121, 193, 6, 84, 249, 230, 44, 163,
     14, 197, 213, 181, 161, 85, 218, 80, 64, 239, 24, 226, 236, 142, 38, 200,
     110, 177, 104, 103, 141, 253, 255, 50, 77, 101, 81, 18, 45, 96, 31, 222,
     25, 107, 190, 70, 86, 237, 240, 34, 72, 242, 20, 214, 244, 227, 149, 235,
     97, 234, 57, 22, 60, 250, 82, 175, 208, 5, 127, 199, 111, 62, 135, 248,
     174, 169, 211, 58, 66, 154, 106, 195, 245, 171, 17, 187, 182, 179, 0, 243,
     132, 56, 148, 75, 128, 133, 158, 100, 130, 126, 91, 13, 153, 246, 216, 219,
     119, 68, 223, 78, 83, 88, 201, 99, 122, 11, 92, 32, 136, 114, 52, 10,
     138, 30, 48, 183, 156, 35, 61, 26, 143, 74, 251, 94, 129, 162, 63, 152,
     170, 7, 115, 167, 241, 206, 3, 150, 55, 59, 151, 220, 90, 53, 23, 131,
     125, 173, 15, 238, 79, 95, 89, 16, 105, 137, 225, 224, 217, 160, 37, 123,
     118, 73, 2, 157, 46, 116, 9, 145, 134, 228, 207, 212, 202, 215, 69, 229,
     27, 188, 67, 124, 168, 252, 42, 4, 29, 108, 21, 247, 19, 205, 39, 203,
     233, 40, 186, 147, 198, 192, 155, 33, 164, 191, 98, 204, 165, 180, 117, 76,
     140, 36, 210, 172, 41, 54, 159, 8, 185, 232, 113, 196, 231, 47, 146, 120,
     51, 65, 28, 144, 254, 221, 93, 189, 194, 139, 112, 43, 71, 109, 184, 209]"

text \<open>The loop of the hash function; it stops at a NUL character.\<close>

fun pearson :: "u8 \<Rightarrow> string \<Rightarrow> u8" where
  "pearson h [] = h"
| "pearson h (c # cs) =
     (if c = CHR 0x00 then h else pearson (hashtab ! unat (h XOR of_char c)) cs)"

definition Symbol_CalculateHash :: "string \<Rightarrow> nat" where
  "Symbol_CalculateHash s =
     (let h = pearson 0 s;
          rh = ucast h :: u32;
          rh = (if s \<noteq> [] \<and> hd s \<noteq> CHR 0x00
                then (shl32 rh 8) OR ucast (pearson (of_char (hd s) + 1) (tl s))
                else rh)
      in unat rh mod SYMBOL_TABLESIZE)"

definition Symbol_New :: "string \<Rightarrow> asm \<Rightarrow> symref \<times> asm" where
  "Symbol_New name s =
     (symNext s,
      s\<lparr>syms := (syms s)(symNext s :=
           \<lparr>sym_str = name, attr_type = 0, attr_value = ValueIllegal, attr_codeSize = 0,
            attr_area = None, attr_used = - 1,
            attr_fileName = FS_GetCurFileName s, attr_lineNumber = FS_GetCurLineNumber s\<rparr>),
        symNext := symNext s + 1\<rparr>)"

definition EqSymLex :: "asm \<Rightarrow> symref \<Rightarrow> string \<Rightarrow> bool" where
  "EqSymLex s r name \<longleftrightarrow>
     length (sym_str (syms s r)) = length name \<and> sym_str (syms s r) = name"

fun isearch :: "asm \<Rightarrow> symref list \<Rightarrow> string \<Rightarrow> symref option" where
  "isearch s [] name = None"
| "isearch s (r # rs) name = (if EqSymLex s r name then Some r else isearch s rs name)"

definition Symbol_Get :: "string \<Rightarrow> asm \<Rightarrow> symref \<times> asm" where
  "Symbol_Get name s =
     (let hash = Symbol_CalculateHash name
      in case isearch s (symbolTable s hash) name of
           Some r \<Rightarrow> (r, s)
         | None \<Rightarrow>
             let (r, s) = Symbol_New name s
             in (r, s\<lparr>symbolTable := (symbolTable s)(hash := symbolTable s hash @ [r])\<rparr>))"

definition Symbol_Find :: "string \<Rightarrow> asm \<Rightarrow> symref option" where
  "Symbol_Find name s = isearch s (symbolTable s (Symbol_CalculateHash name)) name"

text \<open>\<^verbatim>\<open>Symbol_Free\<close> unlinks a symbol; the memory is not reused by the model.\<close>

definition Symbol_Remove :: "string \<Rightarrow> asm \<Rightarrow> asm outcome" where
  "Symbol_Remove name s =
     (let hash = Symbol_CalculateHash name
      in case isearch s (symbolTable s hash) name of
           Some r \<Rightarrow> Inr (s\<lparr>symbolTable := (symbolTable s)(hash := remove1 r (symbolTable s hash))\<rparr>)
         | None \<Rightarrow> Inl AssertFailed)"

definition Symbol_RemoveVariables :: "asm \<Rightarrow> asm outcome" where
  "Symbol_RemoveVariables s =
     (let isRW = (\<lambda>r. flag (attr_type (syms s r)) SYMBOL_RW)
      in rbind (rassert (list_all
             (\<lambda>i. list_all (\<lambda>r. isRW r \<longrightarrow> flag (Tag (attr_value (syms s r))) (tBool OR tString OR tInt))
                    (symbolTable s i)) [0..<SYMBOL_TABLESIZE]))
           (\<lambda>_. Inr (s\<lparr>symbolTable :=
                  (\<lambda>i. if i < SYMBOL_TABLESIZE then filter (\<lambda>r. \<not> isRW r) (symbolTable s i)
                       else symbolTable s i)\<rparr>)))"

definition Symbol_MarkToOutput :: "symref \<Rightarrow> asm \<Rightarrow> asm outcome" where
  "Symbol_MarkToOutput r s =
     rbind (rassert (gPhase s = ePassTwo)) (\<lambda>_.
       if flag (attr_type (syms s r)) SYMBOL_AREA then Inr s
       else
         let s = upd_sym r (\<lambda>y. y\<lparr>attr_used := 0\<rparr>) s
         in if SYMBOL_KIND (attr_type (syms s r)) = 0
            then Error ErrorWarning ''Symbol %s is implicitly imported''
                   (upd_sym r (\<lambda>y. y\<lparr>attr_type := attr_type y OR SYMBOL_REFERENCE\<rparr>) s)
            else Inr s)"

definition Symbol_GetDescription :: "Symbol \<Rightarrow> string" where
  "Symbol_GetDescription y =
     (if flag (attr_type y) SYMBOL_AREA then ''area''
      else if flag (attr_type y) SYMBOL_RW
      then (if flag (attr_type y) SYMBOL_MACRO_LOCAL then ''local variable'' else ''global variable'')
      else if flag (attr_type y) SYMBOL_CONSTANT
      then (case attr_value y of
              ValueInt i t \<Rightarrow>
                (case t of
                   eIntType_PureInt \<Rightarrow> ''constant''
                 | eIntType_CPURList \<Rightarrow> ''register list''
                 | eIntType_CPU \<Rightarrow> ''CPU register''
                 | eIntType_FPU \<Rightarrow> ''FPU register''
                 | eIntType_NeonQuadReg \<Rightarrow> ''NEON quadword register''
                 | eIntType_NeonOrVFPDoubleReg \<Rightarrow> ''NEON/VFP doubleword register''
                 | eIntType_VFPSingleReg \<Rightarrow> ''VFP single word register''
                 | eIntType_CoProReg \<Rightarrow> ''coprocessor register''
                 | eIntType_CoProNum \<Rightarrow> ''coprocessor number'')
            | _ \<Rightarrow> ''constant'')
      else ''label'')"

text \<open>
  The invariant of the table: every symbol of a chain is allocated and hashes to the chain's index,
  and no two symbols of a chain have the same name.
\<close>

definition wf_symtab :: "asm \<Rightarrow> bool" where
  "wf_symtab s \<longleftrightarrow>
     (\<forall>h. distinct (map (\<lambda>r. sym_str (syms s r)) (symbolTable s h))
        \<and> (\<forall>r\<in>set (symbolTable s h). r < symNext s \<and> Symbol_CalculateHash (sym_str (syms s r)) = h))"

section \<open>The interface of a name table\<close>

text \<open>
  \<open>get\<close> returns the object of a name, making one where there is none; \<open>find\<close> looks only; \<open>name_of\<close> is
  the name an object was made for.
\<close>

locale name_table =
  fixes get :: "'k \<Rightarrow> 's \<Rightarrow> 'r \<times> 's"
    and find :: "'k \<Rightarrow> 's \<Rightarrow> 'r option"
    and name_of :: "'s \<Rightarrow> 'r \<Rightarrow> 'k"
    and inv :: "'s \<Rightarrow> bool"
  assumes get_inv: "inv s \<Longrightarrow> inv (snd (get k s))"
    and find_get: "inv s \<Longrightarrow> find k' (snd (get k s)) = (if k' = k then Some (fst (get k s)) else find k' s)"
    and get_found: "find k s = Some r \<Longrightarrow> get k s = (r, s)"
    and find_name: "inv s \<Longrightarrow> find k s = Some r \<Longrightarrow> name_of s r = k"
begin

lemma get_idem: "inv s \<Longrightarrow> get k (snd (get k s)) = get k s"
  using find_get [of s k k] get_found by (metis prod.collapse)

lemma get_name: "inv s \<Longrightarrow> name_of (snd (get k s)) (fst (get k s)) = k"
  using find_get [of s k k] find_name get_inv by metis

lemma find_inj: "inv s \<Longrightarrow> find k s = Some r \<Longrightarrow> find k' s = Some r \<Longrightarrow> k = k'"
  using find_name by metis

lemma get_inj:
  assumes "inv s" and "fst (get k s) = fst (get k' (snd (get k s)))"
  shows "k = k'"
proof (rule ccontr)
  assume "k \<noteq> k'"
  define t where "t = snd (get k' (snd (get k s)))"
  have "find k t = Some (fst (get k s))"
    using find_get [OF get_inv [OF assms(1)], where k' = k and k = k'] \<open>k \<noteq> k'\<close>
      find_get [OF assms(1), where k' = k and k = k]
    by (simp add: t_def)
  moreover have "find k' t = Some (fst (get k' (snd (get k s))))"
    using find_get [OF get_inv [OF assms(1)], where k' = k' and k = k'] by (simp add: t_def)
  moreover have "inv t" using assms(1) get_inv by (simp add: t_def)
  ultimately show False using find_inj assms(2) \<open>k \<noteq> k'\<close> by metis
qed

end

section \<open>The table is a name table\<close>

lemma EqSymLex_iff [simp]: "EqSymLex s r name \<longleftrightarrow> sym_str (syms s r) = name"
  by (auto simp: EqSymLex_def)

lemma isearch_None: "isearch s rs name = None \<longleftrightarrow> name \<notin> (\<lambda>r. sym_str (syms s r)) ` set rs"
  by (induction rs) auto

lemma isearch_Some: "isearch s rs name = Some r \<Longrightarrow> r \<in> set rs \<and> sym_str (syms s r) = name"
  by (induction rs) (auto split: if_splits)

lemma isearch_append:
  "isearch s (rs @ qs) name = (case isearch s rs name of Some r \<Rightarrow> Some r | None \<Rightarrow> isearch s qs name)"
  by (induction rs) auto

lemma isearch_cong:
  "(\<And>r. r \<in> set rs \<Longrightarrow> sym_str (syms s r) = sym_str (syms t r)) \<Longrightarrow> isearch s rs name = isearch t rs name"
  by (induction rs) auto

lemma hash_bound: "Symbol_CalculateHash name < SYMBOL_TABLESIZE"
  by (simp add: Symbol_CalculateHash_def SYMBOL_TABLESIZE_def Let_def)

lemma wf_symtab_D:
  assumes "wf_symtab s" and "r \<in> set (symbolTable s h)"
  shows "r < symNext s" and "Symbol_CalculateHash (sym_str (syms s r)) = h"
  using assms by (auto simp: wf_symtab_def)

lemma Symbol_Get_found: "Symbol_Find name s = Some r \<Longrightarrow> Symbol_Get name s = (r, s)"
  by (simp add: Symbol_Find_def Symbol_Get_def Let_def)

text \<open>Making a symbol: what changes in the state.\<close>

lemma Symbol_Get_new:
  assumes "Symbol_Find name s = None"
  obtains y where "sym_str y = name" and "attr_type y = 0" and "attr_value y = ValueIllegal"
    and "Symbol_Get name s =
      (symNext s, s\<lparr>syms := (syms s)(symNext s := y), symNext := symNext s + 1,
         symbolTable := (symbolTable s)(Symbol_CalculateHash name :=
            symbolTable s (Symbol_CalculateHash name) @ [symNext s])\<rparr>)"
proof (rule that)
  let ?y = "\<lparr>sym_str = name, attr_type = 0, attr_value = ValueIllegal, attr_codeSize = 0,
            attr_area = None, attr_used = - 1,
            attr_fileName = FS_GetCurFileName s, attr_lineNumber = FS_GetCurLineNumber s\<rparr>"
  show "Symbol_Get name s =
      (symNext s, s\<lparr>syms := (syms s)(symNext s := ?y), symNext := symNext s + 1,
         symbolTable := (symbolTable s)(Symbol_CalculateHash name :=
            symbolTable s (Symbol_CalculateHash name) @ [symNext s])\<rparr>)"
    using assms by (simp add: Symbol_Find_def Symbol_Get_def Symbol_New_def Let_def)
qed simp_all

lemma Symbol_Get_wf:
  assumes "wf_symtab s"
  shows "wf_symtab (snd (Symbol_Get name s))"
proof (cases "Symbol_Find name s")
  case (Some r)
  then show ?thesis using assms by (simp add: Symbol_Get_found)
next
  case None
  then obtain y where y: "sym_str y = name" and
    run: "Symbol_Get name s =
      (symNext s, s\<lparr>syms := (syms s)(symNext s := y), symNext := symNext s + 1,
         symbolTable := (symbolTable s)(Symbol_CalculateHash name :=
            symbolTable s (Symbol_CalculateHash name) @ [symNext s])\<rparr>)"
    by (rule Symbol_Get_new)
  have old: "r \<noteq> symNext s" if "r \<in> set (symbolTable s h)" for r h
    using wf_symtab_D(1) [OF assms that] by simp
  define t where "t = snd (Symbol_Get name s)"
  then have tab: "symbolTable t h = symbolTable s h @ (if h = Symbol_CalculateHash name then [symNext s] else [])"
    and str: "sym_str (syms t r) = (if r = symNext s then name else sym_str (syms s r))"
    and nxt: "symNext t = Suc (symNext s)" for h r
    by (simp_all add: run y)
  have "map (\<lambda>r. sym_str (syms t r)) (symbolTable s h) = map (\<lambda>r. sym_str (syms s r)) (symbolTable s h)" for h
    using old by (auto simp: str)
  moreover have "name \<notin> (\<lambda>r. sym_str (syms s r)) ` set (symbolTable s (Symbol_CalculateHash name))"
    using None by (simp add: Symbol_Find_def isearch_None)
  ultimately have "distinct (map (\<lambda>r. sym_str (syms t r)) (symbolTable t h))" for h
    using assms by (simp add: wf_symtab_def tab str [of "symNext s"] del: map_eq_conv)
  moreover have "r < symNext t \<and> Symbol_CalculateHash (sym_str (syms t r)) = h"
    if "r \<in> set (symbolTable t h)" for r h
    using that wf_symtab_D [OF assms, of r h] by (auto simp: tab str nxt split: if_splits)
  ultimately show ?thesis by (simp add: wf_symtab_def t_def)
qed

lemma Symbol_Get_find:
  assumes "wf_symtab s"
  shows "Symbol_Find k' (snd (Symbol_Get k s)) =
    (if k' = k then Some (fst (Symbol_Get k s)) else Symbol_Find k' s)"
proof (cases "Symbol_Find k s")
  case (Some r)
  then show ?thesis by (simp add: Symbol_Get_found)
next
  case None
  then obtain y where y: "sym_str y = k" and
    run: "Symbol_Get k s =
      (symNext s, s\<lparr>syms := (syms s)(symNext s := y), symNext := symNext s + 1,
         symbolTable := (symbolTable s)(Symbol_CalculateHash k :=
            symbolTable s (Symbol_CalculateHash k) @ [symNext s])\<rparr>)"
    by (rule Symbol_Get_new)
  define t where "t = snd (Symbol_Get k s)"
  have "isearch t (symbolTable s h) n = isearch s (symbolTable s h) n" for h n
    using wf_symtab_D(1) [OF assms] by (intro isearch_cong) (auto simp: t_def run)
  moreover have "symbolTable t h = symbolTable s h @ (if h = Symbol_CalculateHash k then [symNext s] else [])" for h
    by (simp add: t_def run)
  moreover have "sym_str (syms t (symNext s)) = k" by (simp add: t_def run y)
  ultimately have "Symbol_Find k' t = (if k' = k then Some (symNext s) else Symbol_Find k' s)"
    using None by (auto simp: Symbol_Find_def isearch_append split: option.split)
  then show ?thesis by (simp add: t_def run)
qed

interpretation symtab: name_table Symbol_Get Symbol_Find "\<lambda>s r. sym_str (syms s r)" wf_symtab
proof
  show "wf_symtab s \<Longrightarrow> Symbol_Find k s = Some r \<Longrightarrow> sym_str (syms s r) = k" for s k r
    by (auto simp: Symbol_Find_def dest: isearch_Some)
qed (simp_all add: Symbol_Get_wf Symbol_Get_find Symbol_Get_found)

text \<open>\<^verbatim>\<open>Symbol_Get\<close> changes no symbol that exists.\<close>

lemma Symbol_Get_keeps: "r < symNext s \<Longrightarrow> syms (snd (Symbol_Get name s)) r = syms s r"
  by (cases "Symbol_Find name s") (auto simp: Symbol_Get_found elim: Symbol_Get_new)

text \<open>
  C17. The symbol table.  On a well-formed table \<^verbatim>\<open>Symbol_Get\<close> returns a symbol of the asked name,
  which \<^verbatim>\<open>Symbol_Find\<close> finds from then on and a second \<^verbatim>\<open>Symbol_Get\<close> returns again; it changes what
  is found for no other name and the contents of no existing symbol, and keeps the table well-formed.
\<close>

theorem Symbol_Get_spec:
  assumes "wf_symtab s" and "Symbol_Get name s = (r, s')"
  shows "wf_symtab s' \<and> sym_str (syms s' r) = name \<and> Symbol_Get name s' = (r, s')
    \<and> Symbol_Find name s' = Some r
    \<and> (\<forall>n. n \<noteq> name \<longrightarrow> Symbol_Find n s' = Symbol_Find n s)
    \<and> (\<forall>q < symNext s. syms s' q = syms s q)"
  using symtab.get_inv [OF assms(1), of name] symtab.get_name [OF assms(1), of name]
    symtab.get_idem [OF assms(1), of name] symtab.find_get [OF assms(1), of _ name]
    Symbol_Get_keeps [of _ s name] assms(2)
  by simp

theorem Symbol_Get_spec_witness:
  "\<exists>r s'. Symbol_Get ''start'' asm0 = (r, s') \<and> Symbol_Find ''start'' s' = Some r
     \<and> Symbol_Find ''stop'' s' = Symbol_Find ''stop'' asm0"
proof -
  have "wf_symtab asm0" by (simp add: wf_symtab_def asm0_def)
  obtain r s' where run: "Symbol_Get ''start'' asm0 = (r, s')" by force
  from Symbol_Get_spec [OF \<open>wf_symtab asm0\<close> run] run show ?thesis by simp
qed

lemma Symbol_Remove_wf:
  assumes "wf_symtab s"
  shows "if Symbol_Find name s = None then Symbol_Remove name s = Inl AssertFailed
         else \<exists>s'. Symbol_Remove name s = Inr s' \<and> wf_symtab s' \<and> syms s' = syms s
            \<and> (\<forall>n. Symbol_Find n s' = (if n = name then None else Symbol_Find n s))"
proof (cases "Symbol_Find name s")
  case None
  then show ?thesis by (simp add: Symbol_Find_def Symbol_Remove_def Let_def)
next
  case (Some r)
  let ?h = "Symbol_CalculateHash name"
  define s' where "s' = s\<lparr>symbolTable := (symbolTable s)(?h := remove1 r (symbolTable s ?h))\<rparr>"
  have run: "Symbol_Remove name s = Inr s'"
    using Some by (simp add: Symbol_Find_def Symbol_Remove_def Let_def s'_def)
  have r: "r \<in> set (symbolTable s ?h)" "sym_str (syms s r) = name"
    using Some by (auto simp: Symbol_Find_def dest: isearch_Some)
  have dist: "distinct (map (\<lambda>r. sym_str (syms s r)) (symbolTable s h))" for h
    using assms by (simp add: wf_symtab_def)
  have wf: "wf_symtab s'"
    using assms notin_set_remove1 by (auto simp: wf_symtab_def s'_def distinct_map distinct_remove1
        intro: inj_on_subset dest: in_set_remove1 [THEN iffD1, rotated] set_remove1_subset [THEN subsetD])
  have gone: "isearch s' (remove1 r (symbolTable s ?h)) name = None"
    using dist [of ?h] r by (force simp: isearch_None s'_def distinct_map inj_on_def)
  have same: "isearch s' rs n = isearch s rs n" for rs n
    by (intro isearch_cong) (simp add: s'_def)
  have keep: "isearch s (remove1 r rs) n = isearch s rs n" if "n \<noteq> name" for rs n
    using that r(2) by (induction rs) auto
  have "Symbol_Find n s' = (if n = name then None else Symbol_Find n s)" for n
    using gone keep same by (auto simp: Symbol_Find_def s'_def)
  then show ?thesis using Some run wf by (auto simp: s'_def)
qed

text \<open>
  Removing a symbol.  If the name is in a well-formed table, \<^verbatim>\<open>Symbol_Remove\<close> returns with a
  well-formed table in which exactly that name is gone; if not, its assertion fails.
\<close>

theorem Symbol_Remove_spec:
  assumes "wf_symtab s"
  shows "if Symbol_Find name s = None then Symbol_Remove name s = Inl AssertFailed
         else \<exists>s'. Symbol_Remove name s = Inr s' \<and> wf_symtab s' \<and> syms s' = syms s
            \<and> (\<forall>n. Symbol_Find n s' = (if n = name then None else Symbol_Find n s))"
  by (rule Symbol_Remove_wf [OF assms])

theorem Symbol_Remove_spec_witness:
  "\<exists>s'. Symbol_Remove ''lab'' (snd (Symbol_Get ''lab'' asm0)) = Inr s' \<and> Symbol_Find ''lab'' s' = None"
proof -
  have wf: "wf_symtab (snd (Symbol_Get ''lab'' asm0))"
    by (rule Symbol_Get_wf) (simp add: wf_symtab_def asm0_def)
  have "Symbol_Find ''lab'' (snd (Symbol_Get ''lab'' asm0)) \<noteq> None"
    by (simp add: Symbol_Get_find wf_symtab_def asm0_def)
  with Symbol_Remove_spec [OF wf, of "''lab''"] show ?thesis by auto
qed

end
