(* ===== verification/Areas.thy ===== *)
theory Areas
  imports Symbol_Table
begin

text \<open>
  The areas of \<^verbatim>\<open>area.c\<close>: creation, growth of the image, alignment, the list of areas, the
  directives \<^verbatim>\<open>ENTRY\<close> and \<^verbatim>\<open>ORG\<close>, and the mapping symbol test.  The invariant \<open>wf_area\<close> says that
  the area index never runs past the image.  The interface \<open>byte_store\<close> states the laws of a block
  of bytes; the image of an area is an instance.
\<close>

section \<open>Images\<close>

text \<open>Writing and reading consecutive bytes of an image; outside of it C leaves both undefined.\<close>

definition image_write :: "nat \<Rightarrow> u8 list \<Rightarrow> u8 option list \<Rightarrow> u8 option list option" where
  "image_write i bs img =
     (if i + length bs \<le> length img
      then Some (take i img @ map Some bs @ drop (i + length bs) img) else None)"

definition image_read :: "nat \<Rightarrow> nat \<Rightarrow> u8 option list \<Rightarrow> u8 option list option" where
  "image_read i n img = (if i + n \<le> length img then Some (take n (drop i img)) else None)"

definition Area_Write :: "symref \<Rightarrow> nat \<Rightarrow> u8 list \<Rightarrow> asm \<Rightarrow> asm outcome" where
  "Area_Write r i bs s =
     rbind (sym_area s r) (\<lambda>a.
       case image_write i bs (image a) of
         None \<Rightarrow> Inl Undefined
       | Some img \<Rightarrow> Inr (set_area r (a\<lparr>image := img\<rparr>) s))"

section \<open>Creation and growth\<close>

definition DOUBLE_UP_TO :: nat where
  "DOUBLE_UP_TO = 128 * 1024"

definition GROWSIZE :: nat where
  "GROWSIZE = 16 * 1024"

definition IMPLICIT_AREA_NAME :: string where
  "IMPLICIT_AREA_NAME = ''$$$$$$$''"

definition Area_ResetPrivateVars :: "asm \<Rightarrow> asm" where
  "Area_ResetPrivateVars s =
     s\<lparr>areaCurrentSymbol := None,
       areaVars := (areaVars s)
         \<lparr>areaEntrySymbol := None, areaEntryOffset := 0, gArea_Require8 := False,
          gArea_Preserve8 := ePreserve8_Guess, gArea_Preserve8Guessed := True,
          oPendingORG := (oPendingORG (areaVars s))\<lparr>org_isValid := False\<rparr>\<rparr>\<rparr>"

text \<open>\<^verbatim>\<open>IT_InitializeState\<close> of \<^verbatim>\<open>it.c\<close> and \<^verbatim>\<open>Reloc_InitializeState\<close> of \<^verbatim>\<open>reloc.c\<close>.\<close>

definition "AL = (0xE0000000 :: u32)"
definition "NV = (0xF0000000 :: u32)"

definition IT_InitializeState :: IT_State_t where
  "IT_InitializeState =
     \<lparr>it_isThen = [False, False, False, False], it_maxIdx = 0, it_curIdx = 0, it_implicitIT = False,
      it_cc = AL, it_areaCurIdx = 0\<rparr>"

definition Reloc_InitializeState :: "Area \<Rightarrow> Area" where
  "Reloc_InitializeState a = a\<lparr>relocIntP := [], offsetForExplicitReloc := UINT32_MAX\<rparr>"

definition Area_Create :: "symref \<Rightarrow> u32 \<Rightarrow> asm \<Rightarrow> Area \<times> asm" where
  "Area_Create r ty s =
     (Reloc_InitializeState
        \<lparr>area_next = areaHeadSymbol s, area_type = ty, image = [], curIdx = 0, maxIdx = 0,
         entryType = eInvalid, relocIntP = [], offsetForExplicitReloc = 0,
         litPool = [], area_it = IT_InitializeState, area_number = 0\<rparr>,
      s\<lparr>areaHeadSymbol := Some r\<rparr>)"

definition make_area_symbol :: "symref \<Rightarrow> u32 \<Rightarrow> u32 \<Rightarrow> asm \<Rightarrow> asm" where
  "make_area_symbol r symType ty s =
     (let (a, s) = Area_Create r ty s
      in upd_sym r (\<lambda>y. y\<lparr>attr_type := symType, attr_value := ValueInt 0 eIntType_PureInt,
                          attr_area := Some a\<rparr>) s)"

definition Area_CreateDWARF :: "string \<Rightarrow> u32 \<Rightarrow> asm \<Rightarrow> (symref option \<times> asm) outcome" where
  "Area_CreateDWARF name scnIdx s =
     rbind (rassert (take 7 name = ''.debug_'')) (\<lambda>_.
       case Symbol_Find name s of
         Some _ \<Rightarrow>
           rbind (Error ErrorError ''DWARF section has same name as an existing area or symbol'' s)
             (\<lambda>s. Inr (None, s))
       | None \<Rightarrow>
           let (r, s) = Symbol_Get name s;
               s = make_area_symbol r SYMBOL_AREA AREA_INT_DWARF s
           in rbind (sym_area s r) (\<lambda>a. Inr (Some r, set_area r (a\<lparr>area_number := scnIdx\<rparr>) s)))"

text \<open>
  Walking the list of areas.  A well-formed list has no more than \<open>symNext\<close> entries, which is the
  fuel its users take.
\<close>

fun area_chain :: "nat \<Rightarrow> asm \<Rightarrow> symref option \<Rightarrow> symref list outcome" where
  "area_chain fuel s None = Inr []"
| "area_chain 0 s (Some r) = Inl OutOfFuel"
| "area_chain (Suc fuel) s (Some r) =
     rbind (sym_area s r) (\<lambda>a. rbind (area_chain fuel s (area_next a)) (\<lambda>rs. Inr (r # rs)))"

fun Area_FindDWARF :: "nat \<Rightarrow> u32 \<Rightarrow> symref option \<Rightarrow> asm \<Rightarrow> symref outcome" where
  "Area_FindDWARF fuel scnIdx None s = Inl AssertFailed"
| "Area_FindDWARF 0 scnIdx (Some r) s = Inl OutOfFuel"
| "Area_FindDWARF (Suc fuel) scnIdx (Some r) s =
     rbind (sym_area s r) (\<lambda>a.
       if area_number a = scnIdx
       then rbind (rassert (flag (area_type a) AREA_INT_DWARF)) (\<lambda>_. Inr r)
       else Area_FindDWARF fuel scnIdx (area_next a) s)"

definition Area_Resize :: "symref \<Rightarrow> nat \<Rightarrow> asm \<Rightarrow> (bool \<times> asm) outcome" where
  "Area_Resize r newsize s =
     rbind (sym_area s r) (\<lambda>a.
     rbind (rassert (\<not> flag (area_type a) AREA_UDATA)) (\<lambda>_.
     rbind (rassert (newsize > imagesize a)) (\<lambda>_.
       if \<not> host_realloc s newsize then Inr (False, s)
       else Inr (True, set_area r (a\<lparr>image := image a @ replicate (newsize - imagesize a) None\<rparr>) s))))"

definition ValidateORGValue :: "u32 \<Rightarrow> u32 \<Rightarrow> asm \<Rightarrow> (u32 \<times> asm) outcome" where
  "ValidateORGValue alignValue org s =
     (if org AND (alignValue - 1) \<noteq> 0
      then rbind (Error ErrorWarning ''Area ORG value 0x%x is not aligned according to area alignment value 0x%x'' s)
             (\<lambda>s. Inr (org, s))
      else Inr (org, s))"

definition Area_IsImplicit :: "asm \<Rightarrow> symref \<Rightarrow> bool" where
  "Area_IsImplicit s r \<longleftrightarrow> sym_str (syms s r) = IMPLICIT_AREA_NAME"

text \<open>The loop that halves the increment until the host grants it; it returns the last increment.\<close>

function grow_loop :: "symref \<Rightarrow> nat \<Rightarrow> nat \<Rightarrow> nat \<Rightarrow> asm \<Rightarrow> (nat \<times> asm) outcome" where
  "grow_loop r sz mingrow inc s =
     (if inc > mingrow
      then rbind (Area_Resize r (sz + inc) s) (\<lambda>(ok, s').
             if ok then Inr (inc, s') else grow_loop r sz mingrow (inc div 2) s')
      else Inr (inc, s))"
  by pat_completeness auto
termination
  by (relation "measure (\<lambda>(r, sz, mingrow, inc, s). inc)") auto

declare grow_loop.simps [simp del]

definition Area_EnsureExtraSize :: "symref \<Rightarrow> nat \<Rightarrow> asm \<Rightarrow> asm outcome" where
  "Area_EnsureExtraSize r mingrow s =
     rbind (sym_area s r) (\<lambda>a.
       if flag (area_type a) AREA_UDATA then Inr s
       else if unat (curIdx a) + mingrow \<le> imagesize a then Inr s
       else
         rbind (rassert (gPhase s = ePassOne)) (\<lambda>_.
         rbind (if imagesize a = 0 \<and> Area_IsImplicit s r
                then Error ErrorError ''No area defined'' s else Inr s) (\<lambda>s.
         let inc = (if imagesize a \<noteq> 0 \<and> imagesize a < DOUBLE_UP_TO then imagesize a else GROWSIZE);
             inc = (if inc < mingrow then mingrow else inc)
         in rbind (grow_loop r (imagesize a) mingrow inc s) (\<lambda>(inc, s).
              if inc \<le> mingrow
              then rbind (Area_Resize r (imagesize a + mingrow) s) (\<lambda>(ok, s).
                     if ok then Inr s else Error_OutOfMem s)
              else Inr s))))"

definition c_entry :: "asm \<Rightarrow> (bool \<times> asm) outcome" where
  "c_entry s =
     (if option_abs s then Inr (True, s)
      else rbind (cur_sym s) (\<lambda>r.
        rbind
          (if Area_IsImplicit s r then Error ErrorError ''No area selected before ENTRY'' s
           else if areaEntrySymbol (areaVars s) \<noteq> None
           then rbind (Error ErrorError ''More than one ENTRY'' s)
                  (\<lambda>s. Error_Line ErrorError ''note: Previous ENTRY was here'' s)
           else rbind (sym_area s r) (\<lambda>a.
                  Inr (s\<lparr>areaVars := (areaVars s)\<lparr>areaEntrySymbol := Some r, areaEntryOffset := curIdx a\<rparr>\<rparr>)))
          (\<lambda>s. Inr (False, s))))"

section \<open>Alignment\<close>

definition Area_AlignOffset :: "symref \<Rightarrow> u32 \<Rightarrow> u32 \<Rightarrow> string option \<Rightarrow> asm \<Rightarrow> (u32 \<times> asm) outcome" where
  "Area_AlignOffset r offset alignValue msg s =
     rbind (rassert (flag (attr_type (syms s r)) SYMBOL_AREA)) (\<lambda>_.
     rbind (rassert (alignValue \<noteq> 0 \<and> alignValue AND (alignValue - 1) = 0)) (\<lambda>_.
     rbind (if msg \<noteq> None \<and> offset AND (alignValue - 1) \<noteq> 0
            then Error ErrorWarning ''Implicit aligning unaligned %s'' s else Inr s) (\<lambda>s.
     let newOffset = (offset + alignValue - 1) AND (- alignValue)
     in rbind (sym_area s r) (\<lambda>a.
          if curIdx a < newOffset
          then rbind
                 (if \<not> Area_IsNoInit a
                  then rbind (Area_EnsureExtraSize r (unat (newOffset - curIdx a)) s)
                         (Area_Write r (unat (curIdx a)) (replicate (unat (newOffset - curIdx a)) 0))
                  else Inr s)
                 (\<lambda>s. rbind (sym_area s r) (\<lambda>a.
                    Inr (newOffset, set_area r (a\<lparr>curIdx := newOffset\<rparr>) s)))
          else Inr (newOffset, s)))))"

definition Area_AlignTo :: "u32 \<Rightarrow> u32 \<Rightarrow> string option \<Rightarrow> asm \<Rightarrow> (u32 \<times> asm) outcome" where
  "Area_AlignTo offset alignValue msg s =
     rbind (cur_sym s) (\<lambda>r. Area_AlignOffset r offset alignValue msg s)"

definition Area_AlignArea :: "symref \<Rightarrow> u32 \<Rightarrow> string option \<Rightarrow> asm \<Rightarrow> (u32 \<times> asm) outcome" where
  "Area_AlignArea r alignValue msg s =
     rbind (sym_area s r) (\<lambda>a. Area_AlignOffset r (curIdx a) alignValue msg s)"

definition Area_CurIdxAligned :: "asm \<Rightarrow> u32 outcome" where
  "Area_CurIdxAligned s =
     (let instrAlign = (if oCurrentInstrType s = eInstrType_ARM then 4 else 2)
      in rbind (cur_sym s) (\<lambda>r. rbind (sym_area s r) (\<lambda>a.
           Inr ((curIdx a + instrAlign - 1) AND (- instrAlign)))))"

section \<open>Attributes, the implicit area, ORG, mapping symbols\<close>

definition "APCS_OPT_REENTRANT = (1 :: u32)"
definition "APCS_OPT_32BIT = (2 :: u32)"
definition "APCS_OPT_SWSTACKCHECK = (4 :: u32)"
definition "APCS_OPT_FPE3 = (32 :: u32)"
definition "APCS_OPT_ROPI = (64 :: u32)"
definition "APCS_OPT_INTERWORK = (256 :: u32)"
definition "APCS_OPT_VFPENDIAN = (512 :: u32)"

definition Area_ApplyAPCSOption :: "u32 \<Rightarrow> asm \<Rightarrow> u32 outcome" where
  "Area_ApplyAPCSOption areaFlags s =
     (let apcs = gOptionAPCS s; set_if = (\<lambda>b m f. if b then f OR m else f)
      in rbind (rassert (flag areaFlags AREA_CODE)) (\<lambda>_.
           Inr (set_if (flag apcs APCS_OPT_VFPENDIAN) AREA_VFP
               (set_if (flag apcs APCS_OPT_INTERWORK) AREA_INTERWORK
               (set_if (\<not> flag apcs APCS_OPT_SWSTACKCHECK) AREA_NOSWSTACKCHECK
               (set_if (flag apcs APCS_OPT_REENTRANT) AREA_REENTRANT
               (set_if (flag apcs APCS_OPT_ROPI) AREA_PIC
               (set_if (flag apcs APCS_OPT_FPE3) AREA_EXTFPSET
               (set_if (flag apcs APCS_OPT_32BIT) AREA_32BITAPCS areaFlags)))))))))"

definition Area_Ensure :: "asm \<Rightarrow> asm outcome" where
  "Area_Ensure s =
     rbind (rassert (areaCurrentSymbol s = None)) (\<lambda>_.
     rbind (if option_abs s
            then rbind (Area_ApplyAPCSOption (AREA_CODE OR AREA_DEFAULT_ALIGNMENT) s)
                   (\<lambda>ty. Inr (''ABS$$BLOCK'', ty))
            else Inr (IMPLICIT_AREA_NAME, AREA_CODE OR AREA_ABS OR AREA_READONLY OR AREA_DEFAULT_ALIGNMENT))
       (\<lambda>(areaName, areaType).
          let (r, s) = Symbol_Get areaName s
          in rbind (rassert (SYMBOL_KIND (attr_type (syms s r)) = 0)) (\<lambda>_.
               let s = (if \<not> flag (attr_type (syms s r)) SYMBOL_AREA
                        then make_area_symbol r
                               (if flag areaType AREA_ABS then SYMBOL_ABSOLUTE OR SYMBOL_AREA else SYMBOL_AREA)
                               areaType s
                        else s)
               in Inr (s\<lparr>areaCurrentSymbol := Some r\<rparr>))))"

text \<open>\<^verbatim>\<open>c_org\<close> on the value its expression evaluated to.\<close>

definition c_org_value :: "Value \<Rightarrow> asm \<Rightarrow> (bool \<times> asm) outcome" where
  "c_org_value v s =
     rbind
       (case v of
          ValueInt i eIntType_PureInt \<Rightarrow>
            rbind (cur_sym s) (\<lambda>r.
              if Area_IsImplicit s r
              then rbind
                     (if org_isValid (oPendingORG (areaVars s))
                      then rbind (Error_Line ErrorWarning ''ORG statement without any effect, because of...'' s)
                             (Error ErrorWarning ''...this'')
                      else Inr (s\<lparr>areaVars := (areaVars s)
                             \<lparr>oPendingORG := (oPendingORG (areaVars s))\<lparr>org_isValid := True\<rparr>\<rparr>\<rparr>))
                     (\<lambda>s. Inr (s\<lparr>areaVars := (areaVars s)
                             \<lparr>oPendingORG := (oPendingORG (areaVars s))\<lparr>org_value := i\<rparr>\<rparr>\<rparr>))
              else rbind (sym_area s r) (\<lambda>a.
                if curIdx a \<noteq> 0
                then rbind (Error ErrorError ''Too late to set ORG of current area'' s)
                       (Error_Line ErrorError ''note: Expected to be set just before or after this line'')
                else
                  let a = a\<lparr>area_type := area_type a OR AREA_ABS\<rparr>;
                      s = set_area r a s
                  in rbind (ValidateORGValue (shl32 1 (unat (area_type a AND AREA_ALIGN_MASK))) i s) (\<lambda>(org, s).
                       Inr (upd_sym r (\<lambda>y. y\<lparr>attr_value := ValueInt org eIntType_PureInt,
                                              attr_type := attr_type y OR SYMBOL_ABSOLUTE\<rparr>) s))))
        | _ \<Rightarrow> Error ErrorError ''ORG needs explicit address'' s)
       (\<lambda>s. Inr (False, s))"

definition Area_GetCurrentEntryType :: "asm \<Rightarrow> Area_eEntryType outcome" where
  "Area_GetCurrentEntryType s = rbind (cur_sym s) (\<lambda>r. rbind (sym_area s r) (\<lambda>a. Inr (entryType a)))"

text \<open>The NUL that ends the C string is the missing character here.\<close>

definition Area_IsMappingSymbol :: "string \<Rightarrow> Area_eEntryType" where
  "Area_IsMappingSymbol str =
     (case str of
        c0 # c1 # cs \<Rightarrow>
          if c0 = CHR ''$''
          then if c1 = CHR ''a'' then eARM
               else if c1 = CHR ''d'' then eData
               else if c1 = CHR ''t'' then (if cs \<noteq> [] \<and> hd cs = CHR ''.'' then eThumbEE else eThumb)
               else eInvalid
          else eInvalid
      | _ \<Rightarrow> eInvalid)"

text \<open>
  The reversal of the area list in the \<^verbatim>\<open>eOutput\<close> case of \<^verbatim>\<open>Area_PrepareForPhase\<close>: the loop with
  \<^verbatim>\<open>aSymP\<close> and \<^verbatim>\<open>nextSymP\<close>, and the code around it.
\<close>

fun revert_loop :: "nat \<Rightarrow> symref \<Rightarrow> symref option \<Rightarrow> asm \<Rightarrow> (symref \<times> asm) outcome" where
  "revert_loop fuel aSym None s = Inr (aSym, s)"
| "revert_loop 0 aSym (Some nextSym) s = Inl OutOfFuel"
| "revert_loop (Suc fuel) aSym (Some nextSym) s =
     rbind (sym_area s nextSym) (\<lambda>a.
       revert_loop fuel nextSym (area_next a) (set_area nextSym (a\<lparr>area_next := Some aSym\<rparr>) s))"

definition Area_RevertList :: "nat \<Rightarrow> asm \<Rightarrow> asm outcome" where
  "Area_RevertList fuel s =
     (case areaHeadSymbol s of
        None \<Rightarrow> Inl AssertFailed
      | Some h \<Rightarrow>
          rbind (sym_area s h) (\<lambda>a.
          rbind (revert_loop fuel h (area_next a) s) (\<lambda>(aSym, s).
          rbind (sym_area s h) (\<lambda>a.
            Inr ((set_area h (a\<lparr>area_next := None\<rparr>) s)\<lparr>areaHeadSymbol := Some aSym\<rparr>)))))"

text \<open>What every area satisfies: its index is inside the image, and without initialisation it has none.\<close>

definition wf_area :: "Area \<Rightarrow> bool" where
  "wf_area a \<longleftrightarrow>
     (if Area_IsNoInit a then image a = [] else unat (curIdx a) \<le> imagesize a)"

text \<open>The only change growing makes: more bytes behind the image.\<close>

definition grown :: "nat \<Rightarrow> Area \<Rightarrow> Area" where
  "grown k a = a\<lparr>image := image a @ replicate k None\<rparr>"

text \<open>The part of \<^verbatim>\<open>Area_EnsureExtraSize\<close> that runs when bytes are missing.\<close>

definition grow_rest :: "symref \<Rightarrow> Area \<Rightarrow> nat \<Rightarrow> nat \<times> asm \<Rightarrow> asm outcome" where
  "grow_rest r a n = (\<lambda>(inc, s).
     if inc \<le> n
     then rbind (Area_Resize r (imagesize a + n) s) (\<lambda>(ok, s). if ok then Inr s else Error_OutOfMem s)
     else Inr s)"

text \<open>What alignment does to an area: the gap up to the new index is filled with zero bytes.\<close>

definition padded :: "u32 \<Rightarrow> Area \<Rightarrow> Area \<Rightarrow> bool" where
  "padded n a a' \<longleftrightarrow>
     (if curIdx a < n
      then curIdx a' = n
         \<and> (if Area_IsNoInit a then a' = a\<lparr>curIdx := n\<rparr>
            else image_read (unat (curIdx a)) (unat n - unat (curIdx a)) (image a')
                   = Some (replicate (unat n - unat (curIdx a)) (Some 0))
              \<and> image_read 0 (unat (curIdx a)) (image a') = image_read 0 (unat (curIdx a)) (image a))
      else a' = a)"

text \<open>Areas that differ in image and index only, and states that differ in such an area and errors only.\<close>

definition put_frame :: "Area \<Rightarrow> Area \<Rightarrow> bool" where
  "put_frame a a' \<longleftrightarrow> a' = a\<lparr>image := image a', curIdx := curIdx a'\<rparr>"

definition area_frame :: "symref \<Rightarrow> asm \<Rightarrow> asm \<Rightarrow> bool" where
  "area_frame r s t \<longleftrightarrow>
     (\<exists>a a'. sym_area s r = Inr a \<and> put_frame a a' \<and> same_but_errors (set_area r a' s) t)"

text \<open>The part of \<^verbatim>\<open>Area_AlignOffset\<close> that moves the index.\<close>

definition align_move :: "symref \<Rightarrow> u32 \<Rightarrow> asm \<Rightarrow> (u32 \<times> asm) outcome" where
  "align_move r newOffset s =
     rbind (sym_area s r) (\<lambda>a.
          if curIdx a < newOffset
          then rbind
                 (if \<not> Area_IsNoInit a
                  then rbind (Area_EnsureExtraSize r (unat (newOffset - curIdx a)) s)
                         (Area_Write r (unat (curIdx a)) (replicate (unat (newOffset - curIdx a)) 0))
                  else Inr s)
                 (\<lambda>s. rbind (sym_area s r) (\<lambda>a.
                    Inr (newOffset, set_area r (a\<lparr>curIdx := newOffset\<rparr>) s)))
          else Inr (newOffset, s))"

definition area_code :: Area where
  "area_code = \<lparr>area_next = None, area_type = AREA_CODE OR AREA_DEFAULT_ALIGNMENT,
     image = replicate 16 (Some 0xFF), curIdx = 6, maxIdx = 16, entryType = eInvalid, relocIntP = [],
     offsetForExplicitReloc = UINT32_MAX, litPool = [], area_it = IT_InitializeState, area_number = 0\<rparr>"

definition asm_code :: "Phase_e \<Rightarrow> asm" where
  "asm_code p = asm0\<lparr>gPhase := p,
     syms := (\<lambda>_. sym0)(0 := sym0\<lparr>sym_str := ''code'', attr_type := SYMBOL_AREA,
       attr_value := ValueInt 0 eIntType_PureInt, attr_area := Some area_code\<rparr>),
     symNext := 1, areaCurrentSymbol := Some 0, areaHeadSymbol := Some 0\<rparr>"

text \<open>\<open>lseg s p rs q\<close>: following \<^verbatim>\<open>next\<close> from \<open>p\<close> visits \<open>rs\<close> and arrives at \<open>q\<close>.\<close>

fun lseg :: "asm \<Rightarrow> symref option \<Rightarrow> symref list \<Rightarrow> symref option \<Rightarrow> bool" where
  "lseg s p [] q \<longleftrightarrow> p = q"
| "lseg s p (r # rs) q \<longleftrightarrow> p = Some r \<and> (\<exists>a. sym_area s r = Inr a \<and> lseg s (area_next a) rs q)"

section \<open>The state around an area\<close>

lemma sym_area_set_area [simp]:
  "sym_area (set_area r a s) q = (if q = r then Inr a else sym_area s q)"
  by (simp add: sym_area_def set_area_def upd_sym_def)

lemma set_area_set_area [simp]: "set_area r b (set_area r a s) = set_area r b s"
  by (simp add: set_area_def upd_sym_def)

lemma set_area_triv: "sym_area s r = Inr a \<Longrightarrow> set_area r a s = s"
  by (cases s) (auto simp: sym_area_def set_area_def upd_sym_def fun_eq_iff split: option.splits)

lemma set_area_frame [simp]:
  "gPhase (set_area r a s) = gPhase s" "areaCurrentSymbol (set_area r a s) = areaCurrentSymbol s"
  "oNumErrors (set_area r a s) = oNumErrors s" "host_realloc (set_area r a s) = host_realloc s"
  "attr_type (syms (set_area r a s) q) = attr_type (syms s q)"
  "attr_value (syms (set_area r a s) q) = attr_value (syms s q)"
  "sym_str (syms (set_area r a s) q) = sym_str (syms s q)"
  "areaHeadSymbol (set_area r a s) = areaHeadSymbol s" "option_aof (set_area r a s) = option_aof s"
  "oCurrentInstrType (set_area r a s) = oCurrentInstrType s"
  "symNext (set_area r a s) = symNext s" "symbolTable (set_area r a s) = symbolTable s"
  by (simp_all add: set_area_def upd_sym_def)

lemma image_triv [simp]: "a\<lparr>image := image a\<rparr> = a"
  by (cases a) simp

lemma sym_area_same: "same_but_errors s t \<Longrightarrow> sym_area t r = sym_area s r"
  by (simp add: sym_area_def same_but_errorsD)

lemma same_set_area: "same_but_errors s t \<Longrightarrow> same_but_errors (set_area r a s) (set_area r a t)"
  by (cases s; cases t) (simp add: same_but_errors_def set_area_def upd_sym_def)

lemma same_upd_sym: "same_but_errors s t \<Longrightarrow> same_but_errors (upd_sym r f s) (upd_sym r f t)"
  by (cases s; cases t) (simp add: same_but_errors_def upd_sym_def)

section \<open>The interface of a block of bytes\<close>

locale byte_store =
  fixes store :: "nat \<Rightarrow> 'b list \<Rightarrow> 'm \<Rightarrow> 'm option"
    and load :: "nat \<Rightarrow> nat \<Rightarrow> 'm \<Rightarrow> 'b option list option"
    and extent :: "'m \<Rightarrow> nat"
  assumes store_defined: "store i bs m = None \<longleftrightarrow> extent m < i + length bs"
    and store_extent: "store i bs m = Some m' \<Longrightarrow> extent m' = extent m"
    and load_defined: "load i n m = None \<longleftrightarrow> extent m < i + n"
    and load_written: "store i bs m = Some m' \<Longrightarrow> load i (length bs) m' = Some (map Some bs)"
    and load_elsewhere:
      "store i bs m = Some m' \<Longrightarrow> j + n \<le> i \<or> i + length bs \<le> j \<Longrightarrow> load j n m' = load j n m"
begin

lemma load_first_of_two:
  assumes "store i bs m = Some m1" and "store j cs m1 = Some m2"
    and "i + length bs \<le> j \<or> j + length cs \<le> i"
  shows "load i (length bs) m2 = Some (map Some bs)"
  using load_elsewhere [OF assms(2), of i "length bs"] load_written [OF assms(1)] assms(3) by auto

lemma store_total: "i + length bs \<le> extent m \<Longrightarrow> \<exists>m'. store i bs m = Some m'"
  using store_defined [of i bs m] by (cases "store i bs m") auto

end

lemma image_write_eq:
  "image_write i bs img = Some img' \<longleftrightarrow>
     i + length bs \<le> length img \<and> img' = take i img @ map Some bs @ drop (i + length bs) img"
  by (auto simp: image_write_def)

interpretation img: byte_store image_write image_read length
proof
  fix i j n :: nat and bs :: "u8 list" and m m' :: "u8 option list"
  show "image_write i bs m = None \<longleftrightarrow> length m < i + length bs"
    and "image_read i n m = None \<longleftrightarrow> length m < i + n"
    by (auto simp: image_write_def image_read_def)
  assume w: "image_write i bs m = Some m'"
  then show len: "length m' = length m" and "image_read i (length bs) m' = Some (map Some bs)"
    by (auto simp: image_write_eq image_read_def)
  assume "j + n \<le> i \<or> i + length bs \<le> j"
  then have "m' ! k = m ! k" if "j \<le> k" "k < j + n" "k < length m" for k
    using w that by (auto simp: image_write_eq nth_append)
  then have "take n (drop j m') = take n (drop j m)" if "j + n \<le> length m"
    using that len by (intro nth_equalityI) simp_all
  then show "image_read j n m' = image_read j n m" by (simp add: image_read_def len)
qed

section \<open>Growing\<close>

lemma grown_sel [simp]:
  "imagesize (grown k a) = imagesize a + k" "curIdx (grown k a) = curIdx a"
  "area_type (grown k a) = area_type a" "Area_IsNoInit (grown k a) = Area_IsNoInit a"
  "image (grown k a) = image a @ replicate k None" "grown 0 a = a" "area_it (grown k a) = area_it a"
  by (simp_all add: grown_def Area_IsNoInit_def)

lemma Area_Resize_Inr:
  assumes "sym_area s r = Inr a" and "Area_Resize r n s = Inr (ok, t)"
  shows "n > imagesize a \<and> \<not> Area_IsNoInit a \<and>
    t = (if ok then set_area r (grown (n - imagesize a) a) s else s)"
  using assms by (auto simp: Area_Resize_def grown_def Area_IsNoInit_def rbind_eq_Inr split: if_splits)

lemma Area_Resize_not_crashes:
  assumes "sym_area s r = Inr a" and "\<not> Area_IsNoInit a" and "n > imagesize a"
  shows "\<not> crashes (Area_Resize r n s)"
  using assms by (simp add: Area_Resize_def Area_IsNoInit_def crashes_rbind)

lemma grow_loop_spec:
  assumes "sym_area s r = Inr a" and "grow_loop r (imagesize a) g inc s = Inr (inc', t)"
  shows "if inc' \<le> g then t = s else t = set_area r (grown inc' a) s"
  using assms
proof (induction r "imagesize a" g inc s rule: grow_loop.induct)
  case (1 r g inc s)
  show ?case
  proof (cases "inc > g")
    case True
    then obtain ok u where u: "Area_Resize r (imagesize a + inc) s = Inr (ok, u)"
      and rest: "(if ok then Inr (inc, u) else grow_loop r (imagesize a) g (inc div 2) u) = Inr (inc', t)"
      using "1.prems"(2) by (subst (asm) grow_loop.simps) (auto elim!: rbind_InrE split: prod.splits)
    note res = Area_Resize_Inr [OF "1.prems"(1) u]
    show ?thesis
    proof (cases ok)
      case False
      then have "u = s" using res by simp
      then show ?thesis using "1.hyps" [OF True u] False rest "1.prems"(1) by simp
    qed (use res rest True in auto)
  next
    case False
    then show ?thesis using "1.prems"(2) by (subst (asm) grow_loop.simps) auto
  qed
qed

lemma grow_loop_not_crashes:
  assumes "sym_area s r = Inr a" and "\<not> Area_IsNoInit a"
  shows "\<not> crashes (grow_loop r (imagesize a) g inc s)"
  using assms
proof (induction r "imagesize a" g inc s rule: grow_loop.induct)
  case (1 r g inc s)
  show ?case
  proof (subst grow_loop.simps, split if_split, intro conjI impI)
    assume "g < inc"
    show "\<not> crashes (rbind (Area_Resize r (imagesize a + inc) s)
        (\<lambda>(ok, s'). if ok then Inr (inc, s') else grow_loop r (imagesize a) g (inc div 2) s'))"
    proof (rule not_crashes_rbindI)
      show "\<not> crashes (Area_Resize r (imagesize a + inc) s)"
        using "1.prems" \<open>g < inc\<close> by (intro Area_Resize_not_crashes) auto
      show "\<not> crashes (case x of (ok, s') \<Rightarrow>
          if ok then Inr (inc, s') else grow_loop r (imagesize a) g (inc div 2) s')"
        if "Area_Resize r (imagesize a + inc) s = Inr x" for x
      proof (cases x)
        case (Pair ok u)
        then have "ok \<or> u = s" using Area_Resize_Inr [OF "1.prems"(1) that [unfolded Pair]] by auto
        then show ?thesis using Pair "1.hyps" [OF \<open>g < inc\<close> that] "1.prems" by auto
      qed
    qed
  qed simp
qed

lemma EnsureExtraSize_grow:
  assumes "sym_area s r = Inr a" and "\<not> (Area_IsNoInit a \<or> unat (curIdx a) + n \<le> imagesize a)"
  obtains inc where "Area_EnsureExtraSize r n s =
    rbind (rassert (gPhase s = ePassOne)) (\<lambda>_.
    rbind (if imagesize a = 0 \<and> Area_IsImplicit s r then Error ErrorError ''No area defined'' s else Inr s)
      (\<lambda>u. rbind (grow_loop r (imagesize a) n inc u) (grow_rest r a n)))"
proof
  let ?inc = "if imagesize a \<noteq> 0 \<and> imagesize a < DOUBLE_UP_TO then imagesize a else GROWSIZE"
  show "Area_EnsureExtraSize r n s =
    rbind (rassert (gPhase s = ePassOne)) (\<lambda>_.
    rbind (if imagesize a = 0 \<and> Area_IsImplicit s r then Error ErrorError ''No area defined'' s else Inr s)
      (\<lambda>u. rbind (grow_loop r (imagesize a) n (if ?inc < n then n else ?inc) u) (grow_rest r a n)))"
    using assms by (simp only: Area_EnsureExtraSize_def Area_IsNoInit_def Let_def grow_rest_def rbind_Inr
        de_Morgan_disj if_False simp_thms)
qed

lemma EnsureExtraSize_grown:
  assumes a: "sym_area s r = Inr a" and run: "Area_EnsureExtraSize r n s = Inr t"
  shows "\<exists>k. same_but_errors (set_area r (grown k a) s) t
    \<and> (wf_area a \<and> \<not> Area_IsNoInit a \<longrightarrow> unat (curIdx a) + n \<le> imagesize a + k)
    \<and> (Area_IsNoInit a \<longrightarrow> k = 0)"
proof (cases "Area_IsNoInit a \<or> unat (curIdx a) + n \<le> imagesize a")
  case True
  then have "t = s" using run a by (auto simp: Area_EnsureExtraSize_def Area_IsNoInit_def split: if_splits)
  then show ?thesis using True a by (intro exI [of _ 0]) (auto simp: set_area_triv)
next
  case False
  then obtain inc where "Area_EnsureExtraSize r n s =
    rbind (rassert (gPhase s = ePassOne)) (\<lambda>_.
    rbind (if imagesize a = 0 \<and> Area_IsImplicit s r then Error ErrorError ''No area defined'' s else Inr s)
      (\<lambda>u. rbind (grow_loop r (imagesize a) n inc u) (grow_rest r a n)))"
    using EnsureExtraSize_grow [OF a] by blast
  with run have "rbind (rassert (gPhase s = ePassOne)) (\<lambda>_.
    rbind (if imagesize a = 0 \<and> Area_IsImplicit s r then Error ErrorError ''No area defined'' s else Inr s)
      (\<lambda>u. rbind (grow_loop r (imagesize a) n inc u) (grow_rest r a n))) = Inr t"
    by (simp only:)
  then obtain u inc' v where "(if imagesize a = 0 \<and> Area_IsImplicit s r
        then Error ErrorError ''No area defined'' s else Inr s) = Inr u"
    and inc: "grow_loop r (imagesize a) n inc u = Inr (inc', v)"
    and fin: "grow_rest r a n (inc', v) = Inr t"
    by (auto elim!: rbind_InrE)
  then have u: "same_but_errors s u" by (auto dest: Error_same split: if_splits)
  have au: "sym_area u r = Inr a" using a u by (simp add: sym_area_same)
  have v: "if inc' \<le> n then v = u else v = set_area r (grown inc' a) u"
    using grow_loop_spec [OF au inc] .
  have cur: "wf_area a \<Longrightarrow> unat (curIdx a) \<le> imagesize a" using False by (auto simp: wf_area_def)
  show ?thesis
  proof (cases "inc' \<le> n")
    case True
    then obtain ok w where "Area_Resize r (imagesize a + n) u = Inr (ok, w)"
        "(if ok then Inr w else Error_OutOfMem w) = Inr t"
      using fin v by (auto simp: grow_rest_def elim!: rbind_InrE)
    then have "t = set_area r (grown n a) u"
      using Area_Resize_Inr [OF au] by (fastforce simp: Error_OutOfMem_def Error_Abort_def split: if_splits)
    then show ?thesis using cur u False by (intro exI [of _ n]) (auto intro: same_set_area)
  next
    case False
    then have "t = set_area r (grown inc' a) u" using v fin by (simp add: grow_rest_def)
    then show ?thesis using cur u False \<open>\<not> (Area_IsNoInit a \<or> _)\<close>
      by (intro exI [of _ inc']) (auto intro: same_set_area)
  qed
qed

lemma EnsureExtraSize_spec:
  assumes "sym_area s r = Inr a" and "Area_EnsureExtraSize r n s = Inr t" and "wf_area a"
  shows "\<exists>k. same_but_errors (set_area r (grown k a) s) t
    \<and> (\<not> Area_IsNoInit a \<longrightarrow> unat (curIdx a) + n \<le> imagesize a + k)
    \<and> (Area_IsNoInit a \<longrightarrow> k = 0)"
  using EnsureExtraSize_grown [OF assms(1,2)] assms(3) by blast

lemma EnsureExtraSize_not_crashes:
  assumes a: "sym_area s r = Inr a" and wf: "wf_area a"
    and "gPhase s = ePassOne \<or> Area_IsNoInit a \<or> unat (curIdx a) + n \<le> imagesize a"
  shows "\<not> crashes (Area_EnsureExtraSize r n s)"
proof (cases "Area_IsNoInit a \<or> unat (curIdx a) + n \<le> imagesize a")
  case True
  then show ?thesis using a by (auto simp: Area_EnsureExtraSize_def Area_IsNoInit_def)
next
  case False
  then have n: "0 < n" using wf by (auto simp: wf_area_def)
  have loop: "\<not> crashes (grow_loop r (imagesize a) n inc u)" if "same_but_errors s u" for u inc
    using a False that by (intro grow_loop_not_crashes) (auto simp: sym_area_same)
  have resize: "\<not> crashes (Area_Resize r (imagesize a + n) v)"
    if "same_but_errors s u" "grow_loop r (imagesize a) n inc u = Inr (inc', v)" "inc' \<le> n" for u v inc inc'
    using grow_loop_spec [OF _ that(2)] a False that(1,3) n
    by (intro Area_Resize_not_crashes [of _ _ a]) (auto simp: sym_area_same)
  have err: "same_but_errors s u" if "(if imagesize a = 0 \<and> Area_IsImplicit s r
        then Error ErrorError ''No area defined'' s else Inr s) = Inr u" for u
    using that by (auto dest: Error_same split: if_splits)
  obtain inc where "Area_EnsureExtraSize r n s =
    rbind (rassert (gPhase s = ePassOne)) (\<lambda>_.
    rbind (if imagesize a = 0 \<and> Area_IsImplicit s r then Error ErrorError ''No area defined'' s else Inr s)
      (\<lambda>u. rbind (grow_loop r (imagesize a) n inc u) (grow_rest r a n)))"
    using EnsureExtraSize_grow [OF a False] by blast
  moreover have rest: "\<not> crashes (rbind (grow_loop r (imagesize a) n inc u) (grow_rest r a n))"
    if "same_but_errors s u" for u
    using loop [OF that] resize [OF that]
    by (intro not_crashes_rbindI)
      (auto simp: grow_rest_def crashes_rbind Error_OutOfMem_def Error_Abort_def split: if_splits)
  have "\<not> crashes (rbind (if imagesize a = 0 \<and> Area_IsImplicit s r
      then Error ErrorError ''No area defined'' s else Inr s)
      (\<lambda>u. rbind (grow_loop r (imagesize a) n inc u) (grow_rest r a n)))"
    by (rule not_crashes_rbindI) (use err rest in auto)
  ultimately show ?thesis
    using False assms(3) by simp
qed

section \<open>Alignment\<close>

lemma Area_Write_Inr:
  assumes "sym_area s r = Inr a" and "Area_Write r i bs s = Inr t"
  obtains img where "image_write i bs (image a) = Some img" and "t = set_area r (a\<lparr>image := img\<rparr>) s"
  using assms by (auto simp: Area_Write_def split: option.splits)

lemma image_read_grown:
  "i + n \<le> imagesize a \<Longrightarrow> image_read i n (image (grown k a)) = image_read i n (image a)"
  by (simp add: image_read_def)

lemma same_area_type: "same_but_errors s t \<Longrightarrow> attr_type (syms t r) = attr_type (syms s r)"
  by (simp add: same_but_errorsD)

lemma Area_AlignOffset_eq:
  assumes "k < 32" and "flag (attr_type (syms s r)) SYMBOL_AREA"
  shows "Area_AlignOffset r offset (2 ^ k) msg s =
    rbind (if msg \<noteq> None \<and> offset AND (2 ^ k - 1) \<noteq> 0
           then Error ErrorWarning ''Implicit aligning unaligned %s'' s else Inr s)
      (align_move r ((offset + 2 ^ k - 1) AND - (2 ^ k)))"
  using assms pow2_test [OF assms(1)]
  by (simp add: Area_AlignOffset_def align_move_def [abs_def] Let_def)

lemma align_move_spec:
  assumes a: "sym_area s r = Inr a" and wf: "wf_area a" and run: "align_move r n s = Inr (n', t)"
  shows "n' = n \<and> (\<exists>a'. same_but_errors (set_area r a' s) t \<and> wf_area a' \<and> padded n a a')"
proof (cases "curIdx a < n")
  case False
  then show ?thesis using run a wf
    by (auto simp: align_move_def padded_def set_area_triv intro!: exI [of _ a])
next
  case True
  then have le: "unat (curIdx a) < unat n" and d: "unat (n - curIdx a) = unat n - unat (curIdx a)"
    by (simp_all add: word_less_nat_alt unat_sub_if')
  show ?thesis
  proof (cases "Area_IsNoInit a")
    case noinit: True
    then have "t = set_area r (a\<lparr>curIdx := n\<rparr>) s" "n' = n"
      using run a True by (auto simp: align_move_def)
    then show ?thesis using noinit True wf
      by (auto simp: padded_def wf_area_def Area_IsNoInit_def intro!: exI [of _ "a\<lparr>curIdx := n\<rparr>"])
  next
    case init: False
    then obtain u v b where u: "Area_EnsureExtraSize r (unat n - unat (curIdx a)) s = Inr u"
      and v: "Area_Write r (unat (curIdx a)) (replicate (unat n - unat (curIdx a)) 0) u = Inr v"
      and b: "sym_area v r = Inr b" and t: "t = set_area r (b\<lparr>curIdx := n\<rparr>) v" "n' = n"
      using run a True by (auto simp: align_move_def d elim!: rbind_InrE)
    obtain k where k: "same_but_errors (set_area r (grown k a) s) u" "unat n \<le> imagesize a + k"
      using EnsureExtraSize_spec [OF a u wf] init le by auto
    have au: "sym_area u r = Inr (grown k a)" using sym_area_same [OF k(1)] by simp
    obtain img where img: "image_write (unat (curIdx a)) (replicate (unat n - unat (curIdx a)) 0) (image (grown k a)) = Some img"
      and v': "v = set_area r ((grown k a)\<lparr>image := img\<rparr>) u"
      using Area_Write_Inr [OF au v] .
    define a' where "a' = (grown k a)\<lparr>image := img, curIdx := n\<rparr>"
    have ta: "t = set_area r a' u" using t b v' by (simp add: a'_def)
    have "wf_area a'"
      using img.store_extent [OF img] k(2) init
      by (simp add: wf_area_def a'_def Area_IsNoInit_def grown_def)
    moreover have "padded n a a'"
      using True init img.load_written [OF img] img.load_elsewhere [OF img, of 0 "unat (curIdx a)"]
        image_read_grown [of 0 "unat (curIdx a)" a k] wf
      by (simp add: padded_def a'_def wf_area_def)
    moreover have "same_but_errors (set_area r a' s) t"
      using same_set_area [OF k(1), of r a'] by (simp add: ta)
    ultimately show ?thesis using t(2) by blast
  qed
qed

lemma align_move_not_crashes:
  assumes a: "sym_area s r = Inr a" and wf: "wf_area a" and "gPhase s = ePassOne"
  shows "\<not> crashes (align_move r n s)"
proof (cases "curIdx a < n \<and> \<not> Area_IsNoInit a")
  case True
  then have d: "unat (n - curIdx a) = unat n - unat (curIdx a)"
    by (simp add: unat_sub_if' word_less_nat_alt)
  have ens: "\<not> crashes (Area_EnsureExtraSize r (unat n - unat (curIdx a)) s)"
    using EnsureExtraSize_not_crashes [OF a wf] assms(3) by simp
  have "\<exists>b. Area_Write r (unat (curIdx a)) (replicate (unat n - unat (curIdx a)) 0) u = Inr (set_area r b u)"
    if u: "Area_EnsureExtraSize r (unat n - unat (curIdx a)) s = Inr u" for u
  proof -
    obtain k where k: "same_but_errors (set_area r (grown k a) s) u" "unat n \<le> imagesize a + k"
      using EnsureExtraSize_spec [OF a u wf] True by (auto simp: word_less_nat_alt)
    have au: "sym_area u r = Inr (grown k a)" using sym_area_same [OF k(1)] by simp
    obtain img where "image_write (unat (curIdx a)) (replicate (unat n - unat (curIdx a)) 0) (image (grown k a)) = Some img"
      using img.store_total [of "unat (curIdx a)" "replicate (unat n - unat (curIdx a)) 0" "image (grown k a)"] k(2) True
      by (auto simp: word_less_nat_alt)
    then show ?thesis using au by (auto simp: Area_Write_def)
  qed
  then have w: "\<not> crashes (rbind (Area_Write r (unat (curIdx a)) (replicate (unat n - unat (curIdx a)) 0) u)
      (\<lambda>s. rbind (sym_area s r) (\<lambda>a. Inr (n, set_area r (a\<lparr>curIdx := n\<rparr>) s))))"
    if "Area_EnsureExtraSize r (unat n - unat (curIdx a)) s = Inr u" for u
    using that by fastforce
  have "\<not> crashes (rbind (Area_EnsureExtraSize r (unat n - unat (curIdx a)) s)
      (\<lambda>u. rbind (Area_Write r (unat (curIdx a)) (replicate (unat n - unat (curIdx a)) 0) u)
        (\<lambda>s. rbind (sym_area s r) (\<lambda>a. Inr (n, set_area r (a\<lparr>curIdx := n\<rparr>) s)))))"
    by (rule not_crashes_rbindI) (use ens w in auto)
  then show ?thesis
    using True a d by (simp add: align_move_def rbind_assoc)
next
  case False
  then show ?thesis using a by (auto simp: align_move_def crashes_rbind)
qed

lemma sym_area_asm_code [simp]: "sym_area (asm_code p) 0 = Inr area_code"
  by (simp add: asm_code_def sym_area_def)

lemma wf_area_code [simp]: "wf_area area_code" "\<not> Area_IsNoInit area_code"
  by (simp_all add: wf_area_def area_code_def Area_IsNoInit_def flag_def area_flag_defs)

lemma asm_code_sel [simp]:
  "gPhase (asm_code p) = p" "areaCurrentSymbol (asm_code p) = Some 0" "host_realloc (asm_code p) n"
  "attr_type (syms (asm_code p) 0) = SYMBOL_AREA"
  "sym_str (syms (asm_code p) 0) = ''code''" "oNumErrors (asm_code p) = 0"
  "oCurrentInstrType (asm_code p) = eInstrType_ARM"
  by (simp_all add: asm_code_def asm0_def)

lemma EnsureExtraSize_returns:
  assumes a: "sym_area s r = Inr a" and wf: "wf_area a" and "gPhase s = ePassOne"
    and "\<And>n. host_realloc s n" and "\<not> Area_IsImplicit s r"
  shows "\<exists>t. Area_EnsureExtraSize r n s = Inr t"
proof (cases "Area_IsNoInit a \<or> unat (curIdx a) + n \<le> imagesize a")
  case True
  then show ?thesis using a by (auto simp: Area_EnsureExtraSize_def Area_IsNoInit_def)
next
  case False
  then have n: "0 < n" using wf by (auto simp: wf_area_def)
  have granted: "Area_Resize r (imagesize a + m) s = Inr (True, set_area r (grown m a) s)" if "0 < m" for m
    using a False assms(4) that by (simp add: Area_Resize_def Area_IsNoInit_def grown_def)
  have loop: "grow_loop r (imagesize a) n inc s
      = Inr (inc, if inc > n then set_area r (grown inc a) s else s)" for inc
    using granted by (subst grow_loop.simps) simp
  obtain inc where "Area_EnsureExtraSize r n s =
    rbind (rassert (gPhase s = ePassOne)) (\<lambda>_.
    rbind (if imagesize a = 0 \<and> Area_IsImplicit s r then Error ErrorError ''No area defined'' s else Inr s)
      (\<lambda>u. rbind (grow_loop r (imagesize a) n inc u) (grow_rest r a n)))"
    using EnsureExtraSize_grow [OF a False] by blast
  then show ?thesis using assms(3,5) loop granted [OF n] by (simp add: grow_rest_def)
qed

text \<open>
  C18. Growing an area.  In pass one \<^verbatim>\<open>Area_EnsureExtraSize\<close> never fails an assertion; when it
  returns, the only changes are fresh bytes behind the image (and error counts), and the area has room
  for \<open>n\<close> bytes behind its index.  It returns whenever the host grants the memory and the area is not
  the implicit one.
\<close>

theorem Area_EnsureExtraSize_room:
  assumes "sym_area s r = Inr a" and "wf_area a" and "gPhase s = ePassOne"
  shows "\<not> crashes (Area_EnsureExtraSize r n s)
    \<and> (\<forall>t. Area_EnsureExtraSize r n s = Inr t \<longrightarrow>
         (\<exists>k. same_but_errors (set_area r (grown k a) s) t
            \<and> (Area_IsNoInit a \<or> unat (curIdx a) + n \<le> imagesize a + k)))
    \<and> ((\<forall>m. host_realloc s m) \<and> \<not> Area_IsImplicit s r \<longrightarrow> (\<exists>t. Area_EnsureExtraSize r n s = Inr t))"
  using EnsureExtraSize_not_crashes [OF assms(1,2)] EnsureExtraSize_spec [OF assms(1) _ assms(2)]
    EnsureExtraSize_returns [OF assms] assms(3)
  by blast

theorem Area_EnsureExtraSize_room_witness:
  "\<exists>t a'. Area_EnsureExtraSize 0 100 (asm_code ePassOne) = Inr t \<and> sym_area t 0 = Inr a'
     \<and> 106 \<le> imagesize a'"
proof -
  note room = Area_EnsureExtraSize_room [OF sym_area_asm_code wf_area_code(1) asm_code_sel(1), of 100]
  have "\<not> Area_IsImplicit (asm_code ePassOne) 0"
    by (simp add: Area_IsImplicit_def IMPLICIT_AREA_NAME_def)
  then obtain t where t: "Area_EnsureExtraSize 0 100 (asm_code ePassOne) = Inr t"
    using room by auto
  then obtain k where k: "same_but_errors (set_area 0 (grown k area_code) (asm_code ePassOne)) t"
      "unat (curIdx area_code) + 100 \<le> imagesize area_code + k"
    using room by auto
  have "sym_area t 0 = Inr (grown k area_code)" using sym_area_same [OF k(1)] by simp
  with t k(2) show ?thesis by (auto simp: area_code_def)
qed

text \<open>Whatever is put or aligned, only image and index of the area change.\<close>

lemma put_frame_refl [simp]: "put_frame a a"
  by (cases a) (simp add: put_frame_def)

lemma put_frame_trans: "put_frame a b \<Longrightarrow> put_frame b c \<Longrightarrow> put_frame a c"
  by (cases a; cases b; cases c) (simp add: put_frame_def)

lemma put_frame_sel:
  "put_frame a b \<Longrightarrow> area_it b = area_it a" "put_frame a b \<Longrightarrow> relocIntP b = relocIntP a"
  "put_frame a b \<Longrightarrow> area_type b = area_type a" "put_frame a b \<Longrightarrow> area_next b = area_next a"
  by (cases a; cases b; simp add: put_frame_def)+

lemma area_frame_refl: "sym_area s r = Inr a \<Longrightarrow> same_but_errors s t \<Longrightarrow> area_frame r s t"
  by (auto simp: area_frame_def set_area_triv intro!: exI [of _ a])

lemma area_frame_trans: "area_frame r s t \<Longrightarrow> area_frame r t u \<Longrightarrow> area_frame r s u"
proof -
  assume "area_frame r s t" "area_frame r t u"
  then obtain a a' b b' where 1: "sym_area s r = Inr a" "put_frame a a'" "same_but_errors (set_area r a' s) t"
    and 2: "sym_area t r = Inr b" "put_frame b b'" "same_but_errors (set_area r b' t) u"
    by (auto simp: area_frame_def)
  have "b = a'" using sym_area_same [OF 1(3)] 2(1) by simp
  moreover have "same_but_errors (set_area r b' s) u"
    using same_set_area [OF 1(3), of r b'] 2(3) by (auto intro: same_but_errors_trans)
  ultimately show "area_frame r s u" using 1 2 put_frame_trans by (auto simp: area_frame_def)
qed

lemma area_frame_set: "sym_area s r = Inr a \<Longrightarrow> put_frame a a' \<Longrightarrow> area_frame r s (set_area r a' s)"
  by (auto simp: area_frame_def)

lemma area_frameD:
  assumes "area_frame r s t"
  shows "areaCurrentSymbol t = areaCurrentSymbol s" and "gPhase t = gPhase s"
    and "oCurrentInstrType t = oCurrentInstrType s" and "attr_type (syms t q) = attr_type (syms s q)"
    and "\<exists>a a'. sym_area s r = Inr a \<and> sym_area t r = Inr a' \<and> put_frame a a'"
  using assms by (auto simp: area_frame_def same_but_errorsD sym_area_same)

lemma EnsureExtraSize_frame:
  assumes "Area_EnsureExtraSize r n s = Inr t"
  shows "area_frame r s t"
proof -
  obtain a where a: "sym_area s r = Inr a" using assms by (auto simp: Area_EnsureExtraSize_def elim: rbind_InrE)
  obtain k where "same_but_errors (set_area r (grown k a) s) t" using EnsureExtraSize_grown [OF a assms] by blast
  moreover have "put_frame a (grown k a)"
    by (cases a) (simp add: put_frame_def grown_def)
  ultimately show ?thesis using a by (auto simp: area_frame_def)
qed

lemma Area_Write_frame: "Area_Write r i bs s = Inr t \<Longrightarrow> area_frame r s t"
proof -
  assume "Area_Write r i bs s = Inr t"
  then obtain a img where "sym_area s r = Inr a" "t = set_area r (a\<lparr>image := img\<rparr>) s"
    by (auto simp: Area_Write_def elim!: rbind_InrE split: option.splits)
  moreover have "put_frame a (a\<lparr>image := img\<rparr>)"
    by (cases a) (simp add: put_frame_def)
  ultimately show ?thesis by (auto intro: area_frame_set)
qed

lemma AlignOffset_correct:
  assumes "sym_area s r = Inr a" and "wf_area a" and "gPhase s = ePassOne"
    and "flag (attr_type (syms s r)) SYMBOL_AREA" and "k < 32" and "unat offset + 2 ^ k \<le> 2 ^ 32"
  shows "\<not> crashes (Area_AlignOffset r offset (2 ^ k) msg s)
    \<and> (\<forall>n t. Area_AlignOffset r offset (2 ^ k) msg s = Inr (n, t) \<longrightarrow>
         2 ^ k dvd unat n \<and> unat offset \<le> unat n \<and> unat n < unat offset + 2 ^ k
         \<and> (\<exists>a'. same_but_errors (set_area r a' s) t \<and> wf_area a' \<and> padded n a a'))"
proof -
  define n where "n = (offset + 2 ^ k - 1) AND - (2 ^ k)"
  have "unat n = (unat offset + 2 ^ k - 1) div 2 ^ k * 2 ^ k"
    using unat_align_up assms(5,6) by (simp add: n_def)
  then have num: "2 ^ k dvd unat n \<and> unat offset \<le> unat n \<and> unat n < unat offset + 2 ^ k"
    using round_up_nat [of "2 ^ k" "unat offset"] by simp
  have "Error ErrorWarning m s = Inr s" for m
    using assms(3) by (simp add: Error_def Error_SuppressMsg_def)
  then have "Area_AlignOffset r offset (2 ^ k) msg s = align_move r n s"
    using Area_AlignOffset_eq [OF assms(5,4)] by (simp add: n_def)
  then show ?thesis
    using align_move_spec [OF assms(1,2), of n] align_move_not_crashes [OF assms(1-3), of n] num by auto
qed

text \<open>
  C19. Alignment.  In pass one \<^verbatim>\<open>Area_AlignOffset\<close> on a power of two never fails an assertion and never
  writes outside of the image; it returns the least multiple of the alignment that is not below the
  offset, and moves the index there if that is ahead, filling the gap with zero bytes and changing
  nothing before it.
\<close>

theorem Area_AlignOffset_spec:
  assumes "sym_area s r = Inr a" and "wf_area a" and "gPhase s = ePassOne"
    and "flag (attr_type (syms s r)) SYMBOL_AREA" and "k < 32" and "unat offset + 2 ^ k \<le> 2 ^ 32"
  shows "\<not> crashes (Area_AlignOffset r offset (2 ^ k) msg s)
    \<and> (\<forall>n t. Area_AlignOffset r offset (2 ^ k) msg s = Inr (n, t) \<longrightarrow>
         2 ^ k dvd unat n \<and> unat offset \<le> unat n \<and> unat n < unat offset + 2 ^ k
         \<and> (\<exists>a'. same_but_errors (set_area r a' s) t \<and> wf_area a' \<and> padded n a a'))"
  by (rule AlignOffset_correct [OF assms])

theorem Area_AlignOffset_spec_witness:
  "\<not> crashes (Area_AlignOffset 0 6 (2 ^ 2) None (asm_code ePassOne))
   \<and> returned (rbind (Area_AlignOffset 0 6 (2 ^ 2) None (asm_code ePassOne)) (\<lambda>(n, _). Inr n :: u32 outcome)) = Some 8"
proof
  show "\<not> crashes (Area_AlignOffset 0 6 (2 ^ 2) None (asm_code ePassOne))"
    using Area_AlignOffset_spec [of "asm_code ePassOne" 0 area_code 2 6 None]
    by (simp add: flag_def symbol_flag_defs)
  show "returned (rbind (Area_AlignOffset 0 6 (2 ^ 2) None (asm_code ePassOne)) (\<lambda>(n, _). Inr n :: u32 outcome)) = Some 8"
    by code_simp
qed

section \<open>The list of areas\<close>

lemma area_chain_lseg: "area_chain n s p = Inr rs \<longleftrightarrow> lseg s p rs None \<and> length rs \<le> n"
proof (induction n s p arbitrary: rs rule: area_chain.induct)
  case (1 fuel s)
  then show ?case by (cases rs) auto
next
  case (2 s r)
  then show ?case by (cases rs) auto
next
  case (3 fuel s r)
  then show ?case
  proof (cases rs)
    case (Cons q qs)
    then show ?thesis using 3
      by (cases "sym_area s r") (auto simp: rbind_eq_Inr)
  qed (auto simp: rbind_eq_Inr)
qed

lemma lseg_append: "lseg s p (xs @ ys) q \<longleftrightarrow> (\<exists>m. lseg s p xs m \<and> lseg s m ys q)"
  by (induction xs arbitrary: p) auto

lemma lseg_unique: "lseg s p xs None \<Longrightarrow> lseg s p ys None \<Longrightarrow> xs = ys"
proof (induction xs arbitrary: p ys)
  case Nil
  then show ?case by (cases ys) auto
next
  case (Cons x xs)
  then show ?case by (cases ys) auto
qed

lemma lseg_distinct: "lseg s p rs None \<Longrightarrow> distinct rs"
proof (induction rs arbitrary: p)
  case (Cons r rs)
  then obtain a where a: "sym_area s r = Inr a" "lseg s (area_next a) rs None" by auto
  have "r \<notin> set rs"
  proof
    assume "r \<in> set rs"
    then obtain xs ys where rs: "rs = xs @ r # ys" by (auto dest: split_list)
    then have "lseg s (Some r) (r # ys) None" using a(2) by (auto simp: lseg_append)
    moreover have "lseg s (Some r) (r # rs) None" using a by simp
    ultimately show False using lseg_unique [of s "Some r" "r # ys" "r # rs"] rs by auto
  qed
  then show ?case using Cons by auto
qed simp

lemma lseg_set_area:
  "r \<notin> set rs \<Longrightarrow> lseg (set_area r a s) p rs q = lseg s p rs q"
  by (induction rs arbitrary: p) auto

lemma revert_loop_lseg:
  assumes "lseg s (Some b) pre (Some h)" and "lseg s p rs None" and "length rs \<le> n"
    and "h \<notin> set rs" and "set rs \<inter> set pre = {}"
  shows "\<exists>c t. revert_loop n b p s = Inr (c, t) \<and> lseg t (Some c) (rev rs @ pre) (Some h)
    \<and> sym_area t h = sym_area s h"
  using assms
proof (induction rs arbitrary: n b p s pre)
  case Nil
  then show ?case by (cases n) auto
next
  case (Cons r rs)
  obtain a where p: "p = Some r" and a: "sym_area s r = Inr a" "lseg s (area_next a) rs None"
    using Cons.prems(2) by auto
  obtain m where n: "n = Suc m" using Cons.prems(3) by (cases n) auto
  have r: "r \<notin> set rs" using lseg_distinct [OF Cons.prems(2)] by simp
  define s1 where "s1 = set_area r (a\<lparr>area_next := Some b\<rparr>) s"
  have "lseg s1 (Some r) (r # pre) (Some h)"
    using Cons.prems(1,5) by (simp add: s1_def lseg_set_area)
  moreover have "lseg s1 (area_next a) rs None" using a(2) r by (simp add: s1_def lseg_set_area)
  ultimately obtain c t where "revert_loop m r (area_next a) s1 = Inr (c, t)"
      "lseg t (Some c) (rev rs @ r # pre) (Some h)" "sym_area t h = sym_area s1 h"
    using Cons.IH [of s1 r "r # pre" "area_next a" m] Cons.prems(3-5) r n by auto
  moreover have "sym_area s1 h = sym_area s h" using Cons.prems(4) by (auto simp: s1_def)
  ultimately show ?case using p n a(1) by (simp add: s1_def)
qed

text \<open>
  Before output the list of areas is reversed in place.  If the list is \<open>rs\<close>, which is not empty,
  the reversal returns and the list is then \<open>rev rs\<close>; \<open>n\<close> is any bound on its length.
\<close>

theorem Area_RevertList_rev:
  assumes "area_chain n s (areaHeadSymbol s) = Inr rs" and "rs \<noteq> []"
  shows "\<exists>t. Area_RevertList n s = Inr t \<and> area_chain n t (areaHeadSymbol t) = Inr (rev rs)"
proof -
  obtain h qs where rs: "rs = h # qs" using assms(2) by (cases rs) auto
  obtain a where hd: "areaHeadSymbol s = Some h" and a: "sym_area s h = Inr a" "lseg s (area_next a) qs None"
    and len: "length qs \<le> n" and h: "h \<notin> set qs"
    using assms(1) lseg_distinct [of s "areaHeadSymbol s" rs] by (auto simp: rs area_chain_lseg)
  obtain c t where run: "revert_loop n h (area_next a) s = Inr (c, t)" "lseg t (Some c) (rev qs) (Some h)"
      "sym_area t h = Inr a"
    using revert_loop_lseg [of s h "[]" h "area_next a" qs n] a len h by auto
  define u where "u = (set_area h (a\<lparr>area_next := None\<rparr>) t)\<lparr>areaHeadSymbol := Some c\<rparr>"
  have "lseg u p xs q = lseg (set_area h (a\<lparr>area_next := None\<rparr>) t) p xs q" for p xs q
    by (induction xs arbitrary: p) (simp_all add: u_def sym_area_def)
  moreover have "sym_area u h = Inr (a\<lparr>area_next := None\<rparr>)"
    by (simp add: u_def sym_area_def set_area_def upd_sym_def)
  ultimately have "lseg u (Some c) (rev qs @ [h]) None"
    using run(2) h by (simp add: lseg_append lseg_set_area)
  then have "area_chain n u (areaHeadSymbol u) = Inr (rev rs)"
    using assms(1) by (simp add: area_chain_lseg u_def rs)
  moreover have "Area_RevertList n s = Inr u"
    using hd a(1) run by (simp add: Area_RevertList_def u_def)
  ultimately show ?thesis by blast
qed

theorem Area_RevertList_rev_witness:
  "\<exists>t. Area_RevertList 5 (asm_code eOutput) = Inr t \<and> area_chain 5 t (areaHeadSymbol t) = Inr [0]"
proof -
  have "areaHeadSymbol (asm_code eOutput) = Some 0" and "area_next area_code = None"
    by (simp_all add: asm_code_def area_code_def)
  then have "area_chain 5 (asm_code eOutput) (areaHeadSymbol (asm_code eOutput)) = Inr [0]"
    by (simp add: area_chain_lseg)
  from Area_RevertList_rev [OF this] show ?thesis by simp
qed

end
