(* ===== verification/Target_State.thy ===== *)
theory Target_State
  imports Areas
begin

text \<open>
  The instruction set state of \<^verbatim>\<open>state.c\<close> (ARM, Thumb, ThumbEE and the accepted syntax) with its
  directives \<^verbatim>\<open>ARM\<close>, \<^verbatim>\<open>CODE16\<close>, \<^verbatim>\<open>THUMB\<close> and \<^verbatim>\<open>THUMBX\<close>, and the feature queries and checks of
  \<^verbatim>\<open>targetcpu.c\<close> they use.
\<close>

section \<open>Features of the target\<close>

definition "kCPUExt_v1 = (0x0000000001 :: u64)"
definition "kCPUExt_v2 = (0x0000000002 :: u64)"
definition "kCPUExt_v3 = (0x0000000008 :: u64)"
definition "kCPUExt_v4 = (0x0000000020 :: u64)"
definition "kCPUExt_v4T = (0x0000000040 :: u64)"
definition "kCPUExt_v5 = (0x0000000080 :: u64)"
definition "kCPUExt_v5T = (0x0000000100 :: u64)"
definition "kCPUExt_v6 = (0x0000001000 :: u64)"
definition "kCPUExt_v6T2 = (0x0000004000 :: u64)"
definition "kCPUExt_v7A = (0x0000008000 :: u64)"
definition "kCPUExt_v7R = (0x0000010000 :: u64)"
definition "kCPUExt_ThumbEE = (0x0010000000 :: u64)"
definition "kCPUExt_v8 = (0x0020000000 :: u64)"
definition "kCPUExt_v8A = (0x0040000000 :: u64)"

definition Target_GetCPUFeatures :: "asm \<Rightarrow> u64" where
  "Target_GetCPUFeatures s = oTarget_CPUFeatures (targetVars s)"

definition Target_GetFPUFeatures :: "asm \<Rightarrow> u32" where
  "Target_GetFPUFeatures s = oTarget_FPUFeatures (targetVars s)"

definition Target_GetARMISAVersion :: "asm \<Rightarrow> nat" where
  "Target_GetARMISAVersion s =
     (let features = Target_GetCPUFeatures s; has = (\<lambda>m. features AND m \<noteq> 0)
      in if \<not> has kCPUExt_v1 then 0
         else if has (kCPUExt_v8 OR kCPUExt_v8A) then 8
         else if has (kCPUExt_v7A OR kCPUExt_v7R) then 7
         else if has kCPUExt_v6 then 6
         else if has kCPUExt_v5 then 5
         else if has kCPUExt_v4 then 4
         else if has kCPUExt_v3 then 3
         else if has kCPUExt_v2 then 2
         else 1)"

definition Target_GetThumbISAVersion :: "asm \<Rightarrow> nat" where
  "Target_GetThumbISAVersion s =
     (let features = Target_GetCPUFeatures s; has = (\<lambda>m. features AND m \<noteq> 0)
      in if has kCPUExt_v6T2 then 4
         else if has kCPUExt_v6 then 3
         else if has kCPUExt_v5T then 2
         else if has kCPUExt_v4T then 1
         else 0)"

definition Target_CheckCPUFeatureDetail :: "u64 \<Rightarrow> string option \<Rightarrow> asm \<Rightarrow> (bool \<times> asm) outcome" where
  "Target_CheckCPUFeatureDetail features what s =
     (let missingFeature = (Target_GetCPUFeatures s AND features \<noteq> features)
      in rbind
           (if what \<noteq> None \<and> missingFeature
            then if oTarget_Device (targetVars s)
                 then Error ErrorWarning ''%s is not supported on selected device %s (core %s, architecture %s)'' s
                 else if oTarget_isArch (targetVars s)
                 then Error ErrorWarning ''%s is not supported on selected architecture %s'' s
                 else Error ErrorWarning ''%s is not supported on selected core %s (architecture %s)'' s
            else Inr s)
           (\<lambda>s. Inr (\<not> missingFeature, s)))"

definition Target_CheckCPUFeature :: "u64 \<Rightarrow> bool \<Rightarrow> asm \<Rightarrow> (bool \<times> asm) outcome" where
  "Target_CheckCPUFeature features warn s =
     Target_CheckCPUFeatureDetail features (if warn then Some ''Instruction'' else None) s"

definition Target_CheckFPUFeature :: "u32 \<Rightarrow> bool \<Rightarrow> asm \<Rightarrow> (bool \<times> asm) outcome" where
  "Target_CheckFPUFeature features warn s =
     (let missingFeature = (Target_GetFPUFeatures s AND features \<noteq> features)
      in rbind
           (if warn \<and> missingFeature
            then Error ErrorWarning ''Instruction is not supported on selected FPU %s'' s else Inr s)
           (\<lambda>s. Inr (\<not> missingFeature, s)))"

section \<open>The state\<close>

definition State_Set :: "SyntaxInstrState_e \<Rightarrow> asm \<Rightarrow> asm" where
  "State_Set t s = s\<lparr>oDefaultSyntaxInstrType := t\<rparr>"

definition State_Init :: "SyntaxInstrState_e \<Rightarrow> asm \<Rightarrow> asm outcome" where
  "State_Init t s =
     (let check = (\<lambda>features what s.
            rbind (Target_CheckCPUFeatureDetail features (Some what) s) (\<lambda>(_, s). Inr s))
      in case t of
           eState_Code32 \<Rightarrow>
             check kCPUExt_v1 ''ARM instruction set''
               (s\<lparr>oCurrentInstrType := eInstrType_ARM, oCurrentSyntax := eSyntax_Both\<rparr>)
         | eState_Code16 \<Rightarrow>
             check kCPUExt_v4T ''Thumb instruction set''
               (s\<lparr>oCurrentInstrType := eInstrType_Thumb, oCurrentSyntax := eSyntax_PreUALOnly\<rparr>)
         | eState_Thumb \<Rightarrow>
             check kCPUExt_v4T ''Thumb instruction set''
               (s\<lparr>oCurrentInstrType := eInstrType_Thumb, oCurrentSyntax := eSyntax_UALOnly\<rparr>)
         | eState_ThumbEE \<Rightarrow>
             check kCPUExt_ThumbEE ''ThumbEE instruction set''
               (s\<lparr>oCurrentInstrType := eInstrType_ThumbEE, oCurrentSyntax := eSyntax_UALOnly\<rparr>))"

definition State_PrepareForPhase :: "Phase_e \<Rightarrow> asm \<Rightarrow> asm outcome" where
  "State_PrepareForPhase p s =
     (case p of
        ePassOne \<Rightarrow> State_Init (oDefaultSyntaxInstrType s) s
      | ePassTwo \<Rightarrow> State_Init (oDefaultSyntaxInstrType s) s
      | _ \<Rightarrow> Inr s)"

definition State_GetSyntax :: "asm \<Rightarrow> Syntax_e" where
  "State_GetSyntax s = oCurrentSyntax s"

definition State_GetInstrType :: "asm \<Rightarrow> InstrType_e" where
  "State_GetInstrType s = oCurrentInstrType s"

text \<open>The directives: set the state, then align the current area.\<close>

definition state_directive :: "SyntaxInstrState_e \<Rightarrow> u32 \<Rightarrow> asm \<Rightarrow> (bool \<times> asm) outcome" where
  "state_directive t alignValue s =
     rbind (State_Init t s) (\<lambda>s.
     rbind (cur_sym s) (\<lambda>r.
     rbind (Area_AlignArea r alignValue None s) (\<lambda>(_, s). Inr (False, s))))"

definition c_code16 :: "asm \<Rightarrow> (bool \<times> asm) outcome" where
  "c_code16 = state_directive eState_Code16 2"

definition c_thumb :: "asm \<Rightarrow> (bool \<times> asm) outcome" where
  "c_thumb = state_directive eState_Thumb 2"

definition c_thumbx :: "asm \<Rightarrow> (bool \<times> asm) outcome" where
  "c_thumbx = state_directive eState_ThumbEE 2"

definition c_code32 :: "asm \<Rightarrow> (bool \<times> asm) outcome" where
  "c_code32 = state_directive eState_Code32 4"

text \<open>
  A source line that holds one of the directives, by the mnemonic under which \<^verbatim>\<open>decode.c\<close> has it, as
  a labelled step, and the steps of a sequence of such lines.
\<close>

fun state_mnemonic :: "string \<Rightarrow> (asm \<Rightarrow> (bool \<times> asm) outcome) option" where
  "state_mnemonic name =
     (if name = ''ARM'' \<or> name = ''CODE32'' then Some c_code32
      else if name = ''CODE16'' then Some c_code16
      else if name = ''THUMB'' then Some c_thumb
      else if name = ''THUMBX'' then Some c_thumbx
      else None)"

inductive state_steps :: "string list \<Rightarrow> asm \<Rightarrow> asm \<Rightarrow> bool" where
  none: "state_steps [] s s"
| snoc: "state_steps names s t \<Longrightarrow> state_mnemonic name = Some c \<Longrightarrow> c t = Inr (b, u) \<Longrightarrow>
     state_steps (names @ [name]) s u"

text \<open>
  The documented meaning of the directives (the instruction set, the syntax and the alignment of the
  instructions) and of the setting of the command line.
\<close>

definition directive_meaning :: "(string \<times> InstrType_e \<times> Syntax_e \<times> nat) list" where
  "directive_meaning =
     [(''ARM'', eInstrType_ARM, eSyntax_Both, 4), (''CODE32'', eInstrType_ARM, eSyntax_Both, 4),
      (''CODE16'', eInstrType_Thumb, eSyntax_PreUALOnly, 2), (''THUMB'', eInstrType_Thumb, eSyntax_UALOnly, 2),
      (''THUMBX'', eInstrType_ThumbEE, eSyntax_UALOnly, 2)]"

fun state_meaning :: "SyntaxInstrState_e \<Rightarrow> InstrType_e \<times> Syntax_e" where
  "state_meaning eState_Code32 = (eInstrType_ARM, eSyntax_Both)"
| "state_meaning eState_Code16 = (eInstrType_Thumb, eSyntax_PreUALOnly)"
| "state_meaning eState_Thumb = (eInstrType_Thumb, eSyntax_UALOnly)"
| "state_meaning eState_ThumbEE = (eInstrType_ThumbEE, eSyntax_UALOnly)"

section \<open>Sequences of directives\<close>

lemma CheckCPUFeatureDetail_same:
  "Target_CheckCPUFeatureDetail features what s = Inr (b, t) \<Longrightarrow>
     same_but_errors s t \<and> b = (Target_GetCPUFeatures s AND features = features)"
  by (auto simp: Target_CheckCPUFeatureDetail_def Let_def elim!: rbind_InrE split: if_splits dest: Error_same)

lemma CheckCPUFeatureDetail_not_crashes [simp]:
  "\<not> crashes (Target_CheckCPUFeatureDetail features what s)"
  by (simp add: Target_CheckCPUFeatureDetail_def Let_def crashes_rbind)

lemma State_Init_form:
  obtains features what where
    "State_Init ty s = rbind (Target_CheckCPUFeatureDetail features (Some what)
       (s\<lparr>oCurrentInstrType := fst (state_meaning ty), oCurrentSyntax := snd (state_meaning ty)\<rparr>))
       (\<lambda>(_, s). Inr s)"
  by (cases ty; simp add: State_Init_def Let_def; blast)

lemma State_Init_spec:
  assumes "State_Init ty s = Inr t"
  shows "same_but_errors (s\<lparr>oCurrentInstrType := fst (state_meaning ty), oCurrentSyntax := snd (state_meaning ty)\<rparr>) t"
proof -
  obtain features what where
    "State_Init ty s = rbind (Target_CheckCPUFeatureDetail features (Some what)
       (s\<lparr>oCurrentInstrType := fst (state_meaning ty), oCurrentSyntax := snd (state_meaning ty)\<rparr>)) (\<lambda>(_, s). Inr s)"
    using State_Init_form [of ty s] by metis
  with assms have "rbind (Target_CheckCPUFeatureDetail features (Some what)
       (s\<lparr>oCurrentInstrType := fst (state_meaning ty), oCurrentSyntax := snd (state_meaning ty)\<rparr>)) (\<lambda>(_, s). Inr s) = Inr t"
    by simp
  then show ?thesis
    using CheckCPUFeatureDetail_same by (auto elim!: rbind_InrE)
qed

lemma State_Init_not_crashes [simp]: "\<not> crashes (State_Init ty s)"
  using State_Init_form [of ty s] by (metis (no_types, lifting) CheckCPUFeatureDetail_not_crashes
      case_prod_beta crashes_Inr not_crashes_rbindI)

text \<open>
  A directive selects its instruction set and syntax and aligns the current area; everything the later
  directives rely on stays.
\<close>

definition directive_ready :: "nat \<Rightarrow> Area \<Rightarrow> asm \<Rightarrow> bool" where
  "directive_ready r a s \<longleftrightarrow>
     areaCurrentSymbol s = Some r \<and> sym_area s r = Inr a \<and> wf_area a \<and> gPhase s = ePassOne
     \<and> flag (attr_type (syms s r)) SYMBOL_AREA \<and> unat (curIdx a) + 4 \<le> 2 ^ 32"

lemma state_directive_spec:
  assumes ready: "directive_ready r a s" and "k = 1 \<or> k = 2"
    and run: "state_directive ty (2 ^ k) s = Inr (b, t)"
  obtains a' where "directive_ready r a' t" and "2 ^ k dvd unat (curIdx a')"
    and "unat (curIdx a) \<le> unat (curIdx a')" and "unat (curIdx a') < unat (curIdx a) + 2 ^ k"
    and "(State_GetInstrType t, State_GetSyntax t) = state_meaning ty"
    and "oDefaultSyntaxInstrType t = oDefaultSyntaxInstrType s"
proof -
  note R = ready [unfolded directive_ready_def]
  obtain u r' n where u: "State_Init ty s = Inr u" and r': "cur_sym u = Inr r'"
    and al: "Area_AlignArea r' (2 ^ k) None u = Inr (n, t)"
    using run by (auto simp: state_directive_def elim!: rbind_InrE)
  note same = State_Init_spec [OF u]
  note D = same_but_errorsD [OF same]
  have [simp]: "r' = r" using r' R by (simp add: cur_sym_def D)
  have au: "sym_area u r = Inr a" using sym_area_same [OF same] R by (simp add: sym_area_def)
  have "unat (curIdx a) + 2 ^ k \<le> 2 ^ 32" using assms(2) R by auto
  moreover have "Area_AlignOffset r (curIdx a) (2 ^ k) None u = Inr (n, t)"
    using al au by (simp add: Area_AlignArea_def)
  moreover have "gPhase u = ePassOne" "flag (attr_type (syms u r)) SYMBOL_AREA" "k < 32"
    using R assms(2) by (auto simp: D)
  ultimately obtain a' where n: "2 ^ k dvd unat n" "unat (curIdx a) \<le> unat n" "unat n < unat (curIdx a) + 2 ^ k"
    and a': "same_but_errors (set_area r a' u) t" "wf_area a'" "padded n a a'"
    using AlignOffset_correct [OF au _, of k "curIdx a" None] R by blast
  note D' = same_but_errorsD [OF a'(1)]
  have idx: "curIdx a' = n"
    using a'(3) n(2) by (auto simp: padded_def word_less_nat_alt word_unat_eq_iff split: if_splits)
  have "unat n + 4 \<le> 2 ^ 32"
  proof -
    obtain q where q: "unat n = 2 ^ k * q" using n(1) by blast
    have "unat n < 2 ^ k + (2 ^ 32 - 4)" using n(3) R by simp
    with q assms(2) show ?thesis by (elim disjE) simp_all
  qed
  moreover have "sym_area t r = Inr a'" using sym_area_same [OF a'(1)] by simp
  ultimately have "directive_ready r a' t"
    using R a'(2) idx by (simp add: directive_ready_def D D' set_area_def upd_sym_def)
  moreover have "(State_GetInstrType t, State_GetSyntax t) = state_meaning ty"
    "oDefaultSyntaxInstrType t = oDefaultSyntaxInstrType s"
    by (simp_all add: State_GetInstrType_def State_GetSyntax_def D D' set_area_def upd_sym_def)
  ultimately show ?thesis using that idx n by blast
qed

lemma state_mnemonic_directive:
  assumes "state_mnemonic name = Some c"
  obtains ty k where "c = state_directive ty (2 ^ k)" and "k = 1 \<or> k = (2::nat)"
    and "map_of directive_meaning name = Some (fst (state_meaning ty), snd (state_meaning ty), 2 ^ k)"
proof -
  consider "name = ''ARM'' \<or> name = ''CODE32''" | "name = ''CODE16''" | "name = ''THUMB''" | "name = ''THUMBX''"
    using assms by (auto split: if_splits)
  then show ?thesis
  proof cases
    case 1
    then show ?thesis using assms that [of eState_Code32 2] by (auto simp: directive_meaning_def c_code32_def)
  next
    case 2
    then show ?thesis using assms that [of eState_Code16 1] by (simp add: directive_meaning_def c_code16_def)
  next
    case 3
    then show ?thesis using assms that [of eState_Thumb 1] by (simp add: directive_meaning_def c_thumb_def)
  next
    case 4
    then show ?thesis using assms that [of eState_ThumbEE 1] by (simp add: directive_meaning_def c_thumbx_def)
  qed
qed

text \<open>
  A sequence of them: the last one decides, and all the padding together stays below the next word.
\<close>

lemma padded_again:
  assumes "(i::nat) \<le> 4 * q" and "2 ^ k dvd j" and "j < i + 2 ^ k" and "k = 1 \<or> k = (2::nat)"
  shows "j \<le> 4 * q"
proof -
  obtain m where "j = 2 ^ k * m" using assms(2) by blast
  then show ?thesis using assms(1,3,4) by auto
qed

lemma state_steps_spec:
  assumes "state_steps names s t" and "directive_ready r a s" and "unat (curIdx a) \<le> 4 * q"
  shows "\<exists>a'. directive_ready r a' t \<and> unat (curIdx a) \<le> unat (curIdx a') \<and> unat (curIdx a') \<le> 4 * q
    \<and> oDefaultSyntaxInstrType t = oDefaultSyntaxInstrType s
    \<and> (names \<noteq> [] \<longrightarrow> (\<exists>al. map_of directive_meaning (last names) =
           Some (State_GetInstrType t, State_GetSyntax t, al) \<and> al dvd unat (curIdx a')))"
  using assms
proof (induction rule: state_steps.induct)
  case (none s)
  then show ?case by auto
next
  case (snoc names s t name c b u)
  then obtain a1 where a1: "directive_ready r a1 t" "unat (curIdx a) \<le> unat (curIdx a1)"
    "unat (curIdx a1) \<le> 4 * q" "oDefaultSyntaxInstrType t = oDefaultSyntaxInstrType s" by blast
  obtain ty k where c: "c = state_directive ty (2 ^ k)" and k: "k = 1 \<or> k = 2"
    and m: "map_of directive_meaning name = Some (fst (state_meaning ty), snd (state_meaning ty), 2 ^ k)"
    using state_mnemonic_directive [OF snoc.hyps(2)] by blast
  from snoc.hyps(3) c have run: "state_directive ty (2 ^ k) t = Inr (b, u)" by simp
  obtain a2 where a2: "directive_ready r a2 u" "2 ^ k dvd unat (curIdx a2)"
    "unat (curIdx a1) \<le> unat (curIdx a2)" "unat (curIdx a2) < unat (curIdx a1) + 2 ^ k"
    "(State_GetInstrType u, State_GetSyntax u) = state_meaning ty"
    "oDefaultSyntaxInstrType u = oDefaultSyntaxInstrType t"
    by (rule state_directive_spec [OF a1(1) k run])
  have "map_of directive_meaning name = Some (State_GetInstrType u, State_GetSyntax u, 2 ^ k)"
    using m a2(5) by (metis fst_conv snd_conv)
  then show ?case
    using a1 a2 padded_again [OF a1(3) a2(2,4) k] by (intro exI [of _ a2]) auto
qed

text \<open>
  C20. Any sequence of the directives \<^verbatim>\<open>ARM\<close>, \<^verbatim>\<open>CODE32\<close>, \<^verbatim>\<open>CODE16\<close>, \<^verbatim>\<open>THUMB\<close> and \<^verbatim>\<open>THUMBX\<close>, in pass
  one and on a well-formed current area: the instruction set and the syntax afterwards are the documented ones
  of the last directive, the index of the area is aligned for its instructions, all the directives together
  have inserted less than four bytes, and the next pass begins in the state selected on the command line
  whatever the directives were.
\<close>

theorem state_directives_last:
  assumes steps: "state_steps names s t" and "names \<noteq> []" and "areaCurrentSymbol s = Some r"
    and "sym_area s r = Inr a" and "wf_area a" and "gPhase s = ePassOne"
    and "flag (attr_type (syms s r)) SYMBOL_AREA" and bound: "unat (curIdx a) + 4 \<le> 2 ^ 32"
  shows "(\<exists>al a'. map_of directive_meaning (last names) = Some (State_GetInstrType t, State_GetSyntax t, al)
      \<and> sym_area t r = Inr a' \<and> wf_area a' \<and> al dvd unat (curIdx a')
      \<and> unat (curIdx a) \<le> unat (curIdx a') \<and> unat (curIdx a') < unat (curIdx a) + 4)
    \<and> (\<forall>u. State_PrepareForPhase ePassTwo t = Inr u \<longrightarrow>
      (State_GetInstrType u, State_GetSyntax u) = state_meaning (oDefaultSyntaxInstrType s))"
proof -
  have "directive_ready r a s" using assms by (simp add: directive_ready_def)
  moreover have "unat (curIdx a) \<le> 4 * ((unat (curIdx a) + 3) div 4)" by linarith
  ultimately have "\<exists>a'. directive_ready r a' t \<and> unat (curIdx a) \<le> unat (curIdx a')
    \<and> unat (curIdx a') \<le> 4 * ((unat (curIdx a) + 3) div 4) \<and> oDefaultSyntaxInstrType t = oDefaultSyntaxInstrType s
    \<and> (names \<noteq> [] \<longrightarrow> (\<exists>al. map_of directive_meaning (last names) =
           Some (State_GetInstrType t, State_GetSyntax t, al) \<and> al dvd unat (curIdx a')))"
    by (rule state_steps_spec [OF steps])
  with \<open>names \<noteq> []\<close>
  obtain al a' where *: "directive_ready r a' t" "unat (curIdx a) \<le> unat (curIdx a')"
    "unat (curIdx a') \<le> 4 * ((unat (curIdx a) + 3) div 4)" "al dvd unat (curIdx a')"
    "map_of directive_meaning (last names) = Some (State_GetInstrType t, State_GetSyntax t, al)"
    and d: "oDefaultSyntaxInstrType t = oDefaultSyntaxInstrType s" by blast
  have "unat (curIdx a') < unat (curIdx a) + 4" using *(3) by linarith
  moreover have "(State_GetInstrType u, State_GetSyntax u) = state_meaning (oDefaultSyntaxInstrType s)"
    if "State_PrepareForPhase ePassTwo t = Inr u" for u
    using same_but_errorsD [OF State_Init_spec, of "oDefaultSyntaxInstrType t" t u] that d
    by (simp add: State_PrepareForPhase_def State_GetInstrType_def State_GetSyntax_def)
  ultimately show ?thesis using * by (auto simp: directive_ready_def)
qed

theorem state_directives_last_witness:
  "\<exists>t. state_steps [''THUMB'', ''ARM'', ''CODE16''] (asm_code ePassOne) t
     \<and> State_GetInstrType t = eInstrType_Thumb \<and> State_GetSyntax t = eSyntax_PreUALOnly"
proof -
  define r where "r = rbind (c_thumb (asm_code ePassOne)) (\<lambda>(_, s). rbind (c_code32 s) (\<lambda>(_, s). c_code16 s))"
  have "returned r \<noteq> None" unfolding r_def by code_simp
  then obtain b1 s1 b2 s2 b3 t where run: "c_thumb (asm_code ePassOne) = Inr (b1, s1)"
    "c_code32 s1 = Inr (b2, s2)" "c_code16 s2 = Inr (b3, t)"
    by (auto simp: r_def elim!: rbind_InrE)
  have "state_steps ([] @ [''THUMB'']) (asm_code ePassOne) s1"
    using run(1) by (rule state_steps.snoc [OF state_steps.none, rotated]) simp
  from state_steps.snoc [where c = c_code32, OF this _ run(2), of "''ARM''"]
  have "state_steps ([''THUMB''] @ [''ARM'']) (asm_code ePassOne) s2" by simp
  from state_steps.snoc [where c = c_code16, OF this _ run(3), of "''CODE16''"]
  have "state_steps [''THUMB'', ''ARM'', ''CODE16''] (asm_code ePassOne) t" by simp
  moreover have "flag (attr_type (syms (asm_code ePassOne) 0)) SYMBOL_AREA" and "unat (curIdx area_code) + 4 \<le> 2 ^ 32"
    by (simp_all add: area_code_def flag_def symbol_flag_defs)
  moreover note steps = calculation(1)
  ultimately have "\<exists>al. map_of directive_meaning (last [''THUMB'', ''ARM'', ''CODE16'']) =
    Some (State_GetInstrType t, State_GetSyntax t, al)"
    using state_directives_last [OF steps _ asm_code_sel(2) sym_area_asm_code wf_area_code(1) asm_code_sel(1)]
    by blast
  with steps show ?thesis by (auto simp: directive_meaning_def)
qed

end
