(* ===== verification/Help_CPU.thy ===== *)
theory Help_CPU
  imports Asm_State
begin

text \<open>
  \<^verbatim>\<open>help_cpu.c\<close>: the encoding of a 32-bit constant as an ARM modified immediate (an 8-bit
  value rotated right by an even amount) and the splitting of a constant into several of them.
\<close>

section \<open>Operations\<close>

definition imm8s4_masks :: "u32 list" where
  "imm8s4_masks =
     [0x000000ff, 0xc000003f, 0xf000000f, 0xfc000003,
      0xff000000, 0x3fc00000, 0x0ff00000, 0x03fc0000,
      0x00ff0000, 0x003fc000, 0x000ff000, 0x0003fc00,
      0x0000ff00, 0x00003fc0, 0x00000ff0, 0x000003fc]"

text \<open>
  Shifts that the program does not keep below the width: \<^verbatim>\<open>x >> n\<close> for \<open>n\<close> up to 32, which both functions evaluate
  for 32 (\<^verbatim>\<open>HelpCPU_Imm8s4\<close> for every value of 8 bits, \<^verbatim>\<open>ShiftL\<close> at position 0), and \<^verbatim>\<open>0x3 << n\<close> as an \<^verbatim>\<open>int\<close> for even
  \<open>n\<close> up to 30.
\<close>

definition host_shr :: "Host_Ops \<Rightarrow> u32 \<Rightarrow> nat \<Rightarrow> u32" where
  "host_shr h x n = (if n = 32 then full_shr h x else shr32 x n)"

definition pair_at :: "Host_Ops \<Rightarrow> nat \<Rightarrow> u32" where
  "pair_at h n = (if n = 30 then top_pair h else shl32 3 n)"

definition HelpCPU_Imm8s4 :: "Host_Ops \<Rightarrow> u32 \<Rightarrow> u32" where
  "HelpCPU_Imm8s4 h value =
     (case find (\<lambda>i. value AND imm8s4_masks ! i = value) [0..<16] of
        Some i \<Rightarrow> (host_shr h value ((16 - i) * 2) OR shl32 value (i * 2)) OR shl32 (of_nat i) 8
      | None \<Rightarrow> UINT32_MAX)"

definition ShiftL :: "Host_Ops \<Rightarrow> u32 \<Rightarrow> nat \<Rightarrow> u32 outcome" where
  "ShiftL h val shiftPos =
     rbind (rassert (shiftPos < 32))
       (\<lambda>_. Inr (shl32 val shiftPos OR host_shr h val (32 - shiftPos)))"

text \<open>The three \<^verbatim>\<open>for\<close> loops with an empty body.\<close>

definition first_shift :: "Host_Ops \<Rightarrow> u32 \<Rightarrow> nat outcome" where
  "first_shift h cnst =
     (case find (\<lambda>shift. cnst AND pair_at h shift \<noteq> 0) (map ((*) 2) [0..<16]) of
        Some shift \<Rightarrow> Inr shift
      | None \<Rightarrow> Inl OutOfFuel)"

definition last_shift :: "Host_Ops \<Rightarrow> u32 \<Rightarrow> nat outcome" where
  "last_shift h cnst =
     (case find (\<lambda>shiftEnd. cnst AND pair_at h (shiftEnd - 2) \<noteq> 0) (map (\<lambda>k. 32 - 2 * k) [0..<16]) of
        Some shiftEnd \<Rightarrow> Inr shiftEnd
      | None \<Rightarrow> Inl OutOfFuel)"

function next_shift :: "Host_Ops \<Rightarrow> u32 \<Rightarrow> nat \<Rightarrow> nat \<Rightarrow> nat" where
  "next_shift h r shift shiftEnd =
     (if shift < shiftEnd \<and> r AND pair_at h shift = 0 then next_shift h r (shift + 2) shiftEnd else shift)"
  by pat_completeness auto
termination
  by (relation "measure (\<lambda>(h, r, shift, shiftEnd). shiftEnd - shift)") auto

declare next_shift.simps [simp del]

text \<open>
  One round of the search over the position of the first byte.  The first component of the state is
  \<^verbatim>\<open>instrNeeded\<close>, the second the constants written so far; \<open>Inl\<close> is the early \<^verbatim>\<open>return\<close>.
\<close>

definition split_round ::
    "Host_Ops \<Rightarrow> u32 \<Rightarrow> nat \<Rightarrow> nat \<Rightarrow> nat \<times> u32 list \<Rightarrow> ((nat \<times> u32 list) + (nat \<times> u32 list)) outcome" where
  "split_round h cnst shiftEnd shift0 st =
     rbind (ShiftL h 0xFF shift0) (\<lambda>m0.
     let r0 = cnst AND NOT m0
     in if r0 = 0 then Inr (Inl (1, [cnst AND m0]))
        else
          let shift1 = next_shift h r0 (shift0 + 8) shiftEnd
          in if shift1 \<ge> shiftEnd then Inr (Inr st)
             else rbind (ShiftL h 0xFF shift1) (\<lambda>m1.
               let r1 = r0 AND NOT m1
               in if r1 = 0 then Inr (Inl (2, [cnst AND m0, r0 AND m1]))
                  else
                    let shift2 = next_shift h r1 (shift1 + 8) shiftEnd
                    in if shift2 \<ge> shiftEnd then Inr (Inr st)
                       else rbind (ShiftL h 0xFF shift2) (\<lambda>m2.
                         let r2 = r1 AND NOT m2
                         in if r2 = 0 \<and> fst st > 3
                            then Inr (Inr (3, [cnst AND m0, r0 AND m1, r1 AND m2]))
                            else if fst st > 4
                            then Inr (Inr (4, [cnst AND m0, r0 AND m1, r1 AND m2, r2]))
                            else Inr (Inr st))))"

fun split_rounds ::
    "Host_Ops \<Rightarrow> u32 \<Rightarrow> nat \<Rightarrow> nat list \<Rightarrow> nat \<times> u32 list \<Rightarrow> (nat \<times> u32 list) outcome" where
  "split_rounds h cnst shiftEnd [] st = rbind (rassert (1 \<le> fst st \<and> fst st \<le> 4)) (\<lambda>_. Inr st)"
| "split_rounds h cnst shiftEnd (shift0 # rest) st =
     rbind (split_round h cnst shiftEnd shift0 st)
       (\<lambda>out. case out of Inl result \<Rightarrow> Inr result | Inr st' \<Rightarrow> split_rounds h cnst shiftEnd rest st')"

definition HelpCPU_SplitByImm8s4 :: "Host_Ops \<Rightarrow> u32 \<Rightarrow> (nat \<times> u32 list) outcome" where
  "HelpCPU_SplitByImm8s4 h cnst =
     (if cnst = 0 then Inr (1, [0])
      else
        rbind (first_shift h cnst) (\<lambda>shift.
        rbind (last_shift h cnst) (\<lambda>shiftEnd.
        split_rounds h cnst shiftEnd [shift, shift + 2, shift + 4, shift + 6] (5, []))))"

section \<open>The immediate as the processor reads it\<close>

text \<open>\<open>ARMExpandImm\<close> of the ARM architecture: bits 0--7 rotated right by twice bits 8--11.\<close>

definition arm_expand_imm :: "u32 \<Rightarrow> u32" where
  "arm_expand_imm e = word_rotr (2 * unat (shr32 e 8 AND 15)) (e AND 0xFF)"

definition imm12 :: "u32 \<Rightarrow> bool" where
  "imm12 e \<longleftrightarrow> e AND 0xFFF = e"

text \<open>A constant that one modified immediate can hold.\<close>

definition encodable :: "u32 \<Rightarrow> bool" where
  "encodable v \<longleftrightarrow> HelpCPU_Imm8s4 arm_host v \<noteq> UINT32_MAX"


definition imm_encode :: "u32 \<Rightarrow> u32 option" where
  "imm_encode v = (if HelpCPU_Imm8s4 arm_host v = UINT32_MAX then None else Some (HelpCPU_Imm8s4 arm_host v))"

text \<open>All set bits of a word lie at or above, respectively below, a position.\<close>

definition bits_from :: "nat \<Rightarrow> u32 \<Rightarrow> bool" where
  "bits_from k r \<longleftrightarrow> (\<forall>n. bit r n \<longrightarrow> k \<le> n)"

definition bits_below :: "nat \<Rightarrow> u32 \<Rightarrow> bool" where
  "bits_below k r \<longleftrightarrow> (\<forall>n. bit r n \<longrightarrow> n < k)"

text \<open>Words that have no bit in common.\<close>

fun disjoint_words :: "u32 list \<Rightarrow> bool" where
  "disjoint_words [] = True"
| "disjoint_words (x # xs) = (list_all (\<lambda>y. x AND y = 0) xs \<and> disjoint_words xs)"

text \<open>A result of the split: one to four encodable parts of the constant that have no bit in common and add up to it.\<close>

definition split_ok :: "u32 \<Rightarrow> nat \<times> u32 list \<Rightarrow> bool" where
  "split_ok cnst res \<longleftrightarrow>
     fst res = length (snd res) \<and> 1 \<le> fst res \<and> fst res \<le> 4
     \<and> (\<forall>x\<in>set (snd res). encodable x \<and> x AND cnst = x) \<and> disjoint_words (snd res) \<and> sum_list (snd res) = cnst"

section \<open>The undefined shifts do not matter\<close>

lemma arm_shifts [simp]: "host_shr arm_host x n = shr32 x n" "pair_at arm_host n = shl32 3 n"
proof -
  show "host_shr arm_host x n = shr32 x n" by (simp add: host_shr_def arm_host_def)
  have "shl32 3 30 = (0xC0000000 :: u32)" by code_simp
  then show "pair_at arm_host n = shl32 3 n" by (simp add: pair_at_def arm_host_def)
qed

lemma host_shr_or:
  assumes "host_ok h" and "k \<le> 32"
  shows "host_shr h v (32 - k) OR shl32 v k = shr32 v (32 - k) OR shl32 v k"
  using assms(1) [unfolded host_ok_def, THEN conjunct1, rule_format, of v] assms(2)
  by (cases "k = 0") (auto simp: host_shr_def)

lemma Imm8s4_host:
  assumes "host_ok h"
  shows "HelpCPU_Imm8s4 h v = HelpCPU_Imm8s4 arm_host v"
proof -
  have "host_shr h v ((16 - i) * 2) OR shl32 v (i * 2) = shr32 v ((16 - i) * 2) OR shl32 v (i * 2)" if "i < 16" for i
    using host_shr_or [OF assms, of "i * 2" v] that by (simp add: diff_mult_distrib)
  note same = this
  show ?thesis
  proof (cases "find (\<lambda>i. v AND imm8s4_masks ! i = v) [0..<16]")
    case (Some i)
    then have "i < 16" by (auto simp: find_Some_iff)
    then show ?thesis by (simp add: HelpCPU_Imm8s4_def Some same)
  qed (simp add: HelpCPU_Imm8s4_def)
qed

lemma split_host:
  assumes "host_ok h"
  shows "pair_at h = pair_at arm_host" and "ShiftL h = ShiftL arm_host" and "next_shift h = next_shift arm_host"
    and "split_round h = split_round arm_host" and "split_rounds h = split_rounds arm_host"
    and "HelpCPU_SplitByImm8s4 h = HelpCPU_SplitByImm8s4 arm_host"
proof -
  show pair: "pair_at h = pair_at arm_host"
    using assms by (auto simp: pair_at_def host_ok_def arm_host_def)
  have "ShiftL h v n = ShiftL arm_host v n" for v n
    using host_shr_or [OF assms, of n v] by (cases "n < 32") (simp_all add: ShiftL_def or.commute)
  then show shiftL: "ShiftL h = ShiftL arm_host" by (intro ext)
  have "next_shift h r s e = next_shift arm_host r s e" for r s e
  proof (induction "arm_host" r s e rule: next_shift.induct)
    case (1 r s e)
    then show ?case by (subst (1 2) next_shift.simps) (simp add: pair)
  qed
  then show next_pair: "next_shift h = next_shift arm_host" by (intro ext)
  show round: "split_round h = split_round arm_host"
    by (intro ext) (simp only: split_round_def shiftL next_pair)
  have "split_rounds h c e ss = split_rounds arm_host c e ss" for c e ss
  proof (induction ss)
    case (Cons a ss)
    then show ?case by (intro ext) (simp add: round)
  qed (intro ext, simp)
  then have rounds: "split_rounds h = split_rounds arm_host" by (intro ext) simp
  then show "split_rounds h = split_rounds arm_host" .
  show "HelpCPU_SplitByImm8s4 h = HelpCPU_SplitByImm8s4 arm_host"
    by (intro ext) (simp only: HelpCPU_SplitByImm8s4_def first_shift_def last_shift_def pair rounds)
qed

section \<open>The encoding is sound, complete and canonical\<close>

lemma imm8s4_masks_rot: "i < 16 \<Longrightarrow> imm8s4_masks ! i = word_rotr (2 * i) 0xFF"
proof -
  have "\<forall>i\<in>set [0..<16]. imm8s4_masks ! i = word_rotr (2 * i) 0xFF"
    by code_simp
  then show "i < 16 \<Longrightarrow> imm8s4_masks ! i = word_rotr (2 * i) 0xFF"
    by simp
qed

lemma rotl_shifts:
  assumes "k \<le> 32"
  shows "word_rotl k (v::u32) = shl32 v k OR shr32 v (32 - k)"
proof (rule bit_word_eqI)
  fix n :: nat assume n: "n < LENGTH(32)"
  show "bit (word_rotl k v) n = bit (shl32 v k OR shr32 v (32 - k)) n"
  proof (cases "k \<le> n")
    case True
    then have "(n + (32 - k mod 32)) mod 32 = n - k"
      using n assms by (auto simp: mod_if)
    moreover have "\<not> bit v (32 - k + n)"
      using True bit_imp_le_length [of v "32 - k + n"] assms by auto
    ultimately show ?thesis using n True
      by (simp add: bit_simps)
  next
    case False
    then have "(n + (32 - k mod 32)) mod 32 = 32 - k + n"
      using n assms by (auto simp: mod_if)
    then show ?thesis using n False
      by (simp add: bit_simps)
  qed
qed

lemma low_byte_bits: "(b::u32) AND 0xFF = b \<Longrightarrow> 8 \<le> n \<Longrightarrow> \<not> bit b n"
proof
  assume "b AND 0xFF = b" "8 \<le> n" "bit b n"
  then have "bit (b AND mask 8) n"
    by (simp add: mask_eq_exp_minus_1)
  with \<open>8 \<le> n\<close> show False by (simp add: bit_simps)
qed

lemma imm_fields:
  assumes b: "(b::u32) AND 0xFF = b" and i: "i < 16"
  shows "(b OR shl32 (of_nat i) 8) AND 0xFF = b"
    and "shr32 (b OR shl32 (of_nat i) 8) 8 AND 15 = of_nat i"
    and "imm12 (b OR shl32 (of_nat i) 8)"
proof -
  have m8: "(0xFF::u32) = mask 8" and m4: "(15::u32) = mask 4" and m12: "(0xFFF::u32) = mask 12"
    by (simp_all add: mask_eq_exp_minus_1)
  have i4: "\<not> bit (of_nat i :: u32) n" if "4 \<le> n" for n
  proof
    assume "bit (of_nat i :: u32) n"
    then have "bit i n" by (simp add: bit_of_nat_iff)
    moreover have "i < 2 ^ n"
      using i power_increasing [of 4 n "2::nat"] that by simp
    ultimately show False by (simp add: bit_iff_odd)
  qed
  have b8: "\<And>n. bit b n \<Longrightarrow> n < 8" and i4': "\<And>n. bit (of_nat i :: u32) n \<Longrightarrow> n < 4"
    using low_byte_bits [OF b] i4 by (meson not_le)+
  show "(b OR shl32 (of_nat i) 8) AND 0xFF = b"
    unfolding m8 by (rule bit_word_eqI) (use b8 in \<open>force simp: bit_simps\<close>)
  show "shr32 (b OR shl32 (of_nat i) 8) 8 AND 15 = of_nat i"
    unfolding m4 by (rule bit_word_eqI) (use b8 i4' in \<open>force simp: bit_simps\<close>)
  show "imm12 (b OR shl32 (of_nat i) 8)"
    unfolding imm12_def m12
    by (rule bit_word_eqI) (use b8 i4' in \<open>force simp: bit_simps\<close>)
qed

lemma imm12_not_max: "imm12 e \<Longrightarrow> e \<noteq> UINT32_MAX"
  by (auto simp: imm12_def UINT32_MAX_def)

lemma Imm8s4_cases:
  obtains (none) "HelpCPU_Imm8s4 arm_host v = UINT32_MAX" "\<And>i. i < 16 \<Longrightarrow> v AND imm8s4_masks ! i \<noteq> v"
  | (some) i where "i < 16" "v AND imm8s4_masks ! i = v" "\<And>j. j < i \<Longrightarrow> v AND imm8s4_masks ! j \<noteq> v"
      "word_rotl (2 * i) v AND 0xFF = word_rotl (2 * i) v"
      "HelpCPU_Imm8s4 arm_host v = word_rotl (2 * i) v OR shl32 (of_nat i) 8"
proof (cases "find (\<lambda>i. v AND imm8s4_masks ! i = v) [0..<16]")
  case None
  then have "\<forall>i<16. v AND imm8s4_masks ! i \<noteq> v"
    by (simp add: find_None_iff)
  moreover have "HelpCPU_Imm8s4 arm_host v = UINT32_MAX"
    using None by (simp add: HelpCPU_Imm8s4_def)
  ultimately show ?thesis using none by blast
next
  case (Some i)
  then obtain i': "i < 16" "v AND imm8s4_masks ! i = v" "\<And>j. j < i \<Longrightarrow> v AND imm8s4_masks ! j \<noteq> v"
    by (auto simp: find_Some_iff)
  have "word_rotl (2 * i) (v AND word_rotr (2 * i) 0xFF) = word_rotl (2 * i) v"
    using i' imm8s4_masks_rot by simp
  then have "word_rotl (2 * i) v AND 0xFF = word_rotl (2 * i) v"
    by (simp add: word_rot_logs)
  moreover have "HelpCPU_Imm8s4 arm_host v = word_rotl (2 * i) v OR shl32 (of_nat i) 8"
  proof -
    have "(16 - i) * 2 = 32 - 2 * i" using i'(1) by simp
    then show ?thesis
      using i'(1) Some by (simp add: HelpCPU_Imm8s4_def rotl_shifts ac_simps)
  qed
  ultimately show ?thesis using i' by (intro some)
qed

lemma Imm8s4_encodes:
  assumes "encodable v"
  shows "imm12 (HelpCPU_Imm8s4 arm_host v)" and "arm_expand_imm (HelpCPU_Imm8s4 arm_host v) = v"
proof -
  have "imm12 (HelpCPU_Imm8s4 arm_host v) \<and> arm_expand_imm (HelpCPU_Imm8s4 arm_host v) = v"
  proof (cases v rule: Imm8s4_cases)
    case none
    with assms show ?thesis by (simp add: encodable_def)
  next
    case (some i)
    then show ?thesis
      using imm_fields [of "word_rotl (2 * i) v" i]
      by (simp add: arm_expand_imm_def unat_of_nat)
  qed
  then show "imm12 (HelpCPU_Imm8s4 arm_host v)" and "arm_expand_imm (HelpCPU_Imm8s4 arm_host v) = v"
    by auto
qed

text \<open>Conversely every immediate field is found again, with the least rotation.\<close>

lemma Imm8s4_complete:
  assumes "imm12 e"
  shows "encodable (arm_expand_imm e)"
    and "unat (shr32 (HelpCPU_Imm8s4 arm_host (arm_expand_imm e)) 8 AND 15) \<le> unat (shr32 e 8 AND 15)"
proof -
  define i where "i = unat (shr32 e 8 AND 15)"
  define v where "v = arm_expand_imm e"
  have "i < 2 ^ 4"
    unfolding i_def using and_mask_below [of "shr32 e 8" 4] by (simp add: mask_eq_exp_minus_1)
  then have i: "i < 16" by simp
  have v: "v = word_rotr (2 * i) (e AND 0xFF)"
    by (simp add: v_def i_def arm_expand_imm_def)
  have fit: "v AND imm8s4_masks ! i = v"
    unfolding v imm8s4_masks_rot [OF i] word_rot_logs [symmetric] by (simp add: ac_simps)
  show "encodable (arm_expand_imm e)"
  proof (cases v rule: Imm8s4_cases)
    case none
    with fit i show ?thesis by blast
  next
    case (some j)
    with imm_fields(3) [of "word_rotl (2 * j) v" j] show ?thesis
      unfolding encodable_def v_def [symmetric] by (metis imm12_not_max)
  qed
  show "unat (shr32 (HelpCPU_Imm8s4 arm_host (arm_expand_imm e)) 8 AND 15) \<le> unat (shr32 e 8 AND 15)"
  proof (cases v rule: Imm8s4_cases)
    case none
    with fit i show ?thesis by blast
  next
    case (some j)
    have "unat (shr32 (HelpCPU_Imm8s4 arm_host v) 8 AND 15) = j"
      using some imm_fields(2) [of "word_rotl (2 * j) v" j] by (simp add: unat_of_nat)
    moreover have "j \<le> i"
      using some(3) fit by (metis not_less)
    ultimately show ?thesis by (simp add: v_def i_def)
  qed
qed

interpretation imm: field_codec imm_encode arm_expand_imm imm12
  by unfold_locales
    (use Imm8s4_encodes Imm8s4_complete in \<open>auto simp: imm_encode_def encodable_def split: if_splits\<close>)

text \<open>
  C22. \<^verbatim>\<open>HelpCPU_Imm8s4\<close> returns a 12-bit field that the processor expands to the given
  constant, with the smallest rotation of all such fields, and it returns \<^verbatim>\<open>UINT32_MAX\<close>
  exactly when no field expands to the constant.  For every constant of 8 bits the function evaluates
  \<^verbatim>\<open>value >> 32\<close>, which is undefined in C; the result is right whether the host's shift gives zero or the value.
\<close>

theorem Imm8s4_correct:
  assumes "host_ok h"
  shows "if HelpCPU_Imm8s4 h v = UINT32_MAX then \<forall>e. imm12 e \<longrightarrow> arm_expand_imm e \<noteq> v
   else imm12 (HelpCPU_Imm8s4 h v) \<and> arm_expand_imm (HelpCPU_Imm8s4 h v) = v
     \<and> (\<forall>e. imm12 e \<longrightarrow> arm_expand_imm e = v \<longrightarrow>
           unat (shr32 (HelpCPU_Imm8s4 h v) 8 AND 15) \<le> unat (shr32 e 8 AND 15))"
proof (cases "HelpCPU_Imm8s4 arm_host v = UINT32_MAX")
  case True
  with imm.encode_None_iff [of v] show ?thesis unfolding Imm8s4_host [OF assms]
    by (simp add: imm_encode_def)
next
  case False
  with imm.decode_encode [of v] Imm8s4_complete(2) show ?thesis unfolding Imm8s4_host [OF assms]
    by (auto simp: imm_encode_def)
qed

theorem Imm8s4_correct_witness:
  "HelpCPU_Imm8s4 x86_host 0xFF = 0xFF \<and> arm_expand_imm 0xFF = 0xFF
   \<and> HelpCPU_Imm8s4 x86_host 0xFF0 = 0xEFF \<and> arm_expand_imm 0xEFF = 0xFF0
   \<and> HelpCPU_Imm8s4 arm_host 0x101 = UINT32_MAX \<and> arm_expand_imm 0x101 \<noteq> 0x101"
proof -
  have e: "HelpCPU_Imm8s4 x86_host 0xFF = 0xFF" "HelpCPU_Imm8s4 x86_host 0xFF0 = 0xEFF"
    "HelpCPU_Imm8s4 arm_host 0x101 = UINT32_MAX" "imm12 0x101"
    by code_simp+
  then have "HelpCPU_Imm8s4 x86_host 0xFF \<noteq> UINT32_MAX" "HelpCPU_Imm8s4 x86_host 0xFF0 \<noteq> UINT32_MAX"
    by (simp_all add: UINT32_MAX_def)
  with e show ?thesis
    using Imm8s4_correct [OF host_ok_hosts(2), where v = "0xFF"] Imm8s4_correct [OF host_ok_hosts(2), where v = "0xFF0"]
      Imm8s4_correct [OF host_ok_hosts(1), where v = "0x101"] by auto
qed

section \<open>The split is total and sound\<close>

lemma encodableI: "i < 16 \<Longrightarrow> v AND imm8s4_masks ! i = v \<Longrightarrow> encodable v"
  using Imm8s4_cases [of v] imm_fields(3) imm12_not_max unfolding encodable_def by metis

lemma rotl_ff_encodable:
  assumes "s < 32" and "even s"
  shows "encodable (x AND word_rotl s 0xFF)"
proof -
  have "\<forall>k\<in>set [0..<16]. word_rotl (2 * k) 0xFF = imm8s4_masks ! ((16 - k) mod 16)"
    by code_simp
  moreover obtain k where "s = 2 * k" using assms(2) by blast
  ultimately have "word_rotl s 0xFF = imm8s4_masks ! ((16 - k) mod 16)"
    using assms(1) by simp
  then show ?thesis
    by (intro encodableI [of "(16 - k) mod 16"]) (simp_all add: ac_simps)
qed

lemma ShiftL_rotl: "s < 32 \<Longrightarrow> ShiftL arm_host v s = Inr (word_rotl s v)"
  by (simp add: ShiftL_def rotl_shifts)

lemma bits_below_and [simp]: "bits_below k r \<Longrightarrow> bits_below k (r AND m)"
  by (simp add: bits_below_def bit_simps)

lemma word_has_bit: "(r::u32) \<noteq> 0 \<Longrightarrow> \<exists>n. bit r n"
  by (metis bit_0_eq bit_eq_iff bot_apply bot_bool_def)

lemma bit_three_shifted: "bit (shl32 3 s) n \<longleftrightarrow> n < 32 \<and> (n = s \<or> n = Suc s)"
proof -
  have three: "(3::u32) = mask 2" by (simp add: mask_eq_exp_minus_1)
  show ?thesis unfolding three by (auto simp: bit_simps)
qed

lemma pair_clear_iff: "r AND shl32 3 s = 0 \<longleftrightarrow> \<not> bit r s \<and> \<not> bit r (Suc s)"
proof -
  have "r AND shl32 3 s = 0 \<longleftrightarrow> (\<forall>n. \<not> (bit r n \<and> bit (shl32 3 s) n))"
    by (auto simp: bit_eq_iff bit_simps)
  also have "\<dots> \<longleftrightarrow> \<not> bit r s \<and> \<not> bit r (Suc s)"
    unfolding bit_three_shifted using bit_imp_le_length [of r] by auto
  finally show ?thesis .
qed

lemma bits_from_skip:
  assumes "bits_from s r" and "r AND shl32 3 s = 0"
  shows "bits_from (s + 2) r"
  unfolding bits_from_def
proof (intro allI impI)
  fix n assume n: "bit r n"
  then have "s \<le> n" and "n \<noteq> s" and "n \<noteq> Suc s"
    using assms by (auto simp: bits_from_def pair_clear_iff)
  then show "s + 2 \<le> n" by simp
qed

lemma bits_from_mask:
  assumes "bits_from s r" and "s < 32"
  shows "bits_from (s + 8) (r AND NOT (word_rotl s 0xFF))"
  unfolding bits_from_def
proof (intro allI impI)
  fix n assume n: "bit (r AND NOT (word_rotl s 0xFF)) n"
  then have r: "bit r n" and m: "\<not> bit (word_rotl s (0xFF::u32)) n" and n32: "n < 32"
    using bit_imp_le_length [of r n] by (auto simp: bit_simps)
  have s: "s \<le> n" using assms(1) r by (simp add: bits_from_def)
  have ff: "(0xFF::u32) = mask 8" by (simp add: mask_eq_exp_minus_1)
  have "(n + (32 - s)) mod 32 = n - s"
    using s n32 assms(2) by (auto simp: mod_if)
  with m s n32 assms(2) show "s + 8 \<le> n"
    unfolding ff by (simp add: bit_simps)
qed

lemma next_shift_finds:
  assumes "bits_from s r" and "r \<noteq> 0" and "bits_below e r" and "even s"
  shows "s \<le> next_shift arm_host r s e \<and> next_shift arm_host r s e < e \<and> even (next_shift arm_host r s e)
     \<and> bits_from (next_shift arm_host r s e) r"
  using assms
proof (induction "arm_host" r s e rule: next_shift.induct)
  case (1 r s e)
  obtain n where "bit r n" using word_has_bit \<open>r \<noteq> 0\<close> by blast
  then have "s < e" using 1 by (force simp: bits_from_def bits_below_def)
  show ?case
  proof (cases "r AND shl32 3 s = 0")
    case True
    with 1 \<open>s < e\<close> bits_from_skip [of s r] show ?thesis
      by (simp add: next_shift.simps [of arm_host r s e])
  next
    case False
    with 1 \<open>s < e\<close> show ?thesis by (simp add: next_shift.simps [of arm_host r s e])
  qed
qed

lemma next_shift_even: "even s \<Longrightarrow> even (next_shift h r s e)"
proof (induction h r s e rule: next_shift.induct)
  case (1 h r s e)
  then show ?case by (subst next_shift.simps) simp
qed

lemma first_shift_finds:
  assumes "cnst \<noteq> 0"
  obtains s where "first_shift arm_host cnst = Inr s" and "s < 32" and "even s" and "bits_from s cnst"
proof (cases "find (\<lambda>shift. cnst AND shl32 3 shift \<noteq> 0) (map ((*) 2) [0..<16])")
  case None
  then have none: "\<And>k. k < 16 \<Longrightarrow> cnst AND shl32 3 (2 * k) = 0"
    by (auto simp: find_None_iff)
  obtain n where n: "bit cnst n" using word_has_bit assms by blast
  then have "n < 32" using bit_imp_le_length [of cnst n] by simp
  then have "\<not> bit cnst (2 * (n div 2)) \<and> \<not> bit cnst (Suc (2 * (n div 2)))"
    using none [of "n div 2"] by (simp add: pair_clear_iff)
  then have False using n by (cases "even n") (auto elim!: evenE oddE)
  then show ?thesis ..
next
  case (Some s)
  then obtain k where k: "k < 16" "s = 2 * k"
    and least: "\<And>j. j < k \<Longrightarrow> cnst AND shl32 3 (2 * j) = 0"
    by (auto simp: find_Some_iff)
  have "bits_from (2 * k) cnst" if "k \<le> 16" "\<And>j. j < k \<Longrightarrow> cnst AND shl32 3 (2 * j) = 0" for k
    using that
  proof (induction k)
    case 0
    show ?case by (simp add: bits_from_def)
  next
    case (Suc k)
    then show ?case using bits_from_skip [of "2 * k" cnst] by simp
  qed
  with k least Some that show ?thesis by (simp add: first_shift_def)
qed

lemma last_shift_finds:
  assumes "cnst \<noteq> 0"
  obtains e where "last_shift arm_host cnst = Inr e" and "e \<le> 32" and "bits_below e cnst"
proof (cases "find (\<lambda>e. cnst AND shl32 3 (e - 2) \<noteq> 0) (map (\<lambda>k. 32 - 2 * k) [0..<16])")
  case None
  then have none: "\<And>k. k < 16 \<Longrightarrow> cnst AND shl32 3 (32 - 2 * k - 2) = 0"
    by (auto simp: find_None_iff)
  obtain n where n: "bit cnst n" using word_has_bit assms by blast
  then have "n < 32" using bit_imp_le_length [of cnst n] by simp
  define k where "k = 15 - n div 2"
  have "k < 16" "32 - 2 * k - 2 = 2 * (n div 2)" using \<open>n < 32\<close> by (auto simp: k_def)
  then have "\<not> bit cnst (2 * (n div 2)) \<and> \<not> bit cnst (Suc (2 * (n div 2)))"
    using none [of k] by (simp add: pair_clear_iff)
  then have False using n by (cases "even n") (auto elim!: evenE oddE)
  then show ?thesis ..
next
  case (Some e)
  then obtain k where k: "k < 16" "e = 32 - 2 * k"
    and least: "\<And>j. j < k \<Longrightarrow> cnst AND shl32 3 (32 - 2 * j - 2) = 0"
    by (auto simp: find_Some_iff)
  have "bits_below (32 - 2 * k) cnst" if "k \<le> 16" "\<And>j. j < k \<Longrightarrow> cnst AND shl32 3 (32 - 2 * j - 2) = 0" for k
    using that
  proof (induction k)
    case 0
    show ?case using bit_imp_le_length [of cnst] by (auto simp: bits_below_def)
  next
    case (Suc k)
    then have b: "bits_below (32 - 2 * k) cnst" and c: "cnst AND shl32 3 (30 - 2 * k) = 0"
      by auto
    show ?case unfolding bits_below_def
    proof (intro allI impI)
      fix n assume "bit cnst n"
      with b c have "n < 32 - 2 * k" "n \<noteq> 30 - 2 * k" "n \<noteq> Suc (30 - 2 * k)"
        by (auto simp: bits_below_def pair_clear_iff)
      then show "n < 32 - 2 * Suc k" using Suc.prems(1) by simp
    qed
  qed
  with k least Some that show ?thesis by (simp add: last_shift_def)
qed
lemma and_plus_and_not: "(x AND m) + (x AND NOT m) = (x::u32)"
proof -
  have "(x AND m) + (x AND NOT m) = (x AND m) OR (x AND NOT m)"
    by (rule disjunctive_add) (simp add: bit_simps)
  also have "\<dots> = x"
    by (rule bit_word_eqI) (auto simp: bit_simps)
  finally show ?thesis .
qed

lemma split_ok_1: "s < 32 \<Longrightarrow> even s \<Longrightarrow> c AND NOT (word_rotl s 0xFF) = 0 \<Longrightarrow> n = 1 \<Longrightarrow>
    split_ok c (n, [c AND word_rotl s 0xFF])"
  using and_plus_and_not [of c "word_rotl s 0xFF"] rotl_ff_encodable [of s c] by (simp add: split_ok_def ac_simps)

lemma split_ok_Cons:
  assumes "r = c AND NOT (word_rotl s 0xFF)" and "split_ok r (n - 1, xs)"
    and "s < 32" and "even s" and "n \<le> 4"
  shows "split_ok c (n, (c AND word_rotl s 0xFF) # xs)"
proof -
  let ?m = "word_rotl s (0xFF :: u32)"
  have "x AND c = x \<and> (c AND ?m) AND x = 0" if "x AND r = x" for x
  proof -
    have "x = x AND (c AND NOT ?m)" using that assms(1) by simp
    then have "\<forall>i. bit x i \<longrightarrow> bit c i \<and> \<not> bit ?m i" by (metis bit_and_iff bit_not_iff)
    then show ?thesis by (auto simp: bit_eq_iff bit_and_iff)
  qed
  moreover have "(c AND ?m) AND c = c AND ?m" by (simp add: ac_simps)
  ultimately show ?thesis
    using assms and_plus_and_not [of c ?m] rotl_ff_encodable [OF assms(3,4), of c]
    by (auto simp: split_ok_def list_all_iff)
qed

lemma split_ok_top:
  assumes "bits_from 24 r" and "n = 1"
  shows "split_ok r (n, [r])"
proof -
  have top: "word_rotl 24 (0xFF::u32) = 0xFF000000" by code_simp
  have m: "(0xFF000000::u32) = shl32 (mask 8) 24" by (simp add: mask_eq_exp_minus_1)
  have "r AND word_rotl 24 0xFF = r"
  proof (rule bit_word_eqI)
    fix n assume "n < LENGTH(32)"
    then show "bit (r AND word_rotl 24 0xFF) n = bit r n"
      using assms(1) unfolding top m bits_from_def by (auto simp: bit_simps)
  qed
  then show ?thesis
    using rotl_ff_encodable [of 24 r] assms(2) by (simp add: split_ok_def)
qed

text \<open>The first round always ends with a result in hand.\<close>

lemma first_round:
  assumes s: "s < 32" "even s" "bits_from s cnst" and e: "e \<le> 32" "bits_below e cnst"
  obtains (final) res where "split_round arm_host cnst e s (5, []) = Inr (Inl res)" and "split_ok cnst res"
  | (more) res where "split_round arm_host cnst e s (5, []) = Inr (Inr res)" and "split_ok cnst res" and "s + 8 < 32"
proof -
  define r0 where "r0 = cnst AND NOT (word_rotl s 0xFF)"
  show ?thesis
  proof (cases "r0 = 0")
    case True
    then show ?thesis using s
      by (intro final) (auto simp: split_round_def ShiftL_rotl r0_def split_ok_1)
  next
    case r0: False
    have f0: "bits_from (s + 8) r0" "bits_below e r0"
      using bits_from_mask s e by (simp_all add: r0_def)
    obtain n where "bit r0 n" using word_has_bit r0 by blast
    then have s8: "s + 8 < 32" using f0 e by (force simp: bits_from_def bits_below_def)
    define s1 where "s1 = next_shift arm_host r0 (s + 8) e"
    have s1: "s + 8 \<le> s1" "s1 < e" "even s1" "bits_from s1 r0" "s1 < 32"
      using next_shift_finds [OF f0(1) r0 f0(2)] s e by (auto simp: s1_def)
    define r1 where "r1 = r0 AND NOT (word_rotl s1 0xFF)"
    show ?thesis
    proof (cases "r1 = 0")
      case True
      have "split_ok cnst (2, [cnst AND word_rotl s 0xFF, r0 AND word_rotl s1 0xFF])"
        using True s s1 by (intro split_ok_Cons [OF r0_def] split_ok_1) (auto simp: r1_def)
      with True r0 s s1 show ?thesis
        by (intro final) (auto simp: split_round_def ShiftL_rotl Let_def
            r0_def [symmetric] s1_def [symmetric] r1_def [symmetric])
    next
      case r1: False
      have f1: "bits_from (s1 + 8) r1" "bits_below e r1"
        using bits_from_mask s1 f0(2) by (simp_all add: r1_def)
      define s2 where "s2 = next_shift arm_host r1 (s1 + 8) e"
      have s2: "s1 + 8 \<le> s2" "s2 < e" "even s2" "bits_from s2 r1" "s2 < 32"
        using next_shift_finds [OF f1(1) r1 f1(2)] s1 e by (auto simp: s2_def)
      define r2 where "r2 = r1 AND NOT (word_rotl s2 0xFF)"
      note eqs = r0_def [symmetric] s1_def [symmetric] r1_def [symmetric] s2_def [symmetric] r2_def [symmetric]
      show ?thesis
      proof (cases "r2 = 0")
        case True
        have "split_ok cnst (3, [cnst AND word_rotl s 0xFF, r0 AND word_rotl s1 0xFF, r1 AND word_rotl s2 0xFF])"
          using True s s1 s2 by (intro split_ok_Cons [OF r0_def] split_ok_Cons [OF r1_def] split_ok_1) (auto simp: r2_def)
        with True r0 r1 s s1 s2 s8 show ?thesis
          by (intro more) (auto simp: split_round_def ShiftL_rotl Let_def eqs)
      next
        case False
        have "bits_from 24 r2"
          using bits_from_mask [of s2 r1] s1 s2 by (auto simp: r2_def [symmetric] bits_from_def)
        then have "split_ok cnst (4, [cnst AND word_rotl s 0xFF, r0 AND word_rotl s1 0xFF, r1 AND word_rotl s2 0xFF, r2])"
          using s s1 s2
          by (intro split_ok_Cons [OF r0_def] split_ok_Cons [OF r1_def] split_ok_Cons [OF r2_def] split_ok_top) auto
        with False r0 r1 s s1 s2 s8 show ?thesis
          by (intro more) (auto simp: split_round_def ShiftL_rotl Let_def eqs)
      qed
    qed
  qed
qed

text \<open>Later rounds return a better result or keep the one in hand.\<close>

lemma later_round:
  assumes s: "s < 32" "even s" and e: "e \<le> 32" and st: "split_ok cnst st"
  obtains (final) res where "split_round arm_host cnst e s st = Inr (Inl res)" and "split_ok cnst res"
  | (more) res where "split_round arm_host cnst e s st = Inr (Inr res)" and "split_ok cnst res"
proof -
  define r0 where "r0 = cnst AND NOT (word_rotl s 0xFF)"
  define s1 where "s1 = next_shift arm_host r0 (s + 8) e"
  define r1 where "r1 = r0 AND NOT (word_rotl s1 0xFF)"
  define s2 where "s2 = next_shift arm_host r1 (s1 + 8) e"
  define r2 where "r2 = r1 AND NOT (word_rotl s2 0xFF)"
  note eqs = r0_def [symmetric] s1_def [symmetric] r1_def [symmetric] s2_def [symmetric] r2_def [symmetric]
  have ev: "even s1" "even s2" using s by (simp_all add: s1_def s2_def next_shift_even)
  have n: "fst st \<le> 4" using st by (simp add: split_ok_def)
  have ok1: "split_ok cnst (1, [cnst AND word_rotl s 0xFF])" if "r0 = 0"
    using that s by (simp add: eqs split_ok_1 [of s cnst])
  have ok2: "split_ok cnst (2, [cnst AND word_rotl s 0xFF, r0 AND word_rotl s1 0xFF])"
    if "r1 = 0" "s1 < e"
    using that s ev e by (intro split_ok_Cons [OF r0_def] split_ok_1) (auto simp: r1_def)
  have ok3: "split_ok cnst (3, [cnst AND word_rotl s 0xFF, r0 AND word_rotl s1 0xFF, r1 AND word_rotl s2 0xFF])"
    if "r2 = 0" "s1 < e" "s2 < e"
    using that s ev e by (intro split_ok_Cons [OF r0_def] split_ok_Cons [OF r1_def] split_ok_1) (auto simp: r2_def)
  consider "r0 = 0" | "r0 \<noteq> 0" "s1 \<ge> e" | "r0 \<noteq> 0" "s1 < e" "r1 = 0"
    | "r0 \<noteq> 0" "s1 < e" "r1 \<noteq> 0" "s2 \<ge> e"
    | "r0 \<noteq> 0" "s1 < e" "r1 \<noteq> 0" "s2 < e"
    by linarith
  then show ?thesis
  proof cases
    case 1
    with ok1 s show ?thesis
      by (intro final) (auto simp: split_round_def ShiftL_rotl eqs)
  next
    case 2
    with st s show ?thesis
      by (intro more) (auto simp: split_round_def ShiftL_rotl Let_def eqs)
  next
    case 3
    with ok2 s e show ?thesis
      by (intro final) (auto simp: split_round_def ShiftL_rotl Let_def eqs)
  next
    case 4
    with st s e show ?thesis
      by (intro more) (auto simp: split_round_def ShiftL_rotl Let_def eqs)
  next
    case 5
    show ?thesis
    proof (cases "r2 = 0 \<and> fst st > 3")
      case True
      with 5 ok3 s e show ?thesis
        by (intro more) (auto simp: split_round_def ShiftL_rotl Let_def eqs)
    next
      case False
      with 5 st n s e show ?thesis
        by (intro more [of st]) (auto simp: split_round_def ShiftL_rotl Let_def eqs)
    qed
  qed
qed

lemma split_rounds_ok:
  assumes "split_ok cnst st" and "e \<le> 32" and "\<forall>s\<in>set ss. s < 32 \<and> even s"
  shows "\<exists>res. split_rounds arm_host cnst e ss st = Inr res \<and> split_ok cnst res"
  using assms(1,3)
proof (induction ss arbitrary: st)
  case Nil
  then show ?case by (simp add: split_ok_def)
next
  case (Cons s ss)
  show ?case
    by (rule later_round [of s e cnst st]) (use Cons assms(2) in auto)
qed

lemma SplitByImm8s4_ok: "\<exists>res. HelpCPU_SplitByImm8s4 arm_host cnst = Inr res \<and> split_ok cnst res"
proof (cases "cnst = 0")
  case True
  have "encodable 0" by (rule encodableI [of 0]) simp_all
  with True show ?thesis by (simp add: HelpCPU_SplitByImm8s4_def split_ok_def)
next
  case False
  obtain s where s: "first_shift arm_host cnst = Inr s" "s < 32" "even s" "bits_from s cnst"
    using first_shift_finds [OF False] .
  obtain e where e: "last_shift arm_host cnst = Inr e" "e \<le> 32" "bits_below e cnst"
    using last_shift_finds [OF False] .
  show ?thesis
  proof (rule first_round [OF s(2-4) e(2,3)])
    fix res assume "split_round arm_host cnst e s (5, []) = Inr (Inl res)" "split_ok cnst res"
    with False s e show ?thesis by (simp add: HelpCPU_SplitByImm8s4_def)
  next
    fix res assume r: "split_round arm_host cnst e s (5, []) = Inr (Inr res)" "split_ok cnst res" "s + 8 < 32"
    have "\<exists>res'. split_rounds arm_host cnst e [s + 2, s + 4, s + 6] res = Inr res' \<and> split_ok cnst res'"
      by (rule split_rounds_ok) (use r s e in auto)
    with False s e r show ?thesis by (simp add: HelpCPU_SplitByImm8s4_def)
  qed
qed

text \<open>
  C23. \<^verbatim>\<open>HelpCPU_SplitByImm8s4\<close> returns for every constant, without failing an assertion,
  between one and four constants, as many as it says, each of which one ARM immediate can hold.  They have no
  bit in common and their sum is the given constant, so that a chain of \<^verbatim>\<open>ADD\<close> or of \<^verbatim>\<open>ORR\<close> instructions
  builds it.  The function evaluates \<^verbatim>\<open>0xFF >> 32\<close> and may evaluate \<^verbatim>\<open>0x3 << 30\<close>, which are undefined in C; this
  is what it does on the hosts that \<open>host_ok\<close> describes.
\<close>

theorem SplitByImm8s4_correct:
  assumes "host_ok h"
  shows "\<exists>n cs. HelpCPU_SplitByImm8s4 h cnst = Inr (n, cs) \<and> n = length cs \<and> 1 \<le> n \<and> n \<le> 4
     \<and> list_all (\<lambda>x. \<exists>e. imm12 e \<and> arm_expand_imm e = x) cs \<and> disjoint_words cs \<and> sum_list cs = cnst"
  unfolding split_host(6) [OF assms] using SplitByImm8s4_ok [of cnst] Imm8s4_encodes
  by (fastforce simp: split_ok_def list_all_iff)

theorem SplitByImm8s4_correct_witness:
  "HelpCPU_SplitByImm8s4 x86_host 0x12345678 = Inr (4, [0x278, 0x5400, 0x2340000, 0x10000000])
   \<and> disjoint_words [0x278, 0x5400, 0x2340000, 0x10000000]"
proof -
  have "returned (HelpCPU_SplitByImm8s4 x86_host 0x12345678) = Some (4, [0x278, 0x5400, 0x2340000, 0x10000000])"
    by code_simp
  then show ?thesis using SplitByImm8s4_correct [OF host_ok_hosts(2), where cnst = "0x12345678"] by auto
qed

text \<open>
  The comment on \<^verbatim>\<open>HelpCPU_SplitByImm8s4\<close> promises the minimal number of constants.
  That fails for a constant whose only one-byte window wraps around the word: the constant below is
  a single immediate, and the function returns two.
\<close>

theorem SplitByImm8s4_not_minimal:
  "HelpCPU_Imm8s4 arm_host 0xC000003F \<noteq> UINT32_MAX
   \<and> HelpCPU_SplitByImm8s4 arm_host 0xC000003F = Inr (2, [0x3F, 0xC0000000])"
proof
  have "HelpCPU_Imm8s4 arm_host 0xC000003F = 0x1FF" by code_simp
  then show "HelpCPU_Imm8s4 arm_host 0xC000003F \<noteq> UINT32_MAX" by (simp add: UINT32_MAX_def)
  have "returned (HelpCPU_SplitByImm8s4 arm_host 0xC000003F) = Some (2, [0x3F, 0xC0000000])" by code_simp
  then show "HelpCPU_SplitByImm8s4 arm_host 0xC000003F = Inr (2, [0x3F, 0xC0000000])" by simp
qed

end
