(* ===== verification/Fix.thy ===== *)
theory Fix
  imports Help_CPU
begin

text \<open>
  \<^verbatim>\<open>fix.c\<close>: fitting shift counts, immediate constants, load/store offsets and data values into
  their instruction fields.  The reference semantics the results are compared with is the
  architecture's: the data-processing operations with their carry and overflow flags, and the
  address offset a load/store instruction encodes.
\<close>

section \<open>Constants\<close>

definition "LSL = (0x00000000 :: u32)"
definition "LSR = (0x00000020 :: u32)"
definition "ASR = (0x00000040 :: u32)"
definition "ROR = (0x00000060 :: u32)"
definition "RRX = (5 :: u32)"

definition SHIFT_OP :: "u32 \<Rightarrow> u32" where
  "SHIFT_OP s = (if s = RRX then ROR else s)"

definition SHIFT_IMM :: "u32 \<Rightarrow> u32" where
  "SHIFT_IMM s = shl32 (s AND 31) 7"

definition "U_FLAG = (0x00800000 :: u32)"

definition "M_MNEM = (0x01e00000 :: u32)"
definition "M_ADC = (0x00a00000 :: u32)"
definition "M_ADD = (0x00800000 :: u32)"
definition "M_AND = (0x00000000 :: u32)"
definition "M_BIC = (0x01c00000 :: u32)"
definition "M_EOR = (0x00200000 :: u32)"
definition "M_MOV = (0x01a00000 :: u32)"
definition "M_MVN = (0x01e00000 :: u32)"
definition "M_ORR = (0x01800000 :: u32)"
definition "M_RSB = (0x00600000 :: u32)"
definition "M_RSC = (0x00e00000 :: u32)"
definition "M_SBC = (0x00c00000 :: u32)"
definition "M_SUB = (0x00400000 :: u32)"
definition "M_CMN = (0x01600000 :: u32)"
definition "M_CMP = (0x01400000 :: u32)"
definition "M_TEQ = (0x01200000 :: u32)"
definition "M_TST = (0x01000000 :: u32)"

lemmas shift_defs = LSL_def LSR_def ASR_def ROR_def RRX_def
lemmas mnem_defs =
  M_MNEM_def M_ADC_def M_ADD_def M_AND_def M_BIC_def M_EOR_def M_MOV_def M_MVN_def M_ORR_def
  M_RSB_def M_RSC_def M_SBC_def M_SUB_def M_CMN_def M_CMP_def M_TEQ_def M_TST_def

section \<open>Operations\<close>

definition Fix_ShiftImm :: "u32 \<Rightarrow> u32 \<Rightarrow> asm \<Rightarrow> (u32 \<times> asm) outcome" where
  "Fix_ShiftImm shiftop0 shift s =
     (let shiftop = (if shift = 0 then LSL else shiftop0);
          check = (\<lambda>lo hi dflt.
            if sint shift < lo \<or> sint shift > hi
            then rbind (Error ErrorError ''Illegal immediate shift %d'' s) (\<lambda>s. Inr (dflt, s))
            else Inr (shift, s))
      in rbind
           (if shiftop = LSL then check 0 31 0
            else if shiftop = LSR then check 1 32 1
            else if shiftop = ASR then check 1 32 1
            else if shiftop = ROR then check 1 31 1
            else Inl AssertFailed)
           (\<lambda>(shift, s). Inr (SHIFT_IMM shift OR SHIFT_OP shiftop, s)))"

text \<open>The two switches of \<^verbatim>\<open>Fix_Imm8s4\<close>: the alternative constant and the alternative mnemonic.\<close>

definition fix_im2 :: "u32 \<Rightarrow> u32 \<Rightarrow> u32" where
  "fix_im2 mnemonic im =
     (if mnemonic \<in> {M_ADD, M_SUB, M_ADC, M_SBC, M_CMP, M_CMN} then - im
      else if mnemonic \<in> {M_MOV, M_MVN, M_AND, M_BIC} then NOT im
      else im)"

definition fix_opcode :: "u32 \<Rightarrow> u32 option" where
  "fix_opcode mnemonic =
     (if mnemonic = M_ADD then Some M_SUB
      else if mnemonic = M_SUB then Some M_ADD
      else if mnemonic = M_ADC then Some M_SBC
      else if mnemonic = M_SBC then Some M_ADC
      else if mnemonic = M_CMP then Some M_CMN
      else if mnemonic = M_CMN then Some M_CMP
      else if mnemonic = M_MOV then Some M_MVN
      else if mnemonic = M_MVN then Some M_MOV
      else if mnemonic = M_AND then Some M_BIC
      else if mnemonic = M_BIC then Some M_AND
      else None)"

text \<open>The notes given with \<^verbatim>\<open>--fussy\<close> when the mnemonic was exchanged.\<close>

definition fix_note :: "u32 \<Rightarrow> string" where
  \<open>fix_note mnemonic =
     (if mnemonic \<in> {M_CMP, M_CMN, M_MOV, M_MVN}
      then ''Changing "%s Rx, #%d" to "%s Rx, #%d"''
      else ''Changing "%s Rx, Ry, #%d" to "%s Rx, Ry, #%d"'')\<close>

definition Fix_Imm8s4 :: "u32 \<Rightarrow> u32 \<Rightarrow> asm \<Rightarrow> (u32 \<times> asm) outcome" where
  "Fix_Imm8s4 ir im s =
     (let i8s4 = HelpCPU_Imm8s4 (host_ops s) im
      in if i8s4 \<noteq> UINT32_MAX then Inr (ir OR i8s4, s)
         else
           let mnemonic = ir AND M_MNEM;
               i8s4 = HelpCPU_Imm8s4 (host_ops s) (fix_im2 mnemonic im)
           in if i8s4 = UINT32_MAX
              then rbind (Error ErrorError ''Illegal immediate constant %d (0x%08x)'' s) (\<lambda>s. Inr (ir, s))
              else case fix_opcode mnemonic of
                     None \<Rightarrow> Inl AssertFailed
                   | Some m2 \<Rightarrow>
                       let ir = (ir AND NOT M_MNEM) OR m2
                       in if option_fussy s
                          then rbind (Error ErrorInfo (fix_note mnemonic) s) (\<lambda>s. Inr (ir OR i8s4, s))
                          else Inr (ir OR i8s4, s))"

definition Fix_CopOffset :: "u32 \<Rightarrow> u32 \<Rightarrow> asm \<Rightarrow> (u32 \<times> asm) outcome" where
  "Fix_CopOffset ir offset0 s =
     (let up = \<not> sint offset0 < 0;
          offset = (if sint offset0 < 0 then - offset0 else offset0)
      in rbind (if offset AND 3 \<noteq> 0 then Error ErrorError ''Offset %d is not a word offset'' s else Inr s) (\<lambda>s.
         rbind (if sint offset > 1020 then Error ErrorError ''Offset %d is too large'' s else Inr s) (\<lambda>s.
         let ir = ir OR (signed_drop_bit 2 offset AND 0xff)
         in Inr (if up then ir OR U_FLAG else ir, s))))"

definition Fix_CPUOffset :: "u32 \<Rightarrow> u32 \<Rightarrow> asm \<Rightarrow> (u32 \<times> asm) outcome" where
  "Fix_CPUOffset ir offset0 s =
     (let up = \<not> sint offset0 < 0;
          offset = (if sint offset0 < 0 then - offset0 else offset0);
          isAddrMode3 = (ir AND 0x04000090 = 0x90)
      in rbind
           (if isAddrMode3
            then rbind (if sint offset > 255 then Error ErrorError ''Offset %d is too large'' s else Inr s)
                   (\<lambda>s. Inr (ir OR ((offset AND 0xF) OR shl32 (offset AND 0xF0) 4), s))
            else rbind (if sint offset > 4095 then Error ErrorError ''Offset %d is too large'' s else Inr s)
                   (\<lambda>s. Inr (ir OR (offset AND 0xfff), s)))
           (\<lambda>(ir, s). Inr (if up then ir OR U_FLAG else ir, s)))"

definition Fix_CheckForOverflow :: "nat \<Rightarrow> u32 \<Rightarrow> bool outcome" where
  "Fix_CheckForOverflow dataSize dataValue =
     (if dataSize = 4 \<or> dataSize = 8 then Inr False
      else if dataSize = 1 then Inr (sint (dataValue + 2 ^ 7) < 0)
      else if dataSize = 2 then Inr (sint (dataValue + 2 ^ 15) < 0)
      else Inl AssertFailed)"

definition Fix_Int :: "nat \<Rightarrow> u32 \<Rightarrow> asm \<Rightarrow> (u32 \<times> asm) outcome" where
  "Fix_Int dataSize dataValue s =
     rbind (Fix_CheckForOverflow dataSize dataValue) (\<lambda>ov.
       if ov
       then rbind (Error ErrorError ''Value %d (0x%x) too big for %i bits'' s)
              (\<lambda>s. Inr (dataValue AND (shl32 1 (8 * dataSize) - 1), s))
       else Inr (dataValue, s))"

section \<open>Reference semantics\<close>

text \<open>\<open>AddWithCarry\<close> of the ARM architecture: result, carry out and signed overflow.\<close>

definition add_with_carry :: "u32 \<Rightarrow> u32 \<Rightarrow> bool \<Rightarrow> u32 \<times> bool \<times> bool" where
  "add_with_carry x y c =
     (let usum = uint x + uint y + of_bool c;
          ssum = sint x + sint y + of_bool c;
          r = word_of_int usum :: u32
      in (r, uint r \<noteq> usum, sint r \<noteq> ssum))"

text \<open>
  The data-processing instructions by mnemonic bits, on first operand, second operand and carry;
  the logical ones leave carry and overflow as they are, here given by \<open>c\<close> and \<open>v\<close>.
\<close>

definition alu :: "u32 \<Rightarrow> u32 \<Rightarrow> u32 \<Rightarrow> bool \<Rightarrow> bool \<Rightarrow> u32 \<times> bool \<times> bool" where
  "alu mnem rn op2 c v =
     (if mnem = M_ADD \<or> mnem = M_CMN then add_with_carry rn op2 False
      else if mnem = M_SUB \<or> mnem = M_CMP then add_with_carry rn (NOT op2) True
      else if mnem = M_ADC then add_with_carry rn op2 c
      else if mnem = M_SBC then add_with_carry rn (NOT op2) c
      else if mnem = M_RSB then add_with_carry (NOT rn) op2 True
      else if mnem = M_RSC then add_with_carry (NOT rn) op2 c
      else if mnem = M_MOV then (op2, c, v)
      else if mnem = M_MVN then (NOT op2, c, v)
      else if mnem = M_AND \<or> mnem = M_TST then (rn AND op2, c, v)
      else if mnem = M_BIC then (rn AND NOT op2, c, v)
      else if mnem = M_ORR then (rn OR op2, c, v)
      else (rn XOR op2, c, v))"

text \<open>What an instruction word with an immediate second operand computes.\<close>

definition alu_instr :: "u32 \<Rightarrow> u32 \<Rightarrow> bool \<Rightarrow> bool \<Rightarrow> u32 \<times> bool \<times> bool" where
  "alu_instr ir rn c v = alu (ir AND M_MNEM) rn (arm_expand_imm (ir AND 0xFFF)) c v"

text \<open>The signed byte offset that the offset fields of a load/store instruction encode.\<close>

definition cpu_offset :: "u32 \<Rightarrow> int" where
  "cpu_offset ir =
     (let m = (if ir AND 0x04000090 = 0x90
               then unat (ir AND 0xF) + 16 * unat (shr32 ir 8 AND 0xF)
               else unat (ir AND 0xFFF))
      in if flag ir U_FLAG then int m else - int m)"

definition cop_offset :: "u32 \<Rightarrow> int" where
  "cop_offset ir =
     (let m = 4 * unat (ir AND 0xFF) in if flag ir U_FLAG then int m else - int m)"

text \<open>The shift a register operand's fields (bits 5--11) encode: type and amount.\<close>

definition decode_shift :: "u32 \<Rightarrow> u32 \<times> nat" where
  "decode_shift f =
     (let typ = f AND 0x60; amount = unat (shr32 f 7 AND 31)
      in (typ, if amount = 0 \<and> (typ = LSR \<or> typ = ASR) then 32 else amount))"

section \<open>Immediate constants\<close>

lemma imm12_mnem: "imm12 e \<Longrightarrow> e AND M_MNEM = 0"
  unfolding imm12_def by (erule and_disjoint) (simp add: M_MNEM_def)

lemma mnem_field:
  assumes "ir AND 0xFFF = 0" and "imm12 e" and "m AND M_MNEM = m"
  shows "(((ir AND NOT M_MNEM) OR m) OR e) AND M_MNEM = m"
    and "(((ir AND NOT M_MNEM) OR m) OR e) AND 0xFFF = e"
    and "(ir OR e) AND M_MNEM = ir AND M_MNEM" and "(ir OR e) AND 0xFFF = e"
proof -
  have e: "e AND M_MNEM = 0" and e': "e AND 0xFFF = e"
    using assms(2) by (simp_all add: imm12_mnem imm12_def)
  have m: "m AND 0xFFF = 0"
    using assms(3) by (rule and_disjoint) (simp add: M_MNEM_def)
  have i: "(ir AND NOT M_MNEM) AND 0xFFF = 0"
  proof -
    have "(ir AND NOT M_MNEM) AND 0xFFF = (ir AND 0xFFF) AND NOT M_MNEM" by (simp only: ac_simps)
    then show ?thesis using assms(1) by simp
  qed
  show "(ir OR e) AND M_MNEM = ir AND M_MNEM" "(ir OR e) AND 0xFFF = e"
    using e e' assms(1) by (simp_all add: or_field or_outside)
  show "(((ir AND NOT M_MNEM) OR m) OR e) AND M_MNEM = m"
    using e assms(3) by (simp add: bit.conj_disj_distrib2 and.assoc)
  show "(((ir AND NOT M_MNEM) OR m) OR e) AND 0xFFF = e"
    using e' m i by (simp add: bit.conj_disj_distrib2 and.assoc)
qed

lemma add_with_carry_minus:
  assumes "y \<noteq> 0" and "y \<noteq> 0x80000000"
  shows "add_with_carry x (NOT y) True = add_with_carry x (- y) False"
proof -
  have u: "uint (NOT y) + 1 = uint (- y)"
    using assms(1) by (simp add: uint_neg_u32 uint_not_u32)
  have "uint y \<noteq> 2 ^ 31"
    using assms(2) by (simp add: word_uint_eq_iff)
  then have "sint (NOT y) + 1 = sint (- y)"
    using u by (simp add: sint_u32 uint_not_u32)
  with u show ?thesis by (simp add: add_with_carry_def Let_def add.assoc)
qed

lemma encodable_consts: "encodable 0" "encodable 0x80000000"
proof -
  have "HelpCPU_Imm8s4 arm_host 0 = 0" "HelpCPU_Imm8s4 arm_host 0x80000000 = 0x102" by code_simp+
  then show "encodable 0" "encodable 0x80000000" by (simp_all add: encodable_def UINT32_MAX_def)
qed

text \<open>Exchanging the mnemonic and negating or inverting the constant computes the same.\<close>

lemma fix_opcode_alu:
  assumes "fix_opcode m = Some m'" and "m \<noteq> M_ADC" and "m \<noteq> M_SBC" and "\<not> encodable im"
  shows "alu m' rn (fix_im2 m im) c v = alu m rn im c v"
proof -
  have im: "im \<noteq> 0" "im \<noteq> 0x80000000"
    using assms(4) encodable_consts by auto
  have im': "- im \<noteq> 0" "- im \<noteq> 0x80000000"
  proof -
    show "- im \<noteq> 0x80000000"
    proof
      assume "- im = 0x80000000"
      then have "- (- im) = - 0x80000000" by (rule arg_cong)
      then have "im = 0x80000000" by simp
      with im(2) show False ..
    qed
  qed (use im in simp)
  note awc = add_with_carry_minus [OF im] add_with_carry_minus [OF im', simplified]
  consider "m = M_ADD" | "m = M_SUB" | "m = M_CMP" | "m = M_CMN" | "m = M_MOV" | "m = M_MVN"
    | "m = M_AND" | "m = M_BIC"
    using assms(1-3) unfolding fix_opcode_def by (metis option.distinct(1))
  then show ?thesis
    by cases (use assms(1) in \<open>simp_all add: fix_opcode_def fix_im2_def alu_def mnem_defs awc\<close>)
qed

lemma fix_opcode_mnem: "fix_opcode m = Some m' \<Longrightarrow> m' AND M_MNEM = m'"
  by (auto simp: fix_opcode_def mnem_defs split: if_splits)

lemma fix_opcode_None: "fix_opcode m = None \<Longrightarrow> fix_im2 m im = im"
  by (auto simp: fix_opcode_def fix_im2_def split: if_splits)

lemma Error_Info_counts: "Error ErrorInfo msg s = Inr t \<Longrightarrow> oNumErrors t = oNumErrors s"
  by (auto simp: Error_def Error_SuppressMsg_def errorCore_def Let_def split: if_splits)

text \<open>The ways \<^verbatim>\<open>Fix_Imm8s4\<close> can return.\<close>

lemma Fix_Imm8s4_cases:
  assumes "Fix_Imm8s4 ir im s = Inr (ir', s')" and host: "host_ok (host_ops s)"
  obtains (direct) "encodable im" "ir' = ir OR HelpCPU_Imm8s4 arm_host im" "s' = s"
  | (changed) m2 where "\<not> encodable im" "encodable (fix_im2 (ir AND M_MNEM) im)"
      "fix_opcode (ir AND M_MNEM) = Some m2"
      "ir' = ((ir AND NOT M_MNEM) OR m2) OR HelpCPU_Imm8s4 arm_host (fix_im2 (ir AND M_MNEM) im)"
      "oNumErrors s' = oNumErrors s"
  | (error) "\<not> encodable im" "\<not> encodable (fix_im2 (ir AND M_MNEM) im)" "ir' = ir"
      "oNumErrors s' = oNumErrors s + 1"
proof -
  consider "encodable im" | "\<not> encodable im" "encodable (fix_im2 (ir AND M_MNEM) im)"
    | "\<not> encodable im" "\<not> encodable (fix_im2 (ir AND M_MNEM) im)" by blast
  then show ?thesis
  proof cases
    case 1
    with assms direct show ?thesis by (simp add: Fix_Imm8s4_def encodable_def Imm8s4_host [OF host])
  next
    case 2
    then obtain m2 where m2: "fix_opcode (ir AND M_MNEM) = Some m2"
      using fix_opcode_None [of "ir AND M_MNEM" im] by (cases "fix_opcode (ir AND M_MNEM)") auto
    with 2 assms changed show ?thesis
      by (auto simp: Fix_Imm8s4_def encodable_def Imm8s4_host [OF host] Let_def rbind_eq_Inr dest: Error_Info_counts split: if_splits)
  next
    case 3
    then obtain t where "Error ErrorError ''Illegal immediate constant %d (0x%08x)'' s = Inr t"
      and "ir' = ir" and "s' = t"
      using assms by (auto simp: Fix_Imm8s4_def encodable_def Imm8s4_host [OF host] Let_def elim!: rbind_InrE)
    then show ?thesis
      using 3 error Error_ErrorError_counts by blast
  qed
qed

lemma Fix_Imm8s4_no_crash: "\<not> crashes (Fix_Imm8s4 ir im s)"
proof -
  have "\<exists>m2. fix_opcode (ir AND M_MNEM) = Some m2"
    if "HelpCPU_Imm8s4 (host_ops s) im = UINT32_MAX" "HelpCPU_Imm8s4 (host_ops s) (fix_im2 (ir AND M_MNEM) im) \<noteq> UINT32_MAX"
    using that fix_opcode_None [of "ir AND M_MNEM" im] by (cases "fix_opcode (ir AND M_MNEM)") auto
  then show ?thesis
    by (auto simp: Fix_Imm8s4_def Let_def crashes_rbind split: option.split)
qed

text \<open>
  C24. When \<^verbatim>\<open>Fix_Imm8s4\<close> returns without having counted an error, the instruction word it
  built computes what the source instruction asked for: mnemonic \<open>ir AND M_MNEM\<close> on the unencoded
  constant \<open>im\<close>, whether or not the mnemonic was exchanged (ADD/SUB, CMP/CMN, MOV/MVN, AND/BIC).
  Result, carry and overflow agree for all register values.  ADC and SBC are excluded, see the next theorem, and so is
  the carry that the shifter gives to the logical instructions, which \<open>alu\<close> takes as unchanged.
\<close>

theorem Fix_Imm8s4_sound:
  assumes "Fix_Imm8s4 ir im s = Inr (ir', s')" and "oNumErrors s' = oNumErrors s"
    and "ir AND 0xFFF = 0" and "ir AND M_MNEM \<notin> {M_ADC, M_SBC}" and "host_ok (host_ops s)"
  shows "alu_instr ir' rn c v = alu (ir AND M_MNEM) rn im c v"
  using assms(1,5)
proof (cases rule: Fix_Imm8s4_cases)
  case direct
  note e = Imm8s4_encodes [OF direct(1)]
  show ?thesis
    using mnem_field(3,4) [OF assms(3) e(1), of 0] e(2) direct by (simp add: alu_instr_def)
next
  case (changed m2)
  note e = Imm8s4_encodes [OF changed(2)]
  note f = mnem_field(1,2) [OF assms(3) e(1) fix_opcode_mnem [OF changed(3)]]
  show ?thesis
    using f e(2) fix_opcode_alu [OF changed(3) _ _ changed(1)] assms(4) changed(4)
    by (simp add: alu_instr_def)
next
  case error
  with assms(2) show ?thesis by simp
qed

theorem Fix_Imm8s4_sound_witness:
  "alu_instr 0x0240000F 3 False True = alu (0x02800000 AND M_MNEM) 3 (- 15) False True"
proof (rule Fix_Imm8s4_sound)
  have "HelpCPU_Imm8s4 x86_host (- 15) = UINT32_MAX" and "HelpCPU_Imm8s4 x86_host 15 = 15" by code_simp+
  then show "Fix_Imm8s4 0x02800000 (- 15) asm0 = Inr (0x0240000F, asm0)"
    by (simp add: Fix_Imm8s4_def Let_def fix_im2_def fix_opcode_def mnem_defs UINT32_MAX_def) (simp add: asm0_def)
qed (simp_all add: mnem_defs)

text \<open>
  C25. The exchange of ADC and SBC is wrong: it negates the constant where it should invert it.  The SBC that replaces
  an ADC computes one less than the ADC of the source, and the ADC that replaces an SBC one more than the SBC.
\<close>

theorem Fix_Imm8s4_ADC:
  assumes "Fix_Imm8s4 ir im s = Inr (ir', s')" and "oNumErrors s' = oNumErrors s"
    and "ir AND 0xFFF = 0" and "HelpCPU_Imm8s4 (host_ops s) im = UINT32_MAX" and "host_ok (host_ops s)"
    and "ir AND M_MNEM = (if adc then M_ADC else M_SBC)"
  shows "fst (alu_instr ir' rn c v) =
    (if adc then fst (alu M_ADC rn im c v) - 1 else fst (alu M_SBC rn im c v) + 1)"
  using assms(1,5)
proof (cases rule: Fix_Imm8s4_cases)
  case (changed m2)
  note e = Imm8s4_encodes [OF changed(2)]
  note f = mnem_field(1,2) [OF assms(3) e(1) fix_opcode_mnem [OF changed(3)]]
  have "m2 = (if adc then M_SBC else M_ADC)" and "fix_im2 (ir AND M_MNEM) im = - im"
    using changed(3) assms(6) by (simp_all add: fix_opcode_def fix_im2_def mnem_defs split: if_splits)
  moreover have "alu_instr ir' rn c v = alu m2 rn (fix_im2 (ir AND M_MNEM) im) c v"
    unfolding alu_instr_def changed(4) f e(2) ..
  moreover have "(NOT (- im) :: u32) = im - 1"
    by (simp only: minus_eq_not_minus_1 [of im] bit.double_compl)
  moreover have "(NOT im :: u32) = - im - 1"
    by (simp only: not_eq_complement)
  ultimately show ?thesis
    by (simp add: alu_def mnem_defs add_with_carry_def Let_def)
next
  case direct
  with assms(4) Imm8s4_host [OF assms(5)] show ?thesis by (simp add: encodable_def)
next
  case error
  with assms(2) show ?thesis by simp
qed

theorem Fix_Imm8s4_ADC_witness:
  "fst (alu_instr 0x02C0000F 100 True False) = fst (alu M_ADC 100 (- 15) True False) - 1
    \<and> fst (alu_instr 0x02A0000F 100 True False) = fst (alu M_SBC 100 (- 15) True False) + 1"
proof -
  have enc: "HelpCPU_Imm8s4 x86_host (- 15) = UINT32_MAX" "HelpCPU_Imm8s4 x86_host 15 = 15" by code_simp+
  then have "Fix_Imm8s4 0x02A00000 (- 15) asm0 = Inr (0x02C0000F, asm0)" "Fix_Imm8s4 0x02C00000 (- 15) asm0 = Inr (0x02A0000F, asm0)"
    by (simp_all add: Fix_Imm8s4_def Let_def fix_im2_def fix_opcode_def mnem_defs UINT32_MAX_def) (simp_all add: asm0_def)
  from Fix_Imm8s4_ADC [OF this(1), where adc = True] Fix_Imm8s4_ADC [OF this(2), where adc = False] enc(1) show ?thesis
    by (simp add: mnem_defs)
qed

section \<open>Offsets\<close>

text \<open>The magnitude the offset routines compute, and the sign they record.\<close>

lemma offset_magnitude:
  assumes "sint (off::u32) \<noteq> - (2 ^ 31)"
  shows "int (unat (if sint off < 0 then - off else off)) = \<bar>sint off\<bar>"
proof -
  have u: "uint off < 2 ^ 32" using uint_lt2p [of off] by simp
  show ?thesis
  proof (cases "sint off < 0")
    case True
    then have "off \<noteq> 0" by auto
    then show ?thesis using True u by (simp add: uint_neg_u32 sint_u32 split: if_splits)
  next
    case False
    then show ?thesis using u by (simp add: sint_u32 split: if_splits)
  qed
qed

lemma sint_magnitude:
  assumes "sint (off::u32) \<noteq> - (2 ^ 31)"
  shows "sint (if sint off < 0 then - off else off) = \<bar>sint off\<bar>"
proof -
  have "\<bar>sint off\<bar> < 2 ^ 31"
    using assms sint_lt [of off] sint_ge [of off] by auto
  then show ?thesis
    using offset_magnitude [OF assms] by (simp add: sint_u32)
qed

text \<open>An error report followed by a pure step fails or counts one error.\<close>

lemma Error_then_counts:
  assumes "rbind (Error ErrorError msg s) (\<lambda>s. Inr (f s, s)) = Inr (x, t)"
  shows "oNumErrors t = oNumErrors s + 1"
  using assms Error_ErrorError_counts by (fastforce elim!: rbind_InrE)

lemma U_field: "ir AND 0x00800000 = 0 \<Longrightarrow> flag (ir OR U_FLAG) U_FLAG" "ir AND 0x00800000 = 0 \<Longrightarrow> \<not> flag ir U_FLAG"
  by (simp_all add: flag_def U_FLAG_def bit.conj_disj_distrib2)

text \<open>
  Addressing mode 2: an offset of at most 4095 in magnitude is put into the offset field and the U
  bit so that the processor decodes the same offset; any larger one counts an error.
\<close>

theorem Fix_CPUOffset_mode2:
  assumes ir: "ir AND 0x04800FFF = 0x04000000" and off: "sint off \<noteq> - (2 ^ 31)"
  shows "if \<bar>sint off\<bar> \<le> 4095
         then \<exists>ir'. Fix_CPUOffset ir off s = Inr (ir', s) \<and> cpu_offset ir' = sint off
         else \<forall>ir' s'. Fix_CPUOffset ir off s = Inr (ir', s') \<longrightarrow> oNumErrors s' = oNumErrors s + 1"
proof -
  define w where "w = (if sint off < 0 then - off else off)"
  have w: "int (unat w) = \<bar>sint off\<bar>" "sint w = \<bar>sint off\<bar>"
    using offset_magnitude [OF off] sint_magnitude [OF off] by (simp_all add: w_def)
  have f: "ir AND 0x04000000 = 0x04000000" "ir AND 0xFFF = 0" "ir AND 0x00800000 = 0"
    using sub_field [OF ir, of "0x04000000"] sub_field [OF ir, of "0xFFF"] sub_field [OF ir, of "0x00800000"]
    by simp_all
  have not3: "x AND 0x04000090 \<noteq> 0x90" if "x AND 0x04000000 = 0x04000000" for x :: u32
    using sub_field [of x "0x04000090" "0x90" "0x04000000"] that by auto
  show ?thesis
  proof (cases "\<bar>sint off\<bar> \<le> 4095")
    case True
    then have "unat w < 4096" using w(1) by linarith
    then have "unat w < 2 ^ 12" by simp
    then have w12: "w AND 0xFFF = w" by (simp only: mask_12 small_word_field)
    define i where "i = ir OR w"
    have i: "i AND 0xFFF = w" "i AND 0x04000000 = 0x04000000" "i AND 0x00800000 = 0"
      using f w12 and_disjoint [OF w12, of "0x04000000"] and_disjoint [OF w12, of "0x00800000"]
      by (simp_all add: i_def bit.conj_disj_distrib2)
    have "(i OR U_FLAG) AND 0xFFF = w" "(i OR U_FLAG) AND 0x04000000 = 0x04000000"
      using i by (simp_all add: U_FLAG_def bit.conj_disj_distrib2)
    then have "cpu_offset (if sint off < 0 then i else i OR U_FLAG) = sint off"
      using i not3 U_field [OF i(3)] w(1) by (simp add: cpu_offset_def)
    moreover have "Fix_CPUOffset ir off s = Inr (if sint off < 0 then i else i OR U_FLAG, s)"
      using not3 [OF f(1)] w(2) True w12
      by (simp add: Fix_CPUOffset_def Let_def w_def [symmetric] i_def)
    ultimately show ?thesis using True by auto
  next
    case False
    then have "Fix_CPUOffset ir off s =
        rbind (Error ErrorError ''Offset %d is too large'' s)
          (\<lambda>s. Inr (if \<not> sint off < 0 then (ir OR (w AND 0xFFF)) OR U_FLAG else ir OR (w AND 0xFFF), s))"
      using not3 [OF f(1)] w(2)
      by (simp add: Fix_CPUOffset_def Let_def w_def [symmetric] rbind_assoc)
    then show ?thesis using False Error_then_counts by auto
  qed
qed

theorem Fix_CPUOffset_mode2_witness:
  "\<exists>ir'. Fix_CPUOffset 0xE5110000 (- 8) asm0 = Inr (ir', asm0) \<and> cpu_offset ir' = - 8"
  using Fix_CPUOffset_mode2 [of "0xE5110000" "- 8" asm0] by simp

text \<open>
  Addressing mode 3: the same with the split 8-bit offset field and the limit 255.
\<close>

theorem Fix_CPUOffset_mode3:
  assumes ir: "ir AND 0x04800F9F = 0x90" and off: "sint off \<noteq> - (2 ^ 31)"
  shows "if \<bar>sint off\<bar> \<le> 255
         then \<exists>ir'. Fix_CPUOffset ir off s = Inr (ir', s) \<and> cpu_offset ir' = sint off
         else \<forall>ir' s'. Fix_CPUOffset ir off s = Inr (ir', s') \<longrightarrow> oNumErrors s' = oNumErrors s + 1"
proof -
  define w where "w = (if sint off < 0 then - off else off)"
  have w: "int (unat w) = \<bar>sint off\<bar>" "sint w = \<bar>sint off\<bar>"
    using offset_magnitude [OF off] sint_magnitude [OF off] by (simp_all add: w_def)
  have f: "ir AND 0x04000090 = 0x90" "ir AND 0xF = 0" "ir AND 0x00800000 = 0" "ir AND 0xF00 = 0"
    using sub_field [OF ir, of "0x04000090"] sub_field [OF ir, of "0xF"]
      sub_field [OF ir, of "0x00800000"] sub_field [OF ir, of "0xF00"]
    by simp_all
  define p where "p = (w AND 0xF) OR shl32 (w AND 0xF0) 4"
  define i where "i = ir OR p"
  have p: "p AND 0xF0F = p"
    by (simp add: p_def push_bit_and bit.conj_disj_distrib2 and.assoc)
  show ?thesis
  proof (cases "\<bar>sint off\<bar> \<le> 255")
    case True
    have w8: "unat w < 256" using w(1) True by linarith
    have i: "i AND 0x04000090 = 0x90" "i AND 0x00800000 = 0" "i AND 0xF = w AND 0xF"
      using f and_disjoint [OF p, of "0x04000090"] and_disjoint [OF p, of "0x00800000"]
      by (simp_all add: i_def p_def push_bit_and bit.conj_disj_distrib2 and.assoc)
    have "shr32 i 8 AND 0xF = shr32 (i AND 0xF00) 8"
      by (simp add: drop_bit_and)
    also have "i AND 0xF00 = shl32 w 4 AND 0xF00"
      using f(4) by (simp add: i_def p_def push_bit_and bit.conj_disj_distrib2 and.assoc)
    also have "shr32 (shl32 w 4 AND 0xF00) 8 = shr32 (shl32 w 4) 8 AND 0xF"
      by (simp add: drop_bit_and)
    finally have hi: "shr32 i 8 AND 0xF = shr32 (shl32 w 4) 8 AND 0xF" .
    have "unat (shr32 (shl32 w 4) 8) = unat w div 16"
      using w8 by (simp add: push_bit_eq_mult drop_bit_eq_div unat_div unat_word_ariths)
    then have hi': "unat (shr32 i 8 AND 0xF) = unat w div 16"
      unfolding hi unfolding mask_4 unat_and_mask using w8 by simp
    have lo: "unat (i AND 0xF) = unat w mod 16"
      unfolding i(3) unfolding mask_4 unat_and_mask by simp
    have U: "(i OR U_FLAG) AND 0x04000090 = 0x90" "(i OR U_FLAG) AND 0xF = i AND 0xF"
      "shr32 (i OR U_FLAG) 8 AND 0xF = shr32 i 8 AND 0xF"
      using i by (simp_all add: U_FLAG_def bit.conj_disj_distrib2 drop_bit_or)
    have "cpu_offset (if sint off < 0 then i else i OR U_FLAG) = sint off"
      using i U hi' lo U_field [OF i(2)] w(1) by (simp add: cpu_offset_def)
    moreover have "Fix_CPUOffset ir off s = Inr (if sint off < 0 then i else i OR U_FLAG, s)"
      using f(1) w(2) True by (simp add: Fix_CPUOffset_def Let_def w_def [symmetric] i_def p_def)
    ultimately show ?thesis using True by auto
  next
    case False
    then have "Fix_CPUOffset ir off s =
        rbind (Error ErrorError ''Offset %d is too large'' s)
          (\<lambda>s. Inr (if \<not> sint off < 0 then i OR U_FLAG else i, s))"
      using f(1) w(2)
      by (simp add: Fix_CPUOffset_def Let_def w_def [symmetric] rbind_assoc i_def p_def)
    then show ?thesis using False Error_then_counts by auto
  qed
qed

theorem Fix_CPUOffset_mode3_witness:
  "\<exists>ir'. Fix_CPUOffset 0xE15100B0 200 asm0 = Inr (ir', asm0) \<and> cpu_offset ir' = 200"
  using Fix_CPUOffset_mode3 [of "0xE15100B0" 200 asm0] by simp

text \<open>
  Coprocessor transfers: word offsets up to 1020 are encoded exactly; others count an error.
\<close>

theorem Fix_CopOffset_fields:
  assumes ir: "ir AND 0x008000FF = 0" and off: "sint off \<noteq> - (2 ^ 31)"
  shows "if \<bar>sint off\<bar> \<le> 1020 \<and> 4 dvd sint off
         then \<exists>ir'. Fix_CopOffset ir off s = Inr (ir', s) \<and> cop_offset ir' = sint off
         else \<forall>ir' s'. Fix_CopOffset ir off s = Inr (ir', s') \<longrightarrow> oNumErrors s' > oNumErrors s"
proof -
  define w where "w = (if sint off < 0 then - off else off)"
  have w: "int (unat w) = \<bar>sint off\<bar>" "sint w = \<bar>sint off\<bar>"
    using offset_magnitude [OF off] sint_magnitude [OF off] by (simp_all add: w_def)
  have f: "ir AND 0xFF = 0" "ir AND 0x00800000 = 0"
    using sub_field [OF ir, of "0xFF"] sub_field [OF ir, of "0x00800000"] by simp_all
  have "(3::u32) = mask 2" by (simp add: mask_eq_exp_minus_1)
  then have "w AND 3 = 0 \<longleftrightarrow> unat w mod 4 = 0"
    by (metis unat_and_mask unat_eq_zero power2_eq_square mult_2 numeral_Bit0)
  then have al: "w AND 3 = 0 \<longleftrightarrow> 4 dvd sint off"
    using w(1) by (metis dvd_abs_iff int_dvd_int_iff of_nat_numeral mod_eq_0_iff_dvd)
  define p where "p = signed_drop_bit 2 w AND 0xff"
  define i where "i = ir OR p"
  have run: "Fix_CopOffset ir off s =
      rbind (if w AND 3 \<noteq> 0 then Error ErrorError ''Offset %d is not a word offset'' s else Inr s) (\<lambda>s.
      rbind (if sint w > 1020 then Error ErrorError ''Offset %d is too large'' s else Inr s) (\<lambda>s.
      Inr (if sint off < 0 then i else i OR U_FLAG, s)))"
    by (simp add: Fix_CopOffset_def Let_def w_def [symmetric] i_def p_def)
  show ?thesis
  proof (cases "\<bar>sint off\<bar> \<le> 1020 \<and> 4 dvd sint off")
    case True
    have w10: "unat w \<le> 1020" using w(1) True by linarith
    have "sint (signed_drop_bit 2 w) = int (unat w div 4)"
      using w by (simp add: sint_signed_drop_bit_eq drop_bit_eq_div zdiv_int)
    then have sd: "unat (signed_drop_bit 2 w) = unat w div 4"
      using int_unat_sint [of "signed_drop_bit 2 w"] by linarith
    then have p8: "p AND 0xFF = p" and "unat p = unat w div 4"
      unfolding p_def mask_8 by (use w10 sd in \<open>simp_all add: unat_and_mask\<close>)
    moreover have i: "i AND 0xFF = p" "i AND 0x00800000 = 0"
      using f p8 and_disjoint [OF p8, of "0x00800000"] by (simp_all add: i_def bit.conj_disj_distrib2)
    moreover have "(i OR U_FLAG) AND 0xFF = p"
      using i by (simp add: U_FLAG_def bit.conj_disj_distrib2)
    moreover have "4 dvd unat w" using True w(1) by (metis dvd_abs_iff int_dvd_int_iff of_nat_numeral)
    ultimately have "cop_offset (if sint off < 0 then i else i OR U_FLAG) = sint off"
      using U_field [OF i(2)] w(1) by (simp add: cop_offset_def)
    then show ?thesis using True run al w(2) by auto
  next
    case False
    then have "w AND 3 \<noteq> 0 \<or> sint w > 1020" using al w(2) by auto
    then show ?thesis using False run Error_ErrorError_counts
      by (auto elim!: rbind_InrE split: if_splits)
  qed
qed

theorem Fix_CopOffset_fields_witness:
  "\<exists>ir'. Fix_CopOffset 0xED110100 (- 1020) asm0 = Inr (ir', asm0) \<and> cop_offset ir' = - 1020"
  using Fix_CopOffset_fields [of "0xED110100" "- 1020" asm0] by simp

section \<open>Data values and shifts\<close>

text \<open>What the test does: only the sign of the value offset by half the range counts.\<close>

lemma CheckForOverflow_iff:
  "Fix_CheckForOverflow 1 v = Inr (sint v < - 128 \<or> sint v \<ge> 2 ^ 31 - 128)"
  "Fix_CheckForOverflow 2 v = Inr (sint v < - 32768 \<or> sint v \<ge> 2 ^ 31 - 32768)"
proof -
  have u: "0 \<le> uint v" "uint v < 2 ^ 32" using uint_lt2p [of v] by simp_all
  have a: "uint (v + 128) = (if uint v < 2 ^ 32 - 128 then uint v + 128 else uint v + 128 - 2 ^ 32)"
    and b: "uint (v + 32768) = (if uint v < 2 ^ 32 - 32768 then uint v + 32768 else uint v + 32768 - 2 ^ 32)"
    by (simp_all add: uint_plus_if')
  show "Fix_CheckForOverflow 1 v = Inr (sint v < - 128 \<or> sint v \<ge> 2 ^ 31 - 128)"
    using u by (auto simp: Fix_CheckForOverflow_def sint_u32 a)
  show "Fix_CheckForOverflow 2 v = Inr (sint v < - 32768 \<or> sint v \<ge> 2 ^ 31 - 32768)"
    using u by (auto simp: Fix_CheckForOverflow_def sint_u32 b)
qed

text \<open>
  A value below the signed range of a byte or half word is reported and truncated to the range.
\<close>

theorem Fix_Int_negative:
  assumes "n = 1 \<or> n = 2" and "sint v < - (2 ^ (8 * n - 1))" and "Fix_Int n v s = Inr (r, s')"
  shows "oNumErrors s' = oNumErrors s + 1 \<and> unat r < 2 ^ (8 * n) \<and> unat r = unat v mod 2 ^ (8 * n)"
proof -
  have "Fix_CheckForOverflow n v = Inr True"
    using assms(1,2) CheckForOverflow_iff [of v] by auto
  then obtain t where t: "Error ErrorError ''Value %d (0x%x) too big for %i bits'' s = Inr t"
      "s' = t" "r = v AND (shl32 1 (8 * n) - 1)"
    using assms(3) by (auto simp: Fix_Int_def elim!: rbind_InrE)
  moreover have "shl32 1 (8 * n) - 1 = (mask (8 * n) :: u32)"
    by (simp add: mask_eq_exp_minus_1 push_bit_eq_mult)
  ultimately show ?thesis
    using Error_ErrorError_counts [of _ s t] by (simp add: unat_and_mask)
qed

theorem Fix_Int_negative_witness:
  "\<exists>s'. Fix_Int 1 (- 129) asm0 = Inr (127, s') \<and> oNumErrors s' = 1 \<and> unat (127::u32) < 2 ^ 8"
proof -
  have "map_option fst (returned (Fix_Int 1 (- 129) asm0)) = Some 127" by code_simp
  then obtain s' where s': "Fix_Int 1 (- 129) asm0 = Inr (127, s')" by auto
  from Fix_Int_negative [OF _ _ s'] s' show ?thesis by (simp add: asm0_def)
qed

text \<open>
  Contrary to the comment on \<^verbatim>\<open>Fix_CheckForOverflow\<close>, positive values are not
  checked: nearly every value above 255 (65535) is accepted unchanged for a byte (half word).
\<close>

theorem Fix_Int_positive_unchecked:
  assumes "n = 1 \<or> n = 2" and "0 \<le> sint v" and "sint v < 2 ^ 31 - 2 ^ (8 * n - 1)"
  shows "Fix_Int n v s = Inr (v, s)"
  using assms CheckForOverflow_iff [of v] by (auto simp: Fix_Int_def)

theorem Fix_Int_positive_unchecked_witness: "Fix_Int 1 70000 asm0 = Inr (70000, asm0)"
  using Fix_Int_positive_unchecked [of 1 70000 asm0] by simp

text \<open>
  Immediate shifts: an amount in the range of the shift type is encoded into the bits 5 to 11 such
  that the processor decodes type and amount again (0 as LSL #0, 32 as 0 for LSR and ASR); any other
  amount counts an error.
\<close>

theorem Fix_ShiftImm_fields:
  assumes "op \<in> {LSL, LSR, ASR, ROR}"
  shows "if 0 \<le> sint shift \<and> sint shift \<le> (if op = LSR \<or> op = ASR then 32 else 31)
         then \<exists>f. Fix_ShiftImm op shift s = Inr (f, s) \<and> f AND 0xFE0 = f
            \<and> decode_shift f = (if shift = 0 then LSL else op, unat shift)
         else \<forall>f s'. Fix_ShiftImm op shift s = Inr (f, s') \<longrightarrow> oNumErrors s' = oNumErrors s + 1"
proof (cases "0 \<le> sint shift \<and> sint shift \<le> (if op = LSR \<or> op = ASR then 32 else 31)")
  case True
  define op' where "op' = (if shift = 0 then LSL else op)"
  have u: "int (unat shift) = sint shift" using True int_unat_sint by blast
  have op': "op' \<in> {0, 0x20, 0x40, 0x60}" "shift = 0 \<Longrightarrow> op' = 0" "shift \<noteq> 0 \<Longrightarrow> op' = op"
    using assms by (auto simp: op'_def shift_defs)
  have pos: "shift \<noteq> 0 \<Longrightarrow> sint shift \<ge> 1"
    using u by (metis One_nat_def Suc_leI nat_int_comparison(3) of_nat_1 unat_gt_0)
  define f where "f = SHIFT_IMM shift OR op'"
  have run: "Fix_ShiftImm op shift s = Inr (f, s)"
    using True assms pos
    by (cases "shift = 0") (auto simp: Fix_ShiftImm_def Let_def f_def op'_def SHIFT_OP_def shift_defs)
  have m5: "(31::u32) = mask 5" by (simp add: mask_eq_exp_minus_1)
  have unshift: "shr32 (shl32 shift 7) 7 AND 31 = shift AND 31"
    unfolding m5 by (rule bit_word_eqI) (auto simp: bit_simps)
  have tf: "f AND 0x60 = op'" and fld: "f AND 0xFE0 = f"
    using op'(1) by (auto simp: f_def SHIFT_IMM_def push_bit_and bit.conj_disj_distrib2 and.assoc)
  have "shr32 f 7 AND 31 = shift AND 31"
    using op'(1) by (auto simp: f_def SHIFT_IMM_def drop_bit_or unshift)
  then have "unat (shr32 f 7 AND 31) = unat shift mod 32"
    by (simp add: m5 unat_and_mask del: mask_eq_exp_minus_1)
  then have "decode_shift f = (op', unat shift)"
  proof -
    assume am: "unat (shr32 f 7 AND 31) = unat shift mod 32"
    have "sint shift \<le> 32" using True by (auto split: if_splits)
    then have "unat shift \<le> 32" using u by linarith
    then consider "unat shift = 0" | "0 < unat shift" "unat shift < 32" | "unat shift = 32" by linarith
    then show ?thesis
    proof cases
      case 1
      then have "shift = 0" by (simp add: unat_eq_zero)
      with 1 op'(2) tf am show ?thesis by (simp add: decode_shift_def shift_defs)
    next
      case 2
      with tf am show ?thesis by (simp add: decode_shift_def)
    next
      case 3
      then have "shift \<noteq> 0" by auto
      then have "op' = LSR \<or> op' = ASR"
        using True u op'(3) 3 by (auto split: if_splits)
      with 3 tf am show ?thesis by (simp add: decode_shift_def)
    qed
  qed
  then show ?thesis using True run fld op'_def by auto
next
  case False
  then have "shift \<noteq> 0" by (auto split: if_splits)
  with False assms show ?thesis
    using Error_ErrorError_counts
    by (auto simp: Fix_ShiftImm_def Let_def shift_defs elim!: rbind_InrE split: if_splits)
qed

theorem Fix_ShiftImm_fields_witness:
  "\<exists>f. Fix_ShiftImm LSR 32 asm0 = Inr (f, asm0) \<and> decode_shift f = (LSR, 32)"
  using Fix_ShiftImm_fields [of LSR 32 asm0] by (auto simp: shift_defs)

end
