(* ===== verification/Put.thy ===== *)
theory Put
  imports Target_State Fix
begin

text \<open>
  Writing data and instructions into the current area: \<^verbatim>\<open>put.c\<close>.  The theorems say that what was put
  is what the image holds (and nothing else changed), that single precision is rounded to half
  precision correctly, and that the MOVW/MOVT encodings hold their operand.

  Indices are below \<^verbatim>\<open>2^32\<close>; an access at the very end of the index range that would wrap around is
  outside of any image here, hence undefined.
\<close>

section \<open>Data\<close>

definition ReportOverflow :: "nat \<Rightarrow> u32 \<Rightarrow> asm \<Rightarrow> asm outcome" where
  "ReportOverflow dataSize dataValue s =
     rbind (Fix_CheckForOverflow dataSize dataValue) (\<lambda>ov.
       if ov then Error ErrorWarning ''Size value %d (= 0x%x) exceeds %d byte%s'' s else Inr s)"

text \<open>The bytes of a value, least significant first.\<close>

definition le_bytes :: "nat \<Rightarrow> u64 \<Rightarrow> u8 list" where
  "le_bytes n v = map (\<lambda>i. ucast (drop_bit (8 * i) v)) [0..<n]"

text \<open>
  The loop over \<^verbatim>\<open>i\<close>.  It ends after at most \<open>times\<close> rounds, because then \<^verbatim>\<open>i\<close> is \<^verbatim>\<open>newOffset\<close>; that is
  the fuel it is given.
\<close>

fun put_loop :: "nat \<Rightarrow> symref \<Rightarrow> u32 \<Rightarrow> u32 \<Rightarrow> nat \<Rightarrow> u64 \<Rightarrow> asm \<Rightarrow> asm outcome" where
  "put_loop fuel r i newOffset dataSize dataValue s =
     (if i = newOffset then Inr s
      else case fuel of
             0 \<Rightarrow> Inl OutOfFuel
           | Suc fuel \<Rightarrow>
               if dataSize \<notin> {1, 2, 4, 8} then Inl AssertFailed
               else rbind (Area_Write r (unat i) (le_bytes dataSize dataValue) s)
                      (put_loop fuel r (i + of_nat dataSize) newOffset dataSize dataValue))"

declare put_loop.simps [simp del]

definition Put_DataWithOffset :: "u32 \<Rightarrow> nat \<Rightarrow> u64 \<Rightarrow> u32 \<Rightarrow> asm \<Rightarrow> asm outcome" where
  "Put_DataWithOffset offset dataSize dataValue ntimes s =
     (let newOffset = offset + of_nat dataSize * ntimes
      in rbind (cur_sym s) (\<lambda>r.
         rbind (sym_area s r) (\<lambda>a.
         rbind
           (if \<not> Area_IsNoInit a
            then rbind (ReportOverflow dataSize (ucast dataValue) s) (\<lambda>s.
                 rbind (if newOffset > curIdx a
                        then Area_EnsureExtraSize r (unat (newOffset - curIdx a)) s else Inr s)
                   (put_loop (unat ntimes) r offset newOffset dataSize dataValue))
            else if dataValue \<noteq> 0
            then Error ErrorError ''Trying to define a non-zero value in an uninitialised area'' s
            else Inr s)
           (\<lambda>s. rbind (sym_area s r) (\<lambda>a.
              if newOffset > curIdx a then Inr (set_area r (a\<lparr>curIdx := newOffset\<rparr>) s) else Inr s)))))"

definition Put_AlignDataWithOffset :: "u32 \<Rightarrow> nat \<Rightarrow> u32 \<Rightarrow> u32 \<Rightarrow> bool \<Rightarrow> asm \<Rightarrow> asm outcome" where
  "Put_AlignDataWithOffset offset sz data ntimes alignBefore s =
     rbind
       (if alignBefore
        then if sz = 2 then Area_AlignTo offset 2 (Some ''halfword'') s
             else if sz = 4 then Area_AlignTo offset 4 (Some ''word'') s
             else Inr (offset, s)
        else Inr (offset, s))
       (\<lambda>(offset, s). Put_DataWithOffset offset sz (ucast data) ntimes s)"

definition cur_area :: "asm \<Rightarrow> Area outcome" where
  "cur_area s = rbind (cur_sym s) (sym_area s)"

definition Put_Data :: "nat \<Rightarrow> u32 \<Rightarrow> asm \<Rightarrow> asm outcome" where
  "Put_Data sz data s = rbind (cur_area s) (\<lambda>a. Put_DataWithOffset (curIdx a) sz (ucast data) 1 s)"

section \<open>Floating point\<close>

text \<open>
  The argument is the bit pattern of the \<^verbatim>\<open>float\<close>.  A shift of \<^verbatim>\<open>1\<close> by 32 or more is undefined.
  \<open>half_round\<close> is the even-odd rounding, \<open>half_pack\<close> what follows it.
\<close>

definition half_round :: "u32 \<Rightarrow> int \<Rightarrow> u32" where
  "half_round mantissa expo =
     (let hp_lsb = (if expo < - 14 then shl32 1 (nat (- expo - 1)) else shl32 1 (23 - 10));
          add = shr32 hp_lsb 1;
          add = (if mantissa AND (hp_lsb - 1) = add then mantissa AND hp_lsb else add)
      in mantissa + add)"

definition half_pack :: "u32 \<Rightarrow> u32 \<Rightarrow> int \<Rightarrow> bool \<Rightarrow> u32" where
  "half_pack neg mantissa0 exp0 ieee =
     (let (mantissa, expo) = (if mantissa0 \<ge> shl32 1 24 then (shr32 mantissa0 1, exp0 + 1) else (mantissa0, exp0))
      in if ieee \<and> expo > 15 then neg OR 0x7C00
         else if \<not> ieee \<and> expo > 16 then neg OR 0x7FFF
         else if expo < - 14 - 10 then neg
         else
           let (mantissa, expo) = (if expo < - 14 then (shr32 mantissa (nat (- 14 - expo)), - 14) else (mantissa, expo))
           in neg OR (shl32 (of_int (expo + 15 - 1)) 10 + shr32 mantissa 13))"

definition FloatToHalf :: "u32 \<Rightarrow> bool \<Rightarrow> asm \<Rightarrow> (u16 \<times> asm) outcome" where
  "FloatToHalf flt ieee s =
     (let neg = shl32 (shr32 flt 31) 15;
          exp = uint (shr32 flt 23 AND 0xFF);
          mantissa = flt AND 0x7FFFFF
      in if exp = 0xFF
         then if \<not> ieee
              then rbind (Error ErrorWarning ''ARM alternative half-precision format can not represent INF or NaN'' s)
                     (\<lambda>s. Inr (ucast (if mantissa \<noteq> 0 then 0 else neg OR 0x7FFF), s))
              else Inr (ucast (neg OR 0x7C00 OR shr32 mantissa (23 - 10)), s)
         else if exp = 0 \<and> mantissa = 0 then Inr (ucast neg, s)
         else
           let mantissa = mantissa OR shl32 1 23;
               exp = exp - 127
           in if exp < - 14 \<and> - exp - 1 \<ge> 32 then Inl Undefined
              else Inr (ucast (half_pack neg (half_round mantissa exp) exp ieee), s))"

text \<open>The layouts of \<^verbatim>\<open>fpu.h\<close>: FPA stores the word with sign and exponent first.\<close>

definition arm_double_fpa :: "ARMFloat \<Rightarrow> u64" where
  "arm_double_fpa d = drop_bit 32 d OR push_bit 32 d"

definition arm_double_vfp :: "ARMFloat \<Rightarrow> u64" where
  "arm_double_vfp d = d"

definition Put_FloatDataWithOffset :: "u32 \<Rightarrow> nat \<Rightarrow> ARMFloat \<Rightarrow> bool \<Rightarrow> asm \<Rightarrow> asm outcome" where
  "Put_FloatDataWithOffset offset sz data alignBefore s =
     (let align = (\<lambda>n msg s. if alignBefore then Area_AlignTo offset n (Some msg) s else Inr (offset, s))
      in rbind
           (if sz = 2
            then rbind (align 2 ''half-precision floating-point value'' s) (\<lambda>(offset, s).
                 rbind (FloatToHalf (flt_of_dbl data) True s) (\<lambda>(h, s). Inr (offset, ucast h, s)))
            else if sz = 4
            then rbind (align 4 ''single-precision floating-point value'' s) (\<lambda>(offset, s).
                 Inr (offset, ucast (flt_of_dbl data), s))
            else if sz = 8
            then rbind (align 4 ''double-precision floating-point value'' s) (\<lambda>(offset, s).
                 rbind (cur_area s) (\<lambda>a.
                 Inr (offset,
                      if \<not> flag (area_type a) AREA_VFP then arm_double_fpa data else arm_double_vfp data, s)))
            else Inl AssertFailed)
           (\<lambda>(offset, toWrite, s). Put_DataWithOffset offset sz toWrite 1 s))"

section \<open>Instructions\<close>

definition Put_InsWithOffset :: "u32 \<Rightarrow> nat \<Rightarrow> u32 \<Rightarrow> asm \<Rightarrow> asm outcome" where
  "Put_InsWithOffset offset sz ins s =
     rbind (Area_AlignTo offset (if State_GetInstrType s = eInstrType_ARM then 4 else 2) (Some ''instruction'') s)
       (\<lambda>(offset, s).
          if State_GetInstrType s \<noteq> eInstrType_ARM \<and> sz = 4
          then rbind (Put_DataWithOffset (offset + 0) 2 (ucast (shr32 ins 16)) 1 s)
                 (Put_DataWithOffset (offset + 2) 2 (ucast (ins AND 0xFFFF)) 1)
          else Put_DataWithOffset offset sz (ucast ins) 1 s)"

definition Put_Ins :: "nat \<Rightarrow> u32 \<Rightarrow> asm \<Rightarrow> asm outcome" where
  "Put_Ins sz ins s = rbind (cur_area s) (\<lambda>a. Put_InsWithOffset (curIdx a) sz ins s)"

text \<open>The instruction words of MOVW and MOVT.\<close>

definition movw_arm :: "u32 \<Rightarrow> u32 \<Rightarrow> u32 \<Rightarrow> bool \<Rightarrow> u32" where
  "movw_arm cc destReg value isMOVT =
     cc OR (if isMOVT then 0x03400000 else 0x03000000) OR shl32 (value AND 0xF000) 4
     OR shl32 destReg 12 OR (value AND 0x0FFF)"

definition movw_thumb1 :: "u32 \<Rightarrow> bool \<Rightarrow> u32" where
  "movw_thumb1 value isMOVT =
     (if isMOVT then 0xF2C0 else 0xF240) OR shr32 (value AND 0x0800) 1 OR shr32 (value AND 0xF000) 12"

definition movw_thumb2 :: "u32 \<Rightarrow> u32 \<Rightarrow> u32" where
  "movw_thumb2 destReg value =
     shl32 (value AND 0x0700) 4 OR shl32 destReg 8 OR (value AND 0x00FF)"

definition Put_Ins_MOVW_MOVT :: "u32 \<Rightarrow> u32 \<Rightarrow> u32 \<Rightarrow> bool \<Rightarrow> asm \<Rightarrow> asm outcome" where
  "Put_Ins_MOVW_MOVT cc destReg value isMOVT s =
     (let isARM = (State_GetInstrType s = eInstrType_ARM)
      in rbind (if destReg = 15 then Error ErrorWarning ''The use of R15 is UNPREDICTABLE'' s else Inr s) (\<lambda>s.
         rbind (if destReg = 13
                then Error ErrorWarning (if isARM then ''The use of SP is DEPRECATED'' else ''The use of SP is UNPREDICTABLE'') s
                else Inr s) (\<lambda>s.
           if isARM then Put_Ins 4 (movw_arm cc destReg value isMOVT) s
           else rbind (Put_Ins 2 (movw_thumb1 value isMOVT) s) (Put_Ins 2 (movw_thumb2 destReg value)))))"

section \<open>Reading back\<close>

text \<open>Bytes that \<^verbatim>\<open>realloc()\<close> added and nobody wrote are indeterminate.\<close>

definition image_word :: "nat \<Rightarrow> u32 \<Rightarrow> asm \<Rightarrow> u8 list outcome" where
  "image_word n offset s =
     rbind (cur_area s) (\<lambda>a.
       rbind (rassert (unat offset + n \<le> imagesize a)) (\<lambda>_.
         case image_read (unat offset) n (image a) of
           None \<Rightarrow> Inl Undefined
         | Some bs \<Rightarrow> if None \<in> set bs then Inl Undefined else Inr (map the bs)))"

definition Put_GetHalfWord :: "u32 \<Rightarrow> asm \<Rightarrow> u32 outcome" where
  "Put_GetHalfWord offset s =
     rbind (image_word 2 offset s) (\<lambda>p. Inr (ucast (p ! 0) + shl32 (ucast (p ! 1)) 8))"

definition Put_GetWord :: "u32 \<Rightarrow> asm \<Rightarrow> u32 outcome" where
  "Put_GetWord offset s =
     rbind (image_word 4 offset s) (\<lambda>p.
       Inr (ucast (p ! 0) + shl32 (ucast (p ! 1)) 8 + shl32 (ucast (p ! 2)) 16 + shl32 (ucast (p ! 3)) 24))"

text \<open>What putting the bytes \<open>bs\<close> at \<open>off\<close> does to an image.\<close>

definition image_put :: "nat \<Rightarrow> u8 list \<Rightarrow> u8 option list \<Rightarrow> u8 option list \<Rightarrow> bool" where
  "image_put off bs img img' \<longleftrightarrow>
     length img' = length img
     \<and> image_read off (length bs) img' = Some (map Some bs)
     \<and> (\<forall>j m. j + m \<le> off \<or> off + length bs \<le> j \<longrightarrow> image_read j m img' = image_read j m img)"

text \<open>What a put into an initialised area changes.\<close>

definition area_put :: "nat \<Rightarrow> u8 list \<Rightarrow> Area \<Rightarrow> Area \<Rightarrow> bool" where
  "area_put off bs a a' \<longleftrightarrow>
     (\<exists>k img. image_put off bs (image (grown k a)) img
        \<and> a' = a\<lparr>image := img, curIdx := max (curIdx a) (of_nat (off + length bs))\<rparr>)"

text \<open>
  The bits of the half precision number nearest to \<open>m * 2 ^ (e - 23)\<close> (ties to even), for a significand
  \<open>m\<close> of 24 bits: the significand is rounded to a multiple of the unit in the last place of the result,
  and numbers beyond the largest become infinity.
\<close>

definition half_nearest :: "nat \<Rightarrow> int \<Rightarrow> nat" where
  "half_nearest m e =
     min 0x7C00
       (if e < - 14 then div_even m (2 ^ nat (- e - 1))
        else nat (e + 14) * 2 ^ 10 + div_even m (2 ^ 13))"

text \<open>The result of \<^verbatim>\<open>FloatToHalf\<close> computed from the rounded significand \<open>M'\<close>.\<close>

definition half_result :: "nat \<Rightarrow> int \<Rightarrow> nat" where
  "half_result M' e =
     (let (m, e) = (if M' \<ge> 2 ^ 24 then (M' div 2, e + 1) else (M', e))
      in if e > 15 then 0x7C00
         else if e < - 24 then 0
         else if e < - 14 then m div 2 ^ nat (- 14 - e) div 2 ^ 13
         else nat (e + 14) * 2 ^ 10 + m div 2 ^ 13)"

text \<open>The operand the processor decodes: \<open>imm4:imm12\<close>, and \<open>imm4:i:imm3:imm8\<close> for the Thumb encoding.\<close>

definition decode_movw_arm :: "u32 \<Rightarrow> u32" where
  "decode_movw_arm w = shr32 (w AND 0xF0000) 4 OR (w AND 0xFFF)"

definition decode_movw_thumb :: "u32 \<Rightarrow> u32 \<Rightarrow> u32" where
  "decode_movw_thumb h1 h2 =
     shl32 (h1 AND 0xF) 12 OR shl32 (h1 AND 0x400) 1 OR shr32 (h2 AND 0x7000) 4 OR (h2 AND 0xFF)"

lemma length_le_bytes [simp]: "length (le_bytes n v) = n"
  by (simp add: le_bytes_def)

lemma image_read_add:
  assumes "image_read i m img = Some xs" and "image_read (i + m) n img = Some ys"
  shows "image_read i (m + n) img = Some (xs @ ys)"
  using assms by (auto simp: image_read_def take_add add.commute split: if_splits)

lemma image_put_write: "image_write off bs img = Some img' \<Longrightarrow> image_put off bs img img'"
  using img.store_extent img.load_written img.load_elsewhere by (simp add: image_put_def)

lemma image_put_append:
  assumes "image_put off bs img img'" and "image_put (off + length bs) cs img' img''"
  shows "image_put off (bs @ cs) img img''"
  using assms image_read_add [of off "length bs" img'' "map Some bs" "length cs" "map Some cs"]
  by (auto simp: image_put_def)

lemma put_loop_spec:
  assumes "sym_area s r = Inr a" and "ds \<in> {1, 2, 4, 8}" and "unat i + ds * n = unat j"
    and "unat j \<le> imagesize a" and "n \<le> fuel"
  shows "\<exists>img. put_loop fuel r i j ds v s = Inr (set_area r (a\<lparr>image := img\<rparr>) s)
    \<and> image_put (unat i) (concat (replicate n (le_bytes ds v))) (image a) img"
  using assms
proof (induction n arbitrary: i a s fuel)
  case 0
  then have "i = j" by (simp add: word_unat_eq_iff)
  with 0 show ?case
    by (intro exI [of _ "image a"]) (auto simp: put_loop.simps set_area_triv image_put_def image_read_def)
next
  case (Suc n)
  obtain m where fuel: "fuel = Suc m" using Suc.prems(5) by (cases fuel) auto
  have "0 < ds" using Suc.prems(2) by auto
  then have neq: "i \<noteq> j" using Suc.prems(3) by auto
  have le: "unat i + ds \<le> unat j" using Suc.prems(3) by simp
  then have i': "unat (i + of_nat ds) = unat i + ds"
    using unsigned_less [of j, where 'a = nat] by (intro unat_add_small) simp
  obtain img1 where w: "image_write (unat i) (le_bytes ds v) (image a) = Some img1"
    using img.store_total [of "unat i" "le_bytes ds v" "image a"] le Suc.prems(4) by auto
  define s1 where "s1 = set_area r (a\<lparr>image := img1\<rparr>) s"
  have "length img1 = imagesize a" using img.store_extent [OF w] .
  then obtain img2 where
    run: "put_loop m r (i + of_nat ds) j ds v s1 = Inr (set_area r (a\<lparr>image := img2\<rparr>) s)"
    and put: "image_put (unat i + ds) (concat (replicate n (le_bytes ds v))) img1 img2"
    using Suc.IH [of s1 "a\<lparr>image := img1\<rparr>" "i + of_nat ds" m] Suc.prems fuel i'
    by (auto simp: s1_def)
  have "put_loop fuel r i j ds v s = Inr (set_area r (a\<lparr>image := img2\<rparr>) s)"
    using neq Suc.prems(1,2) w run by (subst put_loop.simps) (simp add: fuel Area_Write_def s1_def)
  moreover have "image_put (unat i) (concat (replicate (Suc n) (le_bytes ds v))) (image a) img2"
    using image_put_append [OF image_put_write [OF w], of _ img2] put by simp
  ultimately show ?case by blast
qed

lemma ReportOverflow_same:
  assumes "ReportOverflow n v s = Inr t"
  shows "same_but_errors s t"
  using assms by (auto simp: ReportOverflow_def elim!: rbind_InrE split: if_splits dest: Error_same)

lemma ReportOverflow_not_crashes: "n \<in> {1, 2, 4, 8} \<Longrightarrow> \<not> crashes (ReportOverflow n v s)"
  by (auto simp: ReportOverflow_def Fix_CheckForOverflow_def crashes_rbind)

text \<open>\<^verbatim>\<open>Put_DataWithOffset\<close> on an initialised area, cut into its three parts.\<close>

lemma Put_DataWithOffset_eq:
  assumes "areaCurrentSymbol s = Some r" and "sym_area s r = Inr a" and "\<not> Area_IsNoInit a"
    and "unat offset + ds * unat n < 2 ^ 32"
  defines "j \<equiv> offset + of_nat ds * n"
  shows "unat j = unat offset + ds * unat n"
    and "Put_DataWithOffset offset ds v n s =
      rbind (ReportOverflow ds (ucast v) s) (\<lambda>s.
      rbind (if j > curIdx a then Area_EnsureExtraSize r (unat (j - curIdx a)) s else Inr s) (\<lambda>s.
      rbind (put_loop (unat n) r offset j ds v s) (\<lambda>s.
      rbind (sym_area s r) (\<lambda>a. if j > curIdx a then Inr (set_area r (a\<lparr>curIdx := j\<rparr>) s) else Inr s))))"
proof -
  have "of_nat ds * n = (of_nat (ds * unat n) :: u32)" by simp
  then show "unat j = unat offset + ds * unat n"
    using unat_add_small [of offset "ds * unat n"] assms(4) by (simp add: j_def)
  show "Put_DataWithOffset offset ds v n s =
      rbind (ReportOverflow ds (ucast v) s) (\<lambda>s.
      rbind (if j > curIdx a then Area_EnsureExtraSize r (unat (j - curIdx a)) s else Inr s) (\<lambda>s.
      rbind (put_loop (unat n) r offset j ds v s) (\<lambda>s.
      rbind (sym_area s r) (\<lambda>a. if j > curIdx a then Inr (set_area r (a\<lparr>curIdx := j\<rparr>) s) else Inr s))))"
    using assms(1-3) unfolding j_def by (simp add: Put_DataWithOffset_def Let_def cur_sym_def rbind_assoc)
qed

text \<open>The part after the overflow check, from a state with room or in pass one.\<close>

lemma put_room:
  assumes a: "sym_area s r = Inr a" and wf: "wf_area a" and "\<not> Area_IsNoInit a"
    and run: "(if j > curIdx a then Area_EnsureExtraSize r (unat (j - curIdx a)) s else Inr s) = Inr t"
  shows "\<exists>k. same_but_errors (set_area r (grown k a) s) t \<and> unat j \<le> imagesize a + k"
proof (cases "j > curIdx a")
  case True
  then have "unat (j - curIdx a) + unat (curIdx a) = unat j"
    by (simp add: word_less_nat_alt unat_sub_if')
  moreover have "Area_EnsureExtraSize r (unat (j - curIdx a)) s = Inr t" using run True by simp
  then obtain k where "same_but_errors (set_area r (grown k a) s) t"
      "unat (curIdx a) + unat (j - curIdx a) \<le> imagesize a + k"
    using EnsureExtraSize_spec [OF a _ wf] assms(3) by blast
  ultimately show ?thesis by (intro exI [of _ k]) simp
next
  case False
  then have "unat j \<le> imagesize a"
    using wf assms(3) by (auto simp: wf_area_def word_less_nat_alt)
  then show ?thesis using False run a by (intro exI [of _ 0]) (auto simp: set_area_triv)
qed

lemma put_finish:
  assumes a: "sym_area t r = Inr (grown k a)" and same: "same_but_errors (set_area r (grown k a) s) t"
    and ds: "ds \<in> {1, 2, 4, 8}" and j: "unat j = unat offset + ds * n" "unat j \<le> imagesize a + k"
    and wf: "wf_area a" and "\<not> Area_IsNoInit a"
  shows "\<exists>u a'. rbind (put_loop n r offset j ds v t) (\<lambda>s.
      rbind (sym_area s r) (\<lambda>a. if j > curIdx a then Inr (set_area r (a\<lparr>curIdx := j\<rparr>) s) else Inr s)) = Inr u
    \<and> same_but_errors (set_area r a' s) u
    \<and> wf_area a' \<and> area_put (unat offset) (concat (replicate n (le_bytes ds v))) a a'"
proof -
  obtain img where img: "put_loop n r offset j ds v t = Inr (set_area r ((grown k a)\<lparr>image := img\<rparr>) t)"
    and put: "image_put (unat offset) (concat (replicate n (le_bytes ds v))) (image (grown k a)) img"
    using put_loop_spec [OF a ds, of offset n j n v] j by auto
  define a' where "a' = a\<lparr>image := img, curIdx := max (curIdx a) j\<rparr>"
  have len: "length img = imagesize a + k" using put by (simp add: image_put_def)
  have "length (concat (replicate n (le_bytes ds v))) = ds * n" by (induction n) simp_all
  then have ap: "area_put (unat offset) (concat (replicate n (le_bytes ds v))) a a'"
    using put j(1) [symmetric] by (auto simp: area_put_def a'_def)
  have "unat (curIdx a) \<le> imagesize a" using wf assms(7) by (simp add: wf_area_def)
  then have wf': "wf_area a'"
    using assms(7) j(2) len by (simp add: wf_area_def a'_def Area_IsNoInit_def max_def)
  have g: "(grown k a)\<lparr>image := img\<rparr> = a\<lparr>image := img\<rparr>" by (simp add: grown_def)
  define u where "u = set_area r a' t"
  have "rbind (put_loop n r offset j ds v t) (\<lambda>s.
      rbind (sym_area s r) (\<lambda>a. if j > curIdx a then Inr (set_area r (a\<lparr>curIdx := j\<rparr>) s) else Inr s)) = Inr u"
    by (cases "j > curIdx a") (auto simp: img g u_def a'_def max_def)
  moreover have "same_but_errors (set_area r a' s) u"
    using same_set_area [OF same, of r a'] by (simp add: u_def)
  ultimately show ?thesis using ap wf' by blast
qed

text \<open>Puts return, or stop for want of memory or after too many errors.\<close>

lemma Put_spec:
  assumes "areaCurrentSymbol s = Some r" and a: "sym_area s r = Inr a" and wf: "wf_area a"
    and ni: "\<not> Area_IsNoInit a" and ds: "ds \<in> {1, 2, 4, 8}"
    and len: "unat offset + ds * unat n < 2 ^ 32"
    and room: "gPhase s = ePassOne \<or> unat offset + ds * unat n \<le> imagesize a"
  shows "\<not> crashes (Put_DataWithOffset offset ds v n s)" (is ?nc)
    and "Put_DataWithOffset offset ds v n s = Inr t \<Longrightarrow>
      \<exists>a'. same_but_errors (set_area r a' s) t \<and> wf_area a'
        \<and> area_put (unat offset) (concat (replicate (unat n) (le_bytes ds v))) a a'" (is "_ \<Longrightarrow> ?post")
proof -
  define j where "j = offset + of_nat ds * n"
  note eq = Put_DataWithOffset_eq [OF assms(1) a ni len, folded j_def]
  have after: "\<exists>w a'. rbind (put_loop (unat n) r offset j ds v u) (\<lambda>s.
      rbind (sym_area s r) (\<lambda>a. if j > curIdx a then Inr (set_area r (a\<lparr>curIdx := j\<rparr>) s) else Inr s)) = Inr w
    \<and> same_but_errors (set_area r a' s) w
    \<and> wf_area a' \<and> area_put (unat offset) (concat (replicate (unat n) (le_bytes ds v))) a a'"
    if q: "ReportOverflow ds (ucast v) s = Inr q"
      and u: "(if j > curIdx a then Area_EnsureExtraSize r (unat (j - curIdx a)) q else Inr q) = Inr u" for q u
  proof -
    have sq: "same_but_errors s q" by (rule ReportOverflow_same [OF q])
    then have aq: "sym_area q r = Inr a" using a by (simp add: sym_area_same)
    obtain k where k: "same_but_errors (set_area r (grown k a) q) u" "unat j \<le> imagesize a + k"
      using put_room [OF aq wf ni u] by blast
    then have su: "same_but_errors (set_area r (grown k a) s) u"
      using same_set_area [OF sq] same_but_errors_trans by blast
    moreover have "sym_area u r = Inr (grown k a)" using sym_area_same [OF su] by simp
    ultimately show ?thesis using put_finish [OF _ _ ds eq(1) k(2) wf ni] by blast
  qed
  have ens: "\<not> crashes (if j > curIdx a then Area_EnsureExtraSize r (unat (j - curIdx a)) q else Inr q)"
    if "ReportOverflow ds (ucast v) s = Inr q" for q
  proof (cases "j > curIdx a")
    case True
    have sq: "same_but_errors s q" by (rule ReportOverflow_same [OF that])
    then have "sym_area q r = Inr a" "gPhase q = gPhase s" using a by (simp_all add: sym_area_same same_but_errorsD)
    moreover have "unat (j - curIdx a) + unat (curIdx a) = unat j"
      using True by (simp add: word_less_nat_alt unat_sub_if')
    ultimately show ?thesis
      using EnsureExtraSize_not_crashes [OF _ wf, of q r "unat (j - curIdx a)"] room eq(1) True by auto
  qed simp
  show ?nc
    unfolding eq(2)
    by (rule not_crashes_rbindI [OF ReportOverflow_not_crashes [OF ds]], rule not_crashes_rbindI)
      (use ens after in fastforce)+
  show ?post if run: "Put_DataWithOffset offset ds v n s = Inr t"
  proof -
    obtain q u where q: "ReportOverflow ds (ucast v) s = Inr q"
      and u: "(if j > curIdx a then Area_EnsureExtraSize r (unat (j - curIdx a)) q else Inr q) = Inr u"
      and t: "rbind (put_loop (unat n) r offset j ds v u) (\<lambda>s.
      rbind (sym_area s r) (\<lambda>a. if j > curIdx a then Inr (set_area r (a\<lparr>curIdx := j\<rparr>) s) else Inr s)) = Inr t"
      using run unfolding eq(2) by (elim rbind_InrE [of "ReportOverflow ds (ucast v) s"]
          rbind_InrE [of "if curIdx a < j then Area_EnsureExtraSize r (unat (j - curIdx a)) _ else Inr _"])
    from after [OF q u] t show ?thesis by auto
  qed
qed

lemma unat_le_bytes:
  "i < n \<Longrightarrow> unat (le_bytes n v ! i) = unat v div 2 ^ (8 * i) mod 256"
  by (simp add: le_bytes_def unsigned_ucast_eq unat_drop_bit take_bit_eq_mod)

lemma word_of_bytes:
  assumes "length bs = 4" and "\<And>i. i < 4 \<Longrightarrow> unat (bs ! i) = unat w div 2 ^ (8 * i) mod 256"
  shows "ucast (bs ! 0 :: u8) + shl32 (ucast (bs ! 1)) 8 + shl32 (ucast (bs ! 2)) 16 + shl32 (ucast (bs ! 3)) 24
    = (w :: u32)"
proof -
  have "ucast (bs ! 0) + shl32 (ucast (bs ! 1)) 8 + shl32 (ucast (bs ! 2)) 16 + shl32 (ucast (bs ! 3)) 24
      = (of_nat (unat (bs ! 0) + unat (bs ! 1) * 2 ^ 8 + unat (bs ! 2) * 2 ^ 16 + unat (bs ! 3) * 2 ^ 24) :: u32)"
    by (simp add: push_bit_eq_mult)
  also have "\<dots> = of_nat (unat w)"
    using nat_bytes [of "unat w"] unsigned_less [of w, where 'a = nat] assms(2) by simp
  finally show ?thesis by simp
qed

lemma half_of_bytes:
  assumes "length bs = 2" and "\<And>i. i < 2 \<Longrightarrow> unat (bs ! i) = unat w div 2 ^ (8 * i) mod 256"
  shows "ucast (bs ! 0 :: u8) + shl32 (ucast (bs ! 1)) 8 = (w :: u32) AND 0xFFFF"
proof -
  have "ucast (bs ! 0) + shl32 (ucast (bs ! 1)) 8 = (of_nat (unat (bs ! 0) + unat (bs ! 1) * 2 ^ 8) :: u32)"
    by (simp add: push_bit_eq_mult)
  also have "unat (bs ! 0) + unat (bs ! 1) * 2 ^ 8 = unat w mod 2 ^ 16"
    using mod_mult2_eq [of "unat w" 256 256] assms(2) by simp
  also have "of_nat (unat w mod 2 ^ 16) = (of_nat (unat (w AND mask 16)) :: u32)"
    by (simp only: unat_and_mask)
  also have "\<dots> = w AND mask 16" by (rule unat_inverse_word)
  finally show ?thesis by (simp add: mask_eq_exp_minus_1)
qed

lemma image_word_put:
  assumes "areaCurrentSymbol t = Some r" and "sym_area t r = Inr a'" and "area_put (unat off) bs a a'"
  shows "image_word (length bs) off t = Inr bs"
proof -
  obtain k img where "image_put (unat off) bs (image (grown k a)) img" and a': "image a' = img"
    using assms(3) by (auto simp: area_put_def)
  then have r: "image_read (unat off) (length bs) (image a') = Some (map Some bs)"
    by (simp add: image_put_def)
  moreover have "unat off + length bs \<le> imagesize a'" using r by (auto simp: image_read_def split: if_splits)
  ultimately show ?thesis
    using assms(1,2) by (simp add: image_word_def cur_area_def cur_sym_def comp_def)
qed

text \<open>
  C13. Putting data.  On a well-formed, initialised current area, in pass one or where the image has the
  room already, \<^verbatim>\<open>Put_DataWithOffset\<close> fails no assertion and never writes outside of the image.  When
  it returns, the image holds the little-endian bytes of the value the asked number of times at the
  offset, all other bytes are unchanged, the index is the larger of the old one and the end of the data,
  and the area is well-formed.
\<close>

theorem Put_DataWithOffset_spec:
  assumes "areaCurrentSymbol s = Some r" and "sym_area s r = Inr a" and "wf_area a"
    and "\<not> Area_IsNoInit a" and "dataSize \<in> {1, 2, 4, 8}"
    and "unat offset + dataSize * unat n < 2 ^ 32"
    and "gPhase s = ePassOne \<or> unat offset + dataSize * unat n \<le> imagesize a"
  shows "\<not> crashes (Put_DataWithOffset offset dataSize v n s)
    \<and> (\<forall>t. Put_DataWithOffset offset dataSize v n s = Inr t \<longrightarrow>
        (\<exists>a'. same_but_errors (set_area r a' s) t \<and> wf_area a'
           \<and> area_put (unat offset) (concat (replicate (unat n) (le_bytes dataSize v))) a a'))"
  using Put_spec [OF assms] by blast

theorem Put_DataWithOffset_spec_witness:
  "\<exists>t a'. Put_DataWithOffset 6 2 0x1234 3 (asm_code ePassTwo) = Inr t \<and> sym_area t 0 = Inr a'
     \<and> area_put 6 [0x34, 0x12, 0x34, 0x12, 0x34, 0x12] area_code a'"
proof -
  have "map_option (\<lambda>t. gPhase t) (returned (Put_DataWithOffset 6 2 0x1234 3 (asm_code ePassTwo))) = Some ePassTwo"
    by code_simp
  then obtain t where t: "Put_DataWithOffset 6 2 0x1234 3 (asm_code ePassTwo) = Inr t" by auto
  have "unat (6::u32) + 2 * unat (3::u32) \<le> imagesize area_code" by (simp add: area_code_def)
  then obtain a' where a': "same_but_errors (set_area 0 a' (asm_code ePassTwo)) t"
      "area_put (unat (6::u32)) (concat (replicate (unat (3::u32)) (le_bytes 2 0x1234))) area_code a'"
    using Put_DataWithOffset_spec [OF asm_code_sel(2) sym_area_asm_code wf_area_code, of 2 6 3 ePassTwo "0x1234"] t
    by auto
  moreover have "concat (replicate (unat (3::u32)) (le_bytes 2 0x1234)) = [0x34, 0x12, 0x34, 0x12, 0x34, 0x12]"
    by code_simp
  moreover have "sym_area t 0 = Inr a'" using sym_area_same [OF a'(1)] by simp
  ultimately show ?thesis using t by auto
qed

text \<open>
  Round trip.  A word or half word put into the image is what \<^verbatim>\<open>Put_GetWord\<close> and
  \<^verbatim>\<open>Put_GetHalfWord\<close> read at the same offset.
\<close>

theorem Put_Get_roundtrip:
  assumes "areaCurrentSymbol s = Some r" and "sym_area s r = Inr a" and "wf_area a"
    and "\<not> Area_IsNoInit a" and "unat offset + 4 < 2 ^ 32"
    and "gPhase s = ePassOne \<or> unat offset + 4 \<le> imagesize a"
  shows "(Put_DataWithOffset offset 4 (ucast w) 1 s = Inr t \<longrightarrow> Put_GetWord offset t = Inr w)
    \<and> (Put_DataWithOffset offset 2 (ucast w) 1 s = Inr t \<longrightarrow> Put_GetHalfWord offset t = Inr (w AND 0xFFFF))"
proof -
  have bytes: "unat (le_bytes n (ucast w) ! i) = unat w div 2 ^ (8 * i) mod 256" if "i < n" for i n
  proof -
    have "unat (ucast w :: u64) = unat w"
      using unsigned_less [of w, where 'a = nat]
      by (simp add: unsigned_ucast_eq take_bit_nat_eq_self)
    then show ?thesis using unat_le_bytes [OF that] by simp
  qed
  have read: "image_word n offset t = Inr (le_bytes n (ucast w))"
    if "Put_DataWithOffset offset n (ucast w) 1 s = Inr t" and "n = 2 \<or> n = 4" for n
  proof -
    have "n \<in> {1, 2, 4, 8}" "unat offset + n * unat (1::u32) < 2 ^ 32"
      "gPhase s = ePassOne \<or> unat offset + n * unat (1::u32) \<le> imagesize a"
      using that(2) assms(5,6) by auto
    from Put_spec(2) [OF assms(1-4) this that(1)] obtain a' where
      a': "same_but_errors (set_area r a' s) t" "area_put (unat offset) (le_bytes n (ucast w)) a a'" by auto
    have "sym_area t r = Inr a'" "areaCurrentSymbol t = Some r"
      using sym_area_same [OF a'(1)] same_but_errorsD(6) [OF a'(1)] assms(1) by simp_all
    from image_word_put [OF this(2,1) a'(2)] show ?thesis by simp
  qed
  have "Put_GetWord offset t = Inr w" if "Put_DataWithOffset offset 4 (ucast w) 1 s = Inr t"
    using read [OF that] word_of_bytes [of "le_bytes 4 (ucast w)" w] bytes [of _ 4] by (simp add: Put_GetWord_def)
  moreover have "Put_GetHalfWord offset t = Inr (w AND 0xFFFF)"
    if "Put_DataWithOffset offset 2 (ucast w) 1 s = Inr t"
    using read [OF that] half_of_bytes [of "le_bytes 2 (ucast w)" w] bytes [of _ 2] by (simp add: Put_GetHalfWord_def)
  ultimately show ?thesis by blast
qed

theorem Put_Get_roundtrip_witness:
  "\<exists>t. Put_DataWithOffset 8 4 (ucast (0xE1A00000 :: u32)) 1 (asm_code ePassTwo) = Inr t
     \<and> Put_GetWord 8 t = Inr 0xE1A00000"
proof -
  have "map_option (\<lambda>t. gPhase t) (returned (Put_DataWithOffset 8 4 (ucast (0xE1A00000 :: u32)) 1 (asm_code ePassTwo)))
      = Some ePassTwo"
    by code_simp
  then obtain t where t: "Put_DataWithOffset 8 4 (ucast (0xE1A00000 :: u32)) 1 (asm_code ePassTwo) = Inr t" by auto
  have "unat (8::u32) + 4 < 2 ^ 32" "gPhase (asm_code ePassTwo) = ePassOne \<or> unat (8::u32) + 4 \<le> imagesize area_code"
    by (simp_all add: area_code_def)
  from Put_Get_roundtrip [OF asm_code_sel(2) sym_area_asm_code wf_area_code this, of "0xE1A00000" t] t
  show ?thesis by blast
qed

section \<open>Half precision\<close>

text \<open>Adding half a unit and truncating, with the correction of the tie.\<close>

lemma add_half_truncate:
  fixes m k :: nat
  assumes "0 < k"
  defines "lsb \<equiv> 2 ^ k"
  defines "add \<equiv> (if m mod lsb = lsb div 2 then (if odd (m div lsb) then lsb else 0) else lsb div 2)"
  shows "(m + add) div lsb = div_even m lsb"
proof -
  obtain h where h: "lsb = 2 * h" "0 < h"
    using assms(1) by (cases k) (auto simp: lsb_def)
  define q r where "q = m div lsb" and "r = m mod lsb"
  have m: "m = lsb * q + r" and r: "r < lsb" using h by (simp_all add: q_def r_def)
  have dv: "(lsb * q + x) div lsb = q + x div lsb" for x using h by simp
  have small: "x div lsb = (if x < lsb then 0 else 1)" if "x < 2 * lsb" for x
    using that h by (auto simp: div_eq_dividend_iff div_nat_eqI)
  have add: "add = (if r = h then (if odd q then lsb else 0) else h)"
    using h(1) by (simp only: add_def q_def r_def)  simp
  have ev: "div_even m lsb = (if lsb < 2 * r \<or> (2 * r = lsb \<and> odd q) then q + 1 else q)"
    by (simp only: div_even_def Let_def q_def r_def)
  have sum: "(m + x) div lsb = q + (r + x) div lsb" for x
    using dv [of "r + x"] m by (simp add: add.assoc)
  show ?thesis
    using h r small [of r] small [of "r + lsb"] small [of "r + h"]
    unfolding ev sum add by auto
qed

lemma half_result_normal:
  assumes "- 14 \<le> e" and "2 ^ 23 \<le> M'" and "M' < 2 ^ 24 + 2 ^ 13"
  shows "half_result M' e = min 0x7C00 (nat (e + 14) * 2 ^ 10 + M' div 2 ^ 13)"
proof (cases "M' \<ge> 2 ^ 24")
  case True
  then have "M' div 2 div 2 ^ 13 = 2 ^ 10" "M' div 2 ^ 13 = 2 ^ 11"
    using assms(3) by (auto simp: div_nat_eqI simp flip: div_mult2_eq)
  then show ?thesis using True assms(1) by (auto simp: half_result_def Let_def min_def)
next
  case False
  then have "2 ^ 10 \<le> M' div 2 ^ 13" "M' div 2 ^ 13 < 2 ^ 11"
    using assms(2) by (auto simp: less_mult_imp_div_less less_eq_div_iff_mult_less_eq)
  then show ?thesis using False assms(1) by (auto simp: half_result_def Let_def min_def)
qed

lemma half_result_subnormal:
  assumes "e < - 14" and "e < - 25 \<Longrightarrow> M' < 2 ^ nat (- e - 1)"
  shows "half_result M' e = M' div 2 ^ nat (- e - 1)"
proof -
  define k where "k = nat (- e - 1)"
  have k: "14 \<le> k" "e = - int k - 1" using assms(1) by (simp_all add: k_def)
  have pow: "m div 2 ^ i div 2 ^ j = m div 2 ^ (i + j)" for m i j :: nat
    by (simp add: div_mult2_eq power_add)
  have two: "m div 2 = m div 2 ^ 1" for m :: nat by simp
  have zero: "M' div 2 ^ k = 0" if "25 \<le> k"
  proof (rule div_less)
    have "e < - 25" using k(2) that by linarith
    then show "M' < 2 ^ k" unfolding k_def by (rule assms(2))
  qed
  show ?thesis
  proof (cases "M' \<ge> 2 ^ 24")
    case True
    consider "25 \<le> k" | "15 \<le> k" "k < 25" | "k = 14" using k(1) by linarith
    then show ?thesis
    proof cases
      case 1
      then show ?thesis using True zero k by (simp add: half_result_def Let_def flip: k_def)
    next
      case 2
      have "nat (- 14 - (e + 1)) = k - 14" using k(2) 2 by simp
      then have "half_result M' e = M' div 2 div 2 ^ (k - 14) div 2 ^ 13"
        using True 2 k by (simp add: half_result_def Let_def)
      also have "\<dots> = M' div 2 ^ k"
        using 2 unfolding two pow by simp
      finally show ?thesis by (simp add: k_def)
    next
      case 3
      then have "half_result M' e = M' div 2 div 2 ^ 13" using True k by (simp add: half_result_def Let_def)
      then show ?thesis using 3 unfolding two pow by (simp add: k_def)
    qed
  next
    case False
    consider "24 \<le> k" | "k < 24" by linarith
    then show ?thesis
    proof cases
      case 1
      then have "(2::nat) ^ 24 \<le> 2 ^ k" by (intro power_increasing) simp_all
      then have "M' div 2 ^ k = 0" using False by (intro div_less) linarith
      then show ?thesis using False 1 k by (simp add: half_result_def Let_def flip: k_def)
    next
      case 2
      have "nat (- 14 - e) = k - 13" using k 2 by simp
      then have "half_result M' e = M' div 2 ^ (k - 13) div 2 ^ 13"
        using False 2 k by (simp add: half_result_def Let_def)
      then show ?thesis using k(1) unfolding pow by (simp add: k_def)
    qed
  qed
qed

lemma half_round_nat:
  assumes "- 32 \<le> e" and "2 ^ 23 \<le> unat m" and "unat m < 2 ^ 24"
  defines "k \<equiv> (if e < - 14 then nat (- e - 1) else 13)"
  shows "unat (half_round m e) = unat m + (if unat m mod 2 ^ k = 2 ^ k div 2
      then (if odd (unat m div 2 ^ k) then 2 ^ k else 0) else 2 ^ k div 2)"
proof -
  have k: "0 < k" "k < 32" using assms(1) by (auto simp: k_def)
  have lsb: "(if e < - 14 then shl32 1 (nat (- e - 1)) else shl32 1 (23 - 10)) = 2 ^ k"
    by (simp add: k_def push_bit_eq_mult)
  define add where "add = (if m AND (2 ^ k - 1) = shr32 (2 ^ k) 1 then m AND 2 ^ k else shr32 (2 ^ k) 1)"
  have half: "unat (shr32 (2 ^ k) 1) = 2 ^ k div 2" using unat_power2 [OF k(2)] by (simp add: unat_drop_bit)
  have "unat (m AND (2 ^ k - 1)) = unat m mod 2 ^ k"
    by (simp add: unat_and_mask flip: mask_eq_exp_minus_1)
  then have "m AND (2 ^ k - 1) = shr32 (2 ^ k) 1 \<longleftrightarrow> unat m mod 2 ^ k = 2 ^ k div 2"
    using half by (simp add: word_unat_eq_iff)
  then have add: "unat add = (if unat m mod 2 ^ k = 2 ^ k div 2
      then (if odd (unat m div 2 ^ k) then 2 ^ k else 0) else 2 ^ k div 2)"
    using half and_power2_word [OF k(2), of m] by (simp add: add_def)
  have "(2::nat) ^ k \<le> 2 ^ 31" using k by (intro power_increasing) auto
  then have "unat add \<le> 2 ^ 31" unfolding add by auto
  then have "unat (m + add) = unat m + unat add"
    using assms(3) by (subst unat_add_lem [THEN iffD1]) auto
  moreover have "half_round m e = m + add"
    unfolding half_round_def Let_def lsb add_def ..
  ultimately show ?thesis using add by simp
qed

lemma neg_or:
  assumes "unat x < 2 ^ 15"
  shows "unat (ucast (shl32 (shr32 flt 31) 15 OR x) :: u16) = (if bit flt 31 then 2 ^ 15 else 0) + unat (x :: u32)"
proof -
  have top: "shr32 flt 31 = (if bit flt 31 then 1 else 0)"
  proof (rule bit_word_eqI)
    fix n
    show "bit (shr32 flt 31) n = bit (if bit flt 31 then 1 else 0 :: u32) n"
      using bit_imp_le_length [of flt "31 + n"] by (cases n) (auto simp: bit_drop_bit_eq bit_1_iff)
  qed
  have "x AND mask 15 = x" by (rule small_word_field) fact
  then have "2 ^ 15 AND x = 0"
    using and_disjoint [of x "mask 15" "2 ^ 15"] by (simp add: and.commute mask_eq_exp_minus_1)
  then have "2 ^ 15 OR x = 2 ^ 15 + x" by (simp add: disjunctive_add_eq_or)
  moreover have "unat (2 ^ 15 + x) = 2 ^ 15 + unat x"
    using assms by (subst unat_add_lem [THEN iffD1]) auto
  ultimately have "unat (shl32 (shr32 flt 31) 15 OR x) = (if bit flt 31 then 2 ^ 15 else 0) + unat x"
    by (simp add: top push_bit_eq_mult)
  then show ?thesis using assms by (simp add: unsigned_ucast_eq take_bit_eq_mod)
qed

lemma pack_stage:
  "(if e > 15 then neg OR 0x7C00 else if e < - 14 - 10 then neg
    else let (x, e) = (if e < - 14 then (shr32 x (nat (- 14 - e)), - 14) else (x, e))
         in neg OR (shl32 (of_int (e + 15 - 1)) 10 + shr32 x 13))
   = neg OR of_nat (if e > 15 then 0x7C00 else if e < - 24 then 0
         else if e < - 14 then unat x div 2 ^ nat (- 14 - e) div 2 ^ 13
         else nat (e + 14) * 2 ^ 10 + unat x div 2 ^ 13)"
proof -
  have "e < - 14 \<Longrightarrow> shl32 (of_int (- 14 + 15 - 1)) 10 + shr32 (shr32 x (nat (- 14 - e))) 13
      = (of_nat (unat x div 2 ^ nat (- 14 - e) div 2 ^ 13) :: u32)"
    using shr32_of_nat [where x = "shr32 x (nat (- 14 - e))" and n = 13] unfolding unat_drop_bit by simp
  moreover have "shl32 (of_int (e + 15 - 1)) 10 + shr32 x 13
      = (of_nat (nat (e + 14) * 2 ^ 10 + unat x div 2 ^ 13) :: u32)" if "\<not> e < - 14"
  proof -
    have "shl32 (of_int (e + 15 - 1)) 10 = (of_nat (nat (e + 14) * 2 ^ 10) :: u32)"
      using that by (simp add: push_bit_eq_mult of_nat_nat)
    then show ?thesis by (simp only: shr32_of_nat [where x = x] of_nat_add)
  qed
  ultimately show ?thesis
    by (cases "e > 15"; cases "e < - 24"; cases "e < - 14") simp_all
qed

lemma half_pack_nat: "half_pack neg m e True = neg OR of_nat (half_result (unat m) e)"
proof (cases "2 ^ 24 \<le> unat m")
  case True
  then have "shl32 1 24 \<le> m" by (simp add: word_le_nat_alt push_bit_eq_mult)
  then have "half_pack neg m e True = (let x = shr32 m 1; e = e + 1 in
     if e > 15 then neg OR 0x7C00 else if e < - 14 - 10 then neg
     else let (x, e) = (if e < - 14 then (shr32 x (nat (- 14 - e)), - 14) else (x, e))
          in neg OR (shl32 (of_int (e + 15 - 1)) 10 + shr32 x 13))"
    by (simp only: half_pack_def Let_def if_True simp_thms prod.case if_False)
  also have "\<dots> = neg OR of_nat (half_result (unat m) e)"
    unfolding Let_def [of "shr32 m 1"] Let_def [of "e + 1"] pack_stage
    using True by (simp only: half_result_def Let_def if_True prod.case unat_drop_bit power_one_right)
  finally show ?thesis .
next
  case False
  then have "\<not> shl32 1 24 \<le> m" by (simp add: word_le_nat_alt push_bit_eq_mult)
  then have "half_pack neg m e True = (
     if e > 15 then neg OR 0x7C00 else if e < - 14 - 10 then neg
     else let (x, e) = (if e < - 14 then (shr32 m (nat (- 14 - e)), - 14) else (m, e))
          in neg OR (shl32 (of_int (e + 15 - 1)) 10 + shr32 x 13))"
    by (simp only: half_pack_def Let_def if_False simp_thms prod.case)
  also have "\<dots> = neg OR of_nat (half_result (unat m) e)"
    unfolding pack_stage using False by (simp only: half_result_def Let_def if_False prod.case)
  finally show ?thesis .
qed

text \<open>
  C21. Half precision.  For a finite single precision number that is neither zero nor below
  \<^verbatim>\<open>2^-32\<close> in magnitude, \<^verbatim>\<open>FloatToHalf\<close> returns the sign and the nearest half precision number, ties to
  even, including subnormal results and the overflow to infinity.  (Below that bound the C code
  shifts by more than the width of an int.)
\<close>

theorem FloatToHalf_nearest:
  assumes "95 \<le> unat (shr32 flt 23 AND 0xFF)" and "unat (shr32 flt 23 AND 0xFF) < 255"
  shows "\<exists>h. FloatToHalf flt True s = Inr (h, s)
    \<and> unat h = (if bit flt 31 then 2 ^ 15 else 0)
        + half_nearest (2 ^ 23 + unat (flt AND 0x7FFFFF)) (int (unat (shr32 flt 23 AND 0xFF)) - 127)"
proof -
  define e where "e = int (unat (shr32 flt 23 AND 0xFF)) - 127"
  define m where "m = (flt AND 0x7FFFFF) OR shl32 1 23"
  define k where "k = (if e < - 14 then nat (- e - 1) else 13)"
  have e: "- 32 \<le> e" "e < 128" using assms unfolding e_def by linarith+
  have low: "flt AND 0x7FFFFF = flt AND mask 23" by (simp add: mask_eq_exp_minus_1)
  have "unat (flt AND 0x7FFFFF) < 2 ^ 23" unfolding low by (rule and_mask_below)
  moreover have "(flt AND 0x7FFFFF) AND shl32 1 23 = 0" by (simp add: push_bit_eq_mult and.assoc)
  then have "m = (flt AND 0x7FFFFF) + shl32 1 23" by (simp add: m_def disjunctive_add_eq_or)
  ultimately have um: "unat m = 2 ^ 23 + unat (flt AND 0x7FFFFF)" and mb: "2 ^ 23 \<le> unat m" "unat m < 2 ^ 24"
    by (auto simp: push_bit_eq_mult unat_word_ariths)
  define M' where "M' = unat (half_round m e)"
  have k0: "0 < k" by (auto simp: k_def)
  have M': "M' = unat m + (if unat m mod 2 ^ k = 2 ^ k div 2
      then (if odd (unat m div 2 ^ k) then 2 ^ k else 0) else 2 ^ k div 2)"
    using half_round_nat [OF e(1) mb] by (simp add: M'_def k_def)
  have rnd: "M' div 2 ^ k = div_even (unat m) (2 ^ k)"
    unfolding M' by (rule add_half_truncate [OF k0])
  have res: "half_result M' e = half_nearest (unat m) e"
  proof (cases "e < - 14")
    case True
    then have k: "k = nat (- e - 1)" by (simp add: k_def)
    have "M' < 2 ^ k" if "e < - 25"
    proof -
      have "25 \<le> k" using that k by simp
      then have "(2::nat) ^ 25 \<le> 2 ^ k" by (intro power_increasing) simp_all
      then have "div_even (unat m) (2 ^ k) = 0" using mb(2) by (simp add: div_even_def)
      then show ?thesis using rnd by (simp add: div_eq_0_iff)
    qed
    then have "half_result M' e = M' div 2 ^ k" using half_result_subnormal True k by simp
    moreover have "div_even (unat m) (2 ^ k) \<le> 0x7C00"
    proof -
      have "(2::nat) ^ 14 \<le> 2 ^ k" using True k by (intro power_increasing) simp_all
      then have "unat m div 2 ^ k \<le> unat m div 2 ^ 14" by (intro div_le_mono2) simp_all
      also have "\<dots> \<le> 2 ^ 24 div 2 ^ 14" using mb(2) by (intro div_le_mono) simp
      finally show ?thesis by (auto simp: div_even_def Let_def)
    qed
    ultimately show ?thesis using True k rnd by (simp add: half_nearest_def)
  next
    case False
    then have k: "k = 13" by (simp add: k_def)
    have "unat m mod 2 ^ 13 = 2 ^ 13 div 2 \<Longrightarrow> unat m + 2 ^ 13 < 2 ^ 24 + 2 ^ 13" using mb(2) by simp
    then have "M' < 2 ^ 24 + 2 ^ 13" and "2 ^ 23 \<le> M'" using M' mb k by (auto split: if_splits)
    then show ?thesis using half_result_normal [of e M'] False rnd k by (simp add: half_nearest_def)
  qed
  have small: "half_nearest (unat m) e < 2 ^ 15" by (simp add: half_nearest_def min_def)
  then have "unat (of_nat (half_nearest (unat m) e) :: u32) = half_nearest (unat m) e"
    by (simp only: unsigned_of_nat take_bit_eq_mod) simp
  then have fin: "unat (ucast (shl32 (shr32 flt 31) 15 OR of_nat (half_nearest (unat m) e)) :: u16)
      = (if bit flt 31 then 2 ^ 15 else 0) + half_nearest (unat m) e"
    using neg_or [of "of_nat (half_nearest (unat m) e)" flt] small by simp
  have "uint (shr32 flt 23 AND 0xFF) = int (unat (shr32 flt 23 AND 0xFF))" by simp
  then have "uint (shr32 flt 23 AND 0xFF) - 127 = e" "uint (shr32 flt 23 AND 0xFF) \<noteq> 0xFF" "uint (shr32 flt 23 AND 0xFF) \<noteq> 0"
    using assms unfolding e_def by linarith+
  then have "FloatToHalf flt True s = Inr (ucast (half_pack (shl32 (shr32 flt 31) 15) (half_round m e) e True), s)"
    using e(1) unfolding FloatToHalf_def Let_def m_def by simp
  then show ?thesis using fin unfolding half_pack_nat M'_def [symmetric] res um [symmetric] e_def [symmetric] by auto
qed

theorem FloatToHalf_nearest_witness:
  "FloatToHalf 0x3EAAAAAB True asm0 = Inr (0x3555, asm0) \<and> half_nearest (2 ^ 23 + 0x2AAAAB) (- 2) = 0x3555"
proof -
  have v: "half_nearest (2 ^ 23 + 0x2AAAAB) (- 2) = 0x3555"
    by (simp add: half_nearest_def div_even_def)
  have u: "unat (shr32 0x3EAAAAAB 23 AND 0xFF) = 125" "unat ((0x3EAAAAAB :: u32) AND 0x7FFFFF) = 0x2AAAAB"
    "\<not> bit (0x3EAAAAAB :: u32) 31" by simp_all
  have "\<exists>h. FloatToHalf 0x3EAAAAAB True asm0 = Inr (h, asm0) \<and> unat h = 0x3555"
    using FloatToHalf_nearest [of "0x3EAAAAAB" asm0] v unfolding u by simp
  then show ?thesis using v by (auto simp: word_unat_eq_iff)
qed

lemma movw_arm_fields:
  assumes "cc AND 0xF0000000 = cc" and "rd AND 0xF = rd"
  shows "decode_movw_arm (movw_arm cc rd v t) = v AND 0xFFFF"
    and "shr32 (movw_arm cc rd v t AND 0xF000) 12 = rd" and "movw_arm cc rd v t AND 0xF0000000 = cc"
proof -
  have c: "cc AND 0xF0000 = 0" "cc AND 0xFFF = 0" "cc AND 0xF000 = 0"
    using and_disjoint [OF assms(1)] by simp_all
  have r: "shl32 rd 12 = shl32 rd 12 AND 0xF000"
    using arg_cong [OF assms(2), of "push_bit 12"] by (simp add: push_bit_and)
  have r': "shl32 rd 12 AND 0xF0000 = 0" "shl32 rd 12 AND 0xFFF = 0" "shl32 rd 12 AND 0xF0000000 = 0"
    using and_disjoint [OF r [symmetric]] by simp_all
  have rd: "shr32 (shl32 rd 12) 12 = rd"
    using drop_push_field [of "0xF" 12 rd] assms(2) by (simp add: mask_eq_exp_minus_1)
  have v: "shr32 (shl32 (v AND 0xF000) 4) 4 = v AND 0xF000"
    by (rule drop_push_field) (simp add: mask_eq_exp_minus_1)
  have hi: "shl32 (v AND 0xF000) 4 = shl32 v 4 AND 0xF0000" by (simp add: push_bit_and)
  have k: "(if t then 0x03400000 else 0x03000000 :: u32) AND 0xF0000 = 0"
    "(if t then 0x03400000 else 0x03000000 :: u32) AND 0xFFF = 0"
    "(if t then 0x03400000 else 0x03000000 :: u32) AND 0xF000 = 0"
    "(if t then 0x03400000 else 0x03000000 :: u32) AND 0xF0000000 = 0" by simp_all
  have "movw_arm cc rd v t AND 0xF0000 = shl32 (v AND 0xF000) 4"
    unfolding movw_arm_def hi by (simp add: bit.conj_disj_distrib2 c k r' and.assoc)
  moreover have "movw_arm cc rd v t AND 0xFFF = v AND 0xFFF"
    unfolding movw_arm_def hi by (simp add: bit.conj_disj_distrib2 c k r' and.assoc)
  moreover have "(v AND 0xF000) OR (v AND 0xFFF) = v AND 0xFFFF"
    by (simp flip: bit.conj_disj_distrib)
  ultimately show "decode_movw_arm (movw_arm cc rd v t) = v AND 0xFFFF"
    by (simp only: decode_movw_arm_def v)
  have "movw_arm cc rd v t AND 0xF000 = shl32 rd 12"
    unfolding movw_arm_def hi using r by (simp add: bit.conj_disj_distrib2 c k and.assoc)
  then show "shr32 (movw_arm cc rd v t AND 0xF000) 12 = rd" by (simp only: rd)
  show "movw_arm cc rd v t AND 0xF0000000 = cc"
    unfolding movw_arm_def hi using assms(1) by (simp add: bit.conj_disj_distrib2 k r' and.assoc)
qed

lemma movw_thumb_fields:
  assumes "rd AND 0xF = rd"
  shows "decode_movw_thumb (movw_thumb1 v t) (movw_thumb2 rd v) = v AND 0xFFFF"
    and "shr32 (movw_thumb2 rd v AND 0xF00) 8 = rd"
proof -
  have r: "shl32 rd 8 = shl32 rd 8 AND 0xF00"
    using arg_cong [OF assms, of "push_bit 8"] by (simp add: push_bit_and)
  have r': "shl32 rd 8 AND 0x7000 = 0" "shl32 rd 8 AND 0xFF = 0"
    using and_disjoint [OF r [symmetric]] by simp_all
  have rd: "shr32 (shl32 rd 8) 8 = rd"
    using drop_push_field [of "0xF" 8 rd] assms by (simp add: mask_eq_exp_minus_1)
  have a: "shr32 (v AND 0x0800) 1 = shr32 v 1 AND 0x400" "shr32 (v AND 0xF000) 12 = shr32 v 12 AND 0xF"
    "shl32 (v AND 0x0700) 4 = shl32 v 4 AND 0x7000" by (simp_all add: push_bit_and drop_bit_and)
  have k: "(if t then 0xF2C0 else 0xF240 :: u32) AND 0xF = 0"
    "(if t then 0xF2C0 else 0xF240 :: u32) AND 0x400 = 0" by simp_all
  have "movw_thumb1 v t AND 0xF = shr32 (v AND 0xF000) 12" "movw_thumb1 v t AND 0x400 = shr32 (v AND 0x0800) 1"
    unfolding movw_thumb1_def a by (simp_all add: bit.conj_disj_distrib2 k and.assoc)
  moreover have "movw_thumb2 rd v AND 0x7000 = shl32 (v AND 0x0700) 4" "movw_thumb2 rd v AND 0xFF = v AND 0xFF"
    unfolding movw_thumb2_def a by (simp_all add: bit.conj_disj_distrib2 r' and.assoc)
  moreover have "shl32 (shr32 (v AND 0xF000) 12) 12 = v AND 0xF000" "shl32 (shr32 (v AND 0x0800) 1) 1 = v AND 0x0800"
    using push_drop_field [of 12 v "0xF"] push_drop_field [of 1 v "0x400"] by simp_all
  moreover have "shr32 (shl32 (v AND 0x0700) 4) 4 = v AND 0x0700"
    by (rule drop_push_field) (simp add: mask_eq_exp_minus_1)
  moreover have "(v AND 0xF000) OR (v AND 0x0800) OR (v AND 0x0700) OR (v AND 0xFF) = v AND 0xFFFF"
    by (simp flip: bit.conj_disj_distrib)
  ultimately show "decode_movw_thumb (movw_thumb1 v t) (movw_thumb2 rd v) = v AND 0xFFFF"
    by (simp only: decode_movw_thumb_def)
  have "movw_thumb2 rd v AND 0xF00 = shl32 rd 8"
    unfolding movw_thumb2_def a using r by (simp add: bit.conj_disj_distrib2 and.assoc)
  then show "shr32 (movw_thumb2 rd v AND 0xF00) 8 = rd" by (simp only: rd)
qed

text \<open>
  MOVW and MOVT.  For a condition in the top four bits and a register number, the ARM word and the
  two Thumb half words that \<^verbatim>\<open>Put_Ins_MOVW_MOVT\<close> puts decode to the low 16 bits of the operand and to
  that register, and the ARM word carries the condition.
\<close>

theorem movw_decodes:
  assumes "cc AND 0xF0000000 = cc" and "rd AND 0xF = rd"
  shows "decode_movw_arm (movw_arm cc rd v t) = v AND 0xFFFF
    \<and> shr32 (movw_arm cc rd v t AND 0xF000) 12 = rd \<and> movw_arm cc rd v t AND 0xF0000000 = cc
    \<and> decode_movw_thumb (movw_thumb1 v t) (movw_thumb2 rd v) = v AND 0xFFFF
    \<and> shr32 (movw_thumb2 rd v AND 0xF00) 8 = rd"
  using movw_arm_fields [OF assms] movw_thumb_fields [OF assms(2)] by simp

theorem movw_decodes_witness:
  "decode_movw_arm (movw_arm 0xE0000000 3 0x89ABCDEF True) = 0xCDEF"
  using movw_decodes [of "0xE0000000" 3 "0x89ABCDEF" True] by simp

end
