(* ===== verification/IT.thy ===== *)
theory IT
  imports Put
begin

text \<open>
  The IT blocks of Thumb code: \<^verbatim>\<open>it.c\<close>.  An explicit block is opened by an IT instruction and each
  following instruction is checked against it; an implicit block is opened and extended by conditional
  Thumb instructions, whose IT instruction is put again at each extension.  The theorems: the state of a
  block is always well-formed, so that no assertion fails, and the IT instruction that is put makes the
  processor execute exactly the block's conditions.
\<close>

section \<open>Operations\<close>

text \<open>The loop over \<^verbatim>\<open>cond\<close>; with \<^verbatim>\<open>maxIdx\<close> 0 it would read \<^verbatim>\<open>isThen[-1]\<close>.\<close>

fun it_mask :: "u32 \<Rightarrow> bool list \<Rightarrow> nat \<Rightarrow> u32 \<Rightarrow> u32 outcome" where
  "it_mask cc isThen 0 m = Inl Undefined"
| "it_mask cc isThen (Suc 0) m = Inr m"
| "it_mask cc isThen (Suc (Suc n)) m =
     it_mask cc isThen (Suc n)
       (shl32 (of_bool ((cc AND 0x10 = 0) \<noteq> isThen ! Suc n)) 3 OR shr32 m 1)"

text \<open>The instruction word of an IT block.\<close>

definition it_instr :: "IT_State_t \<Rightarrow> u32 outcome" where
  "it_instr it =
     rbind (rassert (it_isThen it ! 0)) (\<lambda>_.
       let cc = shr32 (it_cc it) (28 - 4)
       in rbind (it_mask cc (it_isThen it) (it_maxIdx it) 0x8) (\<lambda>mask. Inr (0xBF00 OR cc OR mask)))"

definition IT_EmitIT :: "IT_State_t \<Rightarrow> bool \<Rightarrow> asm \<Rightarrow> asm outcome" where
  "IT_EmitIT it isThumb s =
     (if \<not> isThumb then Inr s
      else
        rbind (Target_CheckCPUFeature kCPUExt_v6T2 True s) (\<lambda>(_, s).
        rbind (it_instr it) (\<lambda>ins. Put_InsWithOffset (it_areaCurIdx it) 2 ins s)))"

text \<open>The IT state of an area.\<close>

definition set_it :: "symref \<Rightarrow> IT_State_t \<Rightarrow> asm \<Rightarrow> asm outcome" where
  "set_it r it s = rbind (sym_area s r) (\<lambda>a. Inr (set_area r (a\<lparr>area_it := it\<rparr>) s))"

text \<open>\<^verbatim>\<open>m_it\<close> from the point where its operands are parsed into \<open>newIT\<close>.\<close>

definition m_it_apply :: "IT_State_t \<Rightarrow> asm \<Rightarrow> (bool \<times> asm) outcome" where
  "m_it_apply newIT s =
     rbind (cur_sym s) (\<lambda>r.
     rbind (sym_area s r) (\<lambda>a.
     rbind (if it_curIdx (area_it a) \<noteq> it_maxIdx (area_it a)
            then rbind (Error ErrorError ''There is a pending IT block'' s)
                   (Error_Line ErrorError ''note: Pending IT block started here'')
            else Inr s) (\<lambda>s.
     rbind (if it_cc newIT = AL \<and> it_maxIdx newIT \<noteq> 1
            then Error ErrorWarning ''Use of AL condition with one or more Then/Else arguments is UNPREDICTABLE'' s
            else Inr s) (\<lambda>s.
     rbind (set_it r newIT s) (\<lambda>s.
     rbind (IT_EmitIT newIT (State_GetInstrType s \<noteq> eInstrType_ARM) s) (\<lambda>s. Inr (False, s)))))))"

definition IT_StartImplicitIT :: "u32 \<Rightarrow> Area \<Rightarrow> IT_State_t" where
  "IT_StartImplicitIT cc a =
     \<lparr>it_isThen = [True, False, False, False], it_maxIdx = 1, it_curIdx = 1, it_implicitIT = True,
      it_cc = cc, it_areaCurIdx = curIdx a\<rparr>"

text \<open>The common end of the two implicit cases: put the IT instruction, and close the block if asked to.\<close>

definition implicit_emit :: "symref \<Rightarrow> IT_State_t \<Rightarrow> bool \<Rightarrow> asm \<Rightarrow> asm outcome" where
  "implicit_emit r it enforceLast s =
     rbind (set_it r it s) (\<lambda>s.
     rbind (IT_EmitIT it True s) (\<lambda>s.
       if enforceLast
       then set_it r (it\<lparr>it_implicitIT := False, it_curIdx := 4, it_maxIdx := 4\<rparr>) s
       else Inr s))"

definition IT_ApplyCond :: "u32 \<Rightarrow> bool \<Rightarrow> bool \<Rightarrow> asm \<Rightarrow> asm outcome" where
  "IT_ApplyCond cc0 enforceLast isThumb s =
     (let cc = cc0 AND NV
      in rbind (cur_sym s) (\<lambda>r.
         rbind (sym_area s r) (\<lambda>a.
         let it = area_it a
         in rbind (rassert (it_curIdx it \<le> it_maxIdx it)) (\<lambda>_.
            if it_curIdx it \<noteq> it_maxIdx it
            then
              rbind (rassert (\<not> it_implicitIT it)) (\<lambda>_.
              rbind
                (if isThumb \<and> enforceLast \<and> it_curIdx it + 1 \<noteq> it_maxIdx it
                 then rbind (Error ErrorError ''Not having this instruction as last in pending IT block is UNPREDICTABLE'' s)
                        (Error_Line ErrorError ''note: Pending IT block started here'')
                 else
                   let expectedCC = it_cc it XOR shl32 (of_bool (\<not> it_isThen it ! it_curIdx it)) 28
                   in if cc \<noteq> expectedCC
                      then rbind (Error ErrorError ''Condition code does not match with pending IT block'' s)
                             (Error_Line ErrorError ''note: Pending IT block started here'')
                      else Inr s)
                (set_it r (it\<lparr>it_curIdx := it_curIdx it + 1\<rparr>)))
            else if it_implicitIT it \<and> it_maxIdx it \<noteq> 4
            then
              if \<not> isThumb \<or> cc = AL then set_it r IT_InitializeState s
              else
                implicit_emit r
                  (if cc = it_cc it
                   then it\<lparr>it_isThen := (it_isThen it)[it_curIdx it := True],
                           it_curIdx := it_curIdx it + 1, it_maxIdx := it_maxIdx it + 1\<rparr>
                   else if cc = it_cc it XOR shl32 1 28
                   then it\<lparr>it_isThen := (it_isThen it)[it_curIdx it := False],
                           it_curIdx := it_curIdx it + 1, it_maxIdx := it_maxIdx it + 1\<rparr>
                   else IT_StartImplicitIT cc a)
                  enforceLast s
            else if isThumb \<and> cc \<noteq> AL
            then implicit_emit r (IT_StartImplicitIT cc a) enforceLast s
            else Inr s))))"

definition IT_CanExtendBlock :: "u32 \<Rightarrow> asm \<Rightarrow> bool outcome" where
  "IT_CanExtendBlock cc s =
     rbind (rassert (cc AND NOT NV = 0 \<and> cc \<noteq> AL)) (\<lambda>_.
     rbind (cur_area s) (\<lambda>a.
     let it = area_it a
     in rbind (rassert (it_curIdx it \<le> it_maxIdx it)) (\<lambda>_.
          Inr ((it_curIdx it \<noteq> it_maxIdx it
                  \<and> cc = it_cc it XOR shl32 (of_bool (\<not> it_isThen it ! it_curIdx it)) 28)
               \<or> (it_implicitIT it \<and> it_maxIdx it \<noteq> 4
                  \<and> (cc = it_cc it \<or> cc = it_cc it XOR shl32 1 28))))))"

text \<open>\<^verbatim>\<open>IT_PrepareForPhase\<close> for pass two: report and reset the state of every area of the list.\<close>

fun it_reset_loop :: "nat \<Rightarrow> symref option \<Rightarrow> asm \<Rightarrow> asm outcome" where
  "it_reset_loop fuel None s = Inr s"
| "it_reset_loop 0 (Some r) s = Inl OutOfFuel"
| "it_reset_loop (Suc fuel) (Some r) s =
     rbind (sym_area s r) (\<lambda>a.
     rbind (if it_curIdx (area_it a) \<noteq> it_maxIdx (area_it a)
            then rbind (Error ErrorError ''There is a pending IT block at end of area %s'' s)
                   (Error_Line ErrorError ''note: Pending IT block started here'')
            else Inr s) (\<lambda>s.
     rbind (set_it r IT_InitializeState s) (\<lambda>s.
       it_reset_loop fuel (area_next a) s)))"

definition IT_PrepareForPhase :: "nat \<Rightarrow> Phase_e \<Rightarrow> asm \<Rightarrow> asm outcome" where
  "IT_PrepareForPhase fuel p s =
     (case p of ePassTwo \<Rightarrow> it_reset_loop fuel (areaHeadSymbol s) s | _ \<Rightarrow> Inr s)"

text \<open>
  The invariant stated in the comments of \<^verbatim>\<open>IT_State_t\<close>: four Then/Else marks of which the first is
  Then once there is a block, indices in range, and an implicit block that is never pending.
\<close>

definition it_ok :: "IT_State_t \<Rightarrow> bool" where
  "it_ok it \<longleftrightarrow>
     length (it_isThen it) = 4 \<and> it_curIdx it \<le> it_maxIdx it \<and> it_maxIdx it \<le> 4
     \<and> (it_implicitIT it \<longrightarrow> it_curIdx it = it_maxIdx it \<and> 1 \<le> it_maxIdx it \<and> it_isThen it ! 0)
     \<and> it_cc it AND NV = it_cc it"

text \<open>
  The processor's view of an IT instruction: the conditions of the instructions of the block.  The
  lowest set bit of the mask marks the end; the bits above it are the low condition bits.
\<close>

definition it_decode :: "u32 \<Rightarrow> u32 list" where
  "it_decode w =
     (let first = shr32 w 4 AND 0xF; mask = w AND 0xF;
          n = (if mask AND 1 \<noteq> 0 then 4 else if mask AND 2 \<noteq> 0 then 3 else if mask AND 4 \<noteq> 0 then 2 else 1 :: nat)
      in map (\<lambda>i. if i = 0 then first
                   else (first AND 0xE) OR (shr32 mask (4 - i) AND 1)) [0..<n])"

text \<open>Every area's IT state is well-formed.\<close>

definition its_ok :: "asm \<Rightarrow> bool" where
  "its_ok s \<longleftrightarrow> (\<forall>r a. sym_area s r = Inr a \<longrightarrow> it_ok (area_it a))"

text \<open>What \<^verbatim>\<open>m_it\<close> parses: a Then for the mnemonic and up to three further marks, nothing applied yet.\<close>

definition it_parsed :: "IT_State_t \<Rightarrow> bool" where
  "it_parsed it \<longleftrightarrow> length (it_isThen it) = 4 \<and> it_isThen it ! 0 \<and> 1 \<le> it_maxIdx it \<and> it_maxIdx it \<le> 4
     \<and> it_curIdx it = 0 \<and> \<not> it_implicitIT it \<and> it_cc it AND NV = it_cc it"

text \<open>The conditions an IT state stands for, in order.\<close>

definition it_conds :: "IT_State_t \<Rightarrow> u32 list" where
  "it_conds it = map (\<lambda>t. if t then it_cc it else it_cc it XOR shl32 1 28) (take (it_maxIdx it) (it_isThen it))"

text \<open>The steps that touch the IT state of an area.\<close>

inductive it_step :: "asm \<Rightarrow> asm \<Rightarrow> bool" where
  step_cond: "IT_ApplyCond cc enforceLast isThumb s = Inr t \<Longrightarrow> it_step s t"
| step_it: "it_parsed it \<Longrightarrow> m_it_apply it s = Inr (b, t) \<Longrightarrow> it_step s t"
| step_put: "Put_Ins sz ins s = Inr t \<Longrightarrow> it_step s t"
| step_phase: "IT_PrepareForPhase fuel p s = Inr t \<Longrightarrow> it_step s t"

text \<open>A state in the middle of Thumb code.\<close>

definition asm_thumb :: asm where
  "asm_thumb = (asm_code ePassOne)\<lparr>oCurrentInstrType := eInstrType_Thumb, oCurrentSyntax := eSyntax_UALOnly\<rparr>"

section \<open>The instruction that is put\<close>

text \<open>All blocks: four-bit condition, marks, length.\<close>

lemma it_blocks:
  "list_all (\<lambda>c. list_all (\<lambda>n. list_all (\<lambda>ts.
      case it_mask (shl32 c 4) (True # ts) n 8 of
        Inl _ \<Rightarrow> False
      | Inr m \<Rightarrow> it_decode (0xBF00 OR shl32 c 4 OR m)
          = map (\<lambda>t. if t then c else c XOR 1) (take n (True # ts)))
      (List.n_lists 3 [False, True])) [1, 2, 3, 4])
    [0, 1, 2, 3, 4, 5, 6, 7, 8, 9, 10, 11, 12, 13, 14, 15]"
  by code_simp

lemma word_four_bits:
  assumes "unat (c :: u32) < 16"
  shows "c \<in> set [0, 1, 2, 3, 4, 5, 6, 7, 8, 9, 10, 11, 12, 13, 14, 15]"
proof -
  have "unat c \<in> set [0..<16]" using assms by simp
  then have "(of_nat (unat c) :: u32) \<in> of_nat ` set [0..<16]" by blast
  then show ?thesis by (simp add: upt_rec)
qed

lemma it_instr_decode:
  assumes "it_ok it" and "1 \<le> it_maxIdx it" and "it_isThen it ! 0"
  shows "\<exists>w. it_instr it = Inr w
    \<and> it_decode w = map (\<lambda>t. if t then shr32 (it_cc it) 28 else shr32 (it_cc it) 28 XOR 1)
        (take (it_maxIdx it) (it_isThen it))"
proof -
  define c where "c = shr32 (it_cc it) 28"
  have "unat c < 16" using unsigned_less [of "it_cc it", where 'a = nat]
    by (simp add: c_def unat_drop_bit less_mult_imp_div_less)
  note c = word_four_bits [OF this]
  have NV: "NV = push_bit 28 (mask 4)" by (simp add: NV_def mask_eq_exp_minus_1 push_bit_eq_mult)
  have cc: "it_cc it AND push_bit 28 (mask 4) = it_cc it" using assms(1) by (simp add: it_ok_def NV)
  have aux: "n < 8" "n - 4 < 4" if "bit (it_cc it) (24 + n)" for n
    using bit_imp_le_length [OF that] by simp_all
  have "shr32 (it_cc it AND push_bit 28 (mask 4)) (28 - 4) = shl32 (shr32 (it_cc it) 28) 4"
    by (rule bit_word_eqI) (auto simp: bit_simps intro: aux)
  then have sh: "shr32 (it_cc it) (28 - 4) = shl32 c 4" unfolding cc c_def .
  obtain ts where ts: "it_isThen it = True # ts" "length ts = 3"
    using assms(1,3) by (cases "it_isThen it") (auto simp: it_ok_def)
  have "ts \<in> set (List.n_lists 3 [False, True])" using ts(2) by (auto simp: set_n_lists)
  moreover have "it_maxIdx it \<in> set [1, 2, 3, 4]" using assms(1,2) by (auto simp: it_ok_def)
  ultimately have "case it_mask (shl32 c 4) (True # ts) (it_maxIdx it) 8 of
        Inl _ \<Rightarrow> False
      | Inr m \<Rightarrow> it_decode (0xBF00 OR shl32 c 4 OR m)
          = map (\<lambda>t. if t then c else c XOR 1) (take (it_maxIdx it) (True # ts))"
    using it_blocks c unfolding list_all_iff by blast
  then show ?thesis
    unfolding it_instr_def Let_def sh ts(1) c_def [symmetric] by (auto split: sum.splits)
qed

text \<open>
  C15. The IT instruction.  For every well-formed block of at least one instruction whose first mark is
  Then, the instruction word that \<^verbatim>\<open>IT_EmitIT\<close> puts is computed without failing, and decoding it as the
  processor does gives the condition of the block for every Then and its inverse for every Else.
\<close>

theorem it_instr_conditions:
  assumes "it_ok it" and "1 \<le> it_maxIdx it" and "it_isThen it ! 0"
  shows "\<exists>w. it_instr it = Inr w
    \<and> it_decode w = map (\<lambda>t. if t then shr32 (it_cc it) 28 else shr32 (it_cc it) 28 XOR 1)
        (take (it_maxIdx it) (it_isThen it))"
  by (rule it_instr_decode [OF assms])

theorem it_instr_conditions_witness:
  "\<exists>w. it_instr \<lparr>it_isThen = [True, True, False, False], it_maxIdx = 3, it_curIdx = 0, it_implicitIT = False,
      it_cc = 0x10000000, it_areaCurIdx = 0\<rparr> = Inr w \<and> it_decode w = [1, 1, 0]"
  using it_instr_conditions [of "\<lparr>it_isThen = [True, True, False, False], it_maxIdx = 3, it_curIdx = 0,
      it_implicitIT = False, it_cc = 0x10000000, it_areaCurIdx = 0\<rparr>"]
  by (simp add: it_ok_def NV_def)

section \<open>Putting keeps the IT state\<close>

lemma ReportOverflow_frame:
  "sym_area s r = Inr a \<Longrightarrow> ReportOverflow n v s = Inr t \<Longrightarrow> area_frame r s t"
  by (blast intro: area_frame_refl ReportOverflow_same)

lemma Error_frame: "sym_area s r = Inr a \<Longrightarrow> Error e m s = Inr t \<Longrightarrow> area_frame r s t"
  by (blast intro: area_frame_refl Error_same)

lemma area_frame_same: "sym_area s r = Inr a \<Longrightarrow> area_frame r s s"
  by (blast intro: area_frame_refl same_but_errors_refl)

lemma area_frame_curIdx: "sym_area s r = Inr a \<Longrightarrow> area_frame r s (set_area r (a\<lparr>curIdx := i\<rparr>) s)"
  by (rule area_frame_set, assumption) (cases a, simp add: put_frame_def)

text \<open>One rule for the sequencing of steps that keep the frame.\<close>

lemma rbind_frame:
  assumes "rbind m f = Inr y" and "\<And>t. m = Inr t \<Longrightarrow> area_frame r s t"
    and "\<And>t a. area_frame r s t \<Longrightarrow> sym_area t r = Inr a \<Longrightarrow> f t = Inr y \<Longrightarrow> area_frame r t (g y)"
  shows "area_frame r s (g y)"
proof -
  obtain t where t: "m = Inr t" "f t = Inr y" using assms(1) by (auto elim: rbind_InrE)
  have 1: "area_frame r s t" by (rule assms(2) [OF t(1)])
  then obtain a where "sym_area t r = Inr a" using area_frameD(5) by blast
  then show ?thesis using area_frame_trans [OF 1] assms(3) [OF 1 _ t(2)] by blast
qed

lemma put_loop_frame:
  "sym_area s r = Inr a \<Longrightarrow> put_loop n r i j ds v s = Inr t \<Longrightarrow> area_frame r s t"
proof (induction n arbitrary: i s a)
  case 0
  then show ?case by (auto simp: put_loop.simps [of 0] area_frame_same split: if_splits)
next
  case (Suc n)
  show ?case
  proof (cases "i = j")
    case True
    then show ?thesis using Suc.prems by (auto simp: put_loop.simps area_frame_same)
  next
    case False
    then have "rbind (Area_Write r (unat i) (le_bytes ds v) s) (put_loop n r (i + of_nat ds) j ds v) = Inr t"
      using Suc.prems by (auto simp: put_loop.simps [of "Suc n"] split: if_splits)
    from rbind_frame [where g = "\<lambda>t. t", OF this] show ?thesis
      using Suc.IH Area_Write_frame by blast
  qed
qed

lemma Put_DataWithOffset_frame:
  assumes "areaCurrentSymbol s = Some r" and "Put_DataWithOffset offset ds v n s = Inr t"
  shows "area_frame r s t"
proof -
  define j where "j = offset + of_nat ds * n"
  obtain a where a: "sym_area s r = Inr a"
    using assms by (auto simp: Put_DataWithOffset_def cur_sym_def Let_def elim: rbind_InrE)
  define m where "m = (if \<not> Area_IsNoInit a
      then rbind (ReportOverflow ds (ucast v) s) (\<lambda>s.
           rbind (if j > curIdx a then Area_EnsureExtraSize r (unat (j - curIdx a)) s else Inr s)
             (put_loop (unat n) r offset j ds v))
      else if v \<noteq> 0 then Error ErrorError ''Trying to define a non-zero value in an uninitialised area'' s
      else Inr s)"
  have grow: "area_frame r u w"
    if "(if j > curIdx a then Area_EnsureExtraSize r k u else Inr u) = Inr w" "sym_area u r = Inr b" for u w k b
    using that EnsureExtraSize_frame area_frame_same by (auto split: if_splits)
  have m: "area_frame r s u" if run: "m = Inr u" for u
  proof (cases "Area_IsNoInit a")
    case True
    then show ?thesis using run a Error_frame area_frame_same by (auto simp: m_def split: if_splits)
  next
    case False
    then have "rbind (ReportOverflow ds (ucast v) s) (\<lambda>s.
           rbind (if j > curIdx a then Area_EnsureExtraSize r (unat (j - curIdx a)) s else Inr s)
             (put_loop (unat n) r offset j ds v)) = Inr u" using run by (simp add: m_def)
    then show ?thesis
      by (rule rbind_frame [where g = "\<lambda>t. t"]) (auto intro: ReportOverflow_frame [OF a] put_loop_frame
            grow rbind_frame [where g = "\<lambda>t. t"])
  qed
  have "Put_DataWithOffset offset ds v n s = rbind m (\<lambda>s. rbind (sym_area s r) (\<lambda>a.
     if j > curIdx a then Inr (set_area r (a\<lparr>curIdx := j\<rparr>) s) else Inr s))"
    unfolding Put_DataWithOffset_def Let_def m_def j_def by (simp add: a assms(1) cur_sym_def)
  with assms(2) have "rbind m (\<lambda>s. rbind (sym_area s r) (\<lambda>a.
     if j > curIdx a then Inr (set_area r (a\<lparr>curIdx := j\<rparr>) s) else Inr s)) = Inr t" by simp
  then show ?thesis
    by (rule rbind_frame [where g = "\<lambda>t. t"])
      (auto intro: m area_frame_curIdx area_frame_same split: if_splits elim!: rbind_InrE)
qed

lemma align_move_frame:
  assumes "align_move r n s = Inr (m, t)"
  shows "area_frame r s t"
proof -
  obtain a where a: "sym_area s r = Inr a" using assms by (auto simp: align_move_def elim: rbind_InrE)
  show ?thesis
  proof (cases "curIdx a < n")
    case False
    then show ?thesis using assms a by (simp add: align_move_def area_frame_same)
  next
    case True
    define k where "k = unat (n - curIdx a)"
    have "align_move r n s = rbind (if \<not> Area_IsNoInit a
        then rbind (Area_EnsureExtraSize r k s) (Area_Write r (unat (curIdx a)) (replicate k 0)) else Inr s)
      (\<lambda>s. rbind (sym_area s r) (\<lambda>a. Inr (n, set_area r (a\<lparr>curIdx := n\<rparr>) s)))"
      using a True by (simp add: align_move_def k_def)
    with assms have "rbind (if \<not> Area_IsNoInit a
        then rbind (Area_EnsureExtraSize r k s) (Area_Write r (unat (curIdx a)) (replicate k 0)) else Inr s)
      (\<lambda>s. rbind (sym_area s r) (\<lambda>a. Inr (n, set_area r (a\<lparr>curIdx := n\<rparr>) s))) = Inr (m, t)" by simp
    then have "area_frame r s (snd (m, t))"
      by (rule rbind_frame) (auto intro: area_frame_same [OF a] area_frame_curIdx EnsureExtraSize_frame
            Area_Write_frame rbind_frame [where g = "\<lambda>t. t"] split: if_splits elim!: rbind_InrE [of "sym_area _ _"])
    then show ?thesis by simp
  qed
qed

lemma Area_AlignOffset_frame:
  assumes "Area_AlignOffset r offset k msg s = Inr (m, t)" and "sym_area s r = Inr a"
  shows "area_frame r s t"
proof -
  have "rbind (if msg \<noteq> None \<and> offset AND (k - 1) \<noteq> 0
            then Error ErrorWarning ''Implicit aligning unaligned %s'' s else Inr s)
      (align_move r ((offset + k - 1) AND (- k))) = Inr (m, t)"
    using assms(1) by (auto simp: Area_AlignOffset_def align_move_def Let_def elim!: rbind_InrE)
  then have "area_frame r s (snd (m, t))"
    by (rule rbind_frame) (auto intro: area_frame_same [OF assms(2)] Error_frame [OF assms(2)] align_move_frame
          split: if_splits)
  then show ?thesis by simp
qed

lemma Put_InsWithOffset_frame:
  assumes "areaCurrentSymbol s = Some r" and "Put_InsWithOffset offset sz ins s = Inr t" and "sym_area s r = Inr a"
  shows "area_frame r s t"
proof -
  obtain m u where u: "Area_AlignOffset r offset (if State_GetInstrType s = eInstrType_ARM then 4 else 2)
        (Some ''instruction'') s = Inr (m, u)"
    and put: "(if State_GetInstrType u \<noteq> eInstrType_ARM \<and> sz = 4
          then rbind (Put_DataWithOffset (m + 0) 2 (ucast (shr32 ins 16)) 1 u)
                 (Put_DataWithOffset (m + 2) 2 (ucast (ins AND 0xFFFF)) 1)
          else Put_DataWithOffset m sz (ucast ins) 1 u) = Inr t"
    using assms(1,2) by (auto simp: Put_InsWithOffset_def Area_AlignTo_def cur_sym_def elim!: rbind_InrE)
  have f: "area_frame r s u" by (rule Area_AlignOffset_frame [OF u assms(3)])
  then have cur: "areaCurrentSymbol u = Some r" using assms(1) area_frameD(1) by metis
  have "area_frame r u t"
  proof (cases "State_GetInstrType u \<noteq> eInstrType_ARM \<and> sz = 4")
    case True
    then have "rbind (Put_DataWithOffset (m + 0) 2 (ucast (shr32 ins 16)) 1 u)
                 (Put_DataWithOffset (m + 2) 2 (ucast (ins AND 0xFFFF)) 1) = Inr t" using put by simp
    then show ?thesis
    proof (rule rbind_frame [where g = "\<lambda>t. t"])
      show "area_frame r u v" if "Put_DataWithOffset (m + 0) 2 (ucast (shr32 ins 16)) 1 u = Inr v" for v
        by (rule Put_DataWithOffset_frame [OF cur that])
      show "area_frame r v t"
        if "area_frame r u v" "Put_DataWithOffset (m + 2) 2 (ucast (ins AND 0xFFFF)) 1 v = Inr t" for v
        using Put_DataWithOffset_frame that area_frameD(1) [OF that(1)] cur by simp
    qed
  next
    case False
    then show ?thesis using put Put_DataWithOffset_frame [OF cur] by auto
  qed
  then show ?thesis by (rule area_frame_trans [OF f])
qed

lemma IT_EmitIT_frame:
  assumes "areaCurrentSymbol s = Some r" and "IT_EmitIT it isThumb s = Inr t" and "sym_area s r = Inr a"
  shows "area_frame r s t"
proof (cases isThumb)
  case True
  then obtain b u ins where u: "Target_CheckCPUFeature kCPUExt_v6T2 True s = Inr (b, u)"
    and put: "Put_InsWithOffset (it_areaCurIdx it) 2 ins u = Inr t"
    using assms(2) by (auto simp: IT_EmitIT_def elim!: rbind_InrE)
  have same: "same_but_errors s u" using CheckCPUFeatureDetail_same u by (auto simp: Target_CheckCPUFeature_def)
  then have "areaCurrentSymbol u = Some r" "sym_area u r = Inr a"
    using assms(1,3) by (simp_all add: same_but_errorsD sym_area_same)
  with put have "area_frame r u t" by (blast intro: Put_InsWithOffset_frame)
  then show ?thesis by (rule area_frame_trans [OF area_frame_refl [OF assms(3) same]])
next
  case False
  then show ?thesis using assms by (simp add: IT_EmitIT_def area_frame_same)
qed

lemma its_ok_set_it: "its_ok s \<Longrightarrow> it_ok it \<Longrightarrow> set_it r it s = Inr t \<Longrightarrow> its_ok t"
  by (auto simp: its_ok_def set_it_def sym_area_set_area split: if_splits elim!: rbind_InrE)

lemma its_ok_same: "same_but_errors s t \<Longrightarrow> its_ok t = its_ok s"
  by (simp add: its_ok_def sym_area_same)

lemma its_ok_frame: "its_ok s \<Longrightarrow> area_frame r s t \<Longrightarrow> its_ok t"
proof -
  assume ok: "its_ok s" and "area_frame r s t"
  then obtain a a' where a: "sym_area s r = Inr a" "put_frame a a'" "same_but_errors (set_area r a' s) t"
    by (auto simp: area_frame_def)
  have "its_ok (set_area r a' s)"
    using ok a(1) put_frame_sel(1) [OF a(2)] by (auto simp: its_ok_def split: if_splits)
  then show "its_ok t" using its_ok_same [OF a(3)] by simp
qed

lemma set_it_cur:
  "set_it r it s = Inr t \<Longrightarrow> areaCurrentSymbol t = areaCurrentSymbol s \<and> (\<exists>a. sym_area s r = Inr a
     \<and> sym_area t r = Inr (a\<lparr>area_it := it\<rparr>))"
  by (auto simp: set_it_def elim!: rbind_InrE)

lemma it_ok_init [simp]: "it_ok IT_InitializeState"
  by (simp add: it_ok_def IT_InitializeState_def NV_def AL_def)

lemma it_ok_start: "cc AND NV = cc \<Longrightarrow> it_ok (IT_StartImplicitIT cc a)"
  by (simp add: it_ok_def IT_StartImplicitIT_def)

lemma it_ok_extend:
  assumes "it_ok it" and "it_implicitIT it" and "it_maxIdx it \<noteq> 4"
  shows "it_ok (it\<lparr>it_isThen := (it_isThen it)[it_curIdx it := b], it_curIdx := it_curIdx it + 1,
    it_maxIdx := it_maxIdx it + 1\<rparr>)"
  using assms by (auto simp: it_ok_def nth_list_update)

lemma it_ok_close: "it_ok it \<Longrightarrow> it_ok (it\<lparr>it_implicitIT := False, it_curIdx := 4, it_maxIdx := 4\<rparr>)"
  by (simp add: it_ok_def)

lemma it_ok_next: "it_ok it \<Longrightarrow> it_curIdx it \<noteq> it_maxIdx it \<Longrightarrow> it_ok (it\<lparr>it_curIdx := Suc (it_curIdx it)\<rparr>)"
  by (auto simp: it_ok_def)

lemma it_ok_last: "it_ok it \<Longrightarrow> it_ok (it\<lparr>it_curIdx := it_maxIdx it\<rparr>)"
  by (simp add: it_ok_def)

lemma its_ok_Error: "its_ok s \<Longrightarrow> Error e m s = Inr t \<Longrightarrow> its_ok t"
  by (simp add: its_ok_same [OF Error_same])

lemma its_ok_errors:
  "its_ok s \<Longrightarrow> (if c then rbind (Error e m s) (Error_Line e' m') else Inr s) = Inr t \<Longrightarrow> its_ok t"
  by (auto simp: Error_Line_eq its_ok_same [OF Error_same] elim!: rbind_InrE split: if_splits)

lemma implicit_emit_ok:
  assumes "its_ok s" and "it_ok it" and "areaCurrentSymbol s = Some r" and "implicit_emit r it enforceLast s = Inr t"
  shows "its_ok t"
proof -
  obtain u v where u: "set_it r it s = Inr u" and v: "IT_EmitIT it True u = Inr v"
    and t: "(if enforceLast then set_it r (it\<lparr>it_implicitIT := False, it_curIdx := 4, it_maxIdx := 4\<rparr>) v else Inr v) = Inr t"
    using assms(4) by (auto simp: implicit_emit_def elim!: rbind_InrE)
  have "its_ok u" by (rule its_ok_set_it [OF assms(1,2) u])
  moreover have "area_frame r u v"
    using set_it_cur [OF u] assms(3) IT_EmitIT_frame [OF _ v] by auto
  ultimately have "its_ok v" by (rule its_ok_frame)
  then show ?thesis using t its_ok_set_it it_ok_close [OF assms(2)] by (auto split: if_splits)
qed

lemma set_it_total: "sym_area s r = Inr a \<Longrightarrow> \<exists>t. set_it r it s = Inr t"
  by (simp add: set_it_def)

lemma shift_NV: "cc AND NV = cc \<Longrightarrow> (cc XOR shl32 1 28) AND NV = cc XOR shl32 (1 :: u32) 28"
proof -
  have "shl32 1 28 AND NV = shl32 1 28" by (simp add: NV_def)
  then show "cc AND NV = cc \<Longrightarrow> (cc XOR shl32 1 28) AND NV = cc XOR shl32 1 28"
    by (metis bit.conj_xor_distrib2)
qed

text \<open>The next state of an implicit block.\<close>

lemma it_ok_implicit:
  assumes "it_ok it" and "it_implicitIT it" and "it_maxIdx it \<noteq> 4" and "cc AND NV = cc"
  shows "it_ok (if cc = it_cc it
                   then it\<lparr>it_isThen := (it_isThen it)[it_curIdx it := True],
                           it_curIdx := it_curIdx it + 1, it_maxIdx := it_maxIdx it + 1\<rparr>
                   else if cc = it_cc it XOR shl32 1 28
                   then it\<lparr>it_isThen := (it_isThen it)[it_curIdx it := False],
                           it_curIdx := it_curIdx it + 1, it_maxIdx := it_maxIdx it + 1\<rparr>
                   else IT_StartImplicitIT cc a)"
  using it_ok_extend [OF assms(1-3)] it_ok_start [OF assms(4)] by simp

lemma ApplyCond_its_ok:
  assumes "its_ok s" and "IT_ApplyCond cc0 enforceLast isThumb s = Inr t"
  shows "its_ok t"
proof -
  define cc where "cc = cc0 AND NV"
  have cc: "cc AND NV = cc" by (simp add: cc_def ac_simps)
  obtain r a where r: "areaCurrentSymbol s = Some r" and a: "sym_area s r = Inr a"
    using assms(2) by (auto simp: IT_ApplyCond_def cur_sym_def Let_def elim!: rbind_InrE split: option.splits)
  define it where "it = area_it a"
  have ok: "it_ok it" using assms(1) a by (simp add: its_ok_def it_def)
  note run = assms(2) [unfolded IT_ApplyCond_def Let_def cur_sym_def r option.case rbind_Inr a,
      folded it_def cc_def]
  consider (pending) "it_curIdx it \<noteq> it_maxIdx it"
    | (extend) "it_curIdx it = it_maxIdx it" "it_implicitIT it \<and> it_maxIdx it \<noteq> 4"
    | (start) "it_curIdx it = it_maxIdx it" "\<not> (it_implicitIT it \<and> it_maxIdx it \<noteq> 4)" by blast
  then show ?thesis
  proof cases
    case pending
    note oks = it_ok_next [OF ok this] it_ok_last [OF ok]
    have "its_ok t" if "rbind (rbind (Error e m s) (Error e' m')) (set_it r it') = Inr t" "it_ok it'" for e m e' m' it'
      using that by (elim rbind_InrE) (metis its_ok_set_it its_ok_Error assms(1))
    then show ?thesis using run pending oks its_ok_set_it [OF assms(1)]
      by (auto elim!: rbind_InrE [of "rassert _"] split: if_splits)
  next
    case extend
    then show ?thesis using run ok assms(1) implicit_emit_ok [OF assms(1) it_ok_implicit [OF ok _ _ cc] r]
        its_ok_set_it [OF assms(1) it_ok_init]
      by (auto elim!: rbind_InrE split: if_splits intro: its_ok_set_it)
  next
    case start
    then show ?thesis using run implicit_emit_ok [OF assms(1) it_ok_start [OF cc] r] assms(1)
      by (auto elim!: rbind_InrE split: if_splits)
  qed
qed

lemma m_it_its_ok:
  assumes "its_ok s" and "it_parsed it" and "m_it_apply it s = Inr (b, t)"
  shows "its_ok t"
proof -
  obtain r a where r: "areaCurrentSymbol s = Some r" and a: "sym_area s r = Inr a"
    using assms(3) by (auto simp: m_it_apply_def cur_sym_def elim!: rbind_InrE split: option.splits)
  note run = assms(3) [unfolded m_it_apply_def Let_def cur_sym_def r option.case rbind_Inr a]
  obtain u u' v where u': "(if it_curIdx (area_it a) \<noteq> it_maxIdx (area_it a)
            then rbind (Error ErrorError ''There is a pending IT block'' s)
                   (Error_Line ErrorError ''note: Pending IT block started here'')
            else Inr s) = Inr u'" and u: "(if it_cc it = AL \<and> it_maxIdx it \<noteq> 1
            then Error ErrorWarning ''Use of AL condition with one or more Then/Else arguments is UNPREDICTABLE'' u'
            else Inr u') = Inr u"
      and v: "set_it r it u = Inr v"
      and w: "IT_EmitIT it (State_GetInstrType v \<noteq> eInstrType_ARM) v = Inr t"
    using run by (elim rbind_InrE) simp
  have s': "same_but_errors s u'" using u' by (auto simp: Error_Line_eq elim!: rbind_InrE split: if_splits
      dest!: Error_same intro: same_but_errors_trans)
  have u: "same_but_errors s u" using u by (auto split: if_splits dest!: Error_same
      intro: same_but_errors_trans [OF s'] s')
  have "it_ok it" using assms(2) by (simp add: it_ok_def it_parsed_def)
  then have "its_ok v" using its_ok_set_it [OF _ _ v] its_ok_same [OF u] assms(1) by simp
  moreover have "area_frame r v t"
    using set_it_cur [OF v] IT_EmitIT_frame [OF _ w] same_but_errorsD [OF u] r by auto
  ultimately show ?thesis by (rule its_ok_frame)
qed

lemma reset_loop_its_ok: "it_reset_loop n p s = Inr t \<Longrightarrow> its_ok s \<Longrightarrow> its_ok t"
proof (induction n p s rule: it_reset_loop.induct)
  case (3 n r s)
  then obtain a u v where "its_ok u" and v: "set_it r IT_InitializeState u = Inr v"
      and loop: "it_reset_loop n (area_next a) v = Inr t" 
      and a: "sym_area s r = Inr a"
      and u: "(if it_curIdx (area_it a) \<noteq> it_maxIdx (area_it a)
            then rbind (Error ErrorError ''There is a pending IT block at end of area %s'' s)
                   (Error_Line ErrorError ''note: Pending IT block started here'')
            else Inr s) = Inr u"
    using its_ok_errors by (auto elim!: rbind_InrE)
  show ?case by (rule 3(1) [OF a u v loop]) (rule its_ok_set_it [OF \<open>its_ok u\<close> it_ok_init v])
qed simp_all

lemma it_step_its_ok: "it_step s t \<Longrightarrow> its_ok s \<Longrightarrow> its_ok t"
proof (induction rule: it_step.induct)
  case (step_put sz ins s t)
  then obtain r a where "areaCurrentSymbol s = Some r" "sym_area s r = Inr a"
      "Put_InsWithOffset (curIdx a) sz ins s = Inr t"
    by (auto simp: Put_Ins_def cur_area_def cur_sym_def elim!: rbind_InrE split: option.splits)
  then show ?case using its_ok_frame Put_InsWithOffset_frame step_put by metis
next
  case (step_phase n p s t)
  then show ?case using reset_loop_its_ok by (auto simp: IT_PrepareForPhase_def split: Phase_e.splits)
qed (auto intro: ApplyCond_its_ok m_it_its_ok)

lemma implicit_emit_it:
  assumes "areaCurrentSymbol s = Some r" and "implicit_emit r it False s = Inr t"
  shows "\<exists>a. sym_area t r = Inr a \<and> area_it a = it"
proof -
  obtain u where u: "set_it r it s = Inr u" and v: "IT_EmitIT it True u = Inr t"
    using assms(2) by (auto simp: implicit_emit_def elim!: rbind_InrE)
  obtain a where a: "sym_area u r = Inr (a\<lparr>area_it := it\<rparr>)" and "areaCurrentSymbol u = Some r"
    using set_it_cur [OF u] assms(1) by auto
  then have "area_frame r u t" using IT_EmitIT_frame v by blast
  from area_frameD(5) [OF this] a show ?thesis by (auto dest: put_frame_sel)
qed

lemma it_conds_start: "it_conds (IT_StartImplicitIT cc a) = [cc]"
  by (simp add: it_conds_def IT_StartImplicitIT_def)

lemma it_conds_extend:
  assumes "it_ok it" and "it_maxIdx it \<noteq> 4" and "it_curIdx it = it_maxIdx it"
  shows "it_conds (it\<lparr>it_isThen := (it_isThen it)[it_curIdx it := b], it_curIdx := Suc (it_curIdx it),
      it_maxIdx := Suc (it_maxIdx it)\<rparr>) = it_conds it @ [if b then it_cc it else it_cc it XOR shl32 1 28]"
proof -
  have "it_maxIdx it < length (it_isThen it)" using assms by (auto simp: it_ok_def)
  then show ?thesis using assms(3) by (simp add: it_conds_def take_Suc_conv_app_nth)
qed

text \<open>
  C14. Implicit IT blocks.  When a conditional Thumb instruction comes with no explicit block pending,
  the area is left with a well-formed implicit block whose last condition is the instruction's: the
  block so far extended by it if it has room and the instruction's condition is the block's or its
  inverse, a new block otherwise.
\<close>

theorem IT_ApplyCond_implicit:
  assumes "its_ok s" and "areaCurrentSymbol s = Some r" and "sym_area s r = Inr a"
    and "it_curIdx (area_it a) = it_maxIdx (area_it a)" and "cc AND NV = cc" and "cc \<noteq> AL"
    and "IT_ApplyCond cc False True s = Inr t"
  shows "\<exists>a'. sym_area t r = Inr a' \<and> it_ok (area_it a') \<and> it_implicitIT (area_it a')
    \<and> it_conds (area_it a') =
        (if it_implicitIT (area_it a) \<and> it_maxIdx (area_it a) \<noteq> 4
            \<and> cc \<in> {it_cc (area_it a), it_cc (area_it a) XOR shl32 1 28}
         then it_conds (area_it a) @ [cc] else [cc])"
proof -
  define it where "it = area_it a"
  have ok: "it_ok it" using assms(1,3) by (simp add: its_ok_def it_def)
  define new where "new = (if it_implicitIT it \<and> it_maxIdx it \<noteq> 4
    then if cc = it_cc it then it\<lparr>it_isThen := (it_isThen it)[it_curIdx it := True],
             it_curIdx := Suc (it_curIdx it), it_maxIdx := Suc (it_maxIdx it)\<rparr>
         else if cc = it_cc it XOR shl32 1 28 then it\<lparr>it_isThen := (it_isThen it)[it_curIdx it := False],
             it_curIdx := Suc (it_curIdx it), it_maxIdx := Suc (it_maxIdx it)\<rparr>
         else IT_StartImplicitIT cc a
    else IT_StartImplicitIT cc a)"
  have "IT_ApplyCond cc False True s = implicit_emit r new False s"
    using assms(2-6) ok unfolding IT_ApplyCond_def Let_def
    by (auto simp: cur_sym_def new_def it_def [symmetric])
  then obtain a' where a': "sym_area t r = Inr a'" "area_it a' = new"
    using implicit_emit_it [OF assms(2)] assms(7) by metis
  have "it_ok new"
    using it_ok_extend [OF ok] it_ok_start [OF assms(5)] by (auto simp: new_def)
  moreover have "it_implicitIT new" by (simp add: new_def IT_StartImplicitIT_def)
  moreover have "it_conds new = (if it_implicitIT it \<and> it_maxIdx it \<noteq> 4
      \<and> cc \<in> {it_cc it, it_cc it XOR shl32 1 28} then it_conds it @ [cc] else [cc])"
    using it_conds_extend [OF ok _ assms(4) [folded it_def]] by (auto simp: new_def it_conds_start)
  ultimately show ?thesis using a' unfolding it_def by blast
qed

theorem IT_ApplyCond_implicit_witness:
  "\<exists>t a'. IT_ApplyCond 0 False True asm_thumb = Inr t \<and> sym_area t 0 = Inr a' \<and> it_conds (area_it a') = [0]"
proof -
  have "map_option (\<lambda>t. gPhase t) (returned (IT_ApplyCond 0 False True asm_thumb)) = Some ePassOne" by code_simp
  then obtain t where t: "IT_ApplyCond 0 False True asm_thumb = Inr t" by (auto simp: returned_def split: sum.splits)
  have "its_ok asm_thumb" "areaCurrentSymbol asm_thumb = Some 0" "sym_area asm_thumb 0 = Inr area_code"
    by (auto simp: its_ok_def asm_thumb_def asm_code_def area_code_def sym_area_def sym0_def
        split: option.splits if_splits)
  from IT_ApplyCond_implicit [OF this _ _ _ t] obtain a' where "sym_area t 0 = Inr a'" "it_conds (area_it a') = [0]"
    by (auto simp: area_code_def IT_InitializeState_def AL_def)
  with t show ?thesis by blast
qed

text \<open>
  C16. The IT states stay well-formed.  Starting from well-formed states, whatever sequence of conditions
  applied, IT instructions parsed, instructions put and changes of phase an area goes through, the
  four marks, the two indices and the condition of every area's IT state keep the invariant of the comments
  of \<^verbatim>\<open>IT_State_t\<close>: in particular the index never runs ahead of the block and an implicit block is never
  pending, which are the assertions of \<^verbatim>\<open>IT_ApplyCond\<close> and \<^verbatim>\<open>IT_CanExtendBlock\<close>.
\<close>

theorem it_steps_invariant:
  assumes "it_step\<^sup>*\<^sup>* s t" and "its_ok s"
  shows "its_ok t"
  using assms by (induction rule: rtranclp_induct) (auto intro: it_step_its_ok)

theorem it_steps_invariant_witness:
  "\<exists>t. it_step\<^sup>*\<^sup>* (asm_thumb) t \<and> its_ok t \<and> map_option (\<lambda>a. it_conds (area_it a)) (returned (sym_area t 0)) = Some [0, shl32 1 28]"
proof -
  obtain t where t: "rbind (IT_ApplyCond 0 False True asm_thumb) (IT_ApplyCond (shl32 1 28) False True) = Inr t"
     and v: "map_option (\<lambda>a. it_conds (area_it a)) (returned (sym_area t 0)) = Some [0, shl32 1 28]"
  proof -
    have "map_option (\<lambda>t. map_option (\<lambda>a. it_conds (area_it a)) (returned (sym_area t 0)))
      (returned (rbind (IT_ApplyCond 0 False True asm_thumb) (IT_ApplyCond (shl32 1 28) False True)))
      = Some (Some [0, shl32 1 28])" by code_simp
    then show ?thesis using that by (auto simp: returned_def split: sum.splits)
  qed
  then have "it_step\<^sup>*\<^sup>* asm_thumb t"
    by (elim rbind_InrE) (metis it_step.step_cond rtranclp.rtrancl_into_rtrancl rtranclp.rtrancl_refl)
  moreover have "its_ok asm_thumb" by (auto simp: its_ok_def asm_thumb_def asm_code_def area_code_def sym_area_def sym0_def
        split: option.splits if_splits)
  ultimately show ?thesis using it_steps_invariant v by blast
qed

end
