(* ===== verification/Values.thy ===== *)
theory Values
  imports IT
begin

text \<open>
  Values and the resolution of symbols: \<^verbatim>\<open>value.c\<close>.  A symbol that is defined as a multiple of another
  symbol plus an offset is replaced by it until a value is reached.  The theorems: resolving does not
  change what a value means, it ends when the definitions are not circular, and it does not end when
  they are.

  \<^verbatim>\<open>Value_Copy\<close> and \<^verbatim>\<open>Value_Assign\<close> duplicate blocks of memory; on the values of the model they are the
  identity and the assignment.
\<close>

section \<open>Operations\<close>

definition Value_IsLabel :: "asm \<Rightarrow> Value \<Rightarrow> bool" where
  "Value_IsLabel s v \<longleftrightarrow>
     (case v of ValueSymbol _ r _ \<Rightarrow> flag (attr_type (syms s r)) SYMBOL_AREA | _ \<Rightarrow> False)"

text \<open>The condition of the loop of \<^verbatim>\<open>Value_ResolveSymbol\<close>.\<close>

definition resolve_more :: "bool \<Rightarrow> asm \<Rightarrow> symref \<Rightarrow> bool outcome" where
  "resolve_more resolveAbsArea s r =
     (if flag (attr_type (syms s r)) SYMBOL_DEFINED then Inr True
      else if resolveAbsArea \<and> flag (attr_type (syms s r)) SYMBOL_AREA
      then rbind (sym_area s r) (\<lambda>a. Inr (flag (area_type a) AREA_ABS))
      else Inr False)"

text \<open>
  The \<^verbatim>\<open>switch\<close> of the loop: the next value, or \<open>None\<close> for \<^verbatim>\<open>return true\<close>.  The case of a 64-bit
  integer reads \<^verbatim>\<open>Data.Int.i\<close> of a value that holds \<^verbatim>\<open>Data.Int64.i\<close>; on a little-endian host that is its low
  word.
\<close>

definition resolve_value :: "u32 \<Rightarrow> u32 \<Rightarrow> Value \<Rightarrow> Value option" where
  "resolve_value factor offset newValue =
     (case newValue of
        ValueBool b \<Rightarrow> if factor \<noteq> 1 \<or> offset \<noteq> 0 then None else Some (ValueBool b)
      | ValueString str \<Rightarrow> if factor \<noteq> 1 \<or> offset \<noteq> 0 then None else Some (ValueString str)
      | ValueInt i ty \<Rightarrow>
          if ty = eIntType_PureInt then Some (ValueInt (factor * i + offset) eIntType_PureInt)
          else if factor = 1 \<and> offset = 0 then Some (ValueInt i ty)
          else None
      | ValueInt64 i \<Rightarrow> Some (ValueInt64 (scast (factor * ucast i + offset :: u32)))
      | ValueFloat f \<Rightarrow>
          Some (ValueFloat (dbl_add (dbl_mul (dbl_of_int (sint factor)) f) (dbl_of_int (sint offset))))
      | ValueAddr reg i \<Rightarrow> if factor \<noteq> 1 then None else Some (ValueAddr reg (i + offset))
      | ValueSymbol fac q off \<Rightarrow> Some (ValueSymbol (factor * fac) q (factor * off + offset))
      | _ \<Rightarrow> None)"

text \<open>
  The loop may not end, hence the fuel: the number of symbols it may step through.  The result holds
  what is returned (true when resolving failed) and what \<^verbatim>\<open>*valueP\<close> is then.
\<close>

fun Value_ResolveSymbol :: "nat \<Rightarrow> bool \<Rightarrow> Value \<Rightarrow> asm \<Rightarrow> (bool \<times> Value) outcome" where
  "Value_ResolveSymbol fuel resolveAbsArea (ValueSymbol factor r offset) s =
     rbind (resolve_more resolveAbsArea s r) (\<lambda>more.
       if \<not> more then Inr (False, ValueSymbol factor r offset)
       else if resolveAbsArea \<and> flag (attr_type (syms s r)) SYMBOL_AREA
       then rbind (sym_area s r) (\<lambda>a.
            rbind (rassert (flag (area_type a) AREA_ABS)) (\<lambda>_.
            rbind (Area_GetBaseAddress s r) (\<lambda>base.
              Inr (False, ValueInt (factor * base + offset) eIntType_PureInt))))
       else case resolve_value factor offset (attr_value (syms s r)) of
              None \<Rightarrow> Inr (True, ValueSymbol factor r offset)
            | Some v \<Rightarrow>
                (case fuel of 0 \<Rightarrow> Inl OutOfFuel | Suc fuel \<Rightarrow> Value_ResolveSymbol fuel resolveAbsArea v s))"
| "Value_ResolveSymbol fuel resolveAbsArea v s = Inr (False, v)"

declare Value_ResolveSymbol.simps(1) [simp del]

text \<open>
  The numbers symbols stand for: \<open>\<rho>\<close> gives every symbol a number that agrees with its recorded value.  For a
  symbol that is defined that is its definition, for an area of any kind the number recorded as its origin (of an
  area that is not absolute the linker chooses it; the theorems take it as an arbitrary number).
\<close>

definition sym_numbers :: "asm \<Rightarrow> (symref \<Rightarrow> u32) \<Rightarrow> bool" where
  "sym_numbers s \<rho> \<longleftrightarrow>
     (\<forall>r. case attr_value (syms s r) of
            ValueInt i eIntType_PureInt \<Rightarrow> \<rho> r = i
          | ValueSymbol fac q off \<Rightarrow> \<rho> r = fac * \<rho> q + off
          | _ \<Rightarrow> True)"

fun value_number :: "(symref \<Rightarrow> u32) \<Rightarrow> Value \<Rightarrow> u32 option" where
  "value_number \<rho> (ValueInt i eIntType_PureInt) = Some i"
| "value_number \<rho> (ValueSymbol factor r offset) = Some (factor * \<rho> r + offset)"
| "value_number \<rho> _ = None"

text \<open>Definitions that are not circular: each symbol is defined by symbols of a smaller rank.\<close>

definition ranked :: "asm \<Rightarrow> (symref \<Rightarrow> nat) \<Rightarrow> bool" where
  "ranked s rank \<longleftrightarrow>
     (\<forall>r fac q off. attr_value (syms s r) = ValueSymbol fac q off \<longrightarrow> rank q < rank r)"

text \<open>The symbol table of a run: area symbols own areas, and no area symbol is marked as defined.\<close>

definition syms_ok :: "asm \<Rightarrow> bool" where
  "syms_ok s \<longleftrightarrow> wf_syms s
     \<and> (\<forall>r. \<not> (flag (attr_type (syms s r)) SYMBOL_DEFINED \<and> flag (attr_type (syms s r)) SYMBOL_AREA))"

text \<open>A table to run examples on: symbol 0 is twice symbol 1 plus four, symbol 1 is ten; 2 and 3 are circular.\<close>

definition asm_defs_example :: asm where
  "asm_defs_example = asm0\<lparr>syms := (\<lambda>_. sym0)(
     0 := sym0\<lparr>attr_type := SYMBOL_DEFINED, attr_value := ValueSymbol 2 1 4\<rparr>,
     1 := sym0\<lparr>attr_type := SYMBOL_DEFINED, attr_value := ValueInt 10 eIntType_PureInt\<rparr>,
     2 := sym0\<lparr>attr_type := SYMBOL_DEFINED, attr_value := ValueSymbol 1 3 0\<rparr>,
     3 := sym0\<lparr>attr_type := SYMBOL_DEFINED, attr_value := ValueSymbol 1 2 1\<rparr>)\<rparr>"

section \<open>Resolution keeps the meaning and ends\<close>

lemma syms_okD:
  assumes "syms_ok s"
  shows "flag (attr_type (syms s r)) SYMBOL_AREA \<Longrightarrow> \<not> flag (attr_type (syms s r)) SYMBOL_DEFINED"
    and "flag (attr_type (syms s r)) SYMBOL_AREA \<Longrightarrow>
      \<exists>a i. sym_area s r = Inr a \<and> attr_value (syms s r) = ValueInt i eIntType_PureInt"
  using assms by (auto simp: syms_ok_def sym_area_def elim: wf_syms_areaE)

lemma resolve_more_returns: "syms_ok s \<Longrightarrow> \<exists>b. resolve_more ra s r = Inr b"
  using syms_okD(2) [of s r] by (auto simp: resolve_more_def)

text \<open>One round of the loop on a well-formed table.\<close>

lemma resolve_round:
  assumes "syms_ok s"
  shows "Value_ResolveSymbol n ra (ValueSymbol f r off) s = Inr (False, ValueSymbol f r off)
      \<and> resolve_more ra s r = Inr False
    \<or> (\<exists>i. attr_value (syms s r) = ValueInt i eIntType_PureInt
          \<and> Value_ResolveSymbol n ra (ValueSymbol f r off) s = Inr (False, ValueInt (f * i + off) eIntType_PureInt))
    \<or> flag (attr_type (syms s r)) SYMBOL_DEFINED
      \<and> Value_ResolveSymbol n ra (ValueSymbol f r off) s =
          (case resolve_value f off (attr_value (syms s r)) of
              None \<Rightarrow> Inr (True, ValueSymbol f r off)
            | Some v \<Rightarrow> (case n of 0 \<Rightarrow> Inl OutOfFuel | Suc n \<Rightarrow> Value_ResolveSymbol n ra v s))"
proof (cases "flag (attr_type (syms s r)) SYMBOL_DEFINED")
  case True
  then have "\<not> flag (attr_type (syms s r)) SYMBOL_AREA" using syms_okD(1) [OF assms] by blast
  then show ?thesis using True by (simp add: Value_ResolveSymbol.simps(1) resolve_more_def split: option.split)
next
  case False
  show ?thesis
  proof (cases "ra \<and> flag (attr_type (syms s r)) SYMBOL_AREA")
    case True
    then obtain a i where "sym_area s r = Inr a" "attr_value (syms s r) = ValueInt i eIntType_PureInt"
      using syms_okD(2) [OF assms] by blast
    then show ?thesis using True False
      by (simp add: Value_ResolveSymbol.simps(1) resolve_more_def Area_GetBaseAddress_def)
  qed (use False in \<open>auto simp: Value_ResolveSymbol.simps(1) resolve_more_def\<close>)
qed

lemma resolve_value_number:
  assumes "sym_numbers s \<rho>" and "resolve_value f off (attr_value (syms s r)) = Some v"
    and "value_number \<rho> v = Some i"
  shows "i = f * \<rho> r + off"
proof -
  define av where "av = attr_value (syms s r)"
  note rest = assms(1) [unfolded sym_numbers_def, rule_format, of r, folded av_def] assms(2) [folded av_def] assms(3)
  show ?thesis
  proof (cases av)
    case (ValueInt k ty)
    then show ?thesis using rest by (cases ty) (auto simp: resolve_value_def split: if_splits)
  qed (use rest in \<open>auto simp: resolve_value_def algebra_simps split: if_splits\<close>)
qed

lemma resolve_number:
  assumes "syms_ok s" and "sym_numbers s \<rho>" and "Value_ResolveSymbol n ra v s = Inr (False, w)"
    and "value_number \<rho> w = Some i"
  shows "value_number \<rho> v = Some i"
  using assms(3,4)
proof (induction n arbitrary: v)
  case 0
  show ?case
  proof (cases v)
    case (ValueSymbol f r off)
    then show ?thesis using resolve_round [OF assms(1), of 0 ra f r off] 0
        assms(2) [unfolded sym_numbers_def, rule_format, of r]
      by (auto split: option.splits)
  qed (use 0 in auto)
next
  case (Suc n)
  show ?case
  proof (cases v)
    case (ValueSymbol f r off)
    from resolve_round [OF assms(1), of "Suc n" ra f r off] show ?thesis
    proof (elim disjE exE conjE)
      assume "Value_ResolveSymbol (Suc n) ra (ValueSymbol f r off) s =
          (case resolve_value f off (attr_value (syms s r)) of
              None \<Rightarrow> Inr (True, ValueSymbol f r off)
            | Some v \<Rightarrow> (case Suc n of 0 \<Rightarrow> Inl OutOfFuel | Suc n \<Rightarrow> Value_ResolveSymbol n ra v s))"
      then obtain u where u: "resolve_value f off (attr_value (syms s r)) = Some u"
          "Value_ResolveSymbol n ra u s = Inr (False, w)"
        using Suc.prems(1) ValueSymbol by (auto split: option.splits)
      then show ?thesis using Suc.IH [OF u(2) Suc.prems(2)] resolve_value_number [OF assms(2) u(1)] ValueSymbol
        by simp
    qed (use Suc.prems ValueSymbol assms(2) [unfolded sym_numbers_def, rule_format, of r] in auto)
  qed (use Suc.prems in auto)
qed

lemma resolve_done:
  assumes "syms_ok s" and "Value_ResolveSymbol n ra v s = Inr (False, ValueSymbol f r off)"
  shows "resolve_more ra s r = Inr False"
  using assms(2)
proof (induction n arbitrary: v)
  case 0
  show ?case
  proof (cases v)
    case (ValueSymbol f' r' off')
    then show ?thesis using resolve_round [OF assms(1), of 0 ra f' r' off'] 0 by (auto split: option.splits)
  qed (use 0 in auto)
next
  case (Suc n)
  show ?case
  proof (cases v)
    case (ValueSymbol f' r' off')
    then show ?thesis using resolve_round [OF assms(1), of "Suc n" ra f' r' off'] Suc
      by (auto split: option.splits)
  qed (use Suc.prems in auto)
qed

lemma resolve_ends:
  assumes "syms_ok s" and "ranked s rank" and "rank r < n"
  shows "\<exists>b w. Value_ResolveSymbol n ra (ValueSymbol f r off) s = Inr (b, w)"
  using assms(3)
proof (induction n arbitrary: f r off)
  case (Suc n)
  have nxt: "\<exists>b w. Value_ResolveSymbol n ra v s = Inr (b, w)"
    if v: "resolve_value f off (attr_value (syms s r)) = Some v" for v
  proof (cases v)
    case (ValueSymbol g q p)
    then obtain g' p' where "attr_value (syms s r) = ValueSymbol g' q p'"
      using v by (auto simp: resolve_value_def split: Value.splits if_splits)
    then have "rank q < n" using assms(2) Suc.prems by (fastforce simp: ranked_def)
    then show ?thesis using Suc.IH ValueSymbol by blast
  qed auto
  show ?case using resolve_round [OF assms(1), of "Suc n" ra f r off] nxt
    by (auto split: option.splits)
qed simp

text \<open>
  C28. Resolving a symbol.  When the definitions of the symbols are not circular, \<^verbatim>\<open>Value_ResolveSymbol\<close>
  returns.  If it does not report a failure, the value it leaves is either not a symbol or a symbol
  that can not be resolved further, and it stands for the same number as before, whatever numbers the
  symbols that are not defined stand for.
\<close>

theorem ResolveSymbol_sound:
  assumes "syms_ok s" and "ranked s rank" and "rank r < n"
  shows "\<exists>b v. Value_ResolveSymbol n ra (ValueSymbol f r off) s = Inr (b, v)
    \<and> (\<not> b \<longrightarrow>
         (\<forall>g q p. v = ValueSymbol g q p \<longrightarrow> resolve_more ra s q = Inr False)
       \<and> (\<forall>\<rho> i. sym_numbers s \<rho> \<longrightarrow> value_number \<rho> v = Some i \<longrightarrow> i = f * \<rho> r + off))"
proof -
  obtain b v where run: "Value_ResolveSymbol n ra (ValueSymbol f r off) s = Inr (b, v)"
    using resolve_ends [OF assms] by blast
  moreover have "resolve_more ra s q = Inr False" if "\<not> b" "v = ValueSymbol g q p" for g q p
    using resolve_done [OF assms(1)] run that by auto
  moreover have "i = f * \<rho> r + off" if "\<not> b" "sym_numbers s \<rho>" "value_number \<rho> v = Some i" for \<rho> i
    using resolve_number [OF assms(1) that(2) _ that(3)] run that(1) by fastforce
  ultimately show ?thesis by blast
qed

theorem ResolveSymbol_sound_witness:
  "\<exists>b v. Value_ResolveSymbol 5 True (ValueSymbol 3 0 1) (asm_defs_example\<lparr>syms := (syms asm_defs_example)(2 := sym0, 3 := sym0)\<rparr>)
     = Inr (b, v) \<and> v = ValueInt 73 eIntType_PureInt"
proof -
  let ?s = "asm_defs_example\<lparr>syms := (syms asm_defs_example)(2 := sym0, 3 := sym0)\<rparr>"
  have ok: "syms_ok ?s"
    by (auto simp: syms_ok_def wf_syms_def wf_sym_def asm_defs_example_def sym0_def flag_def symbol_flag_defs)
  have rk: "ranked ?s (\<lambda>r. 1 - r)"
    by (auto simp: ranked_def asm_defs_example_def sym0_def split: if_splits)
  from ResolveSymbol_sound [OF ok rk, of 0 5 True 3 1] show ?thesis
    by (auto simp: asm_defs_example_def flag_def symbol_flag_defs resolve_more_def resolve_value_def
        Value_ResolveSymbol.simps(1) numeral_eq_Suc)
qed

text \<open>
  C29. Circular definitions.  If two symbols are each defined by the other, resolving one of them never
  returns: no number of rounds is enough.  This is the endless loop a comment in \<^verbatim>\<open>value.c\<close> suspects.
\<close>

theorem ResolveSymbol_cycle:
  assumes "syms_ok s" and "flag (attr_type (syms s p)) SYMBOL_DEFINED" and "flag (attr_type (syms s q)) SYMBOL_DEFINED"
    and "attr_value (syms s p) = ValueSymbol f q i" and "attr_value (syms s q) = ValueSymbol g p j"
  shows "Value_ResolveSymbol n ra (ValueSymbol factor p offset) s = Inl OutOfFuel"
proof -
  have area: "\<not> flag (attr_type (syms s r)) SYMBOL_AREA" if "r = p \<or> r = q" for r
    using syms_okD(1) [OF assms(1)] assms(2,3) that by auto
  have "Value_ResolveSymbol n ra (ValueSymbol factor r offset) s = Inl OutOfFuel" if "r = p \<or> r = q" for r
    using that
  proof (induction n arbitrary: r factor offset)
    case (Suc n)
    then show ?case using assms(2-5) area
      by (auto simp: Value_ResolveSymbol.simps(1) [of "Suc n"] resolve_more_def resolve_value_def)
  qed (use assms(2-5) area in \<open>auto simp: Value_ResolveSymbol.simps(1) [of 0] resolve_more_def resolve_value_def\<close>)
  then show ?thesis by blast
qed

theorem ResolveSymbol_cycle_witness:
  "Value_ResolveSymbol 1000 False (ValueSymbol 1 2 0) asm_defs_example = Inl OutOfFuel"
proof -
  have ok: "syms_ok asm_defs_example"
    by (auto simp: syms_ok_def wf_syms_def wf_sym_def asm_defs_example_def sym0_def flag_def symbol_flag_defs)
  show ?thesis
    by (rule ResolveSymbol_cycle [OF ok, of 2 3 1 0 1 1])
      (simp_all add: asm_defs_example_def flag_def symbol_flag_defs)
qed

end
