(* ===== verification/Reloc_Split.thy ===== *)
theory Reloc_Split
  imports Values
begin

text \<open>
  Splitting a value into what is encoded in the instruction and what the linker adds:
  \<^verbatim>\<open>Reloc_SplitRelocAndAddend\<close> of \<^verbatim>\<open>reloc.c\<close>.  The theorem: once the relocation is applied, the
  instruction refers to what the value denotes.
\<close>

section \<open>Operations\<close>

record RelocAndAddend_t =
  relocSymbol :: Value
  addend :: Value

definition pcOffset :: "asm \<Rightarrow> u32" where
  "pcOffset s = (if State_GetInstrType s = eInstrType_ARM then 8 else 4)"

text \<open>The branch for a label, that is a symbol that names an area.\<close>

definition split_label ::
    "u32 \<Rightarrow> symref \<Rightarrow> u32 \<Rightarrow> symref option \<Rightarrow> u32 \<Rightarrow> bool \<Rightarrow> asm \<Rightarrow> RelocAndAddend_t outcome" where
  "split_label symFactor r symOffset pcRelSymP instrOffset intAddendOk s =
     (case attr_area (syms s r) of
        None \<Rightarrow> Inl AssertFailed
      | Some a \<Rightarrow>
          if flag (area_type a) AREA_BASED
          then if symFactor = 1
               then rbind (Area_GetBaseReg a) (\<lambda>reg.
                      Inr \<lparr>relocSymbol = ValueSymbol 1 r 0, addend = ValueAddr reg symOffset\<rparr>)
               else Inr \<lparr>relocSymbol = ValueIllegal, addend = ValueIllegal\<rparr>
          else if flag (area_type a) AREA_ABS \<and> intAddendOk
          then rbind (Area_GetBaseAddress s r) (\<lambda>base.
                 Inr \<lparr>relocSymbol = ValueIllegal,
                      addend = ValueInt (symFactor * base + symOffset) eIntType_PureInt\<rparr>)
          else if pcRelSymP \<noteq> None \<and> symFactor = 1
          then if Some r = pcRelSymP
               then Inr \<lparr>relocSymbol = ValueIllegal,
                         addend = ValueAddr 15 (symOffset - (instrOffset + pcOffset s))\<rparr>
               else Inr \<lparr>relocSymbol = ValueSymbol 1 r 0, addend = ValueAddr 15 (symOffset - pcOffset s)\<rparr>
          else if intAddendOk
          then Inr \<lparr>relocSymbol = ValueSymbol symFactor r 0, addend = ValueInt symOffset eIntType_PureInt\<rparr>
          else Inr \<lparr>relocSymbol = ValueIllegal, addend = ValueIllegal\<rparr>)"

text \<open>The branch for any other symbol.\<close>

definition split_symbol :: "u32 \<Rightarrow> symref \<Rightarrow> u32 \<Rightarrow> symref option \<Rightarrow> asm \<Rightarrow> RelocAndAddend_t" where
  "split_symbol symFactor r symOffset pcRelSymP s =
     (if symFactor = 1
      then \<lparr>relocSymbol = ValueSymbol 1 r 0,
            addend =
              (case attr_value (syms s r) of
                 ValueAddr reg i \<Rightarrow> ValueAddr reg (i + symOffset)
               | _ \<Rightarrow> if pcRelSymP \<noteq> None then ValueAddr 15 (symOffset - pcOffset s)
                     else ValueInt symOffset eIntType_PureInt)\<rparr>
      else \<lparr>relocSymbol = ValueIllegal, addend = ValueIllegal\<rparr>)"

text \<open>The branch for values that are not symbols.\<close>

definition split_other :: "Value \<Rightarrow> symref option \<Rightarrow> u32 \<Rightarrow> bool \<Rightarrow> asm \<Rightarrow> RelocAndAddend_t outcome" where
  "split_other v pcRelSymP instrOffset intAddendOk s =
     (let plain = \<lparr>relocSymbol = ValueIllegal, addend = v\<rparr>
      in case (v, pcRelSymP) of
           (ValueInt i eIntType_PureInt, Some pc) \<Rightarrow>
             if intAddendOk then Inr plain
             else rbind (sym_area s pc) (\<lambda>a.
                    if flag (area_type a) AREA_ABS
                    then rbind (Area_GetBaseAddress s pc) (\<lambda>base.
                           Inr \<lparr>relocSymbol = ValueIllegal,
                                addend = ValueAddr 15 (i - (base + instrOffset + pcOffset s))\<rparr>)
                    else Inr plain)
         | _ \<Rightarrow> Inr plain)"

text \<open>The two adjustments at the end: forward references in pass one, and AOF.\<close>

definition split_finish :: "u32 \<Rightarrow> asm \<Rightarrow> RelocAndAddend_t \<Rightarrow> RelocAndAddend_t" where
  "split_finish instrOffset s result =
     (case relocSymbol result of
        ValueSymbol _ r _ \<Rightarrow>
          let result =
                (if gPhase s = ePassOne
                    \<and> \<not> flag (attr_type (syms s r)) (SYMBOL_DEFINED OR SYMBOL_EXPORT OR SYMBOL_AREA)
                 then result\<lparr>addend := ValueIllegal\<rparr> else result)
          in (case addend result of
                ValueAddr reg i \<Rightarrow>
                  if option_aof s \<and> reg = 15 then result\<lparr>addend := ValueAddr reg (i - instrOffset)\<rparr> else result
              | _ \<Rightarrow> result)
      | _ \<Rightarrow> result)"

definition Reloc_SplitRelocAndAddend ::
    "Value \<Rightarrow> symref option \<Rightarrow> u32 \<Rightarrow> bool \<Rightarrow> asm \<Rightarrow> RelocAndAddend_t outcome" where
  "Reloc_SplitRelocAndAddend v pcRelSymP instrOffset intAddendOk s =
     rbind (rassert (case pcRelSymP of None \<Rightarrow> True | Some pc \<Rightarrow> flag (attr_type (syms s pc)) SYMBOL_AREA)) (\<lambda>_.
     rbind (case v of
              ValueSymbol f r off \<Rightarrow>
                if Value_IsLabel s v then split_label f r off pcRelSymP instrOffset intAddendOk s
                else Inr (split_symbol f r off pcRelSymP s)
            | _ \<Rightarrow> split_other v pcRelSymP instrOffset intAddendOk s)
       (\<lambda>result. Inr (split_finish instrOffset s result)))"

text \<open>
  What the linked instruction refers to.  \<open>\<rho>\<close> gives the final addresses; the instruction is at
  \<open>instrOffset\<close> in the area \<open>pc\<close>.  An integer is used as it is, an address relative to PC is added to the
  value the processor reads from PC.  A relocation adds the address of its symbol, as often as its
  factor says; a PC-relative one also subtracts the place for ELF and the origin of the area for AOF.
\<close>

definition linked_number :: "(symref \<Rightarrow> u32) \<Rightarrow> symref \<Rightarrow> u32 \<Rightarrow> asm \<Rightarrow> RelocAndAddend_t \<Rightarrow> u32 option" where
  "linked_number \<rho> pc instrOffset s sp =
     (let place = (if option_aof s then \<rho> pc else \<rho> pc + instrOffset);
          reloc = (\<lambda>rel. case relocSymbol sp of
                            ValueSymbol f q _ \<Rightarrow> f * \<rho> q - (if rel then place else 0)
                          | _ \<Rightarrow> 0)
      in case addend sp of
           ValueInt i eIntType_PureInt \<Rightarrow> Some (i + reloc False)
         | ValueAddr reg i \<Rightarrow>
             if reg = 15 then Some (i + (\<rho> pc + instrOffset + pcOffset s) + reloc True) else None
         | _ \<Rightarrow> None)"

text \<open>The values the theorem is about: not in an area, or imported, relative to a base register.\<close>

definition not_based :: "asm \<Rightarrow> Value \<Rightarrow> bool" where
  "not_based s v \<longleftrightarrow>
     (case v of
        ValueSymbol _ r _ \<Rightarrow>
          (case attr_value (syms s r) of ValueAddr _ _ \<Rightarrow> False | _ \<Rightarrow> True)
          \<and> (case attr_area (syms s r) of None \<Rightarrow> True | Some a \<Rightarrow> \<not> flag (area_type a) AREA_BASED)
      | _ \<Rightarrow> True)"

section \<open>The split keeps the meaning\<close>

lemma pcOffset_aof [simp]: "pcOffset (s\<lparr>option_aof := b\<rparr>) = pcOffset s"
  by (simp add: pcOffset_def State_GetInstrType_def)

lemma linked_number_aof:
  assumes "\<And>f q off. relocSymbol sp \<noteq> ValueSymbol f q off"
  shows "linked_number \<rho> pc i (s\<lparr>option_aof := b\<rparr>) sp = linked_number \<rho> pc i s sp"
  using assms by (cases "relocSymbol sp"; cases "addend sp") (simp_all add: linked_number_def Let_def)

lemma split_finish_linked:
  assumes "linked_number \<rho> pc instrOffset (s\<lparr>option_aof := False\<rparr>) sp = Some i"
    and "addend (split_finish instrOffset s sp) \<noteq> ValueIllegal"
    and "\<And>f q off. relocSymbol sp = ValueSymbol f q off \<Longrightarrow> off = 0"
  shows "linked_number \<rho> pc instrOffset s (split_finish instrOffset s sp) = Some i"
proof (cases "relocSymbol sp")
  case (ValueSymbol f q off)
  then have "off = 0" using assms(3) by blast
  then show ?thesis
  proof (cases "addend sp")
    case (ValueInt k ty)
    then show ?thesis using assms(1,2) ValueSymbol
      by (cases ty) (auto simp: split_finish_def linked_number_def Let_def split: if_splits)
  next
    case (ValueAddr reg k)
    then show ?thesis using assms(1,2) ValueSymbol
      by (auto simp: split_finish_def linked_number_def Let_def split: if_splits)
  qed (use assms(1) in \<open>simp_all add: linked_number_def Let_def\<close>)
qed (use assms(1) linked_number_aof [of sp] in \<open>simp_all add: split_finish_def\<close>)

lemma split_label_linked:
  assumes "syms_ok s" and "sym_numbers s \<rho>" and "flag (attr_type (syms s r)) SYMBOL_AREA"
  shows "\<exists>sp. split_label f r off (Some pc) instrOffset ok s = Inr sp
    \<and> (addend sp \<noteq> ValueIllegal \<longrightarrow> (\<forall>a. sym_area s r = Inr a \<longrightarrow> \<not> flag (area_type a) AREA_BASED) \<longrightarrow>
        linked_number \<rho> pc instrOffset (s\<lparr>option_aof := False\<rparr>) sp = Some (f * \<rho> r + off))"
proof -
  obtain a i where a: "sym_area s r = Inr a" "attr_value (syms s r) = ValueInt i eIntType_PureInt"
    using syms_okD(2) [OF assms(1,3)] by blast
  have "\<rho> r = i" using assms(2) [unfolded sym_numbers_def, rule_format, of r] a(2) by simp
  then show ?thesis using a assms(3)
    by (auto simp: split_label_def linked_number_def Area_GetBaseReg_def Area_GetBaseAddress_def sym_area_def
        Let_def split: option.splits)
qed

lemma split_other_linked:
  assumes "syms_ok s" and "sym_numbers s \<rho>" and "flag (attr_type (syms s pc)) SYMBOL_AREA"
  shows "\<exists>sp. split_other (ValueInt i eIntType_PureInt) (Some pc) instrOffset ok s = Inr sp
    \<and> linked_number \<rho> pc instrOffset (s\<lparr>option_aof := False\<rparr>) sp = Some i"
proof -
  obtain a j where a: "sym_area s pc = Inr a" "attr_value (syms s pc) = ValueInt j eIntType_PureInt"
    using syms_okD(2) [OF assms(1,3)] by blast
  have "\<rho> pc = j" using assms(2) [unfolded sym_numbers_def, rule_format, of pc] a(2) by simp
  then show ?thesis using a assms(3)
    by (auto simp: split_other_def linked_number_def Area_GetBaseAddress_def Let_def)
qed

lemma split_symbol_linked:
  assumes "not_based s (ValueSymbol f r off)" and "addend (split_symbol f r off (Some pc) s) \<noteq> ValueIllegal"
  shows "linked_number \<rho> pc instrOffset (s\<lparr>option_aof := False\<rparr>) (split_symbol f r off (Some pc) s)
    = Some (f * \<rho> r + off)"
proof -
  have f: "f = 1" using assms(2) by (auto simp: split_symbol_def split: if_splits)
  show ?thesis using assms(1) unfolding f
    by (cases "attr_value (syms s r)")
      (simp_all add: not_based_def split_symbol_def linked_number_def Let_def)
qed

lemma split_reloc_offset:
  "relocSymbol (split_symbol f r off pc s) = ValueSymbol g q p \<Longrightarrow> p = 0"
  "split_label f r off pc i ok s = Inr sp \<Longrightarrow> relocSymbol sp = ValueSymbol g q p \<Longrightarrow> p = 0"
  "split_other (ValueInt k eIntType_PureInt) pc i ok s = Inr sp \<Longrightarrow> relocSymbol sp \<noteq> ValueSymbol g q p"
  by (auto simp: split_symbol_def split_label_def split_other_def Let_def split: if_splits option.splits
      elim!: rbind_InrE)

lemma split_linked:
  assumes "syms_ok s" and "sym_numbers s \<rho>" and "flag (attr_type (syms s pc)) SYMBOL_AREA"
    and "value_number \<rho> v = Some n" and "not_based s v"
  shows "\<exists>sp. Reloc_SplitRelocAndAddend v (Some pc) instrOffset ok s = Inr sp
    \<and> (addend sp \<noteq> ValueIllegal \<longrightarrow> linked_number \<rho> pc instrOffset s sp = Some n)"
proof -
  have fin: "addend sp \<noteq> ValueIllegal" if "addend (split_finish instrOffset s sp) \<noteq> ValueIllegal" for sp
    using that by (auto simp: split_finish_def Let_def split: Value.splits if_splits)
  consider (int) "v = ValueInt n eIntType_PureInt" | (sym) f r off where "v = ValueSymbol f r off" "n = f * \<rho> r + off"
    using assms(4) by (cases "(\<rho>, v)" rule: value_number.cases) auto
  then show ?thesis
  proof cases
    case int
    obtain sp where "split_other v (Some pc) instrOffset ok s = Inr sp"
        "linked_number \<rho> pc instrOffset (s\<lparr>option_aof := False\<rparr>) sp = Some n"
      using split_other_linked [OF assms(1-3)] int by blast
    then show ?thesis using assms(3) int split_finish_linked split_reloc_offset(3)
      by (fastforce simp: Reloc_SplitRelocAndAddend_def)
  next
    case sym
    show ?thesis
    proof (cases "Value_IsLabel s v")
      case True
      then have ar: "flag (attr_type (syms s r)) SYMBOL_AREA" using sym(1) by (simp add: Value_IsLabel_def)
      obtain sp where sp: "split_label f r off (Some pc) instrOffset ok s = Inr sp"
        "addend sp \<noteq> ValueIllegal \<longrightarrow> (\<forall>a. sym_area s r = Inr a \<longrightarrow> \<not> flag (area_type a) AREA_BASED) \<longrightarrow>
          linked_number \<rho> pc instrOffset (s\<lparr>option_aof := False\<rparr>) sp = Some n"
        using split_label_linked [OF assms(1,2) ar, of f off pc instrOffset ok] sym(2) by blast
      moreover have "\<not> flag (area_type a) AREA_BASED" if "sym_area s r = Inr a" for a
        using assms(5) sym(1) that by (auto simp: not_based_def sym_area_def split: option.splits Value.splits)
      ultimately show ?thesis using assms(3) sym(1) True fin [of sp]
          split_finish_linked [of \<rho> pc instrOffset s sp n] split_reloc_offset(2) [OF sp(1)]
        by (auto simp: Reloc_SplitRelocAndAddend_def)
    next
      case False
      then show ?thesis using assms(3,5) sym fin [of "split_symbol f r off (Some pc) s"]
          split_symbol_linked [of s f r off pc \<rho> instrOffset] split_reloc_offset(1) [of f r off "Some pc" s]
          split_finish_linked [of \<rho> pc instrOffset s "split_symbol f r off (Some pc) s" n]
        by (auto simp: Reloc_SplitRelocAndAddend_def)
    qed
  qed
qed

text \<open>
  C27. Splitting a value.  For an instruction in area \<open>pc\<close>, \<^verbatim>\<open>Reloc_SplitRelocAndAddend\<close> fails no assertion, and
  unless it gives up (addend \<^verbatim>\<open>ValueIllegal\<close>), the linked instruction refers to exactly the number that
  the value stands for, for ARM and Thumb code, for ELF and AOF output, for absolute and relocatable
  areas, and for symbols of other areas and files.  Values based on a register are excluded.
\<close>

theorem SplitRelocAndAddend_links:
  assumes "syms_ok s" and "sym_numbers s \<rho>" and "flag (attr_type (syms s pc)) SYMBOL_AREA"
    and "value_number \<rho> v = Some n" and "not_based s v"
  shows "\<exists>sp. Reloc_SplitRelocAndAddend v (Some pc) instrOffset ok s = Inr sp
    \<and> (addend sp \<noteq> ValueIllegal \<longrightarrow> linked_number \<rho> pc instrOffset s sp = Some n)"
  by (rule split_linked [OF assms])

theorem SplitRelocAndAddend_links_witness:
  "\<exists>sp. Reloc_SplitRelocAndAddend (ValueSymbol 1 0 0x40) (Some 0) 0x10 True (asm_code ePassTwo) = Inr sp
    \<and> addend sp = ValueAddr 15 0x28
    \<and> linked_number (\<lambda>_. 0) 0 0x10 (asm_code ePassTwo) sp = Some 0x40"
proof -
  have ok: "syms_ok (asm_code ePassTwo)" "sym_numbers (asm_code ePassTwo) (\<lambda>_. 0)"
      "flag (attr_type (syms (asm_code ePassTwo) 0)) SYMBOL_AREA" "not_based (asm_code ePassTwo) (ValueSymbol 1 0 0x40)"
    by (auto simp: syms_ok_def wf_syms_def wf_sym_def sym_numbers_def not_based_def asm_code_def area_code_def sym0_def
        flag_def symbol_flag_defs area_flag_defs)
  have "Reloc_SplitRelocAndAddend (ValueSymbol 1 0 0x40) (Some 0) 0x10 True (asm_code ePassTwo)
      = Inr \<lparr>relocSymbol = ValueIllegal, addend = ValueAddr 15 0x28\<rparr>"
    by (simp add: Reloc_SplitRelocAndAddend_def split_label_def split_finish_def Value_IsLabel_def asm_code_def area_code_def
        asm0_def flag_def symbol_flag_defs area_flag_defs pcOffset_def State_GetInstrType_def)
  then show ?thesis
    using SplitRelocAndAddend_links [OF ok(1,2,3) _ ok(4), of "0x40" "0x10" True] by simp
qed

end
