(* ===== verification/Eval.thy ===== *)
theory Eval
  imports Reloc_Split
begin

text \<open>
  The operators of expressions: \<^verbatim>\<open>eval.c\<close>, one definition per \<^verbatim>\<open>case\<close> of \<^verbatim>\<open>Eval_Binop\<close> and \<^verbatim>\<open>Eval_Unop\<close>.
  The theorems say what the shifts and rotations compute, that condition codes are reversed and encoded
  correctly, that no operator fails on a well-formed symbol table but for two cases of undefined C, and
  that addition and subtraction of symbols keep what the values stand for.

  Comparison for equality of symbols and code calls \<^verbatim>\<open>Value_Equal\<close>, which evaluates code in turn; it is an
  argument (\<open>veq\<close>) here, and \<open>Code_Stream\<close> closes the circle.  \<^verbatim>\<open>tolower()\<close> and \<^verbatim>\<open>toupper()\<close> are those of a
  locale in which only the ASCII letters have case.  \<^verbatim>\<open>strndup()\<close> ends a file name at its first NUL.
\<close>

section \<open>Reading operands\<close>

type_synonym operand_equality = "Value \<Rightarrow> Value \<Rightarrow> asm \<Rightarrow> (bool \<times> asm) outcome"

definition oLowcaseCCodes :: string where
  "oLowcaseCCodes = ''eqnecsccmiplvsvchilsgeltgtlealnvhslo''"

text \<open>\<^verbatim>\<open>UINT_MAX\<close> is \<open>None\<close>.\<close>

definition ccode_low :: "char \<Rightarrow> char" where
  "ccode_low c = char_of (of_char c OR (0x20 :: int))"

definition ccode_case :: "char \<Rightarrow> int" where
  "ccode_case c = of_char c AND 0x20"

fun ccode_search :: "int \<Rightarrow> char \<Rightarrow> char \<Rightarrow> string \<Rightarrow> int option" where
  "ccode_search n a b (x # y # rest) = (if a = x \<and> b = y then Some n else ccode_search (n + 1) a b rest)"
| "ccode_search n a b _ = None"

definition GetCCode :: "string \<Rightarrow> int option" where
  "GetCCode str =
     (if length str = 0 then Some 14
      else if length str \<noteq> 2 then None
      else if ccode_case (str ! 0) \<noteq> ccode_case (str ! 1) then None
      else ccode_search 0 (ccode_low (str ! 0)) (ccode_low (str ! 1)) oLowcaseCCodes)"

text \<open>\<^verbatim>\<open>memcmp()\<close> compares bytes as unsigned numbers; only the sign of its result is specified.\<close>

fun memcmp :: "string \<Rightarrow> string \<Rightarrow> int" where
  "memcmp (x # xs) (y # ys) = (if x = y then memcmp xs ys else of_char x - of_char y)"
| "memcmp _ _ = 0"

definition ememcmp :: "string \<Rightarrow> string \<Rightarrow> int" where
  "ememcmp l r =
     (let n = (if length l < length r then length l else length r);
          a = memcmp (take n l) (take n r)
      in if a \<noteq> 0 then a else sint (of_int (int (length l) - int (length r)) :: u32))"

definition GetInt :: "asm \<Rightarrow> Value \<Rightarrow> u32 option outcome" where
  "GetInt s v =
     (case v of
        ValueInt i ty \<Rightarrow> if ty \<noteq> eIntType_CPURList then Inr (Some i) else Inr None
      | ValueString str \<Rightarrow> if length str = 1 then Inr (Some (of_nat (of_char (str ! 0)))) else Inr None
      | ValueSymbol factor r offset \<Rightarrow>
          if flag (attr_type (syms s r)) SYMBOL_AREA
          then rbind (sym_area s r) (\<lambda>a.
                 if flag (area_type a) AREA_ABS
                 then rbind (Area_GetBaseAddress s r) (\<lambda>base. Inr (Some (factor * base + offset)))
                 else Inr None)
          else Inr None
      | _ \<Rightarrow> Inr None)"

text \<open>The error of an operator, held back in pass one, and its result.\<close>

definition illegal :: "string \<Rightarrow> asm \<Rightarrow> (Value \<times> asm) outcome" where
  "illegal msg s =
     rbind (if gPhase s \<noteq> ePassOne then Error ErrorError msg s else Inr s) (\<lambda>s. Inr (ValueIllegal, s))"

definition pure :: "u32 \<Rightarrow> Value" where
  "pure i = ValueInt i eIntType_PureInt"

text \<open>An operator on two integers.\<close>

definition int_op ::
    "string \<Rightarrow> (u32 \<Rightarrow> u32 \<Rightarrow> u32 outcome) \<Rightarrow> Value \<Rightarrow> Value \<Rightarrow> asm \<Rightarrow> (Value \<times> asm) outcome" where
  "int_op name f l r s =
     rbind (GetInt s l) (\<lambda>lval.
     rbind (GetInt s r) (\<lambda>rval.
       case (lval, rval) of
         (Some a, Some b) \<Rightarrow> rbind (f a b) (\<lambda>i. Inr (pure i, s))
       | _ \<Rightarrow> illegal (''Bad operand type for '' @ name) s))"

section \<open>Binary operators\<close>

text \<open>Multiplication, after the promotion that makes a float or a symbol the left operand.\<close>

definition mul_promoted :: "Value \<Rightarrow> Value \<Rightarrow> asm \<Rightarrow> (Value \<times> asm) outcome" where
  "mul_promoted l r s =
     rbind (GetInt s l) (\<lambda>lval.
     rbind (GetInt s r) (\<lambda>rval.
       case (l, r, lval, rval) of
         (ValueSymbol factor q offset, _, _, Some b) \<Rightarrow> Inr (ValueSymbol (factor * b) q (offset * b), s)
       | (ValueFloat f, _, _, Some b) \<Rightarrow> Inr (ValueFloat (dbl_mul f (dbl_of_int (sint b))), s)
       | (ValueFloat f, ValueFloat g, _, None) \<Rightarrow> Inr (ValueFloat (dbl_mul f g), s)
       | (_, _, Some a, Some b) \<Rightarrow> Inr (pure (a * b), s)
       | _ \<Rightarrow> illegal ''Bad operand type for multiplication'' s))"

definition eval_Mul :: "Value \<Rightarrow> Value \<Rightarrow> asm \<Rightarrow> (Value \<times> asm) outcome" where
  "eval_Mul lvalue rvalue s =
     (case rvalue of
        ValueFloat _ \<Rightarrow> mul_promoted rvalue lvalue s
      | ValueSymbol _ _ _ \<Rightarrow> mul_promoted rvalue lvalue s
      | _ \<Rightarrow> mul_promoted lvalue rvalue s)"

text \<open>The operand of a division as a \<^verbatim>\<open>double\<close>.\<close>

definition as_double :: "Value \<Rightarrow> u32 option \<Rightarrow> ARMFloat option" where
  "as_double v i =
     (case (i, v) of
        (Some a, _) \<Rightarrow> Some (dbl_of_int (sint a))
      | (None, ValueFloat f) \<Rightarrow> Some f
      | _ \<Rightarrow> None)"

definition eval_Div :: "Value \<Rightarrow> Value \<Rightarrow> asm \<Rightarrow> (Value \<times> asm) outcome" where
  "eval_Div lvalue rvalue s =
     rbind (GetInt s lvalue) (\<lambda>divident.
     rbind (GetInt s rvalue) (\<lambda>divisor.
       case (as_double lvalue divident, as_double rvalue divisor) of
         (Some divident_dbl, Some divisor_dbl) \<Rightarrow>
           if dbl_eq divisor_dbl (dbl_of_int 0) then illegal ''Division by zero'' s
           else (case (divident, divisor) of
                   (Some a, Some b) \<Rightarrow> Inr (pure (a div b), s)
                 | _ \<Rightarrow> Inr (ValueFloat (dbl_div divident_dbl divisor_dbl), s))
       | _ \<Rightarrow> illegal ''Bad operand type for division'' s))"

definition eval_Mod :: "Value \<Rightarrow> Value \<Rightarrow> asm \<Rightarrow> (Value \<times> asm) outcome" where
  "eval_Mod lvalue rvalue s =
     rbind (GetInt s lvalue) (\<lambda>divident.
     rbind (GetInt s rvalue) (\<lambda>modulus.
       case (divident, modulus) of
         (Some a, Some b) \<Rightarrow> if b = 0 then illegal ''Division by zero'' s else Inr (pure (a mod b), s)
       | _ \<Rightarrow> illegal ''Bad operand type for modulo'' s))"

text \<open>Addition, after the promotion that makes a float, an address or a symbol the left operand.\<close>

definition add_promoted :: "Value \<Rightarrow> Value \<Rightarrow> asm \<Rightarrow> (Value \<times> asm) outcome" where
  "add_promoted l r s =
     rbind (GetInt s l) (\<lambda>lval.
     rbind (GetInt s r) (\<lambda>rval.
       case (l, r, lval, rval) of
         (ValueAddr reg i, _, _, Some b) \<Rightarrow> Inr (ValueAddr reg (i + b), s)
       | (ValueSymbol f q off, ValueSymbol g p off2, _, _) \<Rightarrow>
           if q \<noteq> p then Inr (ValueIllegal, s)
           else let factor = f + g; offset = off + off2
                in Inr (if factor = 0 then pure offset else ValueSymbol factor q offset, s)
       | (ValueSymbol f q off, _, _, Some b) \<Rightarrow> Inr (ValueSymbol f q (off + b), s)
       | (_, _, Some a, Some b) \<Rightarrow> Inr (pure (a + b), s)
       | (ValueFloat f, _, None, Some b) \<Rightarrow> Inr (ValueFloat (dbl_add f (dbl_of_int (sint b))), s)
       | (ValueFloat f, ValueFloat g, None, None) \<Rightarrow> Inr (ValueFloat (dbl_add f g), s)
       | _ \<Rightarrow> illegal ''Bad operand type for addition'' s))"

definition eval_Add :: "Value \<Rightarrow> Value \<Rightarrow> asm \<Rightarrow> (Value \<times> asm) outcome" where
  "eval_Add lvalue rvalue s =
     (case rvalue of
        ValueFloat _ \<Rightarrow> add_promoted rvalue lvalue s
      | ValueAddr _ _ \<Rightarrow> add_promoted rvalue lvalue s
      | ValueSymbol _ _ _ \<Rightarrow> add_promoted rvalue lvalue s
      | _ \<Rightarrow> add_promoted lvalue rvalue s)"

text \<open>The branch of the subtraction for symbols; a missing symbol counts with factor 0.\<close>

definition sub_symbols :: "Value \<Rightarrow> Value \<Rightarrow> u32 option \<Rightarrow> u32 option \<Rightarrow> asm \<Rightarrow> (Value \<times> asm) outcome" where
  "sub_symbols l r lval rval s =
     (case (l, r, lval, rval) of
        (ValueSymbol f q off, ValueSymbol g p off2, _, _) \<Rightarrow>
          if q \<noteq> p then Inr (ValueIllegal, s)
          else Inr (if f - g \<noteq> 0 then ValueSymbol (f - g) q (off - off2) else pure (off - off2), s)
      | (ValueSymbol f q off, _, _, Some b) \<Rightarrow>
          Inr (if f \<noteq> 0 then ValueSymbol f q (off - b) else pure (off - b), s)
      | (_, ValueSymbol g p off2, Some a, _) \<Rightarrow>
          Inr (if 0 - g \<noteq> 0 then ValueSymbol (0 - g) p (a - off2) else pure (a - off2), s)
      | _ \<Rightarrow> illegal ''Bad operand type for subtraction'' s)"

definition eval_Sub :: "Value \<Rightarrow> Value \<Rightarrow> asm \<Rightarrow> (Value \<times> asm) outcome" where
  "eval_Sub l r s =
     rbind (GetInt s l) (\<lambda>lval.
     rbind (GetInt s r) (\<lambda>rval.
       case (l, r, lval, rval) of
         (ValueFloat f, ValueFloat g, _, _) \<Rightarrow> Inr (ValueFloat (dbl_sub f g), s)
       | (ValueFloat f, _, _, Some b) \<Rightarrow> Inr (ValueFloat (dbl_sub f (dbl_of_int (sint b))), s)
       | (_, ValueFloat g, Some a, _) \<Rightarrow> Inr (ValueFloat (dbl_sub (dbl_of_int (sint a)) g), s)
       | (_, _, Some a, Some b) \<Rightarrow> Inr (pure (a - b), s)
       | (ValueAddr reg i, ValueAddr reg2 j, _, _) \<Rightarrow>
           if reg \<noteq> reg2
           then illegal ''Base registers are different in subtraction ([r%d, #x] - [r%d, #y])'' s
           else Inr (pure (i - j), s)
       | (ValueAddr reg i, _, _, Some b) \<Rightarrow> Inr (ValueAddr reg (i - b), s)
       | _ \<Rightarrow> sub_symbols l r lval rval s))"

definition eval_Concat :: "Value \<Rightarrow> Value \<Rightarrow> asm \<Rightarrow> (Value \<times> asm) outcome" where
  "eval_Concat l r s =
     (case (l, r) of
        (ValueString a, ValueString b) \<Rightarrow> Inr (ValueString (a @ b), s)
      | _ \<Rightarrow> illegal ''Bad operand type for string concatenation'' s)"

definition eval_And :: "Value \<Rightarrow> Value \<Rightarrow> asm \<Rightarrow> (Value \<times> asm) outcome" where
  "eval_And = int_op '':AND:'' (\<lambda>a b. Inr (a AND b))"

definition eval_Or :: "Value \<Rightarrow> Value \<Rightarrow> asm \<Rightarrow> (Value \<times> asm) outcome" where
  "eval_Or = int_op '':OR:'' (\<lambda>a b. Inr (a OR b))"

definition eval_XOr :: "Value \<Rightarrow> Value \<Rightarrow> asm \<Rightarrow> (Value \<times> asm) outcome" where
  "eval_XOr = int_op '':EOR:'' (\<lambda>a b. Inr (a XOR b))"

text \<open>The integer part of \<^verbatim>\<open>>>>\<close>.\<close>

definition asr_bits :: "u32 \<Rightarrow> u32 \<Rightarrow> u32" where
  "asr_bits lval rval =
     (let numbits = (if rval \<ge> 32 then 1 else 32 - unat rval);
          mask = shl32 1 (numbits - 1);
          nosign = shr32 lval (32 - numbits)
      in (nosign XOR mask) - mask)"

definition eval_ASR :: "Value \<Rightarrow> Value \<Rightarrow> asm \<Rightarrow> (Value \<times> asm) outcome" where
  "eval_ASR = int_op ''>>>'' (\<lambda>a b. Inr (asr_bits a b))"

definition eval_SHR :: "Value \<Rightarrow> Value \<Rightarrow> asm \<Rightarrow> (Value \<times> asm) outcome" where
  "eval_SHR = int_op ''>> or :SHR:'' (\<lambda>a b. Inr (if b \<ge> 32 then 0 else shr32 a (unat b)))"

definition eval_SHL :: "Value \<Rightarrow> Value \<Rightarrow> asm \<Rightarrow> (Value \<times> asm) outcome" where
  "eval_SHL = int_op ''<< or :SHR:'' (\<lambda>a b. Inr (if b \<ge> 32 then 0 else shl32 a (unat b)))"

text \<open>A rotation by a multiple of 32 shifts a 32-bit number by 32, which C leaves undefined.\<close>

definition eval_ROR :: "Value \<Rightarrow> Value \<Rightarrow> asm \<Rightarrow> (Value \<times> asm) outcome" where
  "eval_ROR = int_op '':ROR:'' (\<lambda>a b.
     let numbits = unat (b AND 31)
     in if 32 - numbits \<ge> 32 then Inl Undefined else Inr (shr32 a numbits OR shl32 a (32 - numbits)))"

definition eval_ROL :: "Value \<Rightarrow> Value \<Rightarrow> asm \<Rightarrow> (Value \<times> asm) outcome" where
  "eval_ROL = int_op '':ROL:'' (\<lambda>a b.
     let numbits = unat (b AND 31)
     in if 32 - numbits \<ge> 32 then Inl Undefined else Inr (shl32 a numbits OR shr32 a (32 - numbits)))"

text \<open>The macro \<^verbatim>\<open>COMPARE\<close>; its parameter is one of the six comparison operators.\<close>

definition cmp_int :: "Operator_e \<Rightarrow> int \<Rightarrow> int \<Rightarrow> bool" where
  "cmp_int op a b =
     (case op of
        eOp_LE \<Rightarrow> a \<le> b | eOp_GE \<Rightarrow> a \<ge> b | eOp_LT \<Rightarrow> a < b | eOp_GT \<Rightarrow> a > b
      | eOp_EQ \<Rightarrow> a = b | eOp_NE \<Rightarrow> a \<noteq> b | _ \<Rightarrow> False)"

definition cmp_float :: "Operator_e \<Rightarrow> ARMFloat \<Rightarrow> ARMFloat \<Rightarrow> bool" where
  "cmp_float op a b =
     (case op of
        eOp_LE \<Rightarrow> dbl_le a b | eOp_GE \<Rightarrow> dbl_le b a | eOp_LT \<Rightarrow> dbl_less a b | eOp_GT \<Rightarrow> dbl_less b a
      | eOp_EQ \<Rightarrow> dbl_eq a b | eOp_NE \<Rightarrow> \<not> dbl_eq a b | _ \<Rightarrow> False)"

definition COMPARE :: "Operator_e \<Rightarrow> Value \<Rightarrow> Value \<Rightarrow> asm \<Rightarrow> (Value \<times> asm) outcome" where
  "COMPARE op lvalue rvalue s =
     (case (lvalue, rvalue) of
        (ValueFloat f, ValueFloat g) \<Rightarrow> Inr (ValueBool (cmp_float op f g), s)
      | (ValueString a, ValueString b) \<Rightarrow> Inr (ValueBool (cmp_int op (ememcmp a b) 0), s)
      | _ \<Rightarrow>
          rbind (GetInt s lvalue) (\<lambda>l.
          rbind (if l = None then Inr None else GetInt s rvalue) (\<lambda>r.
            case (l, r, lvalue, rvalue) of
              (Some a, Some b, _, _) \<Rightarrow> Inr (ValueBool (cmp_int op (uint a) (uint b)), s)
            | (_, _, ValueAddr reg i, ValueAddr reg2 j) \<Rightarrow>
                Inr (ValueBool (reg = reg2 \<and> cmp_int op (sint i) (sint j)), s)
            | _ \<Rightarrow> illegal ''Bad operand types for %s'' s)))"

definition eval_EQ :: "operand_equality \<Rightarrow> Value \<Rightarrow> Value \<Rightarrow> asm \<Rightarrow> (Value \<times> asm) outcome" where
  "eval_EQ veq l r s =
     (if flag (Tag l) (tBool OR tSymbol OR tCode) \<and> flag (Tag r) (tBool OR tSymbol OR tCode)
      then rbind (veq l r s) (\<lambda>(b, s). Inr (ValueBool b, s))
      else COMPARE eOp_EQ l r s)"

definition eval_NE :: "operand_equality \<Rightarrow> Value \<Rightarrow> Value \<Rightarrow> asm \<Rightarrow> (Value \<times> asm) outcome" where
  "eval_NE veq l r s =
     (if flag (Tag l) (tBool OR tSymbol OR tCode) \<and> flag (Tag r) (tBool OR tSymbol OR tCode)
      then rbind (veq l r s) (\<lambda>(b, s). Inr (ValueBool (\<not> b), s))
      else COMPARE eOp_NE l r s)"

definition eval_LAnd :: "Value \<Rightarrow> Value \<Rightarrow> asm \<Rightarrow> (Value \<times> asm) outcome" where
  "eval_LAnd l r s =
     (case (l, r) of
        (ValueBool a, ValueBool b) \<Rightarrow> Inr (ValueBool (a \<and> b), s)
      | _ \<Rightarrow> illegal ''Bad operand type for :LAND:'' s)"

definition eval_LOr :: "Value \<Rightarrow> Value \<Rightarrow> asm \<Rightarrow> (Value \<times> asm) outcome" where
  "eval_LOr l r s =
     (case (l, r) of
        (ValueBool a, ValueBool b) \<Rightarrow> Inr (ValueBool (a \<or> b), s)
      | _ \<Rightarrow> illegal ''Bad operand type for :LOR:'' s)"

definition eval_LEOr :: "Value \<Rightarrow> Value \<Rightarrow> asm \<Rightarrow> (Value \<times> asm) outcome" where
  "eval_LEOr l r s =
     (case (l, r) of
        (ValueBool a, ValueBool b) \<Rightarrow> Inr (ValueBool (a \<noteq> b), s)
      | _ \<Rightarrow> illegal ''Bad operand type for :LEOR:'' s)"

definition eval_Left :: "Value \<Rightarrow> Value \<Rightarrow> asm \<Rightarrow> (Value \<times> asm) outcome" where
  "eval_Left l r s =
     rbind (GetInt s r) (\<lambda>rval.
       case (l, rval) of
         (ValueString str, Some n) \<Rightarrow>
           if sint n < 0 \<or> unat n > length str
           then illegal ''Wrong number of characters (%d) specified for :LEFT:'' s
           else Inr (ValueString (take (unat n) str), s)
       | _ \<Rightarrow> illegal ''Bad operand type for :LEFT:'' s)"

definition eval_Right :: "Value \<Rightarrow> Value \<Rightarrow> asm \<Rightarrow> (Value \<times> asm) outcome" where
  "eval_Right l r s =
     rbind (GetInt s r) (\<lambda>rval.
       case (l, rval) of
         (ValueString str, Some n) \<Rightarrow>
           if sint n < 0 \<or> unat n > length str
           then illegal ''Wrong number of characters (%d) specified for :RIGHT:'' s
           else Inr (ValueString (take (unat n) (drop (length str - unat n) str)), s)
       | _ \<Rightarrow> illegal ''Bad operand type for :RIGHT:'' s)"

definition Eval_Binop ::
    "operand_equality \<Rightarrow> Operator_e \<Rightarrow> Value \<Rightarrow> Value \<Rightarrow> asm \<Rightarrow> (Value \<times> asm) outcome" where
  "Eval_Binop veq op l r s =
     (case op of
        eOp_Mul \<Rightarrow> eval_Mul l r s
      | eOp_Div \<Rightarrow> eval_Div l r s
      | eOp_Mod \<Rightarrow> eval_Mod l r s
      | eOp_Add \<Rightarrow> eval_Add l r s
      | eOp_Sub \<Rightarrow> eval_Sub l r s
      | eOp_Concat \<Rightarrow> eval_Concat l r s
      | eOp_And \<Rightarrow> eval_And l r s
      | eOp_Or \<Rightarrow> eval_Or l r s
      | eOp_XOr \<Rightarrow> eval_XOr l r s
      | eOp_ASR \<Rightarrow> eval_ASR l r s
      | eOp_SHR \<Rightarrow> eval_SHR l r s
      | eOp_SHL \<Rightarrow> eval_SHL l r s
      | eOp_ROR \<Rightarrow> eval_ROR l r s
      | eOp_ROL \<Rightarrow> eval_ROL l r s
      | eOp_LE \<Rightarrow> COMPARE eOp_LE l r s
      | eOp_GE \<Rightarrow> COMPARE eOp_GE l r s
      | eOp_LT \<Rightarrow> COMPARE eOp_LT l r s
      | eOp_GT \<Rightarrow> COMPARE eOp_GT l r s
      | eOp_EQ \<Rightarrow> eval_EQ veq l r s
      | eOp_NE \<Rightarrow> eval_NE veq l r s
      | eOp_LAnd \<Rightarrow> eval_LAnd l r s
      | eOp_LOr \<Rightarrow> eval_LOr l r s
      | eOp_LEOr \<Rightarrow> eval_LEOr l r s
      | eOp_Left \<Rightarrow> eval_Left l r s
      | eOp_Right \<Rightarrow> eval_Right l r s
      | _ \<Rightarrow> Inl AssertFailed)"

section \<open>Unary operators\<close>

text \<open>Convert a value into an address, possibly losing relocation information.\<close>

definition GetValueAddrEquivalent :: "Value \<Rightarrow> asm \<Rightarrow> Value outcome" where
  "GetValueAddrEquivalent v s =
     rbind (Area_CurIdxAligned s) (\<lambda>instrOffset.
     rbind (Reloc_SplitRelocAndAddend v (areaCurrentSymbol s) instrOffset False s) (\<lambda>sp.
       Inr (case addend sp of ValueAddr reg i \<Rightarrow> ValueAddr reg i | _ \<Rightarrow> ValueIllegal)))"

text \<open>The permanent storage of file names.\<close>

definition FS_StoreFileName :: "string \<Rightarrow> asm \<Rightarrow> asm" where
  "FS_StoreFileName name s =
     (if name \<in> set (gFileNameListP s) then s else s\<lparr>gFileNameListP := name # gFileNameListP s\<rparr>)"

definition c_string :: "string \<Rightarrow> string" where
  "c_string str = takeWhile (\<lambda>c. c \<noteq> CHR 0x00) str"

text \<open>What the four operators on files share: find the file, note its name, read an attribute.\<close>

definition file_op ::
    "(string \<Rightarrow> ASFile \<Rightarrow> asm \<Rightarrow> (u32 \<times> asm) outcome) \<Rightarrow> Value \<Rightarrow> asm \<Rightarrow> (Value \<times> asm) outcome" where
  "file_op attr v s =
     (case v of
        ValueString str \<Rightarrow>
          let name = c_string str
          in (case Include_Find s name of
                None \<Rightarrow> rbind (Error ErrorError ''Cannot access file \"%s\"'' s) (\<lambda>s. Inr (pure 0, s))
              | Some asFile \<Rightarrow>
                  rbind (attr name asFile (FS_StoreFileName (canonName asFile) s)) (\<lambda>(i, s). Inr (pure i, s)))
      | _ \<Rightarrow> Inr (ValueIllegal, s))"

definition eval_FLoad :: "Value \<Rightarrow> asm \<Rightarrow> (Value \<times> asm) outcome" where
  "eval_FLoad = file_op (\<lambda>_ f s. Inr (loadAddress f, s))"

definition eval_FExec :: "Value \<Rightarrow> asm \<Rightarrow> (Value \<times> asm) outcome" where
  "eval_FExec = file_op (\<lambda>_ f s. Inr (execAddress f, s))"

definition eval_FSize :: "Value \<Rightarrow> asm \<Rightarrow> (Value \<times> asm) outcome" where
  "eval_FSize = file_op (\<lambda>_ f s.
     if asf_size f > 0xFFFFFFFF
     then rbind (Error ErrorWarning ''File size of \"%s\" is bigger than unsigned 32-bit integer'' s)
            (\<lambda>s. Inr (0xFFFFFFFF, s))
     else Inr (of_nat (asf_size f), s))"

definition eval_FAttr :: "Value \<Rightarrow> asm \<Rightarrow> (Value \<times> asm) outcome" where
  "eval_FAttr = file_op (\<lambda>_ f s. Inr (ucast (attribs f), s))"

definition eval_LNot :: "Value \<Rightarrow> asm \<Rightarrow> (Value \<times> asm) outcome" where
  "eval_LNot v s =
     (case v of ValueBool b \<Rightarrow> Inr (ValueBool (\<not> b), s) | _ \<Rightarrow> illegal ''Bad operand type for :LNOT:'' s)"

definition eval_Not :: "Value \<Rightarrow> asm \<Rightarrow> (Value \<times> asm) outcome" where
  "eval_Not v s =
     rbind (GetInt s v) (\<lambda>i. case i of
         None \<Rightarrow> illegal ''Bad operand type for :NOT:'' s
       | Some i \<Rightarrow> Inr (pure (NOT i), s))"

definition eval_Neg :: "Value \<Rightarrow> asm \<Rightarrow> (Value \<times> asm) outcome" where
  "eval_Neg v s =
     rbind (GetInt s v) (\<lambda>i. case (i, v) of
         (Some i, _) \<Rightarrow> Inr (pure (- i), s)
       | (None, ValueInt64 j) \<Rightarrow> Inr (ValueInt64 (- j), s)
       | (None, ValueFloat f) \<Rightarrow> Inr (ValueFloat (dbl_minus f), s)
       | (None, ValueSymbol f q off) \<Rightarrow> Inr (ValueSymbol (- f) q (- off), s)
       | _ \<Rightarrow> illegal ''Bad operand type for negation'' s)"

definition eval_Pos :: "Value \<Rightarrow> asm \<Rightarrow> (Value \<times> asm) outcome" where
  "eval_Pos v s =
     rbind (GetInt s v) (\<lambda>i. case (i, v) of
         (Some i, _) \<Rightarrow> Inr (pure i, s)
       | (None, ValueInt64 _) \<Rightarrow> Inr (v, s)
       | (None, ValueFloat _) \<Rightarrow> Inr (v, s)
       | (None, ValueSymbol _ _ _) \<Rightarrow> Inr (v, s)
       | _ \<Rightarrow> illegal ''Bad operand type for +'' s)"

definition eval_Base :: "Value \<Rightarrow> asm \<Rightarrow> (Value \<times> asm) outcome" where
  "eval_Base v s =
     rbind (GetValueAddrEquivalent v s) (\<lambda>a. case a of
         ValueAddr reg _ \<Rightarrow> Inr (pure reg, s)
       | _ \<Rightarrow> illegal ''Bad operand type for :BASE:'' s)"

definition eval_Index :: "Value \<Rightarrow> asm \<Rightarrow> (Value \<times> asm) outcome" where
  "eval_Index v s =
     rbind (GetInt s v) (\<lambda>i. case i of
         Some i \<Rightarrow> Inr (pure i, s)
       | None \<Rightarrow>
           rbind (GetValueAddrEquivalent v s) (\<lambda>a. case a of
               ValueAddr _ i \<Rightarrow> Inr (pure i, s)
             | _ \<Rightarrow> illegal ''Bad operand type for :INDEX:'' s))"

definition eval_Len :: "Value \<Rightarrow> asm \<Rightarrow> (Value \<times> asm) outcome" where
  "eval_Len v s =
     (case v of
        ValueString str \<Rightarrow> Inr (pure (of_nat (length str)), s)
      | _ \<Rightarrow> illegal ''Bad operand type for :LEN:'' s)"

text \<open>\<^verbatim>\<open>%.8X\<close>.\<close>

definition hex_digit :: "nat \<Rightarrow> char" where
  "hex_digit n = ''0123456789ABCDEF'' ! n"

definition hex8 :: "u32 \<Rightarrow> string" where
  "hex8 w = map (\<lambda>k. hex_digit (unat (shr32 w (28 - 4 * k) AND 0xF))) [0..<8]"

text \<open>The text of a number is built in \<^verbatim>\<open>char num[32]\<close>; a longer one, with its NUL, is written past its end.\<close>

definition eval_Str :: "Value \<Rightarrow> asm \<Rightarrow> (Value \<times> asm) outcome" where
  "eval_Str v0 s =
     rbind (case v0 of
              ValueSymbol factor r offset \<Rightarrow>
                if flag (attr_type (syms s r)) SYMBOL_AREA
                then rbind (sym_area s r) (\<lambda>a.
                       if flag (area_type a) AREA_ABS
                       then rbind (Area_GetBaseAddress s r) (\<lambda>base. Inr (pure (factor * base + offset)))
                       else Inr v0)
                else Inr v0
            | _ \<Rightarrow> Inr v0)
       (\<lambda>v. case v of
           ValueBool b \<Rightarrow> Inr (ValueString (if b then ''T'' else ''F''), s)
         | ValueInt i _ \<Rightarrow> Inr (ValueString (hex8 i), s)
         | ValueFloat f \<Rightarrow>
             let num = dbl_printf_f f
             in if length num \<ge> 32 then Inl Undefined else Inr (ValueString num, s)
         | _ \<Rightarrow> illegal ''Bad operand type for :STR:'' s)"

definition eval_Chr :: "Value \<Rightarrow> asm \<Rightarrow> (Value \<times> asm) outcome" where
  "eval_Chr v s =
     rbind (GetInt s v) (\<lambda>i. case i of
         None \<Rightarrow> illegal ''Bad operand type for :CHR:'' s
       | Some i \<Rightarrow>
           rbind (if i \<ge> 256 then Error ErrorWarning ''Value %d will be truncated for :CHR: use'' s else Inr s)
             (\<lambda>s. Inr (ValueString [char_of (unat i)], s)))"

definition eval_Size :: "Value \<Rightarrow> asm \<Rightarrow> (Value \<times> asm) outcome" where
  "eval_Size v s =
     (case v of
        ValueSymbol _ r _ \<Rightarrow>
          if flag (attr_type (syms s r)) (SYMBOL_DEFINED OR SYMBOL_COMMON)
          then Inr (pure (attr_codeSize (syms s r)), s)
          else if flag (attr_type (syms s r)) SYMBOL_AREA
          then rbind (sym_area s r) (\<lambda>a.
               rbind (if gPhase s = ePassTwo \<and> curIdx a \<noteq> maxIdx a
                      then Error ErrorError ''? on area symbol which gets extended later on'' s else Inr s)
                 (\<lambda>s. Inr (pure (curIdx a), s)))
          else illegal ''Undefined symbol'' s
      | _ \<Rightarrow> rbind (Error ErrorError ''Bad operand type for ? operator'' s) (\<lambda>s. Inr (ValueIllegal, s)))"

definition ascii_lower :: "char \<Rightarrow> char" where
  "ascii_lower c =
     (if 65 \<le> (of_char c :: nat) \<and> (of_char c :: nat) \<le> 90 then char_of ((of_char c :: nat) + 32) else c)"

definition ascii_upper :: "char \<Rightarrow> char" where
  "ascii_upper c =
     (if 97 \<le> (of_char c :: nat) \<and> (of_char c :: nat) \<le> 122 then char_of ((of_char c :: nat) - 32) else c)"

definition eval_LowerCase :: "Value \<Rightarrow> asm \<Rightarrow> (Value \<times> asm) outcome" where
  "eval_LowerCase v s =
     (case v of ValueString str \<Rightarrow> Inr (ValueString (map ascii_lower str), s) | _ \<Rightarrow> Inr (ValueIllegal, s))"

definition eval_UpperCase :: "Value \<Rightarrow> asm \<Rightarrow> (Value \<times> asm) outcome" where
  "eval_UpperCase v s =
     (case v of ValueString str \<Rightarrow> Inr (ValueString (map ascii_upper str), s) | _ \<Rightarrow> Inr (ValueIllegal, s))"

text \<open>The reversed condition code as text, in the case of the operand.\<close>

definition rev_ccode :: "string \<Rightarrow> int \<Rightarrow> string" where
  "rev_ccode str ccode =
     (let revCCode = ccode XOR 1;
          isUpcase = (if str \<noteq> [] then ccode_case (str ! 0) else 0) XOR 0x20
      in map (\<lambda>k. char_of (of_char (oLowcaseCCodes ! nat (revCCode * 2 + k)) XOR isUpcase)) [0, 1])"

definition eval_RevCC :: "Value \<Rightarrow> asm \<Rightarrow> (Value \<times> asm) outcome" where
  "eval_RevCC v s =
     (case v of
        ValueString str \<Rightarrow>
          (case GetCCode str of
             None \<Rightarrow> rbind (Error ErrorError ''Condition code %.*s is not known'' s) (\<lambda>s. Inr (ValueIllegal, s))
           | Some ccode \<Rightarrow> Inr (ValueString (rev_ccode str ccode), s))
      | _ \<Rightarrow> Inr (ValueIllegal, s))"

definition eval_CCEnc :: "Value \<Rightarrow> asm \<Rightarrow> (Value \<times> asm) outcome" where
  "eval_CCEnc v s =
     (case v of
        ValueString str \<Rightarrow>
          (case GetCCode str of
             None \<Rightarrow> rbind (Error ErrorError ''Condition code %.*s is not known'' s) (\<lambda>s. Inr (ValueIllegal, s))
           | Some ccode \<Rightarrow>
               let ccode = (if ccode \<ge> 16 then ccode - 16 + 2 else ccode)
               in Inr (pure (shl32 (of_int ccode) 28), s))
      | _ \<Rightarrow> Inr (ValueIllegal, s))"

definition eval_RConst :: "Value \<Rightarrow> asm \<Rightarrow> (Value \<times> asm) outcome" where
  "eval_RConst v s =
     (case v of
        ValueInt i ty \<Rightarrow> if ty = eIntType_PureInt then Inr (ValueIllegal, s) else Inr (pure i, s)
      | _ \<Rightarrow> Inr (ValueIllegal, s))"

definition Eval_Unop :: "Operator_e \<Rightarrow> Value \<Rightarrow> asm \<Rightarrow> (Value \<times> asm) outcome" where
  "Eval_Unop op v s =
     (case op of
        eOp_FLoad \<Rightarrow> eval_FLoad v s
      | eOp_FExec \<Rightarrow> eval_FExec v s
      | eOp_FSize \<Rightarrow> eval_FSize v s
      | eOp_FAttr \<Rightarrow> eval_FAttr v s
      | eOp_LNot \<Rightarrow> eval_LNot v s
      | eOp_Not \<Rightarrow> eval_Not v s
      | eOp_Neg \<Rightarrow> eval_Neg v s
      | eOp_Pos \<Rightarrow> eval_Pos v s
      | eOp_Base \<Rightarrow> eval_Base v s
      | eOp_Index \<Rightarrow> eval_Index v s
      | eOp_Len \<Rightarrow> eval_Len v s
      | eOp_Str \<Rightarrow> eval_Str v s
      | eOp_Chr \<Rightarrow> eval_Chr v s
      | eOp_Size \<Rightarrow> eval_Size v s
      | eOp_LowerCase \<Rightarrow> eval_LowerCase v s
      | eOp_UpperCase \<Rightarrow> eval_UpperCase v s
      | eOp_RevCC \<Rightarrow> eval_RevCC v s
      | eOp_CCEnc \<Rightarrow> eval_CCEnc v s
      | eOp_RConst \<Rightarrow> eval_RConst v s
      | _ \<Rightarrow> Inl AssertFailed)"

text \<open>The texts \<^verbatim>\<open>GetCCode\<close> knows and their numbers.\<close>

definition ccode_table :: "(string \<times> int) list" where
  "ccode_table =
     [([], 14), (''eq'', 0), (''EQ'', 0), (''ne'', 1), (''NE'', 1), (''cs'', 2), (''CS'', 2), (''cc'', 3),
      (''CC'', 3), (''mi'', 4), (''MI'', 4), (''pl'', 5), (''PL'', 5), (''vs'', 6), (''VS'', 6), (''vc'', 7),
      (''VC'', 7), (''hi'', 8), (''HI'', 8), (''ls'', 9), (''LS'', 9), (''ge'', 10), (''GE'', 10), (''lt'', 11),
      (''LT'', 11), (''gt'', 12), (''GT'', 12), (''le'', 13), (''LE'', 13), (''al'', 14), (''AL'', 14), (''nv'', 15),
      (''NV'', 15), (''hs'', 16), (''HS'', 16), (''lo'', 17), (''LO'', 17)]"

section \<open>Shifts and rotations\<close>

lemma xor_flip:
  fixes x m :: u32
  shows "x AND m = m \<Longrightarrow> x XOR m = x - m" and "x AND m = 0 \<Longrightarrow> x XOR m = x + m"
proof -
  assume h: "x AND m = m"
  have b: "bit m n \<Longrightarrow> bit x n" for n using arg_cong [OF h, of "\<lambda>w. bit w n"] by (auto simp: bit_simps)
  have "(x XOR m) + m = (x XOR m) OR m"
    by (rule disjunctive_add) (use b in \<open>auto simp: bit_simps\<close>)
  also have "\<dots> = x" by (rule bit_word_eqI) (use b in \<open>auto simp: bit_simps\<close>)
  finally show "x XOR m = x - m" by (simp add: eq_diff_eq)
next
  assume h: "x AND m = 0"
  have b: "\<not> (bit x n \<and> bit m n)" for n using arg_cong [OF h, of "\<lambda>w. bit w n"] by (auto simp: bit_simps)
  have "x + m = x OR m" by (rule disjunctive_add) (use b in auto)
  also have "\<dots> = x XOR m" by (rule bit_word_eqI) (use b in \<open>auto simp: bit_simps\<close>)
  finally show "x XOR m = x + m" by simp
qed

lemma asr_nat:
  fixes a :: u32
  assumes "k < 32"
  shows "(shr32 a k XOR shl32 1 (31 - k)) - shl32 1 (31 - k) = of_int (sint a div 2 ^ k)"
proof -
  let ?x = "shr32 a k" and ?m = "shl32 1 (31 - k) :: u32"
  have "int (unat a div 2 ^ k) = uint a div 2 ^ k" by (simp add: zdiv_int)
  then have x: "?x = of_int (uint a div 2 ^ k)" by (metis shr32_of_nat of_int_of_nat_eq)
  have m2: "?m + ?m = of_int (2 ^ (32 - k))"
  proof -
    have "?m = 2 ^ (31 - k)" by (simp add: push_bit_eq_mult)
    moreover have "(2 :: u32) ^ (31 - k) + 2 ^ (31 - k) = 2 ^ Suc (31 - k)" by simp
    moreover have "Suc (31 - k) = 32 - k" using assms by simp
    ultimately show ?thesis by simp
  qed
  have bit: "?x AND ?m = (if bit a 31 then ?m else 0)"
    by (rule bit_word_eqI) (use assms in \<open>auto simp: bit_simps\<close>)
  have sgn: "bit a 31 \<longleftrightarrow> 2 ^ 31 \<le> uint a"
  proof -
    have "bit a 31 \<longleftrightarrow> odd (uint a div 2 ^ 31)"
      using bit_unsigned_iff [of a 31, where 'a = int] by (simp add: bit_iff_odd)
    moreover have "uint a < 2 ^ 32" "0 \<le> uint a" using uint_lt2p [of a] by simp_all
    moreover have "uint a div 2 ^ 31 = 1" if "2 ^ 31 \<le> uint a"
      using that int_div_pos_eq [of "uint a" "2 ^ 31" 1 "uint a - 2 ^ 31"] uint_lt2p [of a] by simp
    moreover have "uint a div 2 ^ 31 = 0" if "uint a < 2 ^ 31" using that by simp
    ultimately show ?thesis by (cases "2 ^ 31 \<le> uint a") auto
  qed
  show ?thesis
  proof (cases "bit a 31")
    case True
    have "sint a = uint a - 2 ^ 32" using True sgn by (simp add: sint_u32)
    moreover have "(2 :: int) ^ 32 = 2 ^ (32 - k) * 2 ^ k" using assms by (simp flip: power_add)
    ultimately have "sint a = uint a + - (2 ^ (32 - k)) * 2 ^ k" by simp
    then have sd: "sint a div 2 ^ k = uint a div 2 ^ k - 2 ^ (32 - k)"
      using div_mult_self1 [of "2 ^ k" "uint a" "- (2 ^ (32 - k))"] by simp
    have "(?x XOR ?m) - ?m = ?x - (?m + ?m)" using xor_flip(1) [of ?x ?m] bit True by simp
    also have "\<dots> = of_int (sint a div 2 ^ k)" unfolding x m2 sd by (simp only: of_int_diff)
    finally show ?thesis .
  next
    case False
    have "sint a = uint a" using False sgn by (simp add: sint_u32)
    then show ?thesis using xor_flip(2) [of ?x ?m] bit False x by simp
  qed
qed

text \<open>
  Shifts of expressions.  On two integers, \<^verbatim>\<open>>>>\<close> is the division of the signed number by a power of two,
  rounded down, and any count above 31 counts as 31; \<^verbatim>\<open>>>\<close> and \<^verbatim>\<open><<\<close> are division and multiplication of the
  unsigned number, which leave nothing for counts above 31.
\<close>

theorem shifts_arithmetic:
  "eval_ASR (pure a) (pure b) s = Inr (pure (of_int (sint a div 2 ^ min 31 (unat b))), s)
    \<and> eval_SHR (pure a) (pure b) s = Inr (pure (of_nat (unat a div 2 ^ unat b)), s)
    \<and> eval_SHL (pure a) (pure b) s = Inr (pure (of_nat (unat a * 2 ^ unat b)), s)"
proof (intro conjI)
  have big: "b \<ge> 32 \<longleftrightarrow> 32 \<le> unat b" by (simp add: word_le_nat_alt)
  have "asr_bits a b = of_int (sint a div 2 ^ min 31 (unat b))"
  proof (cases "32 \<le> unat b")
    case True
    then show ?thesis using asr_nat [of 31 a] by (simp add: asr_bits_def big)
  next
    case False
    then have "min 31 (unat b) = unat b" "31 - unat b = 32 - unat b - 1" "32 - (32 - unat b) = unat b" by simp_all
    then show ?thesis using False asr_nat [of "unat b" a] by (simp add: asr_bits_def big Let_def)
  qed
  then show "eval_ASR (pure a) (pure b) s = Inr (pure (of_int (sint a div 2 ^ min 31 (unat b))), s)"
    by (simp add: eval_ASR_def int_op_def pure_def GetInt_def)
  have "unat a div 2 ^ unat b = 0" if "32 \<le> unat b"
  proof -
    have "unat a < 2 ^ 32" using unsigned_less [of a, where 'a = nat] by simp
    also have "\<dots> \<le> (2 :: nat) ^ unat b" using that by (rule power_increasing) simp
    finally show ?thesis by simp
  qed
  then show "eval_SHR (pure a) (pure b) s = Inr (pure (of_nat (unat a div 2 ^ unat b)), s)"
    by (simp add: eval_SHR_def int_op_def pure_def GetInt_def big shr32_of_nat)
  have z: "(2 :: u32) ^ unat b = 0" if "32 \<le> unat b" using that by (simp add: exp_eq_zero_iff)
  have "a * 2 ^ unat b = 0" if "32 \<le> unat b" unfolding z [OF that] by simp
  then show "eval_SHL (pure a) (pure b) s = Inr (pure (of_nat (unat a * 2 ^ unat b)), s)"
    by (cases "32 \<le> unat b") (auto simp: eval_SHL_def int_op_def pure_def GetInt_def big push_bit_eq_mult)
qed

text \<open>
  Rotations of expressions.  A rotation by a count that is not a multiple of 32 is the rotation of the
  32-bit number, so that \<^verbatim>\<open>:ROL:\<close> undoes \<^verbatim>\<open>:ROR:\<close>; for a multiple of 32 (0 included) the code shifts by 32
  bits, which C leaves undefined.
\<close>

theorem rotations:
  "eval_ROR (pure a) (pure b) s = (if 32 dvd unat b then Inl Undefined else Inr (pure (word_rotr (unat b) a), s))
    \<and> eval_ROL (pure a) (pure b) s = (if 32 dvd unat b then Inl Undefined else Inr (pure (word_rotl (unat b) a), s))"
proof (intro conjI)
  have n: "unat (b AND 31) = unat b mod 32" using unat_and_mask [of b 5] by (simp add: mask_eq_exp_minus_1)
  have r: "shr32 a k OR shl32 a (32 - k) = word_rotr k a" if "k < 32" for k
  proof (rule bit_word_eqI)
    fix n assume "n < LENGTH(32)"
    then have n: "n < 32" by simp
    then have rot: "bit (word_rotr k a) n = bit a ((n + k) mod 32)" by (simp add: bit_word_rotr_iff)
    have big: "\<not> bit a (k + n)" if "32 \<le> k + n" using that bit_imp_le_length [of a "k + n"] by auto
    show "bit (shr32 a k OR shl32 a (32 - k)) n = bit (word_rotr k a) n"
    proof (cases "n + k < 32")
      case True
      then show ?thesis unfolding rot by (auto simp: bit_or_iff bit_drop_bit_eq bit_push_bit_iff add.commute)
    next
      case False
      then have "(n + k) mod 32 = n - (32 - k)" using n that by (simp add: mod_if)
      then show ?thesis unfolding rot using big False n
        by (auto simp: bit_or_iff bit_drop_bit_eq bit_push_bit_iff add.commute)
    qed
  qed
  have m: "word_rotr (n mod 32) a = word_rotr n a" for n
    by (rule bit_word_eqI) (simp add: bit_simps mod_simps)
  have l: "shl32 a k OR shr32 a (32 - k) = word_rotl k a" if "0 < k" "k < 32" for k
    using r [of "32 - k"] that by (simp add: word_rotl_eq_word_rotr or.commute)
  have ml: "word_rotl (n mod 32) a = word_rotl n a" for n
    by (simp add: word_rotl_eq_word_rotr)
  show "eval_ROR (pure a) (pure b) s = (if 32 dvd unat b then Inl Undefined else Inr (pure (word_rotr (unat b) a), s))"
    using r [of "unat b mod 32"] m [of "unat b"]
    by (auto simp: eval_ROR_def int_op_def pure_def GetInt_def n Let_def dvd_eq_mod_eq_0)
  show "eval_ROL (pure a) (pure b) s = (if 32 dvd unat b then Inl Undefined else Inr (pure (word_rotl (unat b) a), s))"
    using l [of "unat b mod 32"] ml [of "unat b"]
    by (auto simp: eval_ROL_def int_op_def pure_def GetInt_def n Let_def dvd_eq_mod_eq_0)
qed

section \<open>Condition codes\<close>

lemma ccode_low_Char: "ccode_low (Char b0 b1 b2 b3 b4 b5 b6 b7) = Char b0 b1 b2 b3 b4 True b6 b7"
  by (simp add: ccode_low_def char_of_def bit_simps bit_horner_sum_bit_iff)

lemma ccode_case_Char: "ccode_case (Char b0 b1 b2 b3 b4 b5 b6 b7) = (if b5 then 32 else 0)"
  by (cases b0; cases b1; cases b2; cases b3; cases b4; cases b5; cases b6; cases b7; simp add: ccode_case_def)

lemma ccode_low_cases:
  "ccode_low a = Char b0 b1 b2 b3 b4 b5 b6 b7 \<Longrightarrow>
     a = Char b0 b1 b2 b3 b4 True b6 b7 \<or> a = Char b0 b1 b2 b3 b4 False b6 b7"
  by (cases a) (auto simp: ccode_low_Char)

lemma GetCCode_table:
  assumes "GetCCode str = Some c"
  shows "(str, c) \<in> set ccode_table"
proof (cases "str = []")
  case True
  then show ?thesis using assms by (simp add: ccode_table_def GetCCode_def)
next
  case False
  then obtain a b where str: "str = [a, b]" and cc: "ccode_case a = ccode_case b"
    and se: "ccode_search 0 (ccode_low a) (ccode_low b) oLowcaseCCodes = Some c"
    using assms by (auto simp: GetCCode_def length_Suc_conv numeral_eq_Suc split: if_splits)
  show ?thesis using se cc unfolding oLowcaseCCodes_def str
    by (auto split: if_splits dest!: ccode_low_cases simp: ccode_table_def ccode_case_Char)
qed

lemma ccode_table_reverse:
  "list_all (\<lambda>(str, c). GetCCode str = Some c \<and> GetCCode (rev_ccode str c) = Some (c XOR 1)
      \<and> rev_ccode (rev_ccode str c) (c XOR 1) = (if str = [] then ''AL'' else str)) ccode_table"
  by code_simp

text \<open>
  Condition codes.  For every text that is a condition code (any of the eighteen mnemonics in lower or
  upper case, or nothing, which is AL), \<^verbatim>\<open>:REVERSE_CC:\<close> yields a condition code whose encoding differs
  in the lowest bit of the condition field only, that is the inverse condition, and reversing once more
  gives the text back.
\<close>

theorem RevCC_reverses:
  assumes "GetCCode str = Some c"
  shows "\<exists>rev e. eval_RevCC (ValueString str) s = Inr (ValueString rev, s)
    \<and> eval_RevCC (ValueString rev) s = Inr (ValueString (if str = [] then ''AL'' else str), s)
    \<and> eval_CCEnc (ValueString str) s = Inr (pure e, s)
    \<and> eval_CCEnc (ValueString rev) s = Inr (pure (e XOR 0x10000000), s)"
proof -
  define rev where "rev = rev_ccode str c"
  have tab: "(str, c) \<in> set ccode_table" by (rule GetCCode_table [OF assms])
  then have "GetCCode rev = Some (c XOR 1)" "rev_ccode rev (c XOR 1) = (if str = [] then ''AL'' else str)"
    using ccode_table_reverse unfolding list_all_iff rev_def by fastforce+
  moreover have "pure (shl32 (of_int (if (c XOR 1) \<ge> 16 then (c XOR 1) - 16 + 2 else (c XOR 1))) 28)
      = pure (shl32 (of_int (if c \<ge> 16 then c - 16 + 2 else c)) 28 XOR 0x10000000)"
    using tab by (auto simp: ccode_table_def)
  ultimately show ?thesis using assms
    by (intro exI [of _ rev] exI [of _ "shl32 (of_int (if c \<ge> 16 then c - 16 + 2 else c)) 28"])
      (simp add: eval_RevCC_def eval_CCEnc_def rev_def Let_def)
qed

theorem RevCC_reverses_witness:
  "\<exists>rev e. eval_RevCC (ValueString ''LO'') asm0 = Inr (ValueString rev, asm0)
    \<and> eval_RevCC (ValueString rev) asm0 = Inr (ValueString ''LO'', asm0)
    \<and> eval_CCEnc (ValueString ''LO'') asm0 = Inr (pure e, asm0)
    \<and> eval_CCEnc (ValueString rev) asm0 = Inr (pure (e XOR 0x10000000), asm0)"
proof -
  have "GetCCode ''LO'' = Some 17" by code_simp
  from RevCC_reverses [OF this, of asm0] show ?thesis by simp
qed

section \<open>Where operators can fail\<close>

lemma GetInt_returns: "syms_ok s \<Longrightarrow> \<exists>x. GetInt s v = Inr x"
  using syms_okD(2) by (cases v) (fastforce simp: GetInt_def Area_GetBaseAddress_def)+

lemma GetInt_not_crashes [simp]: "syms_ok s \<Longrightarrow> \<not> crashes (GetInt s v)"
  using GetInt_returns [of s v] by auto

lemma illegal_not_crashes [simp]: "\<not> crashes (illegal msg s)"
  by (simp add: illegal_def crashes_rbind)

lemma sym_area_not_crashes: "syms_ok s \<Longrightarrow> flag (attr_type (syms s r)) SYMBOL_AREA \<Longrightarrow> \<not> crashes (sym_area s r)"
  using syms_okD(2) [of s r] by auto

lemma base_not_crashes:
  "syms_ok s \<Longrightarrow> flag (attr_type (syms s r)) SYMBOL_AREA \<Longrightarrow> sym_area s r = Inr a \<Longrightarrow>
     flag (area_type a) AREA_ABS \<Longrightarrow> \<not> crashes (Area_GetBaseAddress s r)"
  using syms_okD(2) [of s r] by (auto simp: Area_GetBaseAddress_def)

lemma split_not_crashes:
  assumes "syms_ok s" and "flag (attr_type (syms s pc)) SYMBOL_AREA"
  shows "\<not> crashes (Reloc_SplitRelocAndAddend v (Some pc) i ok s)"
proof -
  obtain b j where b: "sym_area s pc = Inr b" "attr_value (syms s pc) = ValueInt j eIntType_PureInt"
    using syms_okD(2) [OF assms] by blast
  have lab: "\<not> crashes (split_label f r off (Some pc) i ok s)" if ar: "flag (attr_type (syms s r)) SYMBOL_AREA" for f r off
  proof -
    obtain a k where "sym_area s r = Inr a" "attr_value (syms s r) = ValueInt k eIntType_PureInt"
      using syms_okD(2) [OF assms(1) ar] by blast
    then show ?thesis using ar
      by (auto simp: split_label_def Area_GetBaseReg_def Area_GetBaseAddress_def sym_area_def split: option.splits)
  qed
  have "\<not> crashes (split_other (ValueInt k ty) (Some pc) i ok s)" for k ty
    using b assms(2) by (cases ty) (auto simp: split_other_def Let_def Area_GetBaseAddress_def)
  then show ?thesis using lab assms(2)
    by (cases v) (auto simp: Reloc_SplitRelocAndAddend_def crashes_rbind Value_IsLabel_def split_other_def)
qed

lemma addr_equivalent_not_crashes:
  assumes "syms_ok s" and "areaCurrentSymbol s = Some pc" and "flag (attr_type (syms s pc)) SYMBOL_AREA"
  shows "\<not> crashes (GetValueAddrEquivalent v s)"
  using split_not_crashes [OF assms(1,3)] sym_area_not_crashes [OF assms(1,3)] assms(2)
  by (auto simp: GetValueAddrEquivalent_def Area_CurIdxAligned_def cur_sym_def crashes_rbind Let_def)

lemma int_op_crashes:
  assumes "syms_ok s" and "crashes (int_op name f l r s)"
  shows "\<exists>a b. GetInt s l = Inr (Some a) \<and> GetInt s r = Inr (Some b) \<and> crashes (f a b)"
  using assms by (auto simp: int_op_def crashes_rbind split: option.splits)

text \<open>
  Each operator, case by case over the operands and what \<^verbatim>\<open>GetInt\<close> made of them.
\<close>

lemma arith_not_crashes:
  assumes "syms_ok s"
  shows "\<not> crashes (mul_promoted l r s)" and "\<not> crashes (add_promoted l r s)" and "\<not> crashes (eval_Sub l r s)"
    and "\<not> crashes (eval_Div l r s)" and "\<not> crashes (eval_Mod l r s)"
proof -
  obtain x y where gi: "GetInt s l = Inr x" "GetInt s r = Inr y" using GetInt_returns [OF assms] by metis
  have sub: "\<not> crashes (sub_symbols l r x y s)" for l r x y
    unfolding sub_symbols_def by (cases y; cases x; cases l; simp split: Value.split)
  show "\<not> crashes (mul_promoted l r s)"
    using gi unfolding mul_promoted_def by (cases y; cases x; cases l; simp split: Value.split)
  show "\<not> crashes (add_promoted l r s)"
    using gi unfolding add_promoted_def by (cases y; cases x; cases l; simp add: Let_def split: Value.split)
  show "\<not> crashes (eval_Sub l r s)"
    using gi sub unfolding eval_Sub_def by (cases y; cases x; cases l; simp split: Value.split)
  show "\<not> crashes (eval_Div l r s)" "\<not> crashes (eval_Mod l r s)"
    using gi unfolding eval_Div_def eval_Mod_def by (simp_all split: option.split)
qed

lemma other_binop_not_crashes:
  assumes "syms_ok s"
  shows "\<not> crashes (eval_Mul l r s)" and "\<not> crashes (eval_Add l r s)" and "\<not> crashes (COMPARE op l r s)"
    and "\<not> crashes (eval_Concat l r s)" and "\<not> crashes (eval_LAnd l r s)" and "\<not> crashes (eval_LOr l r s)"
    and "\<not> crashes (eval_LEOr l r s)" and "\<not> crashes (eval_Left l r s)" and "\<not> crashes (eval_Right l r s)"
proof -
  obtain x y where gi: "GetInt s l = Inr x" "GetInt s r = Inr y" using GetInt_returns [OF assms] by metis
  show "\<not> crashes (eval_Mul l r s)" using arith_not_crashes(1) [OF assms] by (simp add: eval_Mul_def split: Value.split)
  show "\<not> crashes (eval_Add l r s)" using arith_not_crashes(2) [OF assms] by (simp add: eval_Add_def split: Value.split)
  show "\<not> crashes (COMPARE op l r s)" using gi by (cases l; cases r; simp add: COMPARE_def split: option.split)
  show "\<not> crashes (eval_Concat l r s)" "\<not> crashes (eval_LAnd l r s)" "\<not> crashes (eval_LOr l r s)" "\<not> crashes (eval_LEOr l r s)"
    unfolding eval_Concat_def eval_LAnd_def eval_LOr_def eval_LEOr_def by (cases l; simp split: Value.split)+
  show "\<not> crashes (eval_Left l r s)" "\<not> crashes (eval_Right l r s)"
    using gi unfolding eval_Left_def eval_Right_def by (cases l; cases y; simp split: Value.split)+
qed

lemma int_ops_not_crash:
  assumes "syms_ok s"
  shows "\<not> crashes (eval_And l r s)" and "\<not> crashes (eval_Or l r s)" and "\<not> crashes (eval_XOr l r s)"
    and "\<not> crashes (eval_ASR l r s)" and "\<not> crashes (eval_SHR l r s)" and "\<not> crashes (eval_SHL l r s)"
  using int_op_crashes [OF assms]
  by (fastforce simp: eval_And_def eval_Or_def eval_XOr_def eval_ASR_def eval_SHR_def eval_SHL_def)+

lemma rotate_crashes:
  assumes "syms_ok s" and "crashes (eval_ROR l r s) \<or> crashes (eval_ROL l r s)"
  shows "\<exists>b. GetInt s r = Inr (Some b) \<and> 32 dvd unat b"
proof -
  have "unat (b AND 31) = unat b mod 32" for b :: u32
    using unat_and_mask [of b 5] by (simp add: mask_eq_exp_minus_1)
  then show ?thesis using assms int_op_crashes [OF assms(1)] unfolding eval_ROR_def eval_ROL_def
    by (fastforce simp: Let_def dvd_eq_mod_eq_0 split: if_splits)
qed

lemma binop_crashes:
  assumes "syms_ok s" and "\<not> Lex_IsUnop op" and "crashes (Eval_Binop veq op l r s)"
  shows "(op = eOp_ROR \<or> op = eOp_ROL) \<and> (\<exists>b. GetInt s r = Inr (Some b) \<and> 32 dvd unat b)
    \<or> (op = eOp_EQ \<or> op = eOp_NE) \<and> crashes (veq l r s)"
  using assms(2,3) arith_not_crashes [OF assms(1)] other_binop_not_crashes [OF assms(1)] int_ops_not_crash [OF assms(1)]
    rotate_crashes [OF assms(1), of l r]
  by (cases op) (auto simp: Eval_Binop_def Lex_IsUnop_def eval_EQ_def eval_NE_def crashes_rbind split: if_splits)

lemma file_op_not_crashes:
  "(\<And>name f s. \<not> crashes (attr name f s)) \<Longrightarrow> \<not> crashes (file_op attr v s)"
  by (auto simp: file_op_def Let_def crashes_rbind split: Value.splits option.splits)

lemma eval_Str_crashes:
  assumes "syms_ok s" and "crashes (eval_Str v s)"
  shows "\<exists>f. v = ValueFloat f \<and> 32 \<le> length (dbl_printf_f f)"
proof (cases v)
  case (ValueSymbol f r off)
  then show ?thesis using assms syms_okD(2) [OF assms(1), of r]
    by (auto simp: eval_Str_def Area_GetBaseAddress_def pure_def split: if_splits)
qed (use assms(2) in \<open>auto simp: eval_Str_def Let_def split: if_splits\<close>)

lemma unop_crashes:
  assumes "syms_ok s" and "areaCurrentSymbol s = Some pc" and "flag (attr_type (syms s pc)) SYMBOL_AREA"
    and "Lex_IsUnop op" and "crashes (Eval_Unop op v s)"
  shows "op = eOp_Str \<and> (\<exists>f. v = ValueFloat f \<and> 32 \<le> length (dbl_printf_f f))"
proof -
  obtain x where gi: "GetInt s v = Inr x" using GetInt_returns [OF assms(1)] by blast
  have 1: "\<not> crashes (eval_Not v s)" "\<not> crashes (eval_Chr v s)" "\<not> crashes (eval_Neg v s)" "\<not> crashes (eval_Pos v s)"
      "\<not> crashes (eval_LNot v s)" "\<not> crashes (eval_Len v s)" "\<not> crashes (eval_LowerCase v s)"
      "\<not> crashes (eval_UpperCase v s)" "\<not> crashes (eval_RConst v s)"
    using gi by (cases v; cases x; simp add: eval_Not_def eval_Chr_def eval_Neg_def eval_Pos_def eval_LNot_def eval_Len_def
        eval_LowerCase_def eval_UpperCase_def eval_RConst_def crashes_rbind)+
  have 2: "\<not> crashes (eval_RevCC v s)" "\<not> crashes (eval_CCEnc v s)"
    by (cases v; simp add: eval_RevCC_def eval_CCEnc_def crashes_rbind Let_def split: option.split)+
  have 3: "\<not> crashes (eval_Base v s)" "\<not> crashes (eval_Index v s)"
    using addr_equivalent_not_crashes [OF assms(1-3)] gi
    by (auto simp: eval_Base_def eval_Index_def crashes_rbind split: Value.split option.split)
  have 4: "\<not> crashes (eval_Size v s)"
    using sym_area_not_crashes [OF assms(1)] by (auto simp: eval_Size_def crashes_rbind split: Value.split)
  have 5: "\<not> crashes (eval_FLoad v s)" "\<not> crashes (eval_FExec v s)" "\<not> crashes (eval_FSize v s)" "\<not> crashes (eval_FAttr v s)"
    unfolding eval_FLoad_def eval_FExec_def eval_FSize_def eval_FAttr_def
    by (rule file_op_not_crashes, simp add: crashes_rbind)+
  show ?thesis using assms(4,5) 1 2 3 4 5 eval_Str_crashes [OF assms(1)]
    by (cases op) (auto simp: Eval_Unop_def Lex_IsUnop_def)
qed

section \<open>Arithmetic on symbols\<close>

lemma GetInt_number:
  assumes "sym_numbers s \<rho>" and "GetInt s v = Inr (Some i)" and "value_number \<rho> v = Some n"
  shows "i = n"
proof (cases v)
  case (ValueInt j ty)
  then show ?thesis using assms(2,3) by (cases ty) (auto simp: GetInt_def)
next
  case (ValueSymbol f r off)
  then obtain base where "attr_value (syms s r) = ValueInt base eIntType_PureInt" "i = f * base + off"
    using assms(2) by (auto simp: GetInt_def Area_GetBaseAddress_def elim!: rbind_InrE split: if_splits Value.splits IntType_e.splits)
  then show ?thesis using assms(1) [unfolded sym_numbers_def, rule_format, of r] assms(3) ValueSymbol by simp
qed (use assms in \<open>auto simp: GetInt_def\<close>)

text \<open>A value that stands for a number is a plain integer or a symbol.\<close>

lemma value_numberE:
  assumes "value_number \<rho> v = Some n"
  obtains (int) "v = ValueInt n eIntType_PureInt" | (sym) f r off where "v = ValueSymbol f r off" "n = f * \<rho> r + off"
  using assms by (cases "(\<rho>, v)" rule: value_number.cases) auto

lemma illegal_value: "illegal msg s = Inr (v, t) \<Longrightarrow> v = ValueIllegal"
  by (auto simp: illegal_def elim!: rbind_InrE)

lemma number_of_pure [simp]: "value_number \<rho> (pure i) = Some i"
  by (simp add: pure_def)

lemma number_of_symbol [simp]:
  "value_number \<rho> (if h = 0 then pure i else ValueSymbol h q i) = Some (h * \<rho> q + i)"
  "value_number \<rho> (if h \<noteq> 0 then ValueSymbol h q i else pure i) = Some (h * \<rho> q + i)"
  by simp_all

lemma promoted_number:
  assumes "sym_numbers s \<rho>" and "syms_ok s" and "value_number \<rho> l = Some a" and "value_number \<rho> r = Some b"
    and "value_number \<rho> v = Some n"
  shows "mul_promoted l r s = Inr (v, t) \<Longrightarrow> n = a * b" and "add_promoted l r s = Inr (v, t) \<Longrightarrow> n = a + b"
    and "eval_Sub l r s = Inr (v, t) \<Longrightarrow> n = a - b"
proof -
  obtain x y where g: "GetInt s l = Inr x" "GetInt s r = Inr y" using GetInt_returns [OF assms(2)] by metis
  have xy: "x = None \<or> x = Some a" "y = None \<or> y = Some b"
    using GetInt_number [OF assms(1) _ assms(3)] GetInt_number [OF assms(1) _ assms(4)] g by (cases x; cases y; auto)+
  have v: "v \<noteq> ValueIllegal" using assms(5) by auto
  show "n = a * b" if run: "mul_promoted l r s = Inr (v, t)"
    using assms(3)
  proof (cases rule: value_numberE)
    case int
    then have "y = Some b \<and> v = pure (a * b)"
      using run g xy v assms(4) by (elim value_numberE; cases y) (auto simp: mul_promoted_def GetInt_def dest!: illegal_value)
    then show ?thesis using assms(5) by simp
  next
    case (sym f q off)
    then have "v = ValueSymbol (f * b) q (off * b)"
      using run g xy v assms(4) by (elim value_numberE; cases x; cases y) (auto simp: mul_promoted_def dest!: illegal_value)
    then show ?thesis using assms(5) sym by (auto simp: algebra_simps)
  qed
  have both: "n = a + b" if "l = ValueSymbol f q off" "r = ValueSymbol f' q' off'" "add_promoted l r s = Inr (v, t)" for f q off f' q' off'
  proof -
    define X where "X = (if f + f' = 0 then pure (off + off') else ValueSymbol (f + f') q (off + off'))"
    have "add_promoted l r s = (if q \<noteq> q' then Inr (ValueIllegal, s) else Inr (X, s))"
      using that(1,2) g unfolding X_def add_promoted_def by (cases x; cases y; simp add: Let_def)
    then have "q' = q" and res: "v = X" using that(3) v by (auto split: if_splits)
    have "n = (f + f') * \<rho> q + (off + off')" using assms(5) unfolding res X_def number_of_symbol(1) by simp
    then show ?thesis using assms(3,4) that \<open>q' = q\<close> by (auto simp: algebra_simps)
  qed
  show "add_promoted l r s = Inr (v, t) \<Longrightarrow> n = a + b"
    using assms(3,4)
  proof (elim value_numberE)
    fix f q off f' q' off'
    assume "l = ValueSymbol f q off" "r = ValueSymbol f' q' off'" "add_promoted l r s = Inr (v, t)"
    then show "n = a + b" by (rule both)
  qed (use xy g v assms(5) in \<open>auto simp: add_promoted_def algebra_simps dest!: illegal_value\<close>)
  have dif: "n = a - b" if "l = ValueSymbol f q off" "r = ValueSymbol f' q' off'" "sub_symbols l r x y s = Inr (v, t)" for f q off f' q' off'
  proof -
    define X where "X = (if f - f' \<noteq> 0 then ValueSymbol (f - f') q (off - off') else pure (off - off'))"
    have "sub_symbols l r x y s = (if q \<noteq> q' then Inr (ValueIllegal, s) else Inr (X, s))"
      using that(1,2) unfolding X_def sub_symbols_def by (cases x) simp_all
    then have "q' = q" and res: "v = X" using that(3) v by (auto split: if_splits)
    have "n = (f - f') * \<rho> q + (off - off')" using assms(5) unfolding res X_def number_of_symbol(2) by simp
    then show ?thesis using assms(3,4) that \<open>q' = q\<close> by (auto simp: algebra_simps)
  qed
  have left: "n = a - b" if "l = ValueSymbol f q off" "r = ValueInt b eIntType_PureInt" "sub_symbols l r x y s = Inr (v, t)" for f q off
  proof -
    have res: "v = (if f \<noteq> 0 then ValueSymbol f q (off - b) else pure (off - b))"
      using that v xy(2) unfolding sub_symbols_def by (auto dest!: illegal_value)
    have "n = f * \<rho> q + (off - b)" using assms(5) unfolding res number_of_symbol(2) by simp
    then show ?thesis using assms(3) that by (auto simp: algebra_simps)
  qed
  have right: "n = a - b" if "l = ValueInt a eIntType_PureInt" "r = ValueSymbol f q off" "sub_symbols l r x y s = Inr (v, t)" for f q off
  proof -
    have res: "v = (if 0 - f \<noteq> 0 then ValueSymbol (0 - f) q (a - off) else pure (a - off))"
      using that v xy(1) unfolding sub_symbols_def by (auto dest!: illegal_value)
    have "n = (0 - f) * \<rho> q + (a - off)" using assms(5) unfolding res number_of_symbol(2) by simp
    then show ?thesis using assms(4) that by (auto simp: algebra_simps)
  qed
  have run: "eval_Sub l r s = (case (x, y) of (Some i, Some j) \<Rightarrow> Inr (pure (i - j), s) | _ \<Rightarrow> sub_symbols l r x y s)"
    using assms(3,4) g by (elim value_numberE; cases x; cases y; simp add: eval_Sub_def)
  show "eval_Sub l r s = Inr (v, t) \<Longrightarrow> n = a - b"
    using assms(3,4) unfolding run
  proof (elim value_numberE)
    assume "l = ValueInt a eIntType_PureInt" "r = ValueInt b eIntType_PureInt"
      "(case (x, y) of (Some i, Some j) \<Rightarrow> Inr (pure (i - j), s) | _ \<Rightarrow> sub_symbols l r x y s) = Inr (v, t)"
    then show "n = a - b" using g assms(5) by (auto simp: GetInt_def)
  qed (use xy assms(5) dif left right in \<open>auto split: option.splits\<close>)
qed

text \<open>
  C26. Arithmetic on symbols.  Whatever numbers the undefined symbols stand for in the end, addition,
  subtraction, multiplication and negation of values that stand for numbers yield, when they yield such
  a value, the sum, difference, product and negation of these numbers.
\<close>

theorem Eval_numbers:
  assumes "syms_ok s" and "sym_numbers s \<rho>" and "value_number \<rho> l = Some a" and "value_number \<rho> r = Some b"
    and "value_number \<rho> v = Some n"
  shows "(Eval_Binop veq eOp_Add l r s = Inr (v, t) \<longrightarrow> n = a + b) \<and>
    (Eval_Binop veq eOp_Sub l r s = Inr (v, t) \<longrightarrow> n = a - b) \<and>
    (Eval_Binop veq eOp_Mul l r s = Inr (v, t) \<longrightarrow> n = a * b) \<and>
    (Eval_Unop eOp_Neg l s = Inr (v, t) \<longrightarrow> n = - a)"
proof (intro conjI impI)
  note lr = promoted_number [OF assms(2,1,3,4,5)] and rl = promoted_number [OF assms(2,1,4,3,5)]
  show "Eval_Binop veq eOp_Add l r s = Inr (v, t) \<Longrightarrow> n = a + b"
    using lr(2) rl(2) by (auto simp: Eval_Binop_def eval_Add_def add.commute split: Value.splits)
  show "Eval_Binop veq eOp_Sub l r s = Inr (v, t) \<Longrightarrow> n = a - b"
    using lr(3) by (simp add: Eval_Binop_def)
  show "Eval_Binop veq eOp_Mul l r s = Inr (v, t) \<Longrightarrow> n = a * b"
    using lr(1) rl(1) by (auto simp: Eval_Binop_def eval_Mul_def mult.commute split: Value.splits)
  obtain x where g: "GetInt s l = Inr x" using GetInt_returns [OF assms(1)] by blast
  have x: "x = None \<or> x = Some a" using GetInt_number [OF assms(2) _ assms(3)] g by (cases x) auto
  show "Eval_Unop eOp_Neg l s = Inr (v, t) \<Longrightarrow> n = - a"
    using assms(3,5) g x by (elim value_numberE disjE)
      (auto simp: Eval_Unop_def eval_Neg_def pure_def GetInt_def algebra_simps dest!: illegal_value)
qed

theorem Eval_numbers_witness:
  "\<exists>v. Eval_Binop (\<lambda>_ _ s. Inr (True, s)) eOp_Sub (ValueSymbol 1 7 12) (ValueSymbol 1 7 4) asm0 = Inr (v, asm0)
     \<and> value_number (\<lambda>_. 100) v = Some (112 - 104)"
proof -
  have ok: "syms_ok asm0" "sym_numbers asm0 (\<lambda>_. 100)"
    by (auto simp: syms_ok_def wf_syms_def wf_sym_def sym_numbers_def asm0_def sym0_def flag_def)
  have run: "Eval_Binop (\<lambda>_ _ s. Inr (True, s)) eOp_Sub (ValueSymbol 1 7 12) (ValueSymbol 1 7 4) asm0
      = Inr (pure 8, asm0)"
    by (simp add: Eval_Binop_def eval_Sub_def sub_symbols_def GetInt_def asm0_def sym0_def flag_def)
  have "value_number (\<lambda>_. 100) (pure 8) = Some (112 - 104)"
    using Eval_numbers [OF ok, of "ValueSymbol 1 7 12" 112 "ValueSymbol 1 7 4" 104 "pure 8" 8 "\<lambda>_ _ s. Inr (True, s)" asm0]
      run by simp
  with run show ?thesis by blast
qed

end
