(* ===== verification/Code_Stream.thy ===== *)
theory Code_Stream
  imports Eval
begin

text \<open>
  The expression programs: \<^verbatim>\<open>code.c\<close>, and the comparison \<^verbatim>\<open>Value_Equal\<close> of \<^verbatim>\<open>value.c\<close> that runs them.  An
  expression is stored as a postfix program in a static array and evaluated on a static stack.  The
  theorems: evaluation agrees with the evaluation of the expression tree and needs no more than the
  arrays have, and comparing symbols inside an expression overwrites the program and the stack that
  are in use.

  Blocks of memory that values share and free (\<^verbatim>\<open>Code_Free\<close>, \<^verbatim>\<open>Code_Copy\<close>, the ownership flags of the
  stack) are not part of the model: values are trees.  Small allocations are taken to succeed.
\<close>

section \<open>Building a program\<close>

definition CODE_SIZECODE :: nat where
  "CODE_SIZECODE = 1024"

definition CODE_SIZESTACK :: nat where
  "CODE_SIZESTACK = 1024"

definition Code_Init :: "asm \<Rightarrow> asm" where
  "Code_Init s = s\<lparr>FirstFreeIns := 0\<rparr>"

text \<open>What the functions below share: one element more, or the internal overflow.\<close>

definition code_add :: "string \<Rightarrow> Code \<Rightarrow> asm \<Rightarrow> asm outcome" where
  "code_add msg c s =
     (if FirstFreeIns s < CODE_SIZECODE
      then Inr (s\<lparr>Program := (Program s)(FirstFreeIns s := c), FirstFreeIns := FirstFreeIns s + 1\<rparr>)
      else Error_Abort msg s)"

definition Code_Operator :: "Operator_e \<Rightarrow> asm \<Rightarrow> asm outcome" where
  "Code_Operator op = code_add ''Internal Code_Operator: overflow'' (CodeOperator op)"

definition Code_Symbol :: "symref \<Rightarrow> u32 \<Rightarrow> asm \<Rightarrow> asm outcome" where
  "Code_Symbol symbol offset =
     code_add ''Internal Code_Symbol: overflow'' (CodeValue (ValueSymbol 1 symbol offset))"

definition Code_String :: "string \<Rightarrow> asm \<Rightarrow> asm outcome" where
  "Code_String str = code_add ''Internal Code_String: overflow'' (CodeValue (ValueString str))"

definition Code_Int :: "u32 \<Rightarrow> asm \<Rightarrow> asm outcome" where
  "Code_Int v = code_add ''Internal Code_Int: overflow'' (CodeValue (ValueInt v eIntType_PureInt))"

definition Code_Float :: "ARMFloat \<Rightarrow> asm \<Rightarrow> asm outcome" where
  "Code_Float v = code_add ''Internal Code_Float: overflow'' (CodeValue (ValueFloat v))"

definition Code_Bool :: "bool \<Rightarrow> asm \<Rightarrow> asm outcome" where
  "Code_Bool v = code_add ''Internal Code_Bool: overflow'' (CodeValue (ValueBool v))"

definition Code_Addr :: "u32 \<Rightarrow> u32 \<Rightarrow> asm \<Rightarrow> asm outcome" where
  "Code_Addr reg offset = code_add ''Internal Code_Addr: overflow'' (CodeValue (ValueAddr reg offset))"

text \<open>The \<^verbatim>\<open>memcpy\<close> of a stored program behind the current one; its test is stricter than the others.\<close>

definition code_splice :: "Code list \<Rightarrow> asm \<Rightarrow> asm outcome" where
  "code_splice cs s =
     (if length cs + FirstFreeIns s < CODE_SIZECODE
      then Inr (s\<lparr>Program := (\<lambda>i. if FirstFreeIns s \<le> i \<and> i < FirstFreeIns s + length cs
                                   then cs ! (i - FirstFreeIns s) else Program s i),
                   FirstFreeIns := FirstFreeIns s + length cs\<rparr>)
      else Error_Abort ''Internal Code_Value: overflow'' s)"

definition Code_Value :: "Value \<Rightarrow> bool \<Rightarrow> asm \<Rightarrow> asm outcome" where
  "Code_Value v expCode s =
     (case v of
        ValueCode cs \<Rightarrow>
          if expCode then code_splice cs s
          else code_add ''Internal Code_Value: overflow'' (CodeValue v) s
      | _ \<Rightarrow> code_add ''Internal Code_Value: overflow'' (CodeValue v) s)"

section \<open>Evaluating a program\<close>

text \<open>
  One round of the loop of \<^verbatim>\<open>Code_EvalLowest\<close> at index \<open>i\<close>: the new stack index and whether the loop is
  left with a failure.  \<open>veq\<close> is \<^verbatim>\<open>Value_Equal\<close>, which \<open>=\<close> and \<open><>\<close> call.  The program is read from the
  static array at every round, as it is at that moment.
\<close>

definition next_is_size :: "nat \<Rightarrow> nat \<Rightarrow> asm \<Rightarrow> bool" where
  "next_is_size n i s \<longleftrightarrow> i + 1 \<noteq> n \<and> Program s (i + 1) = CodeOperator eOp_Size"

definition eval_push :: "nat \<Rightarrow> u32 \<Rightarrow> nat \<Rightarrow> nat \<Rightarrow> Value \<Rightarrow> nat \<Rightarrow> asm \<Rightarrow> ((bool \<times> nat) \<times> asm) outcome" where
  "eval_push fuel legal n i v sp s =
     rbind (if next_is_size n i s then Inr (False, v)
            else Value_ResolveSymbol fuel (legal AND (tInt OR tSymbol) = tInt) v s) (\<lambda>(failed, v).
       if failed then Inr ((True, sp), s)
       else if sp < CODE_SIZESTACK then Inr ((False, sp + 1), s\<lparr>Stack := (Stack s)(sp := v)\<rparr>)
       else Inl Undefined)"

definition eval_operator ::
    "operand_equality \<Rightarrow> nat \<Rightarrow> Operator_e \<Rightarrow> nat \<Rightarrow> asm \<Rightarrow> ((bool \<times> nat) \<times> asm) outcome" where
  "eval_operator veq spStart op sp s =
     (if Lex_IsUnop op
      then rbind (rassert (spStart < sp)) (\<lambda>_.
           rbind (Eval_Unop op (Stack s (sp - 1)) s) (\<lambda>(result, s).
             if result = ValueIllegal then Inr ((True, sp), s)
             else Inr ((False, sp), s\<lparr>Stack := (Stack s)(sp - 1 := result)\<rparr>)))
      else rbind (rassert (spStart + 1 < sp)) (\<lambda>_.
           rbind (Eval_Binop veq op (Stack s (sp - 2)) (Stack s (sp - 1)) s) (\<lambda>(result, s).
             if result = ValueIllegal then Inr ((True, sp), s)
             else Inr ((False, sp - 1), s\<lparr>Stack := (Stack s)(sp - 2 := result)\<rparr>))))"

fun eval_rounds ::
    "operand_equality \<Rightarrow> nat \<Rightarrow> u32 \<Rightarrow> nat \<Rightarrow> nat \<Rightarrow> nat \<Rightarrow> nat \<Rightarrow> asm \<Rightarrow> ((bool \<times> nat) \<times> asm) outcome" where
  "eval_rounds veq fuel legal spStart n 0 sp s = Inr ((False, sp), s)"
| "eval_rounds veq fuel legal spStart n (Suc k) sp s =
     rbind (case Program s (n - Suc k) of
              CodeOperator op \<Rightarrow> eval_operator veq spStart op sp s
            | CodeValue v \<Rightarrow> eval_push fuel legal n (n - Suc k) v sp s) (\<lambda>((failed, sp), s).
       if failed then Inr ((True, sp), s) else eval_rounds veq fuel legal spStart n k sp s)"

definition Code_EvalLowest ::
    "operand_equality \<Rightarrow> nat \<Rightarrow> nat \<Rightarrow> nat \<Rightarrow> u32 \<Rightarrow> asm \<Rightarrow> ((bool \<times> nat) \<times> asm) outcome" where
  "Code_EvalLowest veq fuel n sp legal s = eval_rounds veq fuel legal sp n n sp s"

text \<open>The conversions of the result to what is wanted.\<close>

definition eval_convert :: "u32 \<Rightarrow> Value \<Rightarrow> asm \<Rightarrow> (Value \<times> asm) outcome" where
  "eval_convert legal v s =
     (case v of
        ValueInt i ty \<Rightarrow>
          if legal AND (tInt OR tFloat) = tFloat
          then rbind (if option_fussy s then Error ErrorInfo ''Changing integer %d to float %1.1f'' s else Inr s)
                 (\<lambda>s. Inr (ValueFloat (dbl_of_int (sint i)), s))
          else Inr (v, s)
      | ValueString str \<Rightarrow>
          if legal AND (tString OR tInt) = tInt \<and> length str = 1
          then Inr (ValueInt (of_nat (of_char (str ! 0))) eIntType_PureInt, s)
          else Inr (v, s)
      | _ \<Rightarrow> Inr (v, s))"

definition Code_Eval :: "operand_equality \<Rightarrow> nat \<Rightarrow> u32 \<Rightarrow> asm \<Rightarrow> (Value \<times> asm) outcome" where
  "Code_Eval veq fuel legal s =
     (let n = FirstFreeIns s
      in rbind (if n = 0 then Inr ((True, 0), s) else Code_EvalLowest veq fuel n 0 legal s) (\<lambda>((failed, sp), s).
         rbind (if failed
                then let v = (if flag legal tCode then ValueCode (map (Program s) [0..<n]) else ValueIllegal)
                     in Inr (v, s\<lparr>Stack := (Stack s)(0 := v)\<rparr>)
                else rbind (rassert (sp = 1)) (\<lambda>_. Inr (Stack s 0, s))) (\<lambda>(v, s).
         rbind (eval_convert legal v s) (\<lambda>(v, s).
           let v = (if Tag v AND legal = 0 then ValueIllegal else v)
           in Inr (v, s\<lparr>Stack := (Stack s)(0 := v)\<rparr>)))))"

section \<open>Comparing values\<close>

fun Code_Equal :: "operand_equality \<Rightarrow> nat \<Rightarrow> Code list \<Rightarrow> Code list \<Rightarrow> asm \<Rightarrow> (bool \<times> asm) outcome" where
  "Code_Equal veq 0 a b s = Inr (True, s)"
| "Code_Equal veq (Suc len) (CodeOperator p # a) (CodeOperator q # b) s =
     (if p \<noteq> q then Inr (False, s) else Code_Equal veq len a b s)"
| "Code_Equal veq (Suc len) (CodeValue v # a) (CodeValue w # b) s =
     rbind (veq v w s) (\<lambda>(e, s). if e then Code_Equal veq len a b s else Inr (False, s))"
| "Code_Equal veq (Suc len) (_ # a) (_ # b) s = Inr (False, s)"
| "Code_Equal veq (Suc len) _ _ s = Inl Undefined"

text \<open>The two ways to be equal without evaluation, and the \<^verbatim>\<open>switch\<close> at the end.\<close>

definition same_code :: "operand_equality \<Rightarrow> Value \<Rightarrow> Value \<Rightarrow> asm \<Rightarrow> (bool \<times> asm) outcome" where
  "same_code veq a b s =
     (case (a, b) of
        (ValueCode c, ValueCode d) \<Rightarrow>
          if length c = length d then Code_Equal veq (length c) c d s else Inr (False, s)
      | _ \<Rightarrow> Inr (False, s))"

definition same_symbol :: "Value \<Rightarrow> Value \<Rightarrow> bool" where
  "same_symbol a b =
     (case (a, b) of
        (ValueSymbol f p i, ValueSymbol g q j) \<Rightarrow> f = g \<and> p = q \<and> i = j
      | _ \<Rightarrow> False)"

definition equal_switch :: "operand_equality \<Rightarrow> Value \<Rightarrow> Value \<Rightarrow> asm \<Rightarrow> (bool \<times> asm) outcome" where
  "equal_switch veq a b s =
     (case a of
        ValueIllegal \<Rightarrow> Inr (b = ValueIllegal, s)
      | ValueInt i ty \<Rightarrow>
          Inr (case b of
                 ValueInt j ty' \<Rightarrow> i = j \<and> (ty = ty' \<or> ty = eIntType_PureInt \<or> ty' = eIntType_PureInt)
               | ValueFloat f \<Rightarrow> ty = eIntType_PureInt \<and> dbl_eq (dbl_of_int (sint i)) f
               | _ \<Rightarrow> False, s)
      | ValueInt64 i \<Rightarrow> Inr (case b of ValueInt64 j \<Rightarrow> i = j | _ \<Rightarrow> False, s)
      | ValueFloat f \<Rightarrow>
          Inr (case b of
                 ValueFloat g \<Rightarrow> dbl_eq f g
               | ValueInt j ty \<Rightarrow> ty = eIntType_PureInt \<and> dbl_eq f (dbl_of_int (sint j))
               | _ \<Rightarrow> False, s)
      | ValueString str \<Rightarrow> Inr (case b of ValueString str' \<Rightarrow> str = str' | _ \<Rightarrow> False, s)
      | ValueBool p \<Rightarrow> Inr (case b of ValueBool q \<Rightarrow> p = q | _ \<Rightarrow> False, s)
      | ValueCode c \<Rightarrow> same_code veq a b s
      | ValueAddr reg i \<Rightarrow> Inr (case b of ValueAddr reg' j \<Rightarrow> i = j \<and> reg = reg' | _ \<Rightarrow> False, s)
      | ValueSymbol f r i \<Rightarrow> Inr (same_symbol a b, s))"

definition needs_eval :: "Value \<Rightarrow> bool" where
  "needs_eval v \<longleftrightarrow> Tag v = tCode \<or> Tag v = tSymbol"

text \<open>
  The recursion is through \<^verbatim>\<open>Code_Equal\<close> into the parts of a program, and through \<^verbatim>\<open>Code_Eval\<close> into the
  operators a program runs; its depth is bounded by the fuel.
\<close>

primrec Value_Equal :: "nat \<Rightarrow> operand_equality" where
  "Value_Equal 0 = (\<lambda>a b s. Inl OutOfFuel)"
| "Value_Equal (Suc fuel) = (\<lambda>a b s.
     if needs_eval a \<or> needs_eval b
     then rbind (same_code (Value_Equal fuel) a b s) (\<lambda>(same, s).
          if same \<or> same_symbol a b then Inr (True, s)
          else rbind (Code_Value a True (Code_Init s)) (\<lambda>s.
               rbind (Code_Eval (Value_Equal fuel) fuel tAll s) (\<lambda>(aCp, s).
               rbind (Code_Value b True (Code_Init s)) (\<lambda>s.
               rbind (Code_Eval (Value_Equal fuel) fuel tAll s) (\<lambda>(bCp, s).
                 equal_switch (Value_Equal fuel) aCp bCp s)))))
     else equal_switch (Value_Equal fuel) a b s)"

section \<open>Vocabulary of the theorems\<close>

text \<open>Operators neither look at the stack nor change it, the program or the option the result depends on.\<close>

definition keeps :: "(asm \<Rightarrow> (Value \<times> asm) outcome) \<Rightarrow> bool" where
  "keeps f \<longleftrightarrow> (\<forall>s v t x. f s = Inr (v, t) \<longrightarrow>
     f (s\<lparr>Stack := x\<rparr>) = Inr (v, t\<lparr>Stack := x\<rparr>) \<and> Program t = Program s \<and> FirstFreeIns t = FirstFreeIns s \<and> Stack t = Stack s
       \<and> option_fussy t = option_fussy s \<and> gPOStack t = gPOStack s \<and> readVars t = readVars s)"

text \<open>Expression trees, their postfix programs and their evaluation without a stack.\<close>

datatype etree = ELeaf Value | EUn Operator_e etree | EBin Operator_e etree etree

fun postfix :: "etree \<Rightarrow> Code list" where
  "postfix (ELeaf v) = [CodeValue v]"
| "postfix (EUn op e) = postfix e @ [CodeOperator op]"
| "postfix (EBin op l r) = postfix l @ postfix r @ [CodeOperator op]"

fun proper :: "etree \<Rightarrow> bool" where
  "proper (ELeaf v) = True"
| "proper (EUn op e) = (Lex_IsUnop op \<and> proper e)"
| "proper (EBin op l r) = (\<not> Lex_IsUnop op \<and> proper l \<and> proper r)"

text \<open>Equality of values that does not run programs.\<close>

definition plain_equal :: operand_equality where
  "plain_equal a b s = (if needs_eval a \<or> needs_eval b then Inl OutOfFuel else equal_switch (\<lambda>_ _ _. Inl OutOfFuel) a b s)"

definition legal_value :: "Value \<Rightarrow> Value option" where
  "legal_value v = (if v = ValueIllegal then None else Some v)"

text \<open>The operand of \<open>?\<close> is not resolved when it stands alone.\<close>

definition size_leaf :: "Operator_e \<Rightarrow> etree \<Rightarrow> Value option" where
  "size_leaf op e = (case e of ELeaf v \<Rightarrow> if op = eOp_Size then Some v else None | _ \<Rightarrow> None)"

fun tree_eval :: "nat \<Rightarrow> bool \<Rightarrow> etree \<Rightarrow> asm \<Rightarrow> (Value option \<times> asm) outcome" where
  "tree_eval fuel ra (ELeaf v) s =
     rbind (Value_ResolveSymbol fuel ra v s) (\<lambda>(failed, v). Inr (if failed then None else Some v, s))"
| "tree_eval fuel ra (EUn op e) s =
     rbind (case size_leaf op e of Some v \<Rightarrow> Inr (Some v, s) | None \<Rightarrow> tree_eval fuel ra e s) (\<lambda>(x, s).
       case x of
         None \<Rightarrow> Inr (None, s)
       | Some v \<Rightarrow> rbind (Eval_Unop op v s) (\<lambda>(w, s). Inr (legal_value w, s)))"
| "tree_eval fuel ra (EBin op l r) s =
     rbind (tree_eval fuel ra l s) (\<lambda>(x, s). case x of
         None \<Rightarrow> Inr (None, s)
       | Some v \<Rightarrow> rbind (tree_eval fuel ra r s) (\<lambda>(y, s). case y of
           None \<Rightarrow> Inr (None, s)
         | Some w \<Rightarrow> rbind (Eval_Binop plain_equal op v w s) (\<lambda>(u, s). Inr (legal_value u, s))))"

text \<open>The program holds \<open>cs\<close> from index \<open>i\<close> on.\<close>

definition code_at :: "asm \<Rightarrow> nat \<Rightarrow> Code list \<Rightarrow> bool" where
  "code_at s i cs \<longleftrightarrow> (\<forall>j < length cs. Program s (i + j) = cs ! j)"

text \<open>What running the program of a tree does to the stack.\<close>

definition ran :: "nat \<Rightarrow> nat \<Rightarrow> u32 \<Rightarrow> nat \<Rightarrow> nat \<Rightarrow> nat \<Rightarrow> (nat \<Rightarrow> Value) \<Rightarrow> Value option \<Rightarrow> asm
    \<Rightarrow> ((bool \<times> nat) \<times> asm) outcome \<Rightarrow> bool" where
  "ran m fuel legal n k sp st x u res \<longleftrightarrow>
     (case x of
        None \<Rightarrow> \<exists>sp' st'. res = Inr ((True, sp'), u\<lparr>Stack := st'\<rparr>)
      | Some v \<Rightarrow> \<exists>st'. (\<forall>j < sp. st' j = st j) \<and> st' sp = v
          \<and> res = eval_rounds (Value_Equal (Suc m)) fuel legal 0 n k (Suc sp) (u\<lparr>Stack := st'\<rparr>))"

text \<open>The result of a tree as \<^verbatim>\<open>Code_Eval\<close> hands it out: converted to what is wanted, or the program itself.\<close>

definition converted :: "u32 \<Rightarrow> Value \<Rightarrow> Value" where
  "converted legal v =
     (case v of
        ValueInt i _ \<Rightarrow> if legal AND (tInt OR tFloat) = tFloat then ValueFloat (dbl_of_int (sint i)) else v
      | ValueString str \<Rightarrow>
          if legal AND (tString OR tInt) = tInt \<and> length str = 1
          then ValueInt (of_nat (of_char (str ! 0))) eIntType_PureInt else v
      | _ \<Rightarrow> v)"

definition wanted :: "u32 \<Rightarrow> Value \<Rightarrow> Value" where
  "wanted legal v = (if Tag (converted legal v) AND legal = 0 then ValueIllegal else converted legal v)"

definition tree_result :: "u32 \<Rightarrow> etree \<Rightarrow> Value option \<Rightarrow> Value" where
  "tree_result legal e x =
     wanted legal (case x of Some v \<Rightarrow> v | None \<Rightarrow> if flag legal tCode then ValueCode (postfix e) else ValueIllegal)"

definition asm_program :: "Code list \<Rightarrow> asm" where
  "asm_program cs = asm0\<lparr>Program := (\<lambda>i. if i < length cs then cs ! i else CodeOperator eOp_FLoad), FirstFreeIns := length cs\<rparr>"

definition clobbered_program :: "Code list" where
  "clobbered_program =
     [CodeValue (ValueBool True), CodeValue (ValueSymbol 1 2 0), CodeValue (ValueSymbol 1 3 0),
      CodeOperator eOp_EQ, CodeOperator eOp_LOr]"


section \<open>Operators leave the stack alone\<close>

lemma read_area_stack [simp]:
  "sym_area (s\<lparr>Stack := x\<rparr>) r = sym_area s r"
  "Area_GetBaseAddress (s\<lparr>Stack := x\<rparr>) r = Area_GetBaseAddress s r"
  by (simp_all add: sym_area_def Area_GetBaseAddress_def)

lemma read_value_stack [simp]:
  "GetInt (s\<lparr>Stack := x\<rparr>) v = GetInt s v"
  "Value_IsLabel (s\<lparr>Stack := x\<rparr>) v = Value_IsLabel s v"
  by (simp_all add: GetInt_def Value_IsLabel_def cong: if_cong Value.case_cong)

lemma Error_stack:
  assumes "Error e msg s = Inr t"
  shows "Error e msg (s\<lparr>Stack := x\<rparr>) = Inr (t\<lparr>Stack := x\<rparr>)"
  using assms by (auto simp: Error_def Error_SuppressMsg_def errorCore_def Input_Rest_def Let_def
      split: if_splits ErrorTag.splits)

lemma keeps_Error_if:
  assumes "\<And>x s. b (s\<lparr>Stack := x\<rparr>) = b s" and "keeps g"
  shows "keeps (\<lambda>s. rbind (if b s then Error e msg s else Inr s) g)"
  using assms unfolding keeps_def
  by (auto simp: rbind_eq_Inr Error_stack same_but_errorsD dest: Error_same split: if_splits)

lemma keeps_Error: "keeps g \<Longrightarrow> keeps (\<lambda>s. rbind (Error e msg s) g)"
  using keeps_Error_if [of "\<lambda>_. True"] by simp

lemma keepsD:
  assumes "keeps f" and "f s = Inr (v, t)"
  shows "f (s\<lparr>Stack := x\<rparr>) = Inr (v, t\<lparr>Stack := x\<rparr>)" and "Program t = Program s"
    and "FirstFreeIns t = FirstFreeIns s" and "Stack t = Stack s" and "option_fussy t = option_fussy s"
    and "gPOStack t = gPOStack s" and "readVars t = readVars s"
  using assms by (auto simp: keeps_def)

named_theorems keeping

lemma keeps_illegal [keeping]: "keeps (illegal msg)"
  unfolding illegal_def by (rule keeps_Error_if) (simp_all add: keeps_def)

lemma keeps_ret [keeping]: "keeps (\<lambda>s. Inr (v, s))" and keeps_fault [keeping]: "keeps (\<lambda>s. Inl e)"
  by (simp_all add: keeps_def)

lemma keeps_read:
  assumes "\<And>x s. r (s\<lparr>Stack := x\<rparr>) = r s" and "\<And>a. keeps (g a)"
  shows "keeps (\<lambda>s. rbind (r s) (\<lambda>a. g a s))"
  using assms by (auto simp: keeps_def rbind_eq_Inr)

lemma keeps_if:
  assumes "\<And>x s. b (s\<lparr>Stack := x\<rparr>) = b s" and "keeps f" and "keeps g"
  shows "keeps (\<lambda>s. if b s then f s else g s)"
  using assms by (auto simp: keeps_def)

lemma keeps_option:
  assumes "keeps f" and "\<And>a. keeps (g a)"
  shows "keeps (\<lambda>s. case x of None \<Rightarrow> f s | Some a \<Rightarrow> g a s)"
  using assms by (cases x) simp_all

lemma keeps_Value:
  assumes "keeps f0" and "\<And>i ty. keeps (f1 i ty)" and "\<And>i. keeps (f2 i)" and "\<And>f. keeps (f3 f)"
    and "\<And>str. keeps (f4 str)" and "\<And>b. keeps (f5 b)" and "\<And>c. keeps (f6 c)"
    and "\<And>r i. keeps (f7 r i)" and "\<And>f r i. keeps (f8 f r i)"
  shows "keeps (\<lambda>s. case v of ValueIllegal \<Rightarrow> f0 s | ValueInt i ty \<Rightarrow> f1 i ty s | ValueInt64 i \<Rightarrow> f2 i s
      | ValueFloat f \<Rightarrow> f3 f s | ValueString str \<Rightarrow> f4 str s | ValueBool b \<Rightarrow> f5 b s | ValueCode c \<Rightarrow> f6 c s
      | ValueAddr r i \<Rightarrow> f7 r i s | ValueSymbol f r i \<Rightarrow> f8 f r i s)"
  using assms by (cases v) simp_all

lemma keeps_rbind:
  assumes "keeps f" and "\<And>a. keeps (g a)"
  shows "keeps (\<lambda>s. rbind (f s) (\<lambda>(a, s). g a s))"
  using assms by (fastforce simp: keeps_def rbind_eq_Inr)

lemmas keeps_rules = keeps_option keeps_Value keeps_Error keeps_Error_if keeps_read keeps_if keeps_rbind

lemma keeps_int_op [keeping]: "keeps (int_op name f l r)"
  unfolding int_op_def prod.case by (intro keeping keeps_rules) simp_all

lemma keeps_int_ops [keeping]:
  "keeps (eval_And l r)" "keeps (eval_Or l r)" "keeps (eval_XOr l r)" "keeps (eval_ASR l r)" "keeps (eval_SHR l r)"
  "keeps (eval_SHL l r)" "keeps (eval_ROR l r)" "keeps (eval_ROL l r)"
  by (simp_all add: eval_And_def eval_Or_def eval_XOr_def eval_ASR_def eval_SHR_def eval_SHL_def eval_ROR_def
      eval_ROL_def keeps_int_op)

lemma keeps_arith [keeping]:
  "keeps (mul_promoted l r)" "keeps (add_promoted l r)" "keeps (eval_Div l r)" "keeps (eval_Mod l r)"
  unfolding mul_promoted_def add_promoted_def eval_Div_def eval_Mod_def prod.case Let_def
  by (intro keeping keeps_rules; simp)+

lemma keeps_sub_symbols [keeping]: "keeps (sub_symbols l r x y)"
  unfolding sub_symbols_def prod.case
  by (intro keeping keeps_rules; simp)

lemma keeps_Sub [keeping]: "keeps (eval_Sub l r)"
  unfolding eval_Sub_def prod.case
  by (intro keeping keeps_rules; simp)

lemma keeps_arith' [keeping]: "keeps (eval_Mul l r)" "keeps (eval_Add l r)"
  unfolding eval_Mul_def eval_Add_def by (cases r; cases l; simp add: keeping)+

lemma keeps_other [keeping]:
  "keeps (eval_Concat l r)" "keeps (eval_LAnd l r)" "keeps (eval_LOr l r)" "keeps (eval_LEOr l r)"
  "keeps (eval_Left l r)" "keeps (eval_Right l r)" "keeps (COMPARE op l r)"
  unfolding eval_Concat_def eval_LAnd_def eval_LOr_def eval_LEOr_def eval_Left_def eval_Right_def COMPARE_def prod.case Let_def
  by (intro keeping keeps_rules; simp)+

lemma keeps_Binop:
  assumes "\<And>l r. keeps (\<lambda>s. rbind (veq l r s) (\<lambda>(b, s). Inr (ValueBool b, s)))"
    and "\<And>l r. keeps (\<lambda>s. rbind (veq l r s) (\<lambda>(b, s). Inr (ValueBool (\<not> b), s)))"
  shows "keeps (Eval_Binop veq op l r)"
  unfolding Eval_Binop_def eval_EQ_def eval_NE_def
  by (cases op; simp add: keeping assms keeps_if)


lemma file_name_stack: "FS_StoreFileName n (s\<lparr>Stack := x\<rparr>) = (FS_StoreFileName n s)\<lparr>Stack := x\<rparr>"
  and file_name_keeps: "Program (FS_StoreFileName n s) = Program s"
    "FirstFreeIns (FS_StoreFileName n s) = FirstFreeIns s" "Stack (FS_StoreFileName n s) = Stack s"
    "option_fussy (FS_StoreFileName n s) = option_fussy s" "gPOStack (FS_StoreFileName n s) = gPOStack s"
    "readVars (FS_StoreFileName n s) = readVars s"
  by (simp_all add: FS_StoreFileName_def)

lemma keeps_file_op:
  assumes "\<And>n f. keeps (\<lambda>s. rbind (attr n f s) (\<lambda>(i, s). Inr (pure i, s)))"
  shows "keeps (file_op attr v)"
proof -
  have stored: "keeps (\<lambda>s. rbind (attr n f (FS_StoreFileName (canonName f) s)) (\<lambda>(i, s). Inr (pure i, s)))" for n f
    using assms [of n f] by (fastforce simp: keeps_def file_name_stack file_name_keeps)
  have lookup: "keeps (\<lambda>s. case Include_Find s n of
      None \<Rightarrow> rbind (Error ErrorError m s) (\<lambda>s. Inr (pure 0, s))
    | Some f \<Rightarrow> rbind (attr n f (FS_StoreFileName (canonName f) s)) (\<lambda>(i, s). Inr (pure i, s)))" for n m
    using keeps_Error [OF keeps_ret, of ErrorError m "pure 0"] stored [of n]
    unfolding keeps_def by (auto split: option.splits)
  show ?thesis
    unfolding file_op_def Let_def by (intro keeping keeps_Value lookup)
qed

lemma keeps_file_ops [keeping]:
  "keeps (eval_FLoad v)" "keeps (eval_FExec v)" "keeps (eval_FSize v)" "keeps (eval_FAttr v)"
  unfolding eval_FLoad_def eval_FExec_def eval_FSize_def eval_FAttr_def
  by (rule keeps_file_op; auto simp: keeps_def rbind_eq_Inr Error_stack same_but_errorsD dest: Error_same split: if_splits)+

lemma read_split_stack [simp]:
  "Reloc_SplitRelocAndAddend v pc i ok (s\<lparr>Stack := x\<rparr>) = Reloc_SplitRelocAndAddend v pc i ok s"
  by (simp add: Reloc_SplitRelocAndAddend_def split_label_def split_symbol_def split_other_def split_finish_def
      pcOffset_def State_GetInstrType_def Let_def cong: if_cong Value.case_cong option.case_cong IntType_e.case_cong)

lemma read_addr_stack [simp]: "GetValueAddrEquivalent v (s\<lparr>Stack := x\<rparr>) = GetValueAddrEquivalent v s"
  by (simp add: GetValueAddrEquivalent_def Area_CurIdxAligned_def cur_sym_def)

lemma keeps_unops [keeping]:
  "keeps (eval_LNot v)" "keeps (eval_Not v)" "keeps (eval_Neg v)" "keeps (eval_Pos v)" "keeps (eval_Base v)"
  "keeps (eval_Index v)" "keeps (eval_Len v)" "keeps (eval_Chr v)"
  "keeps (eval_LowerCase v)" "keeps (eval_UpperCase v)" "keeps (eval_RevCC v)" "keeps (eval_CCEnc v)" "keeps (eval_RConst v)"
  unfolding eval_LNot_def eval_Not_def eval_Neg_def eval_Pos_def eval_Base_def eval_Index_def eval_Len_def
    eval_Chr_def eval_LowerCase_def eval_UpperCase_def eval_RevCC_def eval_CCEnc_def eval_RConst_def Let_def
  by (intro keeping keeps_rules; simp)+

lemma keeps_Str [keeping]: "keeps (eval_Str v)"
  unfolding eval_Str_def Let_def
  by (rule keeps_read) (intro keeping keeps_rules | simp cong: if_cong Value.case_cong)+

lemma keeps_Size [keeping]: "keeps (eval_Size v)"
  unfolding eval_Size_def
  by (cases v; simp add: keeping) (auto simp: keeps_def rbind_eq_Inr Error_stack same_but_errorsD illegal_def dest: Error_same split: if_splits)

lemma keeps_Unop: "keeps (Eval_Unop op v)"
  unfolding Eval_Unop_def by (cases op; simp add: keeping)

lemma equal_switch_plain:
  "\<not> needs_eval a \<Longrightarrow> equal_switch veq a b s = equal_switch veq' a b s"
  by (cases a) (simp_all add: equal_switch_def needs_eval_def)

lemma plain_equal_Value_Equal:
  "plain_equal a b s = Inr x \<Longrightarrow> Value_Equal (Suc fuel) a b s = Inr x"
  using equal_switch_plain [of a "\<lambda>_ _ _. Inl OutOfFuel" b s "Value_Equal fuel"]
  by (auto simp: plain_equal_def split: if_splits)

lemma Binop_equality:
  assumes "\<And>x. veq a b s = Inr x \<Longrightarrow> veq' a b s = Inr x" and "Eval_Binop veq op a b s = Inr y"
  shows "Eval_Binop veq' op a b s = Inr y"
  using assms by (cases op) (auto simp: Eval_Binop_def eval_EQ_def eval_NE_def rbind_eq_Inr split: if_splits)

lemma plain_equal_Binop:
  "Eval_Binop plain_equal op a b s = Inr y \<Longrightarrow> Eval_Binop (Value_Equal (Suc m)) op a b s = Inr y"
  by (rule Binop_equality [of plain_equal]) (auto dest: plain_equal_Value_Equal simp del: Value_Equal.simps)

lemma keeps_plain:
  "keeps (\<lambda>s. rbind (plain_equal l r s) (\<lambda>(b, s). Inr (f b, s)))"
  unfolding plain_equal_def equal_switch_def same_code_def
  by (cases l) (auto simp: keeps_def needs_eval_def tag_defs split: Value.splits)

lemmas keeps_plain_Binop = keeps_Binop [OF keeps_plain [where f = ValueBool] keeps_plain [where f = "\<lambda>b. ValueBool (\<not> b)"]]


section \<open>The stack machine runs the postfix program of a tree\<close>

lemma code_at_append: "code_at s i (as @ bs) \<longleftrightarrow> code_at s i as \<and> code_at s (i + length as) bs"
proof (intro iffI conjI)
  assume "code_at s i (as @ bs)"
  then have *: "\<And>j. j < length as + length bs \<Longrightarrow> Program s (i + j) = (as @ bs) ! j" by (simp add: code_at_def)
  show "code_at s i as" using * by (auto simp: code_at_def nth_append)
  show "code_at s (i + length as) bs"
    using * [of "length as + j" for j] by (auto simp: code_at_def nth_append add.assoc)
next
  assume *: "code_at s i as \<and> code_at s (i + length as) bs"
  show "code_at s i (as @ bs)"
    unfolding code_at_def
  proof (intro allI impI)
    fix j assume "j < length (as @ bs)"
    then show "Program s (i + j) = (as @ bs) ! j"
      using * [unfolded code_at_def] by (cases "j < length as") (auto simp: nth_append dest: spec [of _ "j - length as"])
  qed
qed

lemma code_at_single: "code_at s i [c] \<longleftrightarrow> Program s i = c"
  by (simp add: code_at_def)

lemma postfix_hd: "\<exists>v. postfix e ! 0 = CodeValue v \<and> 0 < length (postfix e)"
  by (induction e) (auto simp: nth_append)

lemma postfix_pos: "0 < length (postfix e)"
  by (cases e) simp_all

lemma tree_eval_EUnE:
  assumes "tree_eval fuel ra (EUn op e) t = Inr (x, u)"
  obtains (Alone) v w where "e = ELeaf v" "op = eOp_Size" "Eval_Unop op v t = Inr (w, u)" "x = legal_value w"
  | (Fails) "size_leaf op e = None" "tree_eval fuel ra e t = Inr (None, u)" "x = None"
  | (Operator) v t' w where "size_leaf op e = None" "tree_eval fuel ra e t = Inr (Some v, t')"
      "Eval_Unop op v t' = Inr (w, u)" "x = legal_value w"
proof (cases "size_leaf op e")
  case None
  then obtain y t' where y: "tree_eval fuel ra e t = Inr (y, t')"
    and "(case y of None \<Rightarrow> Inr (None, t')
          | Some v \<Rightarrow> rbind (Eval_Unop op v t') (\<lambda>(w, s). Inr (legal_value w, s))) = Inr (x, u)"
    using assms by (auto simp: rbind_eq_Inr)
  then show thesis using Fails Operator None by (cases y) (auto simp: rbind_eq_Inr)
next
  case (Some v)
  then have "e = ELeaf v" "op = eOp_Size" by (auto simp: size_leaf_def split: etree.splits if_splits)
  then show thesis using assms Alone Some by (auto simp: rbind_eq_Inr)
qed

lemma tree_eval_EBinE:
  assumes "tree_eval fuel ra (EBin op l r) t = Inr (x, u)"
  obtains (Left) "tree_eval fuel ra l t = Inr (None, u)" "x = None"
  | (Right) v t' where "tree_eval fuel ra l t = Inr (Some v, t')" "tree_eval fuel ra r t' = Inr (None, u)" "x = None"
  | (Operator) v t' w t'' o' where "tree_eval fuel ra l t = Inr (Some v, t')" "tree_eval fuel ra r t' = Inr (Some w, t'')"
      "Eval_Binop plain_equal op v w t'' = Inr (o', u)" "x = legal_value o'"
proof -
  obtain y t' where y: "tree_eval fuel ra l t = Inr (y, t')"
    and rest: "(case y of None \<Rightarrow> Inr (None, t')
          | Some v \<Rightarrow> rbind (tree_eval fuel ra r t') (\<lambda>(y, s). case y of
               None \<Rightarrow> Inr (None, s)
             | Some w \<Rightarrow> rbind (Eval_Binop plain_equal op v w s) (\<lambda>(u, s). Inr (legal_value u, s)))) = Inr (x, u)"
    using assms by (auto simp: rbind_eq_Inr)
  show thesis
  proof (cases y)
    case (Some v)
    then obtain z t'' where z: "tree_eval fuel ra r t' = Inr (z, t'')"
      and "(case z of None \<Rightarrow> Inr (None, t'')
          | Some w \<Rightarrow> rbind (Eval_Binop plain_equal op v w t'') (\<lambda>(u, s). Inr (legal_value u, s))) = Inr (x, u)"
      using rest by (auto simp: rbind_eq_Inr)
    then show thesis using Right Operator y Some by (cases z) (auto simp: rbind_eq_Inr)
  qed (use Left y rest in auto)
qed

lemma tree_eval_keeps:
  "tree_eval fuel ra e s = Inr (x, t) \<Longrightarrow>
     Program t = Program s \<and> Stack t = Stack s \<and> FirstFreeIns t = FirstFreeIns s \<and> option_fussy t = option_fussy s"
proof (induction e arbitrary: s x t)
  case (EUn op e)
  from EUn.prems show ?case
  proof (cases rule: tree_eval_EUnE)
    case (Operator v t' w)
    then show ?thesis using EUn.IH keepsD(2-5) [OF keeps_Unop Operator(3)] by simp
  qed (use EUn.IH keepsD(2-5) [OF keeps_Unop] in auto)
next
  case (EBin op l r)
  from EBin.prems show ?case
  proof (cases rule: tree_eval_EBinE)
    case (Operator v t' w t'' o')
    then show ?thesis using EBin.IH(1) [OF Operator(1)] EBin.IH(2) [OF Operator(2)]
        keepsD(2-5) [OF keeps_plain_Binop Operator(3)] by simp
  next
    case (Right v t')
    then show ?thesis using EBin.IH(1) [OF Right(1)] EBin.IH(2) [OF Right(2)] by simp
  qed (use EBin.IH in auto)
qed (auto simp: rbind_eq_Inr)

lemma resolve_stack [simp]: "Value_ResolveSymbol n ra v (s\<lparr>Stack := x\<rparr>) = Value_ResolveSymbol n ra v s"
proof -
  have more: "resolve_more ra (s\<lparr>Stack := x\<rparr>) r = resolve_more ra s r" for r
    by (simp add: resolve_more_def cong: if_cong)
  show ?thesis
  proof (induction n arbitrary: v)
    case 0
    show ?case by (cases v) (simp_all add: Value_ResolveSymbol.simps(1) more cong: if_cong option.case_cong)
  next
    case (Suc n)
    show ?case by (cases v) (simp_all add: Value_ResolveSymbol.simps(1) more Suc cong: if_cong option.case_cong)
  qed
qed

lemma next_is_size_stack [simp]: "next_is_size n i (s\<lparr>Stack := x\<rparr>) = next_is_size n i s"
  by (simp add: next_is_size_def)

text \<open>The rounds at the elements of a program; \<open>st\<close> is the stack.\<close>

lemma round_unop:
  assumes "Program t i = CodeOperator op" and "Lex_IsUnop op" and "n = i + Suc k"
    and "Eval_Unop op (st sp) t = Inr (w, u)"
  shows "eval_rounds veq fuel legal 0 n (Suc k) (Suc sp) (t\<lparr>Stack := st\<rparr>) =
    (if w = ValueIllegal then Inr ((True, Suc sp), u\<lparr>Stack := st\<rparr>)
     else eval_rounds veq fuel legal 0 n k (Suc sp) (u\<lparr>Stack := st(sp := w)\<rparr>))"
  using assms keepsD(1) [OF keeps_Unop assms(4)] by (simp add: eval_operator_def)

lemma round_binop:
  assumes "Program t i = CodeOperator op" and "\<not> Lex_IsUnop op" and "n = i + Suc k"
    and "Eval_Binop plain_equal op (st sp) (st (Suc sp)) t = Inr (w, u)"
  shows "eval_rounds (Value_Equal (Suc m)) fuel legal 0 n (Suc k) (Suc (Suc sp)) (t\<lparr>Stack := st\<rparr>) =
    (if w = ValueIllegal then Inr ((True, Suc (Suc sp)), u\<lparr>Stack := st\<rparr>)
     else eval_rounds (Value_Equal (Suc m)) fuel legal 0 n k (Suc sp) (u\<lparr>Stack := st(sp := w)\<rparr>))"
  using assms(1-3) plain_equal_Binop [OF keepsD(1) [OF keeps_plain_Binop assms(4)], of m]
  by (simp add: eval_operator_def del: Value_Equal.simps)

lemma round_push:
  assumes "Program t i = CodeValue v" and "n = i + Suc k" and "sp < CODE_SIZESTACK"
    and "(if next_is_size n i t then Inr (False, v)
          else Value_ResolveSymbol fuel (legal AND (tInt OR tSymbol) = tInt) v t) = Inr (failed, w)"
  shows "eval_rounds veq fuel legal 0 n (Suc k) sp (t\<lparr>Stack := st\<rparr>) =
    (if failed then Inr ((True, sp), t\<lparr>Stack := st\<rparr>)
     else eval_rounds veq fuel legal 0 n k (Suc sp) (t\<lparr>Stack := st(sp := w)\<rparr>))"
  using assms by (auto simp: eval_push_def)

declare eval_rounds.simps(2) [simp del] Value_Equal.simps(2) [simp del]

lemma ran_None: "ran m fuel legal n k sp st None u res \<Longrightarrow> ran m fuel legal n k' sp' st' None u res"
  by (simp add: ran_def)

lemma ran_leaf:
  assumes "Program t i = CodeValue v" and "n = i + Suc k" and "sp < CODE_SIZESTACK"
    and "(if next_is_size n i t then Inr (False, v)
          else Value_ResolveSymbol fuel (legal AND (tInt OR tSymbol) = tInt) v t) = Inr (failed, w)"
  shows "ran m fuel legal n k sp st (if failed then None else Some w) t
    (eval_rounds (Value_Equal (Suc m)) fuel legal 0 n (Suc k) sp (t\<lparr>Stack := st\<rparr>))"
  unfolding round_push [OF assms] by (auto simp: ran_def intro: exI [of _ "st(sp := w)"])

lemma ran_unop:
  assumes "ran m fuel legal n (Suc k) sp st (Some v) t res" and "Program t i = CodeOperator op" and "Lex_IsUnop op"
    and "n = i + Suc k" and "Eval_Unop op v t = Inr (w, u)"
  shows "ran m fuel legal n k sp st (legal_value w) u res"
proof -
  obtain st' where st': "\<forall>j < sp. st' j = st j" "st' sp = v"
    and run: "res = eval_rounds (Value_Equal (Suc m)) fuel legal 0 n (Suc k) (Suc sp) (t\<lparr>Stack := st'\<rparr>)"
    using assms(1) by (auto simp: ran_def)
  show ?thesis
    unfolding run using round_unop [OF assms(2-4), of st' sp w u "Value_Equal (Suc m)" fuel legal] assms(5) st'
    by (auto simp: ran_def legal_value_def intro: exI [of _ "st'(sp := w)"])
qed

lemma ran_binop:
  assumes "ran m fuel legal n k' sp st (Some v) t res"
    and "\<And>st'. ran m fuel legal n (Suc k) (Suc sp) st' (Some w) t'
      (eval_rounds (Value_Equal (Suc m)) fuel legal 0 n k' (Suc sp) (t\<lparr>Stack := st'\<rparr>))"
    and "Program t' i = CodeOperator op" and "\<not> Lex_IsUnop op" and "n = i + Suc k"
    and "Eval_Binop plain_equal op v w t' = Inr (x, u)"
  shows "ran m fuel legal n k sp st (legal_value x) u res"
proof -
  obtain st' where st': "\<forall>j < sp. st' j = st j" "st' sp = v"
    and run: "res = eval_rounds (Value_Equal (Suc m)) fuel legal 0 n k' (Suc sp) (t\<lparr>Stack := st'\<rparr>)"
    using assms(1) by (auto simp: ran_def)
  obtain st'' where st'': "\<forall>j < Suc sp. st'' j = st' j" "st'' (Suc sp) = w"
    and run': "res = eval_rounds (Value_Equal (Suc m)) fuel legal 0 n (Suc k) (Suc (Suc sp)) (t'\<lparr>Stack := st''\<rparr>)"
    using assms(2) [of st'] run by (auto simp: ran_def)
  show ?thesis
    unfolding run' using round_binop [OF assms(3-5), of st'' sp x u m fuel legal] assms(6) st' st''
    by (auto simp: ran_def legal_value_def intro: exI [of _ "st''(sp := x)"])
qed

lemma ran_left_None:
  assumes "ran m fuel legal n k' sp st (Some v) t res"
    and "\<And>st'. ran m fuel legal n k'' (Suc sp) st' None u
      (eval_rounds (Value_Equal (Suc m)) fuel legal 0 n k' (Suc sp) (t\<lparr>Stack := st'\<rparr>))"
  shows "ran m fuel legal n k sp st None u res"
  using assms by (auto simp: ran_def)

lemma run_tree:
  assumes "proper e" and "code_at t i (postfix e)" and "n = i + length (postfix e) + k"
    and "sp + length (postfix e) \<le> CODE_SIZESTACK"
    and "\<And>v. e = ELeaf v \<Longrightarrow> \<not> next_is_size n i t"
    and "tree_eval fuel (legal AND (tInt OR tSymbol) = tInt) e t = Inr (x, u)"
  shows "ran m fuel legal n k sp st x u
    (eval_rounds (Value_Equal (Suc m)) fuel legal 0 n (length (postfix e) + k) sp (t\<lparr>Stack := st\<rparr>))"
  using assms
proof (induction e arbitrary: t i k sp st x u)
  case (ELeaf v)
  then obtain failed w where "Value_ResolveSymbol fuel (legal AND (tInt OR tSymbol) = tInt) v t = Inr (failed, w)"
    and x: "x = (if failed then None else Some w)" "u = t"
    by (auto simp: rbind_eq_Inr)
  then show ?case unfolding x using ELeaf.prems ran_leaf [of t i v n k sp fuel legal failed w m st]
    by (simp add: code_at_single)
next
  case (EUn op e)
  let ?l = "length (postfix e)"
  have un: "Lex_IsUnop op" "proper e" and at: "code_at t i (postfix e)" "Program t (i + ?l) = CodeOperator op"
    and n: "n = i + ?l + Suc k" and room: "sp + ?l \<le> CODE_SIZESTACK"
    using EUn.prems by (simp_all add: code_at_append code_at_single)
  have run: "ran m fuel legal n (Suc k) sp st y t'
      (eval_rounds (Value_Equal (Suc m)) fuel legal 0 n (?l + Suc k) sp (t\<lparr>Stack := st\<rparr>))"
    if "size_leaf op e = None" "tree_eval fuel (legal AND (tInt OR tSymbol) = tInt) e t = Inr (y, t')" for y t'
    by (rule EUn.IH [OF un(2) at(1) n room _ that(2)])
      (use that(1) at(2) in \<open>auto simp: next_is_size_def size_leaf_def\<close>)
  from EUn.prems(6) show ?case
  proof (cases rule: tree_eval_EUnE)
    case (Alone v w)
    have "next_is_size n i t" using Alone(1,2) at n by (simp add: next_is_size_def)
    then have "ran m fuel legal n (Suc k) sp st (Some v) t
        (eval_rounds (Value_Equal (Suc m)) fuel legal 0 n (?l + Suc k) sp (t\<lparr>Stack := st\<rparr>))"
      using ran_leaf [of t i v n "Suc k" sp fuel legal False v m st] at n room Alone(1) by (simp add: code_at_single)
    from ran_unop [OF this at(2) un(1) n Alone(3)] show ?thesis using Alone(4) by simp
  next
    case Fails
    show ?thesis using ran_None [OF run [OF Fails(1,2)]] Fails(3) by simp
  next
    case (Operator v t' w)
    have "Program t' (i + ?l) = CodeOperator op" using tree_eval_keeps [OF Operator(2)] at(2) by simp
    from ran_unop [OF run [OF Operator(1,2)] this un(1) n Operator(3)] show ?thesis using Operator(4) by simp
  qed
next
  case (EBin op l r)
  let ?veq = "Value_Equal (Suc m)" and ?l = "length (postfix l)" and ?r = "length (postfix r)"
  let ?ra = "legal AND (tInt OR tSymbol) = tInt"
  have bin: "\<not> Lex_IsUnop op" "proper l" "proper r"
    and at: "code_at t i (postfix l)" "code_at t (i + ?l) (postfix r)" "Program t (i + ?l + ?r) = CodeOperator op"
    and n: "n = i + ?l + (?r + Suc k)" "n = (i + ?l) + ?r + Suc k"
    and room: "sp + ?l \<le> CODE_SIZESTACK" "Suc sp + ?r \<le> CODE_SIZESTACK"
    using EBin.prems postfix_pos [of l] by (simp_all add: code_at_append code_at_single add.assoc)
  have l: "ran m fuel legal n (?r + Suc k) sp st y t' (eval_rounds ?veq fuel legal 0 n (?l + (?r + Suc k)) sp (t\<lparr>Stack := st\<rparr>))"
    if "tree_eval fuel ?ra l t = Inr (y, t')" for y t'
    by (rule EBin.IH(1) [OF bin(2) at(1) n(1) room(1) _ that])
      (use at(2) postfix_hd [of r] in \<open>auto simp: next_is_size_def code_at_def\<close>)
  have r: "ran m fuel legal n (Suc k) (Suc sp) st' y t'' (eval_rounds ?veq fuel legal 0 n (?r + Suc k) (Suc sp) (t'\<lparr>Stack := st'\<rparr>))"
    if "tree_eval fuel ?ra l t = Inr (Some v, t')" "tree_eval fuel ?ra r t' = Inr (y, t'')" for v t' st' y t''
    by (rule EBin.IH(2) [OF bin(3) _ n(2) room(2) _ that(2)])
      (use tree_eval_keeps [OF that(1)] at(2,3) bin(1) in \<open>auto simp: code_at_def next_is_size_def Lex_IsUnop_def\<close>)
  from EBin.prems(6) show ?case
  proof (cases rule: tree_eval_EBinE)
    case Left
    then show ?thesis using ran_None [OF l [OF Left(1)]] by (simp add: add.assoc)
  next
    case (Right v t')
    then show ?thesis using ran_left_None [OF l [OF Right(1)] r [OF Right(1,2)]] by (simp add: add.assoc)
  next
    case (Operator v t' w t'' x')
    have "Program t'' (i + ?l + ?r) = CodeOperator op"
      using tree_eval_keeps [OF Operator(1)] tree_eval_keeps [OF Operator(2)] at(3) by simp
    from ran_binop [OF l [OF Operator(1)] r [OF Operator(1,2)] this bin(1) n(2) Operator(3)]
    show ?thesis using Operator(4) by (simp add: add.assoc)
  qed
qed

lemma eval_convert_converted: "\<not> option_fussy s \<Longrightarrow> eval_convert legal v s = Inr (converted legal v, s)"
  by (cases v) (simp_all add: eval_convert_def converted_def)

lemma program_list: "code_at s 0 cs \<Longrightarrow> map (Program s) [0..<length cs] = cs"
  by (auto simp: code_at_def intro: nth_equalityI)

lemma Code_Eval_postfix:
  assumes "proper e" and "code_at s 0 (postfix e)" and "FirstFreeIns s = length (postfix e)"
    and "length (postfix e) \<le> CODE_SIZECODE" and "\<not> option_fussy s"
    and "tree_eval fuel (legal AND (tInt OR tSymbol) = tInt) e s = Inr (x, t)"
  shows "\<exists>st. Code_Eval (Value_Equal (Suc m)) fuel legal s = Inr (tree_result legal e x, t\<lparr>Stack := st\<rparr>)"
proof -
  let ?n = "length (postfix e)"
  have keep: "Program t = Program s" "\<not> option_fussy (t\<lparr>Stack := st\<rparr>)" for st
    using tree_eval_keeps [OF assms(6)] assms(5) by simp_all
  have run: "ran m fuel legal ?n 0 0 (Stack s) x t
      (eval_rounds (Value_Equal (Suc m)) fuel legal 0 ?n (?n + 0) 0 (s\<lparr>Stack := Stack s\<rparr>))"
    using assms by (intro run_tree [of e s 0]) (auto simp: next_is_size_def CODE_SIZECODE_def CODE_SIZESTACK_def)
  then have low: "ran m fuel legal ?n 0 0 (Stack s) x t (Code_EvalLowest (Value_Equal (Suc m)) fuel ?n 0 legal s)"
    by (simp add: Code_EvalLowest_def)
  have n: "?n \<noteq> 0" using postfix_pos [of e] by simp
  show ?thesis
  proof (cases x)
    case None
    let ?v = "if flag legal tCode then ValueCode (postfix e) else ValueIllegal"
    obtain sp st where low': "Code_EvalLowest (Value_Equal (Suc m)) fuel ?n 0 legal s = Inr ((True, sp), t\<lparr>Stack := st\<rparr>)"
      using low None by (auto simp: ran_def)
    have "map (Program t) [0..<?n] = postfix e" using keep(1) program_list [OF assms(2)] by simp
    then have "Code_Eval (Value_Equal (Suc m)) fuel legal s
        = Inr (wanted legal ?v, t\<lparr>Stack := st(0 := wanted legal ?v)\<rparr>)"
      using low' n keep(2) unfolding Code_Eval_def assms(3) wanted_def
      by (simp add: eval_convert_converted Let_def)
    then show ?thesis using None by (auto simp: tree_result_def)
  next
    case (Some v)
    obtain st where low': "Code_EvalLowest (Value_Equal (Suc m)) fuel ?n 0 legal s = Inr ((False, Suc 0), t\<lparr>Stack := st\<rparr>)"
      and st: "st 0 = v"
      using low Some by (auto simp: ran_def)
    from low' Some n st keep(2) show ?thesis
      by (auto simp: Code_Eval_def assms(3) tree_result_def wanted_def eval_convert_converted Let_def)
  qed
qed

text \<open>
  C31. Evaluating an expression.  If the program is the postfix form of an expression tree and fits into
  the array, \<^verbatim>\<open>Code_Eval\<close> returns what the evaluation of the tree yields, converted to what the caller
  wants, and changes nothing but the stack and what the operators change themselves.  The stack neither
  runs empty nor over its end.  (The tree compares values without running programs: the comparison of
  symbols is the subject of the next theorem.)
\<close>

theorem Code_Eval_tree:
  assumes "proper e" and "code_at s 0 (postfix e)" and "FirstFreeIns s = length (postfix e)"
    and "length (postfix e) \<le> CODE_SIZECODE" and "\<not> option_fussy s"
    and "tree_eval fuel (legal AND (tInt OR tSymbol) = tInt) e s = Inr (x, t)"
  shows "\<exists>st. Code_Eval (Value_Equal (Suc m)) fuel legal s = Inr (tree_result legal e x, t\<lparr>Stack := st\<rparr>)"
  by (rule Code_Eval_postfix [OF assms])

theorem Code_Eval_tree_witness:
  "\<exists>st. Code_Eval (Value_Equal 1) 0 tInt
      (asm_program [CodeValue (pure 2), CodeValue (pure 3), CodeValue (pure 4), CodeOperator eOp_Mul, CodeOperator eOp_Add])
    = Inr (pure 14, (asm_program
        [CodeValue (pure 2), CodeValue (pure 3), CodeValue (pure 4), CodeOperator eOp_Mul, CodeOperator eOp_Add])\<lparr>Stack := st\<rparr>)"
proof -
  let ?e = "EBin eOp_Add (ELeaf (pure 2)) (EBin eOp_Mul (ELeaf (pure 3)) (ELeaf (pure 4)))"
  have "tree_eval 0 (tInt AND (tInt OR tSymbol) = tInt) ?e (asm_program (postfix ?e)) = Inr (Some (pure 14), asm_program (postfix ?e))"
    by (simp add: pure_def Eval_Binop_def eval_Mul_def mul_promoted_def eval_Add_def add_promoted_def GetInt_def legal_value_def)
  then have "\<exists>st. Code_Eval (Value_Equal (Suc 0)) 0 tInt (asm_program (postfix ?e))
      = Inr (tree_result tInt ?e (Some (pure 14)), (asm_program (postfix ?e))\<lparr>Stack := st\<rparr>)"
    by (intro Code_Eval_tree) (auto simp: Lex_IsUnop_def code_at_def asm_program_def CODE_SIZECODE_def asm0_def)
  then show ?thesis by (simp add: tree_result_def wanted_def converted_def pure_def tag_defs)
qed

text \<open>Evaluating a single symbol that has no value leaves it as it is.\<close>

lemma eval_symbol_alone:
  assumes "\<not> flag (attr_type (syms s r)) SYMBOL_DEFINED" and "\<not> flag (attr_type (syms s r)) SYMBOL_AREA"
  shows "\<exists>s'. Code_Value (ValueSymbol f r i) True (Code_Init s) = Inr s'
    \<and> Code_Eval veq fuel tAll s' = Inr (ValueSymbol f r i, s\<lparr>Program := (Program s)(0 := CodeValue (ValueSymbol f r i)),
        FirstFreeIns := 1, Stack := (Stack s)(0 := ValueSymbol f r i)\<rparr>)"
  using assms
  by (simp add: Code_Value_def code_add_def Code_Init_def CODE_SIZECODE_def Code_Eval_def Code_EvalLowest_def
      eval_rounds.simps(2) eval_push_def next_is_size_def Value_ResolveSymbol.simps(1) resolve_more_def
      CODE_SIZESTACK_def eval_convert_def tag_defs Let_def)

text \<open>Comparing two different symbols without values overwrites the start of the program and of the stack.\<close>

lemma compare_symbols_clobbers:
  assumes "\<And>r. r \<in> {p, q} \<Longrightarrow> \<not> flag (attr_type (syms s r)) SYMBOL_DEFINED \<and> \<not> flag (attr_type (syms s r)) SYMBOL_AREA"
    and "p \<noteq> q"
  shows "Value_Equal (Suc m) (ValueSymbol f p i) (ValueSymbol g q j) s =
    Inr (False, s\<lparr>Program := (Program s)(0 := CodeValue (ValueSymbol g q j)), FirstFreeIns := 1,
      Stack := (Stack s)(0 := ValueSymbol g q j)\<rparr>)"
proof -
  let ?s1 = "s\<lparr>Program := (Program s)(0 := CodeValue (ValueSymbol f p i)), FirstFreeIns := 1,
      Stack := (Stack s)(0 := ValueSymbol f p i)\<rparr>"
  obtain t where t: "Code_Value (ValueSymbol f p i) True (Code_Init s) = Inr t"
      "Code_Eval (Value_Equal m) m tAll t = Inr (ValueSymbol f p i, ?s1)"
    using eval_symbol_alone [of s p f i "Value_Equal m" m] assms(1) by blast
  obtain u where u: "Code_Value (ValueSymbol g q j) True (Code_Init ?s1) = Inr u"
      "Code_Eval (Value_Equal m) m tAll u = Inr (ValueSymbol g q j, s\<lparr>Program := (Program s)(0 := CodeValue (ValueSymbol g q j)),
        FirstFreeIns := 1, Stack := (Stack s)(0 := ValueSymbol g q j)\<rparr>)"
    using eval_symbol_alone [of ?s1 q g j "Value_Equal m" m] assms(1) by fastforce
  show ?thesis
    using t u assms(2)
    by (simp add: Value_Equal.simps(2) needs_eval_def same_code_def same_symbol_def equal_switch_def tag_defs)
qed

text \<open>
  In \<open>{TRUE} :LOR: (a = b)\<close>, with two symbols that have no value yet, the operand \<open>{TRUE}\<close> is the one that is
  lost, and the expression is refused although its value is true.
\<close>

lemma comparison_example:
  "(\<exists>t. Code_Eval (Value_Equal (Suc m)) fuel tBool (asm_program clobbered_program) = Inr (ValueIllegal, t)
      \<and> oNumErrors t = Suc (oNumErrors (asm_program clobbered_program)))
    \<and> (\<forall>b. eval_LOr (ValueBool True) (ValueBool b) (asm_program clobbered_program)
          = Inr (ValueBool True, asm_program clobbered_program))"
proof -
  let ?s = "asm_program clobbered_program"
  have eq: "Value_Equal (Suc m) (ValueSymbol 1 2 0) (ValueSymbol 1 3 0) s =
      Inr (False, s\<lparr>Program := (Program s)(0 := CodeValue (ValueSymbol 1 3 0)), FirstFreeIns := 1,
        Stack := (Stack s)(0 := ValueSymbol 1 3 0)\<rparr>)" if "syms s = (\<lambda>_. sym0)" for s
    using that by (intro compare_symbols_clobbers) (auto simp: sym0_def flag_def)
  have "\<exists>t. Code_Eval (Value_Equal (Suc m)) fuel tBool ?s = Inr (ValueIllegal, t) \<and> oNumErrors t = Suc (oNumErrors ?s)"
    by (simp add: Code_Eval_def Code_EvalLowest_def clobbered_program_def asm_program_def asm0_def eval_rounds.simps(2)
        eval_push_def eval_operator_def next_is_size_def Lex_IsUnop_def CODE_SIZESTACK_def tag_defs
        Value_ResolveSymbol.simps(1) resolve_more_def sym0_def flag_def symbol_flag_defs Eval_Binop_def
        eval_EQ_def eq [unfolded sym0_def] eval_LOr_def illegal_def Error_def Error_SuppressMsg_def errorCore_def MAXERR_def
        Input_Rest_def Let_def eval_convert_def)
  then show ?thesis by (simp add: eval_LOr_def)
qed

text \<open>
  C35. Comparing symbols overwrites the running evaluation.  When \<open>=\<close> or \<open><>\<close> finds two different symbols
  without a value on the top of the stack, it leaves the right truth value in their place, but the second
  symbol in the first element of the stack and of the program and a program of length one: whatever operands
  the stack holds below the two, the lowest of them is lost.
\<close>

theorem comparison_clobbers:
  assumes "op = eOp_EQ \<or> op = eOp_NE" and "p \<noteq> q"
    and "\<not> flag (attr_type (syms s p)) SYMBOL_DEFINED" and "\<not> flag (attr_type (syms s p)) SYMBOL_AREA"
    and "\<not> flag (attr_type (syms s q)) SYMBOL_DEFINED" and "\<not> flag (attr_type (syms s q)) SYMBOL_AREA"
    and "Stack s n = ValueSymbol f p i" and "Stack s (Suc n) = ValueSymbol g q j"
  shows "eval_operator (Value_Equal (Suc m)) 0 op (n + 2) s =
    Inr ((False, n + 1), s\<lparr>Program := (Program s)(0 := CodeValue (ValueSymbol g q j)), FirstFreeIns := 1,
      Stack := (Stack s)(0 := ValueSymbol g q j, n := ValueBool (op = eOp_NE))\<rparr>)"
proof -
  have "Value_Equal (Suc m) (ValueSymbol f p i) (ValueSymbol g q j) s =
    Inr (False, s\<lparr>Program := (Program s)(0 := CodeValue (ValueSymbol g q j)), FirstFreeIns := 1,
      Stack := (Stack s)(0 := ValueSymbol g q j)\<rparr>)"
    by (rule compare_symbols_clobbers) (use assms in auto)
  then show ?thesis
    using assms(1,7,8)
    by (auto simp: eval_operator_def Lex_IsUnop_def Eval_Binop_def eval_EQ_def eval_NE_def flag_def tag_defs
        simp del: Value_Equal.simps)
qed

theorem comparison_clobbers_witness:
  "\<exists>t. eval_operator (Value_Equal (Suc 0)) 0 eOp_EQ 3
        (asm0\<lparr>Stack := (\<lambda>_. ValueIllegal)(0 := ValueBool True, 1 := ValueSymbol 1 2 0, 2 := ValueSymbol 1 3 0)\<rparr>)
      = Inr ((False, 2), t) \<and> Stack t 0 = ValueSymbol 1 3 0 \<and> Stack t 1 = ValueBool False"
proof -
  let ?s = "asm0\<lparr>Stack := (\<lambda>_. ValueIllegal)(0 := ValueBool True, 1 := ValueSymbol 1 2 0, 2 := ValueSymbol 1 3 0)\<rparr>"
  have "\<not> flag (attr_type (syms ?s r)) SYMBOL_DEFINED" "\<not> flag (attr_type (syms ?s r)) SYMBOL_AREA" for r
    by (simp_all add: asm0_def sym0_def flag_def symbol_flag_defs)
  then show ?thesis
    using comparison_clobbers [of eOp_EQ 2 3 ?s 1 1 0 1 0 0] by (simp add: numeral_3_eq_3 numeral_2_eq_2)
qed

section \<open>Where operators can fail\<close>








end
