(* ===== verification/Input.thy ===== *)
theory Input
  imports Code_Stream
begin

text \<open>
  Reading the current line: \<^verbatim>\<open>input.c\<close>.  \<open>input_buff\<close> is the line and \<open>input_pos\<close> its unread rest, so that the
  character at \<^verbatim>\<open>*input_pos\<close> is the first of the rest, or NUL at its end.  A line holds no NUL characters.
\<close>

section \<open>Characters\<close>

text \<open>The classes of \<^verbatim>\<open>ctype.h\<close> in the C locale.\<close>

definition ccode :: "char \<Rightarrow> int" where
  "ccode c = of_char c"

definition isdigit :: "char \<Rightarrow> bool" where
  "isdigit c \<longleftrightarrow> 48 \<le> ccode c \<and> ccode c \<le> 57"

definition isalpha :: "char \<Rightarrow> bool" where
  "isalpha c \<longleftrightarrow> 65 \<le> ccode c \<and> ccode c \<le> 90 \<or> 97 \<le> ccode c \<and> ccode c \<le> 122"

definition isxdigit :: "char \<Rightarrow> bool" where
  "isxdigit c \<longleftrightarrow> isdigit c \<or> 65 \<le> ccode c \<and> ccode c \<le> 70 \<or> 97 \<le> ccode c \<and> ccode c \<le> 102"

definition isspace :: "char \<Rightarrow> bool" where
  "isspace c \<longleftrightarrow> 9 \<le> ccode c \<and> ccode c \<le> 13 \<or> ccode c = 32"

definition tolower :: "char \<Rightarrow> char" where
  "tolower c = (if 65 \<le> ccode c \<and> ccode c \<le> 90 then char_of (ccode c + 32) else c)"

definition NUL :: char where
  "NUL = CHR 0x00"

section \<open>Single characters\<close>

text \<open>\<^verbatim>\<open>input_pos[n]\<close>; behind the NUL the buffer holds what earlier lines left there.\<close>

definition peek :: "string \<Rightarrow> nat \<Rightarrow> char" where
  "peek str n = (if n < length str then str ! n else NUL)"

definition Input_Look :: "asm \<Rightarrow> char" where
  "Input_Look s = peek (input_pos s) 0"

definition Input_LookLower :: "asm \<Rightarrow> char" where
  "Input_LookLower s = tolower (Input_Look s)"

definition Input_LookN :: "nat \<Rightarrow> asm \<Rightarrow> char outcome" where
  "Input_LookN n s = (if n \<le> length (input_pos s) then Inr (peek (input_pos s) n) else Inl Undefined)"

definition Input_LookNLower :: "nat \<Rightarrow> asm \<Rightarrow> char outcome" where
  "Input_LookNLower n s = rbind (Input_LookN n s) (\<lambda>c. Inr (tolower c))"

definition Input_IsEolOrCommentStart :: "asm \<Rightarrow> bool" where
  "Input_IsEolOrCommentStart s \<longleftrightarrow>
     (let c = Input_Look s
      in c = NUL \<or> c = CHR '';'' \<or> c = CHR ''*'' \<and> length (input_pos s) = length (input_buff s))"

definition Input_Skip :: "asm \<Rightarrow> asm" where
  "Input_Skip s = (if Input_Look s \<noteq> NUL then s\<lparr>input_pos := tl (input_pos s)\<rparr> else s)"

definition Input_GetC :: "asm \<Rightarrow> char \<times> asm" where
  "Input_GetC s = (Input_Look s, Input_Skip s)"

definition Input_GetCLower :: "asm \<Rightarrow> char \<times> asm" where
  "Input_GetCLower s = (tolower (Input_Look s), Input_Skip s)"

text \<open>The character before the position is never NUL, so that NUL is only put back at the end of the line.\<close>

definition Input_UnGetC :: "char \<Rightarrow> asm \<Rightarrow> asm outcome" where
  "Input_UnGetC c s =
     (let k = length (input_buff s) - length (input_pos s)
      in if c \<noteq> NUL \<and> 0 < k \<and> input_buff s ! (k - 1) = c
         then Inr (s\<lparr>input_pos := c # input_pos s\<rparr>)
         else rbind (rassert (Input_Look s = NUL \<and> c = NUL)) (\<lambda>_. Inr s))"

definition Input_SkipN :: "nat \<Rightarrow> asm \<Rightarrow> asm outcome" where
  "Input_SkipN n s =
     rbind (rassert (n \<le> length (input_pos s))) (\<lambda>_. Inr (s\<lparr>input_pos := drop n (input_pos s)\<rparr>))"

definition Input_SkipWS :: "asm \<Rightarrow> asm" where
  "Input_SkipWS s = s\<lparr>input_pos := dropWhile isspace (input_pos s)\<rparr>"

definition Input_GetMark :: "asm \<Rightarrow> string" where
  "Input_GetMark s = input_pos s"

definition Input_RollBackToMark :: "string \<Rightarrow> asm \<Rightarrow> asm" where
  "Input_RollBackToMark mark s = s\<lparr>input_pos := mark\<rparr>"

section \<open>Words\<close>

definition Input_Match :: "char \<Rightarrow> bool \<Rightarrow> asm \<Rightarrow> bool \<times> asm" where
  "Input_Match c spacesToo s =
     (if c = NUL \<or> Input_Look s \<noteq> c then (False, s)
      else (True, s\<lparr>input_pos := (if spacesToo then dropWhile isspace (tl (input_pos s)) else tl (input_pos s))\<rparr>))"

text \<open>The number of characters that agree, \<^verbatim>\<open>matched\<close>.\<close>

fun matched :: "(char \<Rightarrow> char) \<Rightarrow> string \<Rightarrow> string \<Rightarrow> nat" where
  "matched f (c # cs) (k # ks) = (if f c = k then Suc (matched f cs ks) else 0)"
| "matched f _ _ = 0"

definition ends_keyword :: "char \<Rightarrow> bool" where
  "ends_keyword c \<longleftrightarrow> isspace c \<or> c = CHR '';'' \<or> c = NUL"

definition Input_MatchKeyword :: "string \<Rightarrow> asm \<Rightarrow> asm option" where
  "Input_MatchKeyword keyword s =
     (let n = matched id (input_pos s) keyword
      in if n = length keyword \<and> ends_keyword (peek (input_pos s) n)
         then Some (s\<lparr>input_pos := drop n (input_pos s)\<rparr>) else None)"

definition Input_MatchKeywordLower :: "string \<Rightarrow> asm \<Rightarrow> asm option" where
  "Input_MatchKeywordLower keyword s =
     (let n = matched tolower (input_pos s) keyword
      in if n = length keyword \<and> ends_keyword (peek (input_pos s) n)
         then Some (s\<lparr>input_pos := drop n (input_pos s)\<rparr>) else None)"

definition Input_MatchString :: "string \<Rightarrow> asm \<Rightarrow> asm option" where
  "Input_MatchString str s =
     (let n = matched id (input_pos s) str
      in if n = length str then Some (s\<lparr>input_pos := drop n (input_pos s)\<rparr>) else None)"

definition Input_MatchStringLower :: "string \<Rightarrow> asm \<Rightarrow> asm option" where
  "Input_MatchStringLower str s =
     (let n = matched tolower (input_pos s) str
      in if n = length str then Some (s\<lparr>input_pos := drop n (input_pos s)\<rparr>) else None)"

definition Input_IsEndOfKeywordN :: "nat \<Rightarrow> asm \<Rightarrow> bool outcome" where
  "Input_IsEndOfKeywordN n s = rbind (Input_LookN n s) (\<lambda>c. Inr (ends_keyword c))"

text \<open>The characters of a symbol without bars.\<close>

definition id_start :: "char \<Rightarrow> bool" where
  "id_start c \<longleftrightarrow> isalpha c \<or> c = CHR ''_''"

definition id_part :: "char \<Rightarrow> bool" where
  "id_part c \<longleftrightarrow> isalpha c \<or> isdigit c \<or> c = CHR ''_''"

definition id_length :: "string \<Rightarrow> nat" where
  "id_length str =
     (case str of [] \<Rightarrow> 0 | c # cs \<Rightarrow> if id_start c then Suc (length (takeWhile id_part cs)) else 0)"

definition Input_SymbolNoBar :: "asm \<Rightarrow> string option \<times> asm" where
  "Input_SymbolNoBar s =
     (let len = id_length (input_pos s)
      in (if len \<noteq> 0 then Some (take len (input_pos s)) else None, s\<lparr>input_pos := drop len (input_pos s)\<rparr>))"

text \<open>The search for the closing bar or bars: the length of the symbol, if there is one.\<close>

fun bar_length :: "bool \<Rightarrow> string \<Rightarrow> nat option" where
  "bar_length isDbl [] = None"
| "bar_length isDbl (c # cs) =
     (if c = CHR ''|'' \<and> (\<not> isDbl \<or> peek cs 0 = CHR ''|'') then Some 0
      else map_option Suc (bar_length isDbl cs))"

definition Input_Symbol :: "asm \<Rightarrow> (string option \<times> asm) outcome" where
  "Input_Symbol s =
     (if Input_Look s \<noteq> CHR ''|'' then Inr (Input_SymbolNoBar s)
      else
        let isDbl = (peek (input_pos s) 1 = CHR ''|'');
            rest = drop (if isDbl then 2 else 1) (input_pos s)
        in (case bar_length isDbl rest of
              None \<Rightarrow>
                rbind (Error ErrorError ''Failed to read symbol (forgot second %s ?)'' (s\<lparr>input_pos := rest\<rparr>))
                  (\<lambda>s. Inr (None, s))
            | Some len \<Rightarrow>
                Inr (if len \<noteq> 0 then Some (take len rest) else None,
                     s\<lparr>input_pos := drop (len + (if isDbl then 2 else 1)) rest\<rparr>)))"

text \<open>An argument ends before a comma, a comment or the end of the line.\<close>

fun arg_length :: "bool \<Rightarrow> string \<Rightarrow> nat" where
  "arg_length atStart [] = 0"
| "arg_length atStart (c # cs) =
     (if c = CHR '';'' \<or> c = CHR '','' \<or> c = CHR ''*'' \<and> atStart then 0 else Suc (arg_length False cs))"

definition Input_Argument :: "asm \<Rightarrow> string \<times> asm" where
  "Input_Argument s =
     (let n = arg_length (length (input_pos s) = length (input_buff s)) (input_pos s)
      in (take n (input_pos s), s\<lparr>input_pos := drop n (input_pos s)\<rparr>))"

section \<open>Strings\<close>

definition digit_num :: "char \<Rightarrow> int" where
  "digit_num c = (if isdigit c then ccode c - 48 else if 97 \<le> ccode c then ccode c - 87 else ccode c - 55)"

definition digit_val :: "char \<Rightarrow> u32" where
  "digit_val c = of_int (digit_num c)"

text \<open>The digits of a hex escape; the warning comes once.\<close>

fun hex_escape :: "string \<Rightarrow> u32 \<Rightarrow> bool \<Rightarrow> asm \<Rightarrow> (u32 \<times> asm) outcome" where
  "hex_escape [] intResult gaveWarning s = Inr (intResult, s)"
| "hex_escape (c # cs) intResult gaveWarning s =
     (let intResult = 16 * intResult + digit_val c
      in rbind (if intResult \<ge> 0x100 \<and> \<not> gaveWarning
                then Error ErrorWarning ''Hex escape sequence out of range'' s else Inr s) (\<lambda>s.
           hex_escape cs intResult (gaveWarning \<or> intResult \<ge> 0x100) (Input_Skip s)))"

definition octal :: "char \<Rightarrow> bool" where
  "octal c \<longleftrightarrow> 48 \<le> ccode c \<and> ccode c \<le> 55"

text \<open>Further octal digits, two at most; \<^verbatim>\<open>c\<close> is an \<^verbatim>\<open>unsigned char\<close>.\<close>

definition octal_escape :: "char \<Rightarrow> asm \<Rightarrow> char \<times> asm" where
  "octal_escape c0 s =
     (let ds = c0 # takeWhile octal (take 2 (input_pos s));
          n = fold (\<lambda>d n. (8 * n + (ccode d - 48)) mod 256) ds 0
      in (char_of n, s\<lparr>input_pos := drop (length ds - 1) (input_pos s)\<rparr>))"

text \<open>The character an escape stands for.\<close>

definition get_escape :: "asm \<Rightarrow> (char \<times> asm) outcome" where
  "get_escape s =
     (let (c, s) = Input_GetC s
      in if octal c then Inr (octal_escape c s)
         else if c = CHR ''x''
         then (if \<not> isxdigit (Input_Look s)
               then rbind (Error ErrorWarning ''Not a hex escape sequence'' s) (\<lambda>s.
                    rbind (Input_UnGetC (CHR ''x'') s) (\<lambda>s. Inr (c, s)))
               else rbind (hex_escape (takeWhile isxdigit (input_pos s)) 0 False s) (\<lambda>(i, s).
                    Inr (char_of (uint i mod 256), s)))
         else if c = CHR ''a'' then Inr (CHR 0x07, s)
         else if c = CHR ''b'' then Inr (CHR 0x08, s)
         else if c = CHR ''f'' then Inr (CHR 0x0C, s)
         else if c = CHR ''n'' then Inr (CHR 0x0A, s)
         else if c = CHR ''r'' then Inr (CHR 0x0D, s)
         else if c = CHR ''t'' then Inr (CHR 0x09, s)
         else if c = CHR ''v'' then Inr (CHR 0x0B, s)
         else if c = CHR 0x5C \<or> c = CHR 0x22 \<or> c = CHR ''?'' \<or> c = CHR 0x27 then Inr (c, s)
         else rbind (Error ErrorWarning ''Unknown escape sequence'' s) (\<lambda>s. Inr (c, s)))"

text \<open>
  The loop: each round reads at least one character, or it is the last, so that it ends before as many
  rounds as the rest of the line has characters and one.
\<close>

fun string_loop :: "nat \<Rightarrow> string \<Rightarrow> asm \<Rightarrow> (string \<times> asm) outcome" where
  "string_loop 0 acc s = Inl OutOfFuel"
| "string_loop (Suc fuel) acc s =
     (let (c, s) = Input_GetC s
      in if c = NUL then rbind (Error ErrorError ''String continues over newline'' s) (\<lambda>s. Inr (acc, s))
         else if c = CHR 0x22
         then (if Input_Look s \<noteq> CHR 0x22 then Inr (acc, s) else string_loop fuel (acc @ [c]) (Input_Skip s))
         else if c = CHR 0x5C then rbind (get_escape s) (\<lambda>(c, s). string_loop fuel (acc @ [c]) s)
         else string_loop fuel (acc @ [c]) s)"

definition Input_GetString :: "asm \<Rightarrow> (string \<times> asm) outcome" where
  "Input_GetString s = string_loop (Suc (length (input_pos s))) [] s"

end
