(* ===== verification/Local_Labels.thy ===== *)
theory Local_Labels
  imports Input
begin

text \<open>
  Definitions of symbols (\<^verbatim>\<open>Symbol_Define\<close> of \<^verbatim>\<open>symbol.c\<close>) and local labels (\<^verbatim>\<open>local.c\<close>).  A local label is a
  number; each of its instances becomes a symbol with a name made of the area, the routine, the macro
  depth, the number and a running instance count.  References forward get a symbol of their own, which is
  defined as the label when it comes.  The names of files and lines that messages show are left out.
\<close>

section \<open>Defining symbols\<close>

definition Symbol_Define :: "nat \<Rightarrow> symref \<Rightarrow> u32 \<Rightarrow> Value \<Rightarrow> asm \<Rightarrow> (bool \<times> asm) outcome" where
  "Symbol_Define fuel r newSymbolType newValue s =
     (if flag (attr_type (syms s r)) SYMBOL_AREA
      then rbind (Error ErrorError ''Area %s can not be redefined'' s) (\<lambda>s.
           rbind (Error_Line ErrorError ''note: Area was defined here'' s) (\<lambda>s. Inr (True, s)))
      else rbind (rassert (newSymbolType AND SYMBOL_AREA = 0)) (\<lambda>_.
           rbind (if flag (attr_type (syms s r)) SYMBOL_DEFINED \<and> attr_value (syms s r) \<noteq> ValueIllegal
                  then Value_Equal fuel (attr_value (syms s r)) newValue s else Inr (True, s)) (\<lambda>(same, s).
             if \<not> same
             then rbind (Error ErrorError ''%c%s %s can not be redefined with a different value'' s) (\<lambda>s.
                  rbind (if attr_fileName (syms s r) \<noteq> FS_GetCurFileName s
                            \<or> attr_lineNumber (syms s r) \<noteq> FS_GetCurLineNumber s
                         then Error_Line ErrorError ''note: previous definition was done here'' s else Inr s)
                    (\<lambda>s. Inr (True, s)))
             else Inr (False, upd_sym r (\<lambda>y. y\<lparr>attr_type := attr_type y OR (newSymbolType OR SYMBOL_DEFINED),
                                             attr_value := newValue\<rparr>) s))))"

section \<open>Names\<close>

text \<open>Numbers as \<^verbatim>\<open>%u\<close>, \<^verbatim>\<open>%08u\<close>, \<^verbatim>\<open>%i\<close> and \<^verbatim>\<open>%08i\<close> print them.\<close>

definition zero_pad :: "nat \<Rightarrow> string \<Rightarrow> string" where
  "zero_pad w = pad_left w (CHR ''0'')"

definition fmt_u :: "u32 \<Rightarrow> string" where
  "fmt_u i = dec_digits (unat i)"

definition fmt_08u :: "u32 \<Rightarrow> string" where
  "fmt_08u i = zero_pad 8 (fmt_u i)"

definition fmt_i :: "u32 \<Rightarrow> string" where
  "fmt_i i = (if sint i < 0 then CHR ''-'' # dec_digits (nat (- sint i)) else dec_digits (nat (sint i)))"

definition fmt_08i :: "u32 \<Rightarrow> string" where
  "fmt_08i i =
     (if sint i < 0 then CHR ''-'' # zero_pad 7 (dec_digits (nat (- sint i)))
      else zero_pad 8 (dec_digits (nat (sint i))))"

definition kIntLabelPrefix :: string where
  "kIntLabelPrefix = ''$$AsAsm$$Int$$''"

definition local_name :: "string \<Rightarrow> u32 \<Rightarrow> nat \<Rightarrow> u32 \<Rightarrow> u32 \<Rightarrow> string" where
  "local_name ptr routine macroDepth num inst =
     kIntLabelPrefix @ ''Local$$'' @ ptr @ ''$$'' @ fmt_u routine @ ''$$'' @ fmt_u (of_nat macroDepth) @ ''$$''
       @ fmt_08u num @ ''$$'' @ fmt_u inst"

definition fwd_name :: "u32 \<Rightarrow> u32 \<Rightarrow> string" where
  "fwd_name label counter = kIntLabelPrefix @ ''FwdLocal$$'' @ fmt_08i label @ ''$$'' @ fmt_i counter"

text \<open>The buffers the names are printed into have 256 characters.\<close>

definition fits_name :: "string \<Rightarrow> bool" where
  "fits_name str \<longleftrightarrow> length str < 256"

definition Local_CreateSymbol :: "Local_Label_t \<Rightarrow> nat \<Rightarrow> bool \<Rightarrow> asm \<Rightarrow> string outcome" where
  "Local_CreateSymbol lbl macroDepth isNext s =
     rbind (rassert (isNext \<or> 0 < lbl_instance lbl)) (\<lambda>_.
     rbind (cur_sym s) (\<lambda>r.
     let name = local_name (host_ptr s r) (rout_counter (oLocal_CurROUT (localVars s))) macroDepth (lbl_num lbl)
                  (if isNext then lbl_instance lbl else lbl_instance lbl - 1)
     in rbind (rassert (fits_name name)) (\<lambda>_. Inr name)))"

section \<open>Labels\<close>

definition PARSEOBJECT_STACK_SIZE :: nat where
  "PARSEOBJECT_STACK_SIZE = 32"

definition upd_local :: "(Local_Vars \<Rightarrow> Local_Vars) \<Rightarrow> asm \<Rightarrow> asm" where
  "upd_local f s = s\<lparr>localVars := f (localVars s)\<rparr>"

text \<open>The macros among the parsable objects above the first.\<close>

definition FS_GetMacroDepth :: "asm \<Rightarrow> nat outcome" where
  "FS_GetMacroDepth s =
     rbind (rassert (gPOStack s \<noteq> [])) (\<lambda>_.
       Inr (length (filter (\<lambda>po. po_type po = POType_eMacro) (butlast (gPOStack s)))))"

definition Local_GetLabel :: "nat \<Rightarrow> u32 \<Rightarrow> asm \<Rightarrow> Local_Label_t option outcome" where
  "Local_GetLabel macroDepth num s =
     (if macroDepth < PARSEOBJECT_STACK_SIZE
      then Inr (find (\<lambda>l. lbl_num l = num) (oLocal_LabelNumP (localVars s) macroDepth (unat num mod 32)))
      else Inl Undefined)"

definition Local_ReportMissingFwdLabel :: "asm \<Rightarrow> asm outcome" where
  "Local_ReportMissingFwdLabel s = Error_Line ErrorError ''Missing local label %%%s%s%i'' s"

text \<open>All references that wait are reported and dropped, one by one.\<close>

fun report_all :: "nat \<Rightarrow> asm \<Rightarrow> asm outcome" where
  "report_all 0 s = Inr s"
| "report_all (Suc n) s =
     rbind (Local_ReportMissingFwdLabel s) (\<lambda>s.
       report_all n (upd_local (\<lambda>l. l\<lparr>oLocal_OutstandingForwardP := tl (oLocal_OutstandingForwardP l)\<rparr>) s))"

definition Local_FinishPhaseOrROUT :: "asm \<Rightarrow> asm outcome" where
  "Local_FinishPhaseOrROUT s = report_all (length (oLocal_OutstandingForwardP (localVars s))) s"

definition Local_ResetLabels :: "asm \<Rightarrow> asm" where
  "Local_ResetLabels = upd_local (\<lambda>l. l\<lparr>oLocal_LabelNumP := (\<lambda>_ _. [])\<rparr>)"

definition Local_PrepareForPhase :: "Phase_e \<Rightarrow> asm \<Rightarrow> asm outcome" where
  "Local_PrepareForPhase phase s =
     (if phase = ePassTwo \<or> phase = eOutput
      then rbind (Local_FinishPhaseOrROUT s) (\<lambda>s.
             Inr (upd_local (\<lambda>l. l\<lparr>oLocal_OutstandingForwardCounter := 0,
                     oLocal_CurROUT := \<lparr>rout_id = None, rout_counter = 0, rout_known = False\<rparr>\<rparr>)
                   (Local_ResetLabels s)))
      else Inr s)"

text \<open>At the end of a macro: the references of this level are reported, unless \<^verbatim>\<open>noCheck\<close>, and dropped.\<close>

fun finish_macro :: "nat \<Rightarrow> bool \<Rightarrow> Local_OutstandingForward list \<Rightarrow> asm \<Rightarrow> (Local_OutstandingForward list \<times> asm) outcome" where
  "finish_macro macroDepth noCheck [] s = Inr ([], s)"
| "finish_macro macroDepth noCheck (f # fs) s =
     rbind (rassert (fwd_level f \<noteq> eThisLevelOnly \<or> fwd_macroDepth f \<le> macroDepth)) (\<lambda>_.
       if fwd_level f = eThisLevelOnly \<and> fwd_macroDepth f = macroDepth
       then rbind (if noCheck then Inr s else Local_ReportMissingFwdLabel s) (finish_macro macroDepth noCheck fs)
       else rbind (finish_macro macroDepth noCheck fs s) (\<lambda>(rest, s). Inr (f # rest, s)))"

definition Local_FinishMacro :: "bool \<Rightarrow> asm \<Rightarrow> asm outcome" where
  "Local_FinishMacro noCheck s =
     rbind (FS_GetMacroDepth s) (\<lambda>macroDepth.
     rbind (finish_macro macroDepth noCheck (oLocal_OutstandingForwardP (localVars s)) s) (\<lambda>(rest, s).
       Inr (upd_local (\<lambda>l. l\<lparr>oLocal_OutstandingForwardP := rest\<rparr>) s)))"

text \<open>Whether a definition at \<open>macroDepth\<close> resolves a reference.\<close>

definition resolves :: "u32 \<Rightarrow> nat \<Rightarrow> Local_OutstandingForward \<Rightarrow> bool" where
  "resolves labelNum macroDepth f \<longleftrightarrow>
     fwd_label f = labelNum
     \<and> (case fwd_level f of
          eThisLevelOnly \<Rightarrow> fwd_macroDepth f = macroDepth
        | eAllLevels \<Rightarrow> True
        | eThisLevelAndHigher \<Rightarrow> fwd_macroDepth f \<ge> macroDepth)"

text \<open>The references that wait, in order: the ones that are resolved get their symbol defined.\<close>

fun resolve_forwards :: "nat \<Rightarrow> Local_Label_t \<Rightarrow> nat \<Rightarrow> Local_OutstandingForward list \<Rightarrow> asm
    \<Rightarrow> (Local_OutstandingForward list \<times> asm) outcome" where
  "resolve_forwards fuel lbl macroDepth [] s = Inr ([], s)"
| "resolve_forwards fuel lbl macroDepth (f # fs) s =
     (if resolves (lbl_num lbl) macroDepth f
      then
        let fwdSym = fwd_name (fwd_label f) (fwd_counter f)
        in rbind (rassert (fits_name fwdSym)) (\<lambda>_.
           let (keySymbol, s) = Symbol_Get fwdSym s
           in rbind (Local_CreateSymbol lbl macroDepth True s) (\<lambda>lblSym.
              let (valueSymbol, s) = Symbol_Get lblSym s
              in rbind (Symbol_Define fuel keySymbol SYMBOL_NO_EXPORT (ValueSymbol 1 valueSymbol 0) s) (\<lambda>(err, s).
                 rbind (rassert (\<not> err)) (\<lambda>_. resolve_forwards fuel lbl macroDepth fs s))))
      else rbind (resolve_forwards fuel lbl macroDepth fs s) (\<lambda>(rest, s). Inr (f # rest, s)))"

definition find_or_add :: "u32 \<Rightarrow> Local_Label_t list \<Rightarrow> Local_Label_t \<times> Local_Label_t list" where
  "find_or_add labelNum ls =
     (case find (\<lambda>l. lbl_num l = labelNum) ls of
        Some l \<Rightarrow> (l, ls)
      | None \<Rightarrow> let l = \<lparr>lbl_num = labelNum, lbl_instance = 0\<rparr> in (l, ls @ [l]))"

definition set_labels :: "nat \<Rightarrow> nat \<Rightarrow> Local_Label_t list \<Rightarrow> asm \<Rightarrow> asm" where
  "set_labels d i ls = upd_local (\<lambda>l. l\<lparr>oLocal_LabelNumP := (oLocal_LabelNumP l)(d := (oLocal_LabelNumP l d)(i := ls))\<rparr>)"

definition Local_DefineLabel :: "nat \<Rightarrow> u32 \<Rightarrow> asm \<Rightarrow> (Local_Label_t \<times> asm) outcome" where
  "Local_DefineLabel fuel labelNum s =
     rbind (FS_GetMacroDepth s) (\<lambda>macroDepth.
       if macroDepth \<ge> PARSEOBJECT_STACK_SIZE then Inl Undefined
       else
         let i = unat labelNum mod 32;
             (lbl, ls) = find_or_add labelNum (oLocal_LabelNumP (localVars s) macroDepth i);
             s = set_labels macroDepth i ls s
         in rbind (resolve_forwards fuel lbl macroDepth (oLocal_OutstandingForwardP (localVars s)) s) (\<lambda>(rest, s).
              Inr (lbl, upd_local (\<lambda>l. l\<lparr>oLocal_OutstandingForwardP := rest\<rparr>) s)))"

definition Local_CreateSymbolForOutstandingFwdLabelRef ::
    "LocalLabel_eLevel \<Rightarrow> LocalLabel_eDir \<Rightarrow> u32 \<Rightarrow> asm \<Rightarrow> (string \<times> asm) outcome" where
  "Local_CreateSymbolForOutstandingFwdLabelRef level dir label s =
     rbind (FS_GetMacroDepth s) (\<lambda>macroDepth.
       let counter = oLocal_OutstandingForwardCounter (localVars s);
           f = \<lparr>fwd_counter = counter, fwd_level = level, fwd_dir = dir, fwd_label = label, fwd_macroDepth = macroDepth\<rparr>;
           s = upd_local (\<lambda>l. l\<lparr>oLocal_OutstandingForwardP := f # oLocal_OutstandingForwardP l,
                                oLocal_OutstandingForwardCounter := counter + 1\<rparr>) s;
           name = fwd_name label counter
       in rbind (rassert (fits_name name)) (\<lambda>_. Inr (name, s)))"

definition Local_IsLocalLabel :: "string \<Rightarrow> bool" where
  "Local_IsLocalLabel str \<longleftrightarrow> take (length kIntLabelPrefix) str = kIntLabelPrefix"

end
