(* ===== verification/Builtins.thy ===== *)
theory Builtins
  imports Local_Labels
begin

text \<open>
  Lexical elements (\<^verbatim>\<open>lex.h\<close>) and the built-in variables of \<^verbatim>\<open>Lex_GetBuiltinVariable\<close> in \<^verbatim>\<open>lex.c\<close>, with the
  functions of \<^verbatim>\<open>filestack.c\<close> and \<^verbatim>\<open>targetcpu.c\<close> they read.
\<close>

datatype Lex =
    LexId string
  | LexLocalLabel string
  | LexString string
  | LexInt u32
  | LexInt64 u64
  | LexFloat ARMFloat
  | LexOperator Operator_e nat
  | LexPosition
  | LexStorage
  | LexDelim char
  | LexBool bool
  | LexNone

section \<open>Line numbers and the target\<close>

definition bottom_line :: "asm \<Rightarrow> u32 outcome" where
  "bottom_line s =
     rbind (rassert (gPOStack s \<noteq> [])) (\<lambda>_.
     rbind (rassert (po_type (last (gPOStack s)) \<noteq> POType_eMacro)) (\<lambda>_. Inr (po_lineNum (last (gPOStack s)))))"

definition macro_line :: "PObject \<Rightarrow> u32" where
  "macro_line po = po_lineNum po - startLineNum (po_macro po)"

definition FS_GetBuiltinVarLineNum :: "asm \<Rightarrow> u32 outcome" where
  "FS_GetBuiltinVarLineNum = bottom_line"

definition FS_GetBuiltinVarLineNumUp :: "asm \<Rightarrow> u32 outcome" where
  "FS_GetBuiltinVarLineNumUp s =
     rbind (rassert (gPOStack s \<noteq> [])) (\<lambda>_.
       if po_type (hd (gPOStack s)) = POType_eMacro then Inr (macro_line (hd (gPOStack s))) else bottom_line s)"

definition FS_GetBuiltinVarLineNumUpper :: "asm \<Rightarrow> u32 outcome" where
  "FS_GetBuiltinVarLineNumUpper s =
     rbind (rassert (gPOStack s \<noteq> [])) (\<lambda>_.
       case find (\<lambda>po. po_type po = POType_eMacro) (rev (gPOStack s)) of
         Some po \<Rightarrow> Inr (macro_line po)
       | None \<Rightarrow> bottom_line s)"

definition Target_GetCPU :: "asm \<Rightarrow> string" where
  "Target_GetCPU s = (if oTarget_isArch (targetVars s) then ''Generic ARM'' else oTarget_cpu_arch (targetVars s))"

text \<open>An architecture is identified by its name, which is unique in \<^verbatim>\<open>oCPUArchList\<close>.\<close>

definition Target_GetArch :: "bool \<Rightarrow> asm \<Rightarrow> string" where
  "Target_GetArch qualifiers s =
     (if \<not> qualifiers \<and> oTarget_isArch (targetVars s) \<and> oTarget_cpu_arch (targetVars s) = ''7-A.security'' then ''7-A''
      else if oTarget_isArch (targetVars s) then oTarget_cpu_arch (targetVars s)
      else oTarget_arch (targetVars s))"

definition Target_GetFPU :: "asm \<Rightarrow> string" where
  "Target_GetFPU s = oTarget_fpu (targetVars s)"

definition "kCPUExt_v3M = (0x0000000010 :: u64)"
definition "kCPUExt_v5ExP = (0x0000000200 :: u64)"
definition "kCPUExt_v5E = (0x0000000400 :: u64)"
definition "kCPUExt_v6K = (0x0000002000 :: u64)"
definition "kCPUExt_v7M = (0x0000020000 :: u64)"
definition "kCPUExt_v6M = (0x0000040000 :: u64)"
definition "kCPUExt_BARRIER = (0x0000080000 :: u64)"
definition "kCPUExt_THUMB_MSR = (0x0000100000 :: u64)"
definition "kCPUExt_Div = (0x0000400000 :: u64)"
definition "kCPUExt_MP = (0x0001000000 :: u64)"
definition "kArchExt_v7 = kCPUExt_v4T OR kCPUExt_v5 OR kCPUExt_v5T OR kCPUExt_v5E OR kCPUExt_v6 OR kCPUExt_v6K
  OR kCPUExt_v6T2 OR kCPUExt_BARRIER OR kCPUExt_THUMB_MSR"
definition "kFPUExt_NoEndianMismatch = (0x00000001 :: u32)"
definition "kFPUExt_FPAv1 = (0x00000002 :: u32)"
definition "kFPUExt_FPAv2 = (0x00000004 :: u32)"
definition "kFPUExt_VFPv1xD = (0x00000008 :: u32)"
definition "kFPUExt_VFPv1 = (0x00000010 :: u32)"
definition "kFPUExt_VFPv2 = (0x00000020 :: u32)"
definition "kFPUExt_VFPv3xD = (0x00000040 :: u32)"
definition "kFPUExt_VFPv3 = (0x00000080 :: u32)"
definition "kFPUExt_D16D32 = (0x00000100 :: u32)"
definition "kFPUExt_FP16 = (0x00000200 :: u32)"
definition "kFPUExt_VFP_FMA = (0x00000400 :: u32)"
definition "kFPUExt_NEONv1 = (0x00001000 :: u32)"
definition "kFPUExt_SoftVFP = (0x40000000 :: u32)"
definition "kFPUExt_SoftFPA = (0x80000000 :: u32)"

section \<open>The table of built-in variables\<close>

definition has_cpu :: "asm \<Rightarrow> u64 \<Rightarrow> bool" where
  "has_cpu s m \<longleftrightarrow> Target_GetCPUFeatures s AND m \<noteq> 0"

text \<open>The features \<open>m\<close> of the floating point unit.\<close>

definition fpu :: "asm \<Rightarrow> u32 \<Rightarrow> u32" where
  "fpu s m = Target_GetFPUFeatures s AND m"

definition "fpa_units = kFPUExt_FPAv1 OR kFPUExt_FPAv2"
definition "vfp_units = kFPUExt_VFPv1xD OR kFPUExt_VFPv2 OR kFPUExt_VFPv3xD"
definition "soft_units = kFPUExt_NoEndianMismatch OR kFPUExt_SoftFPA OR kFPUExt_SoftVFP"
definition "vfpv4_units = vfp_units OR kFPUExt_FP16 OR kFPUExt_VFP_FMA"

text \<open>
  The variables in the order the code tries them, with what follows the opening bracket in lower case.
  The flag marks the one that is matched as a keyword, so that a space, a comment or the end of the line
  has to follow.
\<close>

type_synonym builtin = "string \<times> bool \<times> (asm \<Rightarrow> Lex outcome)"

definition boolean :: "(asm \<Rightarrow> bool) \<Rightarrow> asm \<Rightarrow> Lex outcome" where
  "boolean f s = Inr (LexBool (f s))"

definition plain_builtins :: "builtin list" where
  "plain_builtins =
     [(''asasm_version}'', False, \<lambda>s. Inr (LexInt (asasm_version s))),
      (''architecture}'', False, \<lambda>s. Inr (LexString (Target_GetArch True s))),
      (''areaname}'', False, \<lambda>s. rbind (cur_sym s) (\<lambda>r. Inr (LexString (sym_str (syms s r))))),
      (''codesize}'', False, \<lambda>s. Inr (LexInt (if State_GetInstrType s = eInstrType_ARM then 32 else 16))),
      (''config}'', False, \<lambda>s. Inr (LexInt (if State_GetInstrType s = eInstrType_ARM
           then if flag (gOptionAPCS s) APCS_OPT_32BIT then 32 else 26 else 16))),
      (''cpu}'', False, \<lambda>s. Inr (LexString (Target_GetCPU s))),
      (''endian}'', False, \<lambda>s. Inr (LexString ''little'')),
      (''false}'', False, boolean (\<lambda>s. False)),
      (''fpu}'', False, \<lambda>s. Inr (LexString (Target_GetFPU s))),
      (''inputfile}'', False, \<lambda>s. Inr (LexString (FS_GetCurFileName s))),
      (''inter}'', False, boolean (\<lambda>s. flag (gOptionAPCS s) APCS_OPT_INTERWORK)),
      (''linenum}'', False, \<lambda>s. rbind (FS_GetBuiltinVarLineNum s) (\<lambda>n. Inr (LexInt n))),
      (''linenumup}'', False, \<lambda>s. rbind (FS_GetBuiltinVarLineNumUp s) (\<lambda>n. Inr (LexInt n))),
      (''linenumupper}'', False, \<lambda>s. rbind (FS_GetBuiltinVarLineNumUpper s) (\<lambda>n. Inr (LexInt n))),
      (''opt}'', False, \<lambda>s. Inr (LexInt (gOpt_DirectiveValue s))),
      (''pc}'', False, \<lambda>s. Inr LexPosition),
      (''ropi}'', False, boolean (\<lambda>s. flag (gOptionAPCS s) APCS_OPT_ROPI)),
      (''reentrant}'', False, boolean (\<lambda>s. flag (gOptionAPCS s) APCS_OPT_REENTRANT)),
      (''rwpi}'', True, boolean (\<lambda>s. flag (gOptionAPCS s) APCS_OPT_REENTRANT)),
      (''true}'', False, boolean (\<lambda>s. True)),
      (''ual}'', False, boolean (\<lambda>s. State_GetSyntax s = eSyntax_UALOnly)),
      (''var}'', False, \<lambda>s. Inr LexStorage)]"

definition oArchs :: "(string \<times> string) list" where
  "oArchs =
     [(''1}'', ''1''), (''2}'', ''2''), (''2a}'', ''2a''), (''3}'', ''3''), (''3g}'', ''3G''), (''3m}'', ''3M''),
      (''4xm}'', ''4xM''), (''4}'', ''4''), (''4txm}'', ''4TxM''), (''4t}'', ''4T''), (''5xm}'', ''5xM''), (''5}'', ''5''),
      (''5txm}'', ''5TxM''), (''5t}'', ''5T''), (''5texp}'', ''5TExP''), (''5te}'', ''5TE''), (''5tej}'', ''5TEJ''),
      (''6}'', ''6''), (''6k}'', ''6K''), (''6t2}'', ''6T2''), (''6z}'', ''6Z''), (''6_m}'', ''6-M''), (''6s_m}'', ''6S-M''),
      (''7}'', ''7''), (''7_a}'', ''7-A''), (''7_r}'', ''7-R''), (''7_m}'', ''7-M''), (''7e_m}'', ''7E-M''), (''8}'', ''8''),
      (''8_a}'', ''8-A'')]"

definition arch_builtins :: "builtin list" where
  "arch_builtins =
     (''target_arch_arm}'', False, \<lambda>s. Inr (LexInt (of_nat (Target_GetARMISAVersion s))))
     # (''target_arch_thumb}'', False, \<lambda>s. Inr (LexInt (of_nat (Target_GetThumbISAVersion s))))
     # map (\<lambda>(i, norm). (''target_arch_'' @ i, False, boolean (\<lambda>s. Target_GetArch False s = norm))) oArchs"

definition feature_builtins :: "builtin list" where
  "feature_builtins = map (\<lambda>(n, f). (''target_feature_'' @ n, False, f))
     [(''clz}'', boolean (\<lambda>s. Target_GetARMISAVersion s \<ge> 5 \<or> Target_GetThumbISAVersion s \<ge> 4)),
      (''divide}'', boolean (\<lambda>s. has_cpu s kCPUExt_Div)),
      (''doubleword}'', boolean (\<lambda>s. has_cpu s kCPUExt_v5E
          \<and> Target_GetCPUFeatures s AND (kCPUExt_v6M OR kCPUExt_v7M) \<noteq> kCPUExt_v6M)),
      (''dspmul}'', boolean (\<lambda>s. has_cpu s kCPUExt_v5ExP)),
      (''extension_register_count}'', \<lambda>s. Inr (LexInt
          (if fpu s (kFPUExt_VFPv1 OR kFPUExt_VFPv2 OR kFPUExt_VFPv3) \<noteq> 0
           then if fpu s kFPUExt_D16D32 \<noteq> 0 then 32 else 16 else 0))),
      (''multiply}'', boolean (\<lambda>s. has_cpu s (kCPUExt_v3M OR kCPUExt_v7M) \<or> Target_GetCPUFeatures s = kArchExt_v7)),
      (''multiprocessing}'', boolean (\<lambda>s. has_cpu s kCPUExt_MP)),
      (''neon}'', boolean (\<lambda>s. fpu s kFPUExt_NEONv1 \<noteq> 0)),
      (''neon_fp16}'', boolean (\<lambda>s. fpu s (kFPUExt_NEONv1 OR kFPUExt_FP16) = kFPUExt_NEONv1 OR kFPUExt_FP16)),
      (''neon_fp32}'', boolean (\<lambda>s. fpu s kFPUExt_NEONv1 \<noteq> 0 \<and> fpu s vfp_units \<noteq> 0)),
      (''neon_integer}'', boolean (\<lambda>s. fpu s kFPUExt_NEONv1 \<noteq> 0 \<and> fpu s vfp_units = 0)),
      (''unaligned}'', boolean (\<lambda>s. has_cpu s kCPUExt_v6
          \<and> Target_GetCPUFeatures s AND (kCPUExt_v6M OR kCPUExt_v7M) \<noteq> kCPUExt_v6M))]"

definition fpu_builtins :: "builtin list" where
  "fpu_builtins = map (\<lambda>(n, f). (''target_fpu_'' @ n, False, boolean f))
     [(''fpa}'', \<lambda>s. fpu s vfp_units = 0 \<and> fpu s fpa_units \<noteq> 0),
      (''softfpa}'', \<lambda>s. fpu s (soft_units OR fpa_units OR vfp_units) = kFPUExt_SoftFPA),
      (''softfpa_fpa}'', \<lambda>s. fpu s (soft_units OR vfp_units) = kFPUExt_SoftFPA \<and> fpu s fpa_units \<noteq> 0),
      (''softfpa_vfp}'', \<lambda>s. fpu s (soft_units OR fpa_units) = kFPUExt_SoftFPA \<and> fpu s vfp_units \<noteq> 0),
      (''softvfp}'', \<lambda>s. fpu s (soft_units OR fpa_units OR vfp_units) = kFPUExt_NoEndianMismatch OR kFPUExt_SoftVFP),
      (''softvfp_fpa}'', \<lambda>s. fpu s (soft_units OR vfp_units) = kFPUExt_NoEndianMismatch OR kFPUExt_SoftVFP
          \<and> fpu s fpa_units \<noteq> 0),
      (''softvfp_vfp}'', \<lambda>s. fpu s (soft_units OR fpa_units) = kFPUExt_NoEndianMismatch OR kFPUExt_SoftVFP
          \<and> fpu s vfp_units \<noteq> 0),
      (''vfp}'', \<lambda>s. fpu s fpa_units = 0 \<and> fpu s vfp_units \<noteq> 0),
      (''vfpv1}'', \<lambda>s. fpu s fpa_units = 0 \<and> fpu s (vfp_units OR kFPUExt_VFP_FMA) = kFPUExt_VFPv1xD),
      (''vfpv2}'', \<lambda>s. fpu s fpa_units = 0
          \<and> fpu s (vfp_units OR kFPUExt_VFP_FMA) = kFPUExt_VFPv1xD OR kFPUExt_VFPv2),
      (''vfpv3}'', \<lambda>s. fpu s fpa_units = 0 \<and> fpu s vfp_units = vfp_units \<and> fpu s vfpv4_units \<noteq> vfpv4_units),
      (''vfpv4}'', \<lambda>s. fpu s fpa_units = 0 \<and> fpu s vfpv4_units = vfpv4_units)]"

definition profile_builtins :: "builtin list" where
  "profile_builtins =
     [(''target_profile_a}'', False, boolean (\<lambda>s. has_cpu s (kCPUExt_v7A OR kCPUExt_v8A))),
      (''target_profile_m}'', False, boolean (\<lambda>s. has_cpu s (kCPUExt_v6M OR kCPUExt_v7M))),
      (''target_profile_r}'', False, boolean (\<lambda>s. has_cpu s kCPUExt_v7R))]"

definition builtins :: "builtin list" where
  "builtins = plain_builtins @ arch_builtins @ feature_builtins @ fpu_builtins @ profile_builtins"

text \<open>
  The first variable that matches.  The nested tests of the code consume a common beginning of several
  names once; no name is the beginning of another, so that at most one of them matches.  The first
  character is compared after setting bit 5, which for a letter is its lower case.
\<close>

fun match_builtin :: "builtin list \<Rightarrow> asm \<Rightarrow> (Lex \<times> asm) outcome option" where
  "match_builtin [] s = None"
| "match_builtin ((name, keyword, f) # rest) s =
     (case (if keyword then Input_MatchKeywordLower name s else Input_MatchStringLower name s) of
        Some s \<Rightarrow> Some (rbind (f s) (\<lambda>l. Inr (l, s)))
      | None \<Rightarrow> match_builtin rest s)"

definition Lex_GetBuiltinVariable :: "asm \<Rightarrow> (Lex \<times> asm) outcome" where
  "Lex_GetBuiltinVariable s =
     (case match_builtin builtins s of
        Some r \<Rightarrow> r
      | None \<Rightarrow>
          rbind (Error ErrorError (if CHR ''}'' \<in> set (tl (input_pos s)) then ''Unknown built-in variable {%.*s''
                                   else ''Missing closing bracket'') (Input_Rest s)) (\<lambda>s. Inr (LexNone, s)))"

end
