(* ===== verification/Lexer.thy ===== *)
theory Lexer
  imports Builtins
begin

text \<open>
  The lexical analysis of expressions: \<^verbatim>\<open>lex.c\<close>.  Local labels go through \<^verbatim>\<open>Local_Labels\<close>; the ownership of
  strings is left out.
\<close>

section \<open>Identifiers and local labels\<close>

definition Lex_GetIDNoError :: "asm \<Rightarrow> (Lex \<times> asm) outcome" where
  "Lex_GetIDNoError s =
     rbind (Input_Symbol (Input_SkipWS s)) (\<lambda>(i, s). Inr (case i of Some i \<Rightarrow> LexId i | None \<Rightarrow> LexNone, s))"

definition Lex_GetID :: "asm \<Rightarrow> (Lex \<times> asm) outcome" where
  "Lex_GetID s =
     rbind (Lex_GetIDNoError s) (\<lambda>(l, s). case l of
         LexId _ \<Rightarrow> Inr (l, s)
       | _ \<Rightarrow> rbind (Error ErrorError ''Missing or wrong identifier'' s) (\<lambda>s. Inr (l, s)))"

text \<open>
  The name of a routine behind a local label.  Of two names the code compares as many characters as the
  label has; a routine name that is shorter ends the comparison at its NUL.
\<close>

definition Lex_CheckForROUTMismatch :: "string \<Rightarrow> asm \<Rightarrow> (bool \<times> asm) outcome" where
  "Lex_CheckForROUTMismatch rout s =
     (let cur = oLocal_CurROUT (localVars s)
      in if rout \<noteq> [] \<and> (rout_id cur = None \<or> rout_id cur \<noteq> Some rout)
         then rbind (Error ErrorError (if rout_id cur = None then ''Local label can not have a routine name %.*s here''
                       else ''Local label with routine name %.*s does not match with current routine name %s'') s) (\<lambda>s.
              rbind (if rout_known cur then Error_Line ErrorError ''note: Last ROUT was here'' s else Inr s) (\<lambda>s.
                Inr (True, s)))
         else Inr (False, s))"

text \<open>The value of a run of decimal digits in 32 bits; \<open>None\<close> when a step makes it smaller.\<close>

fun label_number :: "u32 \<Rightarrow> string \<Rightarrow> u32 option" where
  "label_number label [] = Some label"
| "label_number label (c # cs) =
     (let n = 10 * label + digit_val c in if n < label then None else label_number n cs)"

definition UINT_MAX :: u32 where
  "UINT_MAX = 0xFFFFFFFF"

text \<open>On an overflow the digits up to the one that overflows are read.\<close>

fun label_read :: "u32 \<Rightarrow> string \<Rightarrow> nat" where
  "label_read label [] = 0"
| "label_read label (c # cs) =
     (let n = 10 * label + digit_val c in if n < label then 1 else Suc (label_read n cs))"

definition Lex_ReadReferringLocalLabel :: "asm \<Rightarrow> (u32 \<times> asm) outcome" where
  "Lex_ReadReferringLocalLabel s =
     (if \<not> isdigit (Input_Look s)
      then rbind (Error ErrorError ''Missing local label number'' s) (\<lambda>s. Inr (UINT_MAX, s))
      else
        let digits = takeWhile isdigit (input_pos s);
            s = s\<lparr>input_pos := drop (label_read 0 digits) (input_pos s)\<rparr>
        in (case label_number 0 digits of
              None \<Rightarrow> rbind (Error ErrorError ''Local label overflow'' s) (\<lambda>s. Inr (UINT_MAX, s))
            | Some label \<Rightarrow>
                rbind (Input_Symbol s) (\<lambda>(rout, s).
                rbind (Lex_CheckForROUTMismatch (case rout of None \<Rightarrow> [] | Some r \<Rightarrow> r) s) (\<lambda>(mismatch, s).
                  Inr (if mismatch then UINT_MAX else label, s)))))"

definition Lex_ReadDefiningLocalLabel :: "string \<Rightarrow> asm \<Rightarrow> (u32 \<times> asm) outcome" where
  "Lex_ReadDefiningLocalLabel str s =
     rbind (rassert (str \<noteq> [] \<and> isdigit (hd str))) (\<lambda>_.
       case label_number 0 (takeWhile isdigit str) of
         None \<Rightarrow> rbind (Error ErrorError ''Local label overflow'' s) (\<lambda>s. Inr (UINT_MAX, s))
       | Some label \<Rightarrow>
           rbind (Lex_CheckForROUTMismatch (dropWhile isdigit str) s) (\<lambda>(mismatch, s).
             Inr (if mismatch then UINT_MAX else label, s)))"

text \<open>The first label with the number at one of the macro depths.\<close>

fun label_at :: "nat list \<Rightarrow> u32 \<Rightarrow> asm \<Rightarrow> (nat \<times> Local_Label_t) option outcome" where
  "label_at [] num s = Inr None"
| "label_at (d # ds) num s =
     rbind (Local_GetLabel d num s) (\<lambda>l. case l of Some l \<Rightarrow> Inr (Some (d, l)) | None \<Rightarrow> label_at ds num s)"

text \<open>
  The depths in the order the code tries them: for all levels first the current one and the deeper ones,
  then the current one and those above.
\<close>

definition depths :: "LocalLabel_eLevel \<Rightarrow> nat \<Rightarrow> nat list" where
  "depths level d =
     (case level of
        eThisLevelOnly \<Rightarrow> [d]
      | eAllLevels \<Rightarrow> d # [Suc d..<PARSEOBJECT_STACK_SIZE] @ rev [0..<Suc d]
      | eThisLevelAndHigher \<Rightarrow> rev [0..<Suc d])"

definition Lex_MakeReferringLocalLabel :: "LocalLabel_eDir \<Rightarrow> LocalLabel_eLevel \<Rightarrow> asm \<Rightarrow> (Lex \<times> asm) outcome" where
  "Lex_MakeReferringLocalLabel dir level s =
     rbind (Lex_ReadReferringLocalLabel s) (\<lambda>(label, s).
       if label = UINT_MAX then Inr (LexNone, s)
       else
         rbind (if dir = eForward then Inr None
                else rbind (FS_GetMacroDepth s) (\<lambda>d. label_at (depths level d) label s)) (\<lambda>found.
         rbind (case found of
                  None \<Rightarrow>
                    if dir = eBackward then Error_Abort ''Missing local label %%b%s%i'' s
                    else Local_CreateSymbolForOutstandingFwdLabelRef level dir label s
                | Some (d, lbl) \<Rightarrow> rbind (Local_CreateSymbol lbl d False s) (\<lambda>i. Inr (i, s))) (\<lambda>(i, s).
           let (r, s) = Symbol_Get i s in Inr (LexId (sym_str (syms s r)), s))))"

definition Lex_GetDefiningLabel :: "asm \<Rightarrow> (Lex \<times> asm) outcome" where
  "Lex_GetDefiningLabel s =
     (if isdigit (Input_Look s)
      then rbind (Input_Symbol (s\<lparr>input_pos := dropWhile isdigit (input_pos s)\<rparr>)) (\<lambda>(_, t).
             Inr (LexLocalLabel (take (length (input_pos s) - length (input_pos t)) (input_pos s)), t))
      else Lex_GetID s)"

definition Lex_DefineLocalLabel :: "nat \<Rightarrow> Lex \<Rightarrow> asm \<Rightarrow> (Lex \<times> asm) outcome" where
  "Lex_DefineLocalLabel fuel lx s =
     (case lx of
        LexLocalLabel str \<Rightarrow>
          rbind (Lex_ReadDefiningLocalLabel str s) (\<lambda>(labelNum, s).
            if labelNum = UINT_MAX then Inr (LexNone, s)
            else
              rbind (Local_DefineLabel fuel labelNum s) (\<lambda>(lbl, s).
              rbind (FS_GetMacroDepth s) (\<lambda>d.
              rbind (Local_CreateSymbol lbl d True s) (\<lambda>i.
                let ls = map (\<lambda>l. if lbl_num l = labelNum then l\<lparr>lbl_instance := lbl_instance l + 1\<rparr> else l)
                           (oLocal_LabelNumP (localVars s) d (unat labelNum mod 32));
                    s = set_labels d (unat labelNum mod 32) ls s;
                    (r, s) = Symbol_Get i s
                in Inr (LexId (sym_str (syms s r)), s)))))
      | _ \<Rightarrow> Inl AssertFailed)"

definition Lex_SkipDefiningLabel :: "asm \<Rightarrow> (bool \<times> asm) outcome" where
  "Lex_SkipDefiningLabel s =
     (if isdigit (Input_Look s)
      then rbind (Input_Symbol (s\<lparr>input_pos := dropWhile isdigit (input_pos s)\<rparr>)) (\<lambda>(_, t). Inr (True, t))
      else rbind (Lex_GetID s) (\<lambda>(l, s). Inr (l \<noteq> LexNone, s)))"

section \<open>Operators\<close>

definition "kPrioOp_Unary = (7 :: nat)"
definition "kPrioOp_Multiplicative = (6 :: nat)"
definition "kPrioOp_String = (5 :: nat)"
definition "kPrioOp_Shift = (4 :: nat)"
definition "kPrioOp_AddAndLogical = (3 :: nat)"
definition "kPrioOp_Relational = (2 :: nat)"
definition "kPrioOp_Boolean = (1 :: nat)"
definition "kPrioOp_Max = (7 :: nat)"
definition "kPrioOp_Min = (1 :: nat)"

lemmas prio_defs [asm_defs] =
  kPrioOp_Unary_def kPrioOp_Multiplicative_def kPrioOp_String_def kPrioOp_Shift_def kPrioOp_AddAndLogical_def
  kPrioOp_Relational_def kPrioOp_Boolean_def kPrioOp_Max_def kPrioOp_Min_def

text \<open>
  The nested \<^verbatim>\<open>switch\<close>es as a tree.  A branch reads a character and puts it back when none of its cases
  succeeds; an end (\<^verbatim>\<open>FINISH_STR\<close>, \<^verbatim>\<open>FINISH_CHR\<close>) consumes the rest of the name.  A list of ends are cases
  that are tried one after the other.
\<close>

datatype op_switch = Finish "(string \<times> Operator_e \<times> nat) list" | Switch "(char \<times> op_switch) list"

fun try_finish :: "(string \<times> Operator_e \<times> nat) list \<Rightarrow> asm \<Rightarrow> (Lex \<times> asm) option" where
  "try_finish [] s = None"
| "try_finish ((str, op, pri) # rest) s =
     (case Input_MatchString str s of
        Some s \<Rightarrow> Some (LexOperator op pri, s)
      | None \<Rightarrow> try_finish rest s)"

text \<open>The result is \<open>LexNone\<close> with the input as it was when no case succeeds.\<close>

fun run_switch :: "op_switch \<Rightarrow> asm \<Rightarrow> (Lex \<times> asm) outcome"
  and run_cases :: "(char \<times> op_switch) list \<Rightarrow> char \<Rightarrow> asm \<Rightarrow> (Lex \<times> asm) outcome" where
  "run_switch (Finish fs) s = (case try_finish fs s of Some r \<Rightarrow> Inr r | None \<Rightarrow> Inr (LexNone, s))"
| "run_switch (Switch cs) s =
     (let (c, s) = Input_GetC s
      in rbind (run_cases cs c s) (\<lambda>(l, s).
           if l = LexNone then rbind (Input_UnGetC c s) (\<lambda>s. Inr (LexNone, s)) else Inr (l, s)))"
| "run_cases [] c s = Inr (LexNone, s)"
| "run_cases ((k, sw) # cs) c s = (if c = k then run_switch sw s else run_cases cs c s)"

definition unary_switch :: "(char \<times> op_switch) list" where
  "unary_switch =
     (let u = (\<lambda>str op. (str, op, kPrioOp_Unary))
      in [(CHR ''B'', Finish [u ''ASE:'' eOp_Base]),
          (CHR ''C'', Switch [(CHR ''C'', Finish [u ''_ENCODING:'' eOp_CCEnc]), (CHR ''H'', Finish [u ''R:'' eOp_Chr])]),
          (CHR ''F'', Switch [(CHR ''A'', Finish [u ''TTR:'' eOp_FAttr]), (CHR ''E'', Finish [u ''XEC:'' eOp_FExec]),
                              (CHR ''L'', Finish [u ''OAD:'' eOp_FLoad]), (CHR ''S'', Finish [u ''IZE:'' eOp_FSize])]),
          (CHR ''I'', Finish [u ''NDEX:'' eOp_Index]),
          (CHR ''L'', Switch [(CHR ''E'', Finish [u ''N:'' eOp_Len]),
                              (CHR ''O'', Finish [u ''WERCASE:'' eOp_LowerCase, u ''OT:'' eOp_LNot]),
                              (CHR ''N'', Finish [u ''OT:'' eOp_LNot])]),
          (CHR ''N'', Finish [u ''OT:'' eOp_Not]),
          (CHR ''R'', Switch [(CHR ''C'', Finish [u ''ONST:'' eOp_RConst]), (CHR ''E'', Finish [u ''VERSE_CC:'' eOp_RevCC])]),
          (CHR ''S'', Finish [u ''TR:'' eOp_Str]),
          (CHR ''U'', Finish [u ''PPERCASE:'' eOp_UpperCase])])"

definition binary_switch :: "(char \<times> op_switch) list" where
  "binary_switch =
     [(CHR ''A'', Switch [(CHR ''N'', Finish [(''D:'', eOp_And, kPrioOp_AddAndLogical)]),
                          (CHR ''S'', Finish [(''R:'', eOp_ASR, kPrioOp_Shift)])]),
      (CHR ''C'', Finish [(''C:'', eOp_Concat, kPrioOp_String)]),
      (CHR ''E'', Finish [(''OR:'', eOp_XOr, kPrioOp_AddAndLogical)]),
      (CHR ''L'', Switch [(CHR ''A'', Finish [(''ND:'', eOp_LAnd, kPrioOp_Boolean)]),
                          (CHR ''E'', Switch [(CHR ''F'', Finish [(''T:'', eOp_Left, kPrioOp_String)]),
                                              (CHR ''O'', Finish [(''R:'', eOp_LEOr, kPrioOp_Boolean)])]),
                          (CHR ''O'', Finish [(''R:'', eOp_LOr, kPrioOp_Boolean)])]),
      (CHR ''M'', Finish [(''OD:'', eOp_Mod, kPrioOp_Multiplicative)]),
      (CHR ''O'', Finish [(''R:'', eOp_Or, kPrioOp_AddAndLogical)]),
      (CHR ''R'', Switch [(CHR ''I'', Finish [(''GHT:'', eOp_Right, kPrioOp_String)]),
                          (CHR ''O'', Switch [(CHR ''L'', Finish [('':'', eOp_ROL, kPrioOp_Shift)]),
                                              (CHR ''R'', Finish [('':'', eOp_ROR, kPrioOp_Shift)])])]),
      (CHR ''S'', Switch [(CHR ''H'', Switch [(CHR ''L'', Finish [('':'', eOp_SHL, kPrioOp_Shift)]),
                                              (CHR ''R'', Finish [('':'', eOp_SHR, kPrioOp_Shift)])])])]"

definition Lex_GetBinaryOp :: "asm \<Rightarrow> (Lex \<times> asm) outcome" where
  "Lex_GetBinaryOp = run_switch (Switch binary_switch)"

text \<open>
  \<^verbatim>\<open>:DEF:\<close> reads its operand by \<open>prim\<close>, which is \<^verbatim>\<open>Lex_GetPrim\<close>.  When the operand is not an identifier, the
  character behind the colon is put back although it was not the last one read.
\<close>

definition lex_def :: "(asm \<Rightarrow> (Lex \<times> asm) outcome) \<Rightarrow> asm \<Rightarrow> (Lex \<times> asm) outcome" where
  "lex_def prim s =
     rbind (prim s) (\<lambda>(l, s). case l of
         LexId i \<Rightarrow>
           Inr (LexBool (case Symbol_Find i s of
                           Some r \<Rightarrow> \<not> flag (attr_type (syms s r)) SYMBOL_MACRO_LOCAL
                         | None \<Rightarrow> False), s)
       | _ \<Rightarrow> rbind (Error ErrorError ''Bad operand for :DEF:'' s) (\<lambda>s.
              rbind (Input_UnGetC (CHR ''D'') s) (\<lambda>s. Inr (LexNone, s))))"

definition Lex_GetUnaryOp :: "(asm \<Rightarrow> (Lex \<times> asm) outcome) \<Rightarrow> asm \<Rightarrow> (Lex \<times> asm) outcome" where
  "Lex_GetUnaryOp prim s =
     (case Input_MatchString ''DEF:'' s of
        Some s \<Rightarrow> lex_def prim s
      | None \<Rightarrow> run_switch (Switch unary_switch) s)"


section \<open>Numbers\<close>

text \<open>The digits of a base: the number so far in 64 bits, whether a step made it smaller, and the rest.\<close>

fun read_digits :: "u64 \<Rightarrow> string \<Rightarrow> u64 \<Rightarrow> bool \<Rightarrow> u64 \<times> bool \<times> string" where
  "read_digits base [] res overflow = (res, overflow, [])"
| "read_digits base (c # cs) res overflow =
     (let d = tolower c
      in if isxdigit d \<and> digit_num d < uint base
         then let resNext = res * base + of_int (digit_num d)
              in read_digits base cs resNext (overflow \<or> resNext < res)
         else (res, overflow, c # cs))"

definition starts_with :: "string \<Rightarrow> string \<Rightarrow> bool" where
  "starts_with cs str \<longleftrightarrow> peek str 0 \<in> set cs \<and> str \<noteq> []"

text \<open>What is left behind a floating-point literal whose mantissa has been read up to \<open>rest\<close>.\<close>

definition skip_exponent :: "string \<Rightarrow> string" where
  "skip_exponent rest =
     (if starts_with ''EePp'' rest
      then dropWhile isdigit (if starts_with ''-+'' (tl rest) then tl (tl rest) else tl rest)
      else rest)"

definition float_rest :: "bool \<Rightarrow> string \<Rightarrow> string" where
  "float_rest decimal rest =
     skip_exponent
       (if starts_with ''.'' rest then dropWhile (if decimal then isdigit else isxdigit) (tl rest) else rest)"

text \<open>
  \<^verbatim>\<open>strtod\<close> of the C library on an unsigned literal: the value, correctly rounded, and the number of
  characters that belong to it.
\<close>

definition num_value :: "int \<Rightarrow> string \<Rightarrow> nat" where
  "num_value base ds = nat (foldl (\<lambda>n d. base * n + digit_num (tolower d)) 0 ds)"

definition read_exponent :: "string \<Rightarrow> string \<Rightarrow> int \<times> nat" where
  "read_exponent letters str =
     (let sign = (if starts_with ''-+'' (tl str) then 1 else 0);
          ds = takeWhile isdigit (drop (Suc sign) str)
      in if starts_with letters str \<and> ds \<noteq> []
         then ((if starts_with ''-'' (tl str) then - int (num_value 10 ds) else int (num_value 10 ds)),
               Suc sign + length ds)
         else (0, 0))"

definition dbl_of_ratio :: "nat \<Rightarrow> nat \<Rightarrow> ARMFloat" where
  "dbl_of_ratio n d = dbl_pack False (dbl_round_bits n d)"

definition scaled_ratio :: "nat \<Rightarrow> nat \<Rightarrow> int \<Rightarrow> ARMFloat" where
  "scaled_ratio base n e = (if 0 \<le> e then dbl_of_ratio (n * base ^ nat e) 1 else dbl_of_ratio n (base ^ nat (- e)))"

definition strtod_digits :: "bool \<Rightarrow> string \<Rightarrow> ARMFloat \<times> nat" where
  "strtod_digits hex str =
     (let isd = (if hex then isxdigit else isdigit);
          ints = takeWhile isd str;
          after = drop (length ints) str;
          fracs = (if starts_with ''.'' after then takeWhile isd (tl after) else []);
          after = (if starts_with ''.'' after then drop (Suc (length fracs)) after else after);
          (e, used) = read_exponent (if hex then ''pP'' else ''eE'') after;
          m = num_value (if hex then 16 else 10) (ints @ fracs)
      in if ints = [] \<and> fracs = [] then (0, 0)
         else (if hex then scaled_ratio 2 m (e - 4 * int (length fracs)) else scaled_ratio 10 m (e - int (length fracs)),
               length str - length after + used))"

definition strtod :: "string \<Rightarrow> ARMFloat \<times> nat" where
  "strtod str =
     (if take 2 str = ''0x''
      then (case strtod_digits True (drop 2 str) of (d, n) \<Rightarrow> if n = 0 then (0, 1) else (d, n + 2))
      else strtod_digits False str)"

definition lex_float :: "u64 \<Rightarrow> string \<Rightarrow> string \<Rightarrow> asm \<Rightarrow> (Lex \<times> asm) outcome" where
  "lex_float base mark rest s =
     (if base \<noteq> 10 \<and> base \<noteq> 16
      then rbind (Error ErrorError ''No base 10 or 16 floating-point literal is not supported'' s) (\<lambda>s. Inr (LexNone, s))
      else
        let rest = float_rest (base = 10) rest;
            fltLiteral = (if base = 10 then [] else ''0x'') @ take (length mark - length rest) mark;
            (d, n) = strtod fltLiteral;
            s = s\<lparr>input_pos := rest\<rparr>
        in if n \<noteq> length fltLiteral
           then rbind (Error ErrorError ''Failed to read floating point value'' s) (\<lambda>s. Inr (LexNone, s))
           else Inr (LexFloat d, s))"

definition Lex_GetIntOrFloat :: "u64 \<Rightarrow> asm \<Rightarrow> (Lex \<times> asm) outcome" where
  "Lex_GetIntOrFloat base s =
     rbind (rassert (2 \<le> base \<and> base \<le> 10 \<or> base = 16)) (\<lambda>_.
       let mark = input_pos s;
           (res, didOverflow, rest) = read_digits base mark 0 False;
           s = s\<lparr>input_pos := rest\<rparr>
       in if starts_with ''.EePp'' rest then lex_float base mark rest s
          else if rest = mark then Inr (LexNone, s)
          else if res \<le> 0xFFFFFFFF then Inr (LexInt (ucast res), s)
          else rbind (if didOverflow then Error ErrorWarning ''64-bit integer overflow'' s else Inr s) (\<lambda>s.
                 Inr (LexInt64 res, s)))"

text \<open>The bits of a single or double precision number, as \<open>k\<close> hexadecimal digits.\<close>

fun hex_digits :: "nat \<Rightarrow> u64 \<Rightarrow> asm \<Rightarrow> (u64 option \<times> asm)" where
  "hex_digits 0 v s = (Some v, s)"
| "hex_digits (Suc k) v s =
     (let c = Input_LookLower s
      in if \<not> isxdigit c then (None, s) else hex_digits k (16 * v + of_int (digit_num c)) (Input_Skip s))"

text \<open>The \<^verbatim>\<open>double\<close> of a single precision bit pattern; a NaN keeps its fraction and is quiet.\<close>

definition dbl_of_flt :: "u32 \<Rightarrow> ARMFloat" where
  "dbl_of_flt f =
     (let neg = bit f 31; e = unat f div 2 ^ 23 mod 256; m = unat f mod 2 ^ 23
      in if e = 255
         then (if m = 0 then dbl_inf neg else dbl_pack neg (2047 * 2 ^ 52 + 2 ^ 51 + m mod 2 ^ 22 * 2 ^ 29))
         else dbl_of_scaled neg (let k = int (if e = 0 then m else m + 2 ^ 23) in if neg then - k else k)
                (if e = 0 then - 149 else int e - 150))"

definition Lex_GetFloatFloatingPointLiteral :: "asm \<Rightarrow> (Lex \<times> asm) outcome" where
  "Lex_GetFloatFloatingPointLiteral s =
     (case hex_digits 8 0 s of
        (None, s) \<Rightarrow> rbind (Error ErrorError ''Float floating point literal needs exactly 8 hex digits'' s) (\<lambda>s. Inr (LexNone, s))
      | (Some v, s) \<Rightarrow> Inr (LexFloat (dbl_of_flt (ucast v)), s))"

text \<open>The word order of a double is the one of the area: reading swaps the words just as writing does.\<close>

definition Lex_GetDoubleFloatingPointLiteral :: "asm \<Rightarrow> (Lex \<times> asm) outcome" where
  "Lex_GetDoubleFloatingPointLiteral s =
     (case hex_digits 16 0 s of
        (None, s) \<Rightarrow> rbind (Error ErrorError ''Double floating point literal needs exactly 16 hex digits'' s) (\<lambda>s. Inr (LexNone, s))
      | (Some v, s) \<Rightarrow>
          rbind (cur_sym s) (\<lambda>r. rbind (sym_area s r) (\<lambda>a.
            Inr (LexFloat (if flag (area_type a) AREA_VFP then v else drop_bit 32 v OR push_bit 32 v), s))))"

section \<open>Operands\<close>

text \<open>The characters of a constant, up to four; each round reads at least one.\<close>

fun char_loop :: "nat \<Rightarrow> nat \<Rightarrow> u32 \<Rightarrow> asm \<Rightarrow> (u32 \<times> asm) outcome" where
  "char_loop 0 i intResult s = Inl OutOfFuel"
| "char_loop (Suc fuel) i intResult s =
     (let (ci, s) = Input_GetC s
      in if ci = CHR 0x27 then Inr (intResult, s)
         else
           let (ci, s) = (if ci = CHR 0x5C then Input_GetC s else (ci, s))
           in if ci = NUL
              then rbind (Error ErrorError ''Constant specification continues over newline'' s) (\<lambda>s. Inr (intResult, s))
              else if i = 4
              then rbind (Error ErrorError ''Illegal constant specification'' s) (\<lambda>s. Inr (intResult, s))
              else rbind (if i = 1 then Error ErrorWarning ''Non-standard multi-character character constant'' s else Inr s)
                     (char_loop fuel (Suc i) (shl32 intResult 8 OR of_int (ccode ci))))"

definition lex_char :: "asm \<Rightarrow> (Lex \<times> asm) outcome" where
  "lex_char s =
     (if Input_Look s = CHR 0x27
      then rbind (Error ErrorError ''Empty character constant'' s) (\<lambda>s. Inr (LexInt 0, s))
      else rbind (char_loop (Suc (length (input_pos s))) 0 0 s) (\<lambda>(i, s). Inr (LexInt i, s)))"

text \<open>A number that starts with the decimal digit \<open>c\<close>, which has been read.\<close>

definition lex_number :: "char \<Rightarrow> asm \<Rightarrow> (Lex \<times> asm) outcome" where
  "lex_number c s =
     (let (based, s) = Input_Match (CHR ''_'') False s
      in if based
         then let base = digit_num c
              in if base < 2 \<or> base > 9
                 then rbind (Error ErrorError ''Illegal base %d'' s) (\<lambda>s.
                      rbind (Input_UnGetC c s) (\<lambda>s. Inr (LexNone, s)))
                 else Lex_GetIntOrFloat (of_int base) s
         else rbind (Input_UnGetC c s) (Lex_GetIntOrFloat 10))"

definition lex_zero :: "asm \<Rightarrow> (Lex \<times> asm) outcome" where
  "lex_zero s =
     (let c0 = Input_Look s
      in if c0 = CHR ''f'' \<and> peek (input_pos s) 1 = CHR ''_''
         then rbind (Input_SkipN 2 s) Lex_GetFloatFloatingPointLiteral
         else if c0 = CHR ''d'' \<and> peek (input_pos s) 1 = CHR ''_''
         then rbind (Input_SkipN 2 s) Lex_GetDoubleFloatingPointLiteral
         else if c0 = CHR ''x'' \<or> c0 = CHR ''X'' then Lex_GetIntOrFloat 16 (Input_Skip s)
         else lex_number (CHR ''0'') s)"

definition lex_label :: "asm \<Rightarrow> (Lex \<times> asm) outcome" where
  "lex_label s =
     (let c = Input_LookLower s;
          (dir, s) = (if c = CHR ''f'' then (eForward, Input_Skip s)
                      else if c = CHR ''b'' then (eBackward, Input_Skip s) else (eBackwardThenForward, s));
          c = Input_LookLower s;
          (level, s) = (if c = CHR ''t'' then (eThisLevelOnly, Input_Skip s)
                        else if c = CHR ''a'' then (eAllLevels, Input_Skip s) else (eThisLevelAndHigher, s))
      in Lex_MakeReferringLocalLabel dir level s)"

definition lex_symbol :: "asm \<Rightarrow> (Lex \<times> asm) outcome" where
  "lex_symbol s =
     rbind (Input_Symbol s) (\<lambda>(i, s). Inr (case i of Some i \<Rightarrow> LexId i | None \<Rightarrow> LexNone, s))"

text \<open>The fuel counts the operators \<^verbatim>\<open>:DEF:\<close> that follow each other.\<close>

fun Lex_GetPrim :: "nat \<Rightarrow> asm \<Rightarrow> (Lex \<times> asm) outcome" where
  "Lex_GetPrim 0 s = Inl OutOfFuel"
| "Lex_GetPrim (Suc fuel) s =
     (let (c, s) = Input_GetC (Input_SkipWS s)
      in if c = CHR ''+'' then Inr (LexOperator eOp_Pos kPrioOp_Unary, s)
         else if c = CHR ''-'' then Inr (LexOperator eOp_Neg kPrioOp_Unary, s)
         else if c = CHR ''!'' then Inr (LexOperator eOp_LNot kPrioOp_Unary, s)
         else if c = CHR ''~'' then Inr (LexOperator eOp_Not kPrioOp_Unary, s)
         else if c = CHR ''?'' then Inr (LexOperator eOp_Size kPrioOp_Unary, s)
         else if c = CHR ''('' \<or> c = CHR '')'' then Inr (LexDelim c, s)
         else if c = CHR '':''
         then rbind (Lex_GetUnaryOp (Lex_GetPrim fuel) s) (\<lambda>(l, s).
                if l = LexNone then rbind (Input_UnGetC (CHR '':'') s) (\<lambda>s. Inr (l, s)) else Inr (l, s))
         else if c = CHR ''&'' then Lex_GetIntOrFloat 16 s
         else if c = CHR ''0'' then lex_zero s
         else if isdigit c then lex_number c s
         else if c = CHR 0x27 then lex_char s
         else if c = CHR 0x22 then rbind (Input_GetString s) (\<lambda>(str, s). Inr (LexString str, s))
         else if c = CHR ''.''
         then (if isdigit (Input_Look s) then rbind (Input_UnGetC c s) (Lex_GetIntOrFloat 10) else Inr (LexPosition, s))
         else if c = CHR ''@'' then Inr (LexStorage, s)
         else if c = CHR ''%'' then lex_label s
         else if c = CHR ''{'' then Lex_GetBuiltinVariable s
         else rbind (Input_UnGetC c s) lex_symbol)"

section \<open>Binary operators\<close>

definition lex_op2 :: "char \<Rightarrow> (Operator_e \<times> nat) \<Rightarrow> (Operator_e \<times> nat) \<Rightarrow> asm \<Rightarrow> (Lex \<times> asm) outcome" where
  "lex_op2 c twice once s =
     (case Input_Match c False s of
        (True, s) \<Rightarrow> Inr (LexOperator (fst twice) (snd twice), s)
      | (False, s) \<Rightarrow> Inr (LexOperator (fst once) (snd once), s))"

definition Lex_GetBinop :: "asm \<Rightarrow> (Lex \<times> asm) outcome" where
  "Lex_GetBinop s =
     (let (c, s) = Input_GetC (Input_SkipWS s);
          none = (\<lambda>s. rbind (Input_UnGetC c s) (\<lambda>s. Inr (LexNone, s)))
      in if c = CHR ''*'' then Inr (LexOperator eOp_Mul kPrioOp_Multiplicative, s)
         else if c = CHR ''/''
         then lex_op2 (CHR ''='') (eOp_NE, kPrioOp_Relational) (eOp_Div, kPrioOp_Multiplicative) s
         else if c = CHR ''%'' then Inr (LexOperator eOp_Mod kPrioOp_Multiplicative, s)
         else if c = CHR ''+'' then Inr (LexOperator eOp_Add kPrioOp_AddAndLogical, s)
         else if c = CHR ''-'' then Inr (LexOperator eOp_Sub kPrioOp_AddAndLogical, s)
         else if c = CHR ''>''
         then (if Input_Look s = CHR ''>''
               then lex_op2 (CHR ''>'') (eOp_ASR, kPrioOp_Shift) (eOp_SHR, kPrioOp_Shift) (Input_Skip s)
               else lex_op2 (CHR ''='') (eOp_GE, kPrioOp_Relational) (eOp_GT, kPrioOp_Relational) s)
         else if c = CHR ''<''
         then (if Input_Look s = CHR ''<'' then Inr (LexOperator eOp_SHL kPrioOp_Shift, Input_Skip s)
               else if Input_Look s = CHR ''='' then Inr (LexOperator eOp_LE kPrioOp_Relational, Input_Skip s)
               else lex_op2 (CHR ''>'') (eOp_NE, kPrioOp_Relational) (eOp_LT, kPrioOp_Relational) s)
         else if c = CHR ''=''
         then lex_op2 (CHR ''='') (eOp_EQ, kPrioOp_Relational) (eOp_EQ, kPrioOp_Relational) s
         else if c = CHR ''!''
         then (case Input_Match (CHR ''='') False s of
                 (True, s) \<Rightarrow> Inr (LexOperator eOp_NE kPrioOp_Relational, s)
               | (False, s) \<Rightarrow> none s)
         else if c = CHR ''|''
         then lex_op2 (CHR ''|'') (eOp_LOr, kPrioOp_Boolean) (eOp_Or, kPrioOp_AddAndLogical) s
         else if c = CHR ''&''
         then lex_op2 (CHR ''&'') (eOp_LAnd, kPrioOp_Boolean) (eOp_And, kPrioOp_AddAndLogical) s
         else if c = CHR '':''
         then rbind (Lex_GetBinaryOp s) (\<lambda>(l, s).
                if l = LexNone then rbind (Input_UnGetC (CHR '':'') s) (\<lambda>s. Inr (l, s)) else Inr (l, s))
         else if c = CHR ''^''
         then (if \<not> Input_IsEolOrCommentStart (Input_SkipWS s) then Inr (LexOperator eOp_XOr kPrioOp_AddAndLogical, s)
               else none s)
         else none s)"

text \<open>A state that is about to read a line.\<close>

definition asm_line :: "string \<Rightarrow> asm" where
  "asm_line str = asm0\<lparr>input_buff := str, input_pos := str\<rparr>"

end
