(* ===== verification/Expr.thy ===== *)
theory Expr
  imports Lexer
begin

text \<open>
  The parser of expressions, \<^verbatim>\<open>expr.c\<close>: it reads operands and operators and appends them in postfix order to
  the program of \<^verbatim>\<open>code.c\<close>.  The lexical analysis is an argument of the definitions, so that the theorems
  show what the parser needs of it; at the end it is the one of \<^verbatim>\<open>lex.c\<close>.  The storage counter is the one of
  \<^verbatim>\<open>directive_storagemap.c\<close>.
\<close>

section \<open>Operands\<close>

definition StorageMap_Value :: "asm \<Rightarrow> Value outcome" where
  "StorageMap_Value s =
     (case oStorageMapValue s of
        ValueInt i ty \<Rightarrow> if ty = eIntType_PureInt then Inr (ValueInt i ty) else Inl AssertFailed
      | ValueAddr r i \<Rightarrow> Inr (ValueAddr r i)
      | ValueSymbol f r i \<Rightarrow> Inr (ValueSymbol f r i)
      | _ \<Rightarrow> Inl AssertFailed)"

text \<open>The cases of \<^verbatim>\<open>Expr_GetPrim\<close> that append one value; \<open>None\<close> for the other lexical elements.\<close>

definition code_operand :: "Lex \<Rightarrow> asm \<Rightarrow> asm outcome option" where
  "code_operand l s =
     (case l of
        LexId i \<Rightarrow> Some (let (r, s) = Symbol_Get i s in Code_Symbol r 0 s)
      | LexString str \<Rightarrow> Some (Code_String str s)
      | LexInt i \<Rightarrow> Some (Code_Int i s)
      | LexInt64 i \<Rightarrow> Some (Code_Value (ValueInt64 i) False s)
      | LexFloat f \<Rightarrow> Some (Code_Float f s)
      | LexPosition \<Rightarrow> Some (rbind (cur_sym s) (\<lambda>r. rbind (sym_area s r) (\<lambda>a. Code_Symbol r (curIdx a) s)))
      | LexStorage \<Rightarrow> Some (rbind (StorageMap_Value s) (\<lambda>v. Code_Value v True s))
      | LexBool b \<Rightarrow> Some (Code_Bool b s)
      | _ \<Rightarrow> None)"

definition incomplete :: "string \<Rightarrow> asm \<Rightarrow> (bool \<times> asm) outcome" where
  "incomplete msg s = rbind (Error ErrorError msg s) (\<lambda>s. Inr (True, s))"

section \<open>The parser\<close>

text \<open>
  The functions return true when they failed.  The fuel bounds the depth of the calls and the rounds of
  the loops.
\<close>

type_synonym lexer = "asm \<Rightarrow> (Lex \<times> asm) outcome"

fun Expr_GetPrim :: "lexer \<Rightarrow> lexer \<Rightarrow> nat \<Rightarrow> asm \<Rightarrow> (bool \<times> asm) outcome"
  and Expr_GetInt :: "lexer \<Rightarrow> lexer \<Rightarrow> nat \<Rightarrow> Lex \<Rightarrow> nat \<Rightarrow> asm \<Rightarrow> (bool \<times> Lex \<times> asm) outcome"
  and expr_loop :: "lexer \<Rightarrow> lexer \<Rightarrow> nat \<Rightarrow> Lex \<Rightarrow> nat \<Rightarrow> asm \<Rightarrow> (bool \<times> Lex \<times> asm) outcome"
  and expr_operand :: "lexer \<Rightarrow> lexer \<Rightarrow> nat \<Rightarrow> Lex \<Rightarrow> nat \<Rightarrow> asm \<Rightarrow> (bool \<times> Lex \<times> asm) outcome" where
  "Expr_GetPrim prim binop 0 s = Inl OutOfFuel"
| "Expr_GetPrim prim binop (Suc n) s =
     rbind (prim s) (\<lambda>(l, s).
       case code_operand l s of
         Some r \<Rightarrow> rbind r (\<lambda>s. Inr (False, s))
       | None \<Rightarrow>
           (case l of
              LexOperator op pri \<Rightarrow>
                if \<not> Lex_IsUnop op then incomplete ''Illegal operator'' s
                else rbind (Expr_GetPrim prim binop n s) (\<lambda>(failed, s).
                       if failed then Inr (True, s) else rbind (Code_Operator op s) (\<lambda>s. Inr (False, s)))
            | LexDelim d \<Rightarrow>
                if d = CHR ''(''
                then rbind (Expr_GetInt prim binop n LexNone kPrioOp_Min s) (\<lambda>(failed, _, s).
                       if failed then Inr (True, s)
                       else rbind (prim s) (\<lambda>(l, s).
                              if l \<noteq> LexDelim (CHR '')'') then incomplete ''Missing ')'' s else Inr (False, s)))
                else if d = CHR '')''
                then rbind (Input_UnGetC (CHR '')'') s) (incomplete '')' unexpected'')
                else Inl AssertFailed
            | LexNone \<Rightarrow> incomplete ''Incomplete expression'' s
            | _ \<Rightarrow> Inl AssertFailed))"
| "expr_operand prim binop n opP maxPri s =
     (if maxPri \<noteq> kPrioOp_Max then Expr_GetInt prim binop n opP (maxPri + 1) s
      else rbind (Expr_GetPrim prim binop n s) (\<lambda>(failed, s). Inr (failed, opP, s)))"
| "Expr_GetInt prim binop 0 opP maxPri s = Inl OutOfFuel"
| "Expr_GetInt prim binop (Suc n) opP maxPri s =
     rbind (expr_operand prim binop n opP maxPri s) (\<lambda>(failed, opP, s).
       if failed then Inr (True, opP, s) else expr_loop prim binop n opP maxPri s)"
| "expr_loop prim binop 0 opP maxPri s = Inl OutOfFuel"
| "expr_loop prim binop (Suc n) opP maxPri s =
     rbind (case opP of LexOperator _ _ \<Rightarrow> Inr (opP, s) | _ \<Rightarrow> binop s) (\<lambda>(opP, s).
       case opP of
         LexOperator op pri \<Rightarrow>
           if pri \<noteq> maxPri then Inr (False, opP, s)
           else rbind (expr_operand prim binop n LexNone maxPri s) (\<lambda>(failed, opP, s).
                  if failed then Inr (True, opP, s)
                  else rbind (Code_Operator op s) (expr_loop prim binop n opP maxPri))
       | _ \<Rightarrow> Inr (False, opP, s))"

text \<open>
  The parser on the lexical analysis of \<^verbatim>\<open>lex.c\<close>.  The fuel is enough for every line, as the theorems show: each
  operand costs at least a character and each parenthesis goes through the levels once.
\<close>

definition lex_prim :: lexer where
  "lex_prim s = Lex_GetPrim (Suc (length (input_pos s))) s"

definition expr_fuel :: "asm \<Rightarrow> nat" where
  "expr_fuel s = 8 * length (input_pos s) + 8"

definition Expr_Get :: "asm \<Rightarrow> (bool \<times> asm) outcome" where
  "Expr_Get s =
     rbind (Expr_GetInt lex_prim Lex_GetBinop (expr_fuel s) LexNone kPrioOp_Min s) (\<lambda>(failed, _, s). Inr (failed, s))"

definition Expr_Build :: "asm \<Rightarrow> (bool \<times> asm) outcome" where
  "Expr_Build s = Expr_Get (Code_Init s)"

definition Expr_Eval :: "operand_equality \<Rightarrow> nat \<Rightarrow> u32 \<Rightarrow> asm \<Rightarrow> (Value \<times> asm) outcome" where
  "Expr_Eval veq fuel legal s = Code_Eval veq fuel legal s"

definition Expr_BuildAndEval :: "operand_equality \<Rightarrow> nat \<Rightarrow> u32 \<Rightarrow> asm \<Rightarrow> (Value \<times> asm) outcome" where
  "Expr_BuildAndEval veq fuel legal s =
     rbind (Expr_Build s) (\<lambda>(failed, s). if failed then Inr (ValueIllegal, s) else Expr_Eval veq fuel legal s)"

end
