(* ===== verification/Grammar.thy ===== *)
theory Grammar
  imports Expr
begin

section \<open>The grammar of expressions\<close>

text \<open>The priorities of the binary operators, as the comments of \<^verbatim>\<open>Operator_e\<close> give them.\<close>

fun prio :: "Operator_e \<Rightarrow> nat" where
  "prio eOp_Mul = kPrioOp_Multiplicative" | "prio eOp_Div = kPrioOp_Multiplicative" | "prio eOp_Mod = kPrioOp_Multiplicative"
| "prio eOp_Left = kPrioOp_String" | "prio eOp_Right = kPrioOp_String" | "prio eOp_Concat = kPrioOp_String"
| "prio eOp_ASR = kPrioOp_Shift" | "prio eOp_SHR = kPrioOp_Shift" | "prio eOp_SHL = kPrioOp_Shift"
| "prio eOp_ROR = kPrioOp_Shift" | "prio eOp_ROL = kPrioOp_Shift"
| "prio eOp_Add = kPrioOp_AddAndLogical" | "prio eOp_Sub = kPrioOp_AddAndLogical" | "prio eOp_And = kPrioOp_AddAndLogical"
| "prio eOp_Or = kPrioOp_AddAndLogical" | "prio eOp_XOr = kPrioOp_AddAndLogical"
| "prio eOp_LE = kPrioOp_Relational" | "prio eOp_GE = kPrioOp_Relational" | "prio eOp_LT = kPrioOp_Relational"
| "prio eOp_GT = kPrioOp_Relational" | "prio eOp_EQ = kPrioOp_Relational" | "prio eOp_NE = kPrioOp_Relational"
| "prio eOp_LAnd = kPrioOp_Boolean" | "prio eOp_LOr = kPrioOp_Boolean" | "prio eOp_LEOr = kPrioOp_Boolean"
| "prio _ = kPrioOp_Unary"

datatype tok = TLeaf Value | TUn Operator_e | TBin Operator_e | TOpen | TClose

datatype ptree = PLeaf Value | PUn Operator_e ptree | PBin Operator_e ptree ptree | PParen ptree

fun fringe :: "ptree \<Rightarrow> tok list" where
  "fringe (PLeaf v) = [TLeaf v]"
| "fringe (PUn op p) = TUn op # fringe p"
| "fringe (PBin op l r) = fringe l @ TBin op # fringe r"
| "fringe (PParen p) = TOpen # fringe p @ [TClose]"

fun strip :: "ptree \<Rightarrow> etree" where
  "strip (PLeaf v) = ELeaf v"
| "strip (PUn op p) = EUn op (strip p)"
| "strip (PBin op l r) = EBin op (strip l) (strip r)"
| "strip (PParen p) = strip p"

text \<open>How tightly a tree holds together, and the trees that follow the priorities, left associative.\<close>

fun tightness :: "ptree \<Rightarrow> nat" where
  "tightness (PBin op _ _) = prio op"
| "tightness _ = kPrioOp_Max"

fun prec_ok :: "ptree \<Rightarrow> bool" where
  "prec_ok (PLeaf v) = True"
| "prec_ok (PUn op p) = (Lex_IsUnop op \<and> tightness p = kPrioOp_Max \<and> prec_ok p)"
| "prec_ok (PBin op l r) = (\<not> Lex_IsUnop op \<and> prio op \<le> tightness l \<and> prio op < tightness r \<and> prec_ok l \<and> prec_ok r)"
| "prec_ok (PParen p) = prec_ok p"

section \<open>A reference parser of lexical elements\<close>

text \<open>
  \<open>primary ts p r\<close>: the elements \<open>ts\<close> start with the operand \<open>p\<close>, and \<open>r\<close> are left.
  \<open>climbs m p ts q r\<close>: with \<open>p\<close> read, the operators of priority \<open>m\<close> and above in \<open>ts\<close> make it \<open>q\<close>.
\<close>

inductive primary :: "tok list \<Rightarrow> ptree \<Rightarrow> tok list \<Rightarrow> bool"
  and climbs :: "nat \<Rightarrow> ptree \<Rightarrow> tok list \<Rightarrow> ptree \<Rightarrow> tok list \<Rightarrow> bool" where
  leaf: "primary (TLeaf v # ts) (PLeaf v) ts"
| unary: "primary ts p r \<Longrightarrow> primary (TUn op # ts) (PUn op p) r"
| paren: "primary ts p r \<Longrightarrow> climbs kPrioOp_Min p r q (TClose # r') \<Longrightarrow> primary (TOpen # ts) (PParen q) r'"
| stop: "(\<And>op r. ts = TBin op # r \<Longrightarrow> prio op < m) \<Longrightarrow> climbs m p ts p ts"
| climb: "m \<le> prio op \<Longrightarrow> primary ts a r \<Longrightarrow> climbs (Suc (prio op)) a r b r' \<Longrightarrow> climbs m (PBin op p b) r' q r''
    \<Longrightarrow> climbs m p (TBin op # ts) q r''"

inductive_cases primary_elims: "primary (TLeaf v # ts) p r" "primary (TUn op # ts) p r" "primary (TOpen # ts) p r"
inductive_cases climbs_elims: "climbs m p ts q r"

text \<open>A binary operator at the front of the rest may not bind tighter than the tree before it.\<close>

definition follows :: "nat \<Rightarrow> tok list \<Rightarrow> bool" where
  "follows m ts \<longleftrightarrow> (\<forall>op r. ts = TBin op # r \<longrightarrow> prio op \<le> m)"

definition parses :: "nat \<Rightarrow> tok list \<Rightarrow> ptree \<Rightarrow> tok list \<Rightarrow> bool" where
  "parses m ts q r \<longleftrightarrow> (\<exists>a r'. primary ts a r' \<and> climbs m a r' q r)"

text \<open>The reference parser reads the fringe of a tree that follows the priorities as that tree.\<close>

definition readable :: "ptree \<Rightarrow> bool" where
  "readable p \<longleftrightarrow>
     (\<forall>ts. tightness p = kPrioOp_Max \<longrightarrow> primary (fringe p @ ts) p ts)
     \<and> (\<forall>m ts q r. m \<le> tightness p \<longrightarrow> follows (tightness p) ts \<longrightarrow> climbs m p ts q r \<longrightarrow> parses m (fringe p @ ts) q r)"

lemma follows_simps [simp]:
  "follows m []" "follows m (TBin op # ts) \<longleftrightarrow> prio op \<le> m" "follows m (TClose # ts)"
  by (auto simp: follows_def)

lemma prio_bounds: "prio op \<le> kPrioOp_Max" "\<not> Lex_IsUnop op \<Longrightarrow> kPrioOp_Min \<le> prio op \<and> prio op < kPrioOp_Max"
  by (cases op; simp add: prio_defs Lex_IsUnop_def)+

lemma level_bounds: "tightness p \<le> kPrioOp_Max" "prec_ok p \<Longrightarrow> kPrioOp_Min \<le> tightness p"
  using prio_bounds by (cases p; simp add: prio_defs)+

lemma parsesI: "primary ts a r' \<Longrightarrow> climbs m a r' q r \<Longrightarrow> parses m ts q r"
  unfolding parses_def by blast

lemma climbs_stop: "follows l ts \<Longrightarrow> l < m \<Longrightarrow> climbs m p ts p ts"
  by (rule stop) (simp add: follows_def)

lemma readable_primary: "(\<And>ts. primary (fringe p @ ts) p ts) \<Longrightarrow> readable p"
  unfolding readable_def by (blast intro: parsesI)

lemma readableD:
  assumes "readable p"
  shows "tightness p = kPrioOp_Max \<Longrightarrow> primary (fringe p @ ts) p ts"
    and "m \<le> tightness p \<Longrightarrow> follows (tightness p) ts \<Longrightarrow> climbs m p ts q r \<Longrightarrow> parses m (fringe p @ ts) q r"
  using assms unfolding readable_def by blast+

lemma readable_fringe: "prec_ok p \<Longrightarrow> readable p"
proof (induction p)
  case (PLeaf v)
  show ?case by (rule readable_primary) (simp add: leaf)
next
  case (PUn op p)
  then have "readable p" "tightness p = kPrioOp_Max" by simp_all
  then show ?case by (intro readable_primary) (simp add: unary readableD(1))
next
  case (PParen p)
  then have p: "readable p" "kPrioOp_Min \<le> tightness p" by (simp_all add: level_bounds)
  show ?case
  proof (rule readable_primary)
    fix ts
    have "climbs kPrioOp_Min p (TClose # ts) p (TClose # ts)" by (rule stop) simp
    then have "parses kPrioOp_Min (fringe p @ TClose # ts) p (TClose # ts)" using p by (intro readableD(2)) simp_all
    then obtain a r where "primary (fringe p @ TClose # ts) a r" "climbs kPrioOp_Min a r p (TClose # ts)"
      unfolding parses_def by blast
    then show "primary (fringe (PParen p) @ ts) (PParen p) ts" by (simp add: paren)
  qed
next
  case (PBin op l r)
  then have ok: "\<not> Lex_IsUnop op" "prio op \<le> tightness l" "prio op < tightness r" "readable l" "readable r" by simp_all
  show ?case
    unfolding readable_def
  proof (intro conjI allI impI)
    fix ts assume "tightness (PBin op l r) = kPrioOp_Max"
    then show "primary (fringe (PBin op l r) @ ts) (PBin op l r) ts" using prio_bounds(2) [OF ok(1)] by simp
  next
    fix m ts q rest
    assume "m \<le> tightness (PBin op l r)" "follows (tightness (PBin op l r)) ts" "climbs m (PBin op l r) ts q rest"
    then have m: "m \<le> prio op" "follows (prio op) ts" "climbs m (PBin op l r) ts q rest" by simp_all
    have "follows (tightness r) ts" using m(2) ok(3) by (auto simp: follows_def)
    then have "parses (Suc (prio op)) (fringe r @ ts) r ts"
      using ok(3) climbs_stop [OF m(2)] by (intro readableD(2) [OF ok(5)]) simp_all
    then obtain b r' where b: "primary (fringe r @ ts) b r'" "climbs (Suc (prio op)) b r' r ts"
      unfolding parses_def by blast
    have "climbs m l (TBin op # fringe r @ ts) q rest" by (rule climb [OF m(1) b m(3)])
    then show "parses m (fringe (PBin op l r) @ ts) q rest"
      using ok(2) m(1) readableD(2) [OF ok(4), of m "TBin op # fringe r @ ts" q rest] by simp
  qed
qed

text \<open>The reference parser is deterministic.\<close>

lemma climbs_BinE:
  assumes "climbs m p (TBin op # ts) q r" and "m \<le> prio op"
  obtains a r1 b r2 where "primary ts a r1" "climbs (Suc (prio op)) a r1 b r2" "climbs m (PBin op p b) r2 q r"
  using assms(1)
proof cases
  case stop
  from stop(3) [of op ts] assms(2) show thesis by simp
next
  case (climb a r1 b r2)
  from that [OF climb(2-4)] show thesis .
qed

lemma primary_climbs_unique:
  "primary ts p r \<Longrightarrow> (\<And>p1 s1. primary ts p1 s1 \<Longrightarrow> p1 = p \<and> s1 = r)"
  "climbs m p0 ts q r \<Longrightarrow> (\<And>q1 s1. climbs m p0 ts q1 s1 \<Longrightarrow> q1 = q \<and> s1 = r)"
proof (induction rule: primary_climbs.inducts)
  case (leaf v ts)
  then show ?case by (blast elim: primary_elims)
next
  case (unary ts p r op)
  from unary.prems show ?case by (rule primary_elims(2)) (use unary.IH in blast)
next
  case (paren ts p r q r')
  from paren.prems show ?case by (rule primary_elims(3)) (use paren.IH in blast)
next
  case (stop ts m p)
  from stop.prems show ?case by (rule climbs_elims) (use stop.hyps in fastforce)+
next
  case (climb m op ts a r b r' p q r'')
  obtain a' r1 b' r2 where *: "primary ts a' r1" "climbs (Suc (prio op)) a' r1 b' r2" "climbs m (PBin op p b') r2 q1 s1"
    using climb.prems climb.hyps(1) by (rule climbs_BinE)
  have "a' = a" "r1 = r" using climb.IH(1) [OF *(1)] by simp_all
  with * have "b' = b" "r2 = r'" using climb.IH(2) by simp_all
  with * show ?case using climb.IH(3) by simp
qed

theorem grammar_unambiguous:
  assumes "prec_ok p" and "prec_ok q" and "fringe p = fringe q"
  shows "p = q"
proof -
  have parses: "parses kPrioOp_Min (fringe p) p []" if "prec_ok p" for p
    using readableD(2) [OF readable_fringe [OF that] level_bounds(2) [OF that], of "[]" p "[]"]
      stop [of "[]" kPrioOp_Min p] by simp
  show ?thesis
    using parses [OF assms(1)] parses [OF assms(2)] assms(3) primary_climbs_unique unfolding parses_def by metis
qed

end
