(* ===== verification/Parser.thy ===== *)
theory Parser
  imports Grammar
begin

text \<open>
  The parser of \<^verbatim>\<open>expr.c\<close> against the grammar.  \<open>expression_lexer\<close> is what it needs of the lexical analysis.
\<close>

section \<open>What a run reads and puts\<close>

definition is_operator :: "Lex \<Rightarrow> bool" where
  "is_operator l \<longleftrightarrow> (case l of LexOperator _ _ \<Rightarrow> True | _ \<Rightarrow> False)"

definition no_operator :: "lexer \<Rightarrow> asm \<Rightarrow> bool" where
  "no_operator binop s \<longleftrightarrow> (\<forall>l t. binop s = Inr (l, t) \<longrightarrow> \<not> is_operator l)"

text \<open>\<open>reads prim binop s ts t\<close>: between \<open>s\<close> and \<open>t\<close> the lexical elements \<open>ts\<close> are read, in this order.\<close>

inductive reads :: "lexer \<Rightarrow> lexer \<Rightarrow> asm \<Rightarrow> tok list \<Rightarrow> asm \<Rightarrow> bool" for prim binop where
  nothing: "reads prim binop s [] s"
| operand: "prim s = Inr (l, t) \<Longrightarrow> code_operand l t = Some (Inr u) \<Longrightarrow> Program u (FirstFreeIns t) = CodeValue v
    \<Longrightarrow> reads prim binop u ts w \<Longrightarrow> reads prim binop s (TLeaf v # ts) w"
| unary_operator: "prim s = Inr (LexOperator op pri, t) \<Longrightarrow> Lex_IsUnop op \<Longrightarrow> reads prim binop t ts w
    \<Longrightarrow> reads prim binop s (TUn op # ts) w"
| open_paren: "prim s = Inr (LexDelim (CHR ''(''), t) \<Longrightarrow> reads prim binop t ts w \<Longrightarrow> reads prim binop s (TOpen # ts) w"
| close_paren: "prim s = Inr (LexDelim (CHR '')''), t) \<Longrightarrow> reads prim binop t ts w \<Longrightarrow> reads prim binop s (TClose # ts) w"
| binary_operator: "binop s = Inr (LexOperator op pri, t) \<Longrightarrow> reads prim binop t ts w
    \<Longrightarrow> reads prim binop s (TBin op # ts) w"
| none: "binop s = Inr (l, t) \<Longrightarrow> \<not> is_operator l \<Longrightarrow> reads prim binop t ts w \<Longrightarrow> reads prim binop s ts w"
| put: "Code_Operator op s = Inr t \<Longrightarrow> reads prim binop t ts w \<Longrightarrow> reads prim binop s ts w"

definition emits :: "asm \<Rightarrow> Code list \<Rightarrow> asm \<Rightarrow> bool" where
  "emits s cs t \<longleftrightarrow>
     FirstFreeIns t = FirstFreeIns s + length cs \<and> code_at t (FirstFreeIns s) cs
     \<and> (\<forall>i < FirstFreeIns s. Program t i = Program s i)"

definition adds_value :: "asm \<Rightarrow> asm \<Rightarrow> bool" where
  "adds_value s t \<longleftrightarrow>
     (\<exists>msg v u. code_add msg (CodeValue v) u = Inr t \<and> Program u = Program s \<and> FirstFreeIns u = FirstFreeIns s
        \<and> input_pos u = input_pos s)"

lemma reads_append: "reads prim binop s ts t \<Longrightarrow> reads prim binop t us u \<Longrightarrow> reads prim binop s (ts @ us) u"
  by (induction rule: reads.induct) (auto intro: reads.intros)

lemma emits_append: "emits s cs t \<Longrightarrow> emits t ds u \<Longrightarrow> emits s (cs @ ds) u"
  by (auto simp: emits_def code_at_append) (auto simp: code_at_def)

lemma emits_same: "Program t = Program s \<Longrightarrow> FirstFreeIns t = FirstFreeIns s \<Longrightarrow> emits s [] t"
  by (simp add: emits_def code_at_def)

lemma code_add_emits: "code_add msg c s = Inr t \<Longrightarrow> emits s [c] t"
  by (auto simp: code_add_def emits_def code_at_def Error_Abort_def split: if_splits)

lemma Code_Operator_emits: "Code_Operator op s = Inr t \<Longrightarrow> emits s [CodeOperator op] t"
  unfolding Code_Operator_def by (rule code_add_emits)

lemma code_add_state: "code_add msg c s = Inr t \<Longrightarrow> t = s\<lparr>Program := Program t, FirstFreeIns := FirstFreeIns t\<rparr>"
  by (auto simp: code_add_def Error_Abort_def split: if_splits)

lemma Code_Operator_input: "Code_Operator op s = Inr t \<Longrightarrow> input_pos t = input_pos s"
  by (auto simp: Code_Operator_def code_add_def Error_Abort_def split: if_splits)

lemma code_add_returns [simp]: "code_add msg c s \<noteq> Inl OutOfFuel"
  by (simp add: code_add_def Error_Abort_def)

text \<open>An operand is one element of the program.\<close>

lemmas code_one_defs = Code_Operator_def Code_Symbol_def Code_String_def Code_Int_def Code_Float_def Code_Bool_def

lemma Symbol_Get_program:
  "Symbol_Get i s = (r, t) \<Longrightarrow> Program t = Program s \<and> FirstFreeIns t = FirstFreeIns s \<and> input_pos t = input_pos s
    \<and> gPOStack t = gPOStack s \<and> readVars t = readVars s"
  by (auto simp: Symbol_Get_def Symbol_New_def Let_def split: option.splits prod.splits)

lemma adds_valueI: "code_add msg (CodeValue v) s = Inr t \<Longrightarrow> adds_value s t"
  unfolding adds_value_def by blast

lemma Code_Value_plain:
  "Tag v \<noteq> tCode \<Longrightarrow> Code_Value v b s = code_add ''Internal Code_Value: overflow'' (CodeValue v) s"
  by (cases v) (simp_all add: Code_Value_def)

lemma StorageMap_Value_plain: "StorageMap_Value s = Inr v \<Longrightarrow> Tag v \<noteq> tCode"
  by (cases v; cases "oStorageMapValue s"; simp add: StorageMap_Value_def tag_defs split: if_splits)

lemma code_operand_adds: "code_operand l s = Some (Inr t) \<Longrightarrow> adds_value s t"
proof (cases l)
  case (LexId i)
  assume "code_operand l s = Some (Inr t)"
  then show ?thesis
    using LexId Symbol_Get_program [of i s "fst (Symbol_Get i s)" "snd (Symbol_Get i s)"]
    unfolding adds_value_def by (auto simp: code_operand_def Code_Symbol_def split: prod.splits)
next
  case LexStorage
  assume "code_operand l s = Some (Inr t)"
  then show ?thesis
    using LexStorage Code_Value_plain [OF StorageMap_Value_plain]
    by (auto simp: code_operand_def rbind_eq_Inr intro: adds_valueI)
qed (auto simp: code_operand_def code_one_defs rbind_eq_Inr Code_Value_plain tag_defs intro: adds_valueI)

lemma code_operand_emits:
  assumes "code_operand l s = Some (Inr t)"
  obtains v where "emits s [CodeValue v] t" "Program t (FirstFreeIns s) = CodeValue v" "input_pos t = input_pos s"
proof -
  obtain msg v u where u: "code_add msg (CodeValue v) u = Inr t" "Program u = Program s"
    "FirstFreeIns u = FirstFreeIns s" "input_pos u = input_pos s"
    using code_operand_adds [OF assms] unfolding adds_value_def by blast
  then have "emits s [CodeValue v] t" using code_add_emits [OF u(1)] by (simp add: emits_def)
  moreover have "input_pos t = input_pos s" using u(4) by (subst code_add_state [OF u(1)]) simp
  ultimately show thesis using that [of v] by (simp add: emits_def code_at_single)
qed

lemma Error_returns [simp]: "Error e msg s \<noteq> Inl OutOfFuel"
  using Error_Fixup_only by fastforce

lemma rbind_returns: "m \<noteq> Inl OutOfFuel \<Longrightarrow> (\<And>x. m = Inr x \<Longrightarrow> f x \<noteq> Inl OutOfFuel) \<Longrightarrow> rbind m f \<noteq> Inl OutOfFuel"
  by (cases m) auto

lemma rassert_returns [simp]: "rassert b \<noteq> Inl OutOfFuel"
  by (simp add: rassert_def)

lemma UnGetC_returns [simp]: "Input_UnGetC c s \<noteq> Inl OutOfFuel"
  by (simp add: Input_UnGetC_def Let_def rbind_eq_Inl)

lemma incomplete_returns [simp]: "incomplete msg s \<noteq> Inl OutOfFuel"
  by (simp add: incomplete_def rbind_eq_Inl)

lemma Code_Operator_returns [simp]: "Code_Operator op s \<noteq> Inl OutOfFuel"
  by (simp add: Code_Operator_def)

lemma Code_Value_returns [simp]: "Code_Value v b s \<noteq> Inl OutOfFuel"
  by (cases v) (simp_all add: Code_Value_def code_splice_def Error_Abort_def)

lemma area_returns [simp]: "cur_sym s \<noteq> Inl OutOfFuel" "sym_area s r \<noteq> Inl OutOfFuel" "StorageMap_Value s \<noteq> Inl OutOfFuel"
  by (auto simp: cur_sym_def sym_area_def StorageMap_Value_def split: option.splits Value.splits)

lemma code_operand_returns: "code_operand l s = Some r \<Longrightarrow> r \<noteq> Inl OutOfFuel"
  by (cases l) (auto simp: code_operand_def code_one_defs rbind_eq_Inl split: prod.splits)

section \<open>The interface of the lexical analysis\<close>

locale expression_lexer =
  fixes prim binop :: lexer
  assumes prim_program: "prim s = Inr (l, t) \<Longrightarrow> Program t = Program s \<and> FirstFreeIns t = FirstFreeIns s"
    and binop_program: "binop s = Inr (l, t) \<Longrightarrow> Program t = Program s \<and> FirstFreeIns t = FirstFreeIns s"
    and prim_consumes: "prim s = Inr (l, t) \<Longrightarrow> l \<noteq> LexNone \<Longrightarrow> length (input_pos t) < length (input_pos s)"
    and binop_consumes: "binop s = Inr (l, t) \<Longrightarrow> length (input_pos t) \<le> length (input_pos s)"
    and prim_returns: "prim s \<noteq> Inl OutOfFuel"
    and binop_returns: "binop s \<noteq> Inl OutOfFuel"
    and binop_operator: "binop s = Inr (LexOperator op pri, t) \<Longrightarrow> \<not> Lex_IsUnop op \<and> pri = prio op"
    and binop_none: "binop s = Inr (l, t) \<Longrightarrow> \<not> is_operator l \<Longrightarrow> no_operator binop t"
    and binop_frame: "no_operator binop s \<Longrightarrow> no_operator binop (s\<lparr>Program := p, FirstFreeIns := n\<rparr>)"
begin

definition parsed :: "asm \<Rightarrow> ptree \<Rightarrow> tok list \<Rightarrow> asm \<Rightarrow> bool" where
  "parsed s p pending t \<longleftrightarrow>
     prec_ok p \<and> reads prim binop s (fringe p @ pending) t \<and> emits s (postfix (strip p)) t"

text \<open>What the functions leave in \<^verbatim>\<open>opP\<close> at the level \<open>m\<close>.\<close>

definition pending :: "nat \<Rightarrow> Lex \<Rightarrow> tok list \<Rightarrow> asm \<Rightarrow> bool" where
  "pending m opP ts s \<longleftrightarrow>
     (\<exists>op. opP = LexOperator op (prio op) \<and> ts = [TBin op] \<and> \<not> Lex_IsUnop op \<and> prio op < m)
     \<or> (\<not> is_operator opP \<and> ts = [] \<and> no_operator binop s)"

definition parses_primary :: "asm \<Rightarrow> asm \<Rightarrow> bool" where
  "parses_primary s t \<longleftrightarrow> (\<exists>p. tightness p = kPrioOp_Max \<and> parsed s p [] t)"

definition parses_level :: "nat \<Rightarrow> asm \<Rightarrow> Lex \<Rightarrow> asm \<Rightarrow> bool" where
  "parses_level m s opP t \<longleftrightarrow> (\<exists>p ts. m \<le> tightness p \<and> parsed s p ts t \<and> pending m opP ts t)"

text \<open>
  An operand of the level \<open>m\<close> that holds together at \<open>l\<close>.  Above the highest level it is a primary, behind which
  nothing has been looked up.
\<close>

definition ahead :: "nat \<Rightarrow> Lex \<Rightarrow> tok list \<Rightarrow> asm \<Rightarrow> bool" where
  "ahead m opP ts s \<longleftrightarrow> pending (Suc m) opP ts s \<or> m = kPrioOp_Max \<and> ts = [] \<and> \<not> is_operator opP"

definition parses_operand :: "nat \<Rightarrow> nat \<Rightarrow> asm \<Rightarrow> Lex \<Rightarrow> asm \<Rightarrow> bool" where
  "parses_operand l m s opP t \<longleftrightarrow> (\<exists>p ts. l \<le> tightness p \<and> parsed s p ts t \<and> ahead m opP ts t)"

definition sound :: "nat \<Rightarrow> bool" where
  "sound n \<longleftrightarrow>
     (\<forall>s t. Expr_GetPrim prim binop n s = Inr (False, t) \<longrightarrow> parses_primary s t)
     \<and> (\<forall>opP m s opP' t. Expr_GetInt prim binop n opP m s = Inr (False, opP', t) \<longrightarrow> \<not> is_operator opP
          \<longrightarrow> m \<le> kPrioOp_Max \<longrightarrow> parses_level m s opP' t)
     \<and> (\<forall>s0 opP m s opP' t. expr_loop prim binop n opP m s = Inr (False, opP', t) \<longrightarrow> m \<le> kPrioOp_Max
          \<longrightarrow> parses_operand m m s0 opP s \<longrightarrow> parses_level m s0 opP' t)"

text \<open>Eight levels of calls for each character, as every operand and every operator reads at least one.\<close>

definition returns :: "nat \<Rightarrow> bool" where
  "returns n \<longleftrightarrow>
     (\<forall>s. 8 * length (input_pos s) < n \<longrightarrow> Expr_GetPrim prim binop n s \<noteq> Inl OutOfFuel)
     \<and> (\<forall>opP m s. \<not> is_operator opP \<longrightarrow> m \<le> kPrioOp_Max \<longrightarrow> 8 * length (input_pos s) + 8 < n + m \<longrightarrow>
          Expr_GetInt prim binop n opP m s \<noteq> Inl OutOfFuel)
     \<and> (\<forall>opP m s. m \<le> kPrioOp_Max \<longrightarrow> 8 * length (input_pos s) + 8 < n + m \<longrightarrow> expr_loop prim binop n opP m s \<noteq> Inl OutOfFuel)"

definition operands :: "tok list \<Rightarrow> nat" where
  "operands ts = length (filter (\<lambda>t. \<not> (\<exists>op. t = TBin op)) ts)"

lemma parses_operand_mono: "parses_operand l m s opP t \<Longrightarrow> l' \<le> l \<Longrightarrow> parses_operand l' m s opP t"
  unfolding parses_operand_def by (meson order_trans)

lemma parsed_operand:
  assumes "prim s = Inr (l, t)" and "code_operand l t = Some (Inr u)"
  shows "parses_primary s u"
proof -
  obtain v where v: "emits t [CodeValue v] u" "Program u (FirstFreeIns t) = CodeValue v"
    using code_operand_emits [OF assms(2)] by blast
  have "reads prim binop s [TLeaf v] u" using assms v(2) by (rule operand) (rule nothing)
  moreover have "emits s [CodeValue v] u" using v(1) prim_program [OF assms(1)] by (simp add: emits_def)
  ultimately have "parsed s (PLeaf v) [] u" by (simp add: parsed_def)
  then show ?thesis unfolding parses_primary_def by (metis tightness.simps(2))
qed

lemma emits_cong: "Program t = Program s \<Longrightarrow> FirstFreeIns t = FirstFreeIns s \<Longrightarrow> emits t cs u \<longleftrightarrow> emits s cs u"
  by (simp add: emits_def)

lemma parsed_unary:
  assumes "prim s = Inr (LexOperator op pri, t)" and "Lex_IsUnop op" and "parses_primary t u" and "Code_Operator op u = Inr w"
  shows "parses_primary s w"
proof -
  obtain p where p: "tightness p = kPrioOp_Max" "prec_ok p" "reads prim binop t (fringe p) u" "emits t (postfix (strip p)) u"
    using assms(3) by (auto simp: parses_primary_def parsed_def)
  have "reads prim binop u [] w" using assms(4) by (rule put) (rule nothing)
  from reads_append [OF p(3) this] have "reads prim binop t (fringe p) w" by simp
  with assms(1,2) have "reads prim binop s (TUn op # fringe p) w" by (rule unary_operator)
  moreover have "emits s (postfix (strip p) @ [CodeOperator op]) w"
    using emits_append [OF p(4) Code_Operator_emits [OF assms(4)]] prim_program [OF assms(1)] emits_cong [of t s] by simp
  ultimately have "parsed s (PUn op p) [] w" using p assms(2) by (simp add: parsed_def)
  then show ?thesis unfolding parses_primary_def by (metis tightness.simps(3))
qed

lemma parsed_paren:
  assumes "prim s = Inr (LexDelim (CHR ''(''), t)" and "parses_level kPrioOp_Min t opP u"
    and "prim u = Inr (LexDelim (CHR '')''), w)"
  shows "parses_primary s w"
proof -
  obtain p where p: "prec_ok p" "reads prim binop t (fringe p) u" "emits t (postfix (strip p)) u"
    using assms(2) prio_bounds(2) by (fastforce simp: parses_level_def parsed_def pending_def)
  have "reads prim binop u [TClose] w" using assms(3) by (rule close_paren) (rule nothing)
  with p(2) have "reads prim binop t (fringe p @ [TClose]) w" by (rule reads_append)
  with assms(1) have "reads prim binop s (TOpen # fringe p @ [TClose]) w" by (rule open_paren)
  moreover have "emits s (postfix (strip p)) w"
    using p(3) prim_program [OF assms(1)] prim_program [OF assms(3)] by (simp add: emits_def code_at_def)
  ultimately have "parsed s (PParen p) [] w" using p by (simp add: parsed_def)
  then show ?thesis unfolding parses_primary_def by (metis tightness.simps(4))
qed


text \<open>A round of the loop: an operator of the level, its right operand, and the operator goes into the program.\<close>

lemma parsed_binary:
  assumes "parsed s p [TBin op] t" and "\<not> Lex_IsUnop op" and "prio op \<le> tightness p"
    and "parses_operand (Suc (prio op)) (prio op) t opP u" and "Code_Operator op u = Inr w"
  shows "parses_operand (prio op) (prio op) s opP w"
proof -
  obtain q ts where q: "Suc (prio op) \<le> tightness q" "prec_ok q" "reads prim binop t (fringe q @ ts) u"
    "emits t (postfix (strip q)) u" "pending (Suc (prio op)) opP ts u"
    using assms(4) prio_bounds(2) [OF assms(2)] by (auto simp: parses_operand_def parsed_def ahead_def)
  have "reads prim binop u [] w" using assms(5) by (rule put) (rule nothing)
  from reads_append [OF reads_append [OF _ q(3)] this, of s "fringe p @ [TBin op]"]
  have "reads prim binop s (fringe (PBin op p q) @ ts) w" using assms(1) by (simp add: parsed_def)
  moreover have "emits s (postfix (strip (PBin op p q))) w"
    using emits_append [OF emits_append [OF _ q(4)] Code_Operator_emits [OF assms(5)], of s "postfix (strip p)"] assms(1)
    by (simp add: parsed_def)
  moreover have "prec_ok (PBin op p q)" using assms(1-3) q by (simp add: parsed_def)
  ultimately have "parsed s (PBin op p q) ts w" by (simp add: parsed_def)
  moreover have "w = u\<lparr>Program := Program w, FirstFreeIns := FirstFreeIns w\<rparr>"
    using assms(5) code_add_state by (simp add: Code_Operator_def)
  then have "no_operator binop u \<Longrightarrow> no_operator binop w" by (metis binop_frame)
  then have "ahead (prio op) opP ts w" using q(5) by (auto simp: ahead_def pending_def)
  ultimately show ?thesis unfolding parses_operand_def by (metis tightness.simps(1) order_refl)
qed

text \<open>The operator at the head of the loop, looked up when there is none yet.\<close>

lemma parsed_head:
  assumes "parses_operand m m s opP t"
    and "(case opP of LexOperator _ _ \<Rightarrow> Inr (opP, t) | _ \<Rightarrow> binop t) = Inr (opP', u)"
  shows "\<exists>p ts. m \<le> tightness p \<and> parsed s p ts u \<and> pending (Suc m) opP' ts u"
proof -
  obtain p ts where p: "m \<le> tightness p" "parsed s p ts t" "ahead m opP ts t"
    using assms(1) unfolding parses_operand_def by blast
  show ?thesis
  proof (cases "is_operator opP")
    case True
    then have "opP' = opP" "u = t" using assms(2) by (auto simp: is_operator_def split: Lex.splits)
    then show ?thesis using p True unfolding ahead_def by blast
  next
    case False
    then have binop: "binop t = Inr (opP', u)" and ts: "ts = []"
      using assms(2) p(3) by (auto simp: is_operator_def ahead_def pending_def split: Lex.splits)
    have kept: "emits s (postfix (strip p)) u" if "emits s (postfix (strip p)) t"
      using that binop_program [OF binop] by (simp add: emits_def code_at_def)
    show ?thesis
    proof (cases "is_operator opP'")
      case True
      then obtain op pri where LexOperator: "opP' = LexOperator op pri" by (auto simp: is_operator_def split: Lex.splits)
      then have "binop t = Inr (LexOperator op pri, u)" using binop by simp
      then have "reads prim binop t [TBin op] u" by (rule binary_operator) (rule nothing)
      then have "parsed s p [TBin op] u"
        using p(2) ts kept reads_append [of prim binop s "fringe p" t "[TBin op]" u] by (simp add: parsed_def)
      moreover have "pending (Suc m) opP' [TBin op] u"
      proof -
        have op: "\<not> Lex_IsUnop op" "pri = prio op" using binop_operator binop LexOperator by auto
        have "\<not> no_operator binop t" using binop LexOperator by (auto simp: no_operator_def is_operator_def)
        then have "m = kPrioOp_Max" using p(3) False by (auto simp: ahead_def pending_def is_operator_def)
        then show ?thesis using op prio_bounds(2) [OF op(1)] LexOperator by (simp add: pending_def)
      qed
      ultimately show ?thesis using p(1) by blast
    next
      case none: False
      with binop have "reads prim binop t [] u" by (rule reads.none) (rule nothing)
      then have "parsed s p [] u"
        using p(2) ts kept reads_append [of prim binop s "fringe p" t "[]" u] by (simp add: parsed_def)
      then show ?thesis using p(1) none binop_none [OF binop none] unfolding pending_def by blast
    qed
  qed
qed

section \<open>The functions\<close>

lemma soundD:
  assumes "sound n"
  shows "Expr_GetPrim prim binop n s = Inr (False, t) \<Longrightarrow> parses_primary s t"
    and "Expr_GetInt prim binop n opP m s = Inr (False, opP', t) \<Longrightarrow> \<not> is_operator opP \<Longrightarrow> m \<le> kPrioOp_Max
      \<Longrightarrow> parses_level m s opP' t"
    and "expr_loop prim binop n opP m s = Inr (False, opP', t) \<Longrightarrow> m \<le> kPrioOp_Max \<Longrightarrow> parses_operand m m s0 opP s
      \<Longrightarrow> parses_level m s0 opP' t"
  using assms unfolding sound_def by blast+

lemma operand_sound:
  assumes "sound n" and "expr_operand prim binop n opP m s = Inr (False, opP', t)" and "\<not> is_operator opP" and "m \<le> kPrioOp_Max"
  shows "parses_operand (if m = kPrioOp_Max then m else Suc m) m s opP' t"
proof (cases "m = kPrioOp_Max")
  case True
  then have "parses_primary s t" "opP' = opP" using assms(2) soundD(1) [OF assms(1)] by (auto simp: rbind_eq_Inr)
  then obtain p where p: "tightness p = kPrioOp_Max" "parsed s p [] t" unfolding parses_primary_def by blast
  moreover have "ahead m opP' [] t" using True assms(3) \<open>opP' = opP\<close> by (simp add: ahead_def)
  ultimately show ?thesis using True unfolding parses_operand_def by (metis order_refl)
next
  case False
  then have "parses_level (Suc m) s opP' t" using assms soundD(2) [OF assms(1)] by simp
  then show ?thesis using False by (auto simp: parses_level_def parses_operand_def ahead_def)
qed

lemma primary_sound:
  assumes "sound n" and "Expr_GetPrim prim binop (Suc n) s = Inr (False, t)"
  shows "parses_primary s t"
proof -
  obtain l u where u: "prim s = Inr (l, u)"
    and rest: "(case code_operand l u of
         Some r \<Rightarrow> rbind r (\<lambda>s. Inr (False, s))
       | None \<Rightarrow>
           (case l of
              LexOperator op pri \<Rightarrow>
                if \<not> Lex_IsUnop op then incomplete ''Illegal operator'' u
                else rbind (Expr_GetPrim prim binop n u) (\<lambda>(failed, s).
                       if failed then Inr (True, s) else rbind (Code_Operator op s) (\<lambda>s. Inr (False, s)))
            | LexDelim d \<Rightarrow>
                if d = CHR ''(''
                then rbind (Expr_GetInt prim binop n LexNone kPrioOp_Min u) (\<lambda>(failed, _, s).
                       if failed then Inr (True, s)
                       else rbind (prim s) (\<lambda>(l, s).
                              if l \<noteq> LexDelim (CHR '')'') then incomplete ''Missing ')'' s else Inr (False, s)))
                else if d = CHR '')''
                then rbind (Input_UnGetC (CHR '')'') u) (incomplete '')' unexpected'')
                else Inl AssertFailed
            | LexNone \<Rightarrow> incomplete ''Incomplete expression'' u
            | _ \<Rightarrow> Inl AssertFailed)) = Inr (False, t)"
    using assms(2) by (auto simp: rbind_eq_Inr)
  show ?thesis
  proof (cases "code_operand l u")
    case (Some r)
    then show ?thesis using rest u parsed_operand [of s l u t] by (auto simp: rbind_eq_Inr)
  next
    case None
    show ?thesis
    proof (cases l)
      case (LexOperator op pri)
      then obtain w where "Lex_IsUnop op" "Expr_GetPrim prim binop n u = Inr (False, w)" "Code_Operator op w = Inr t"
        using rest None by (auto simp: incomplete_def rbind_eq_Inr split: if_splits)
      then show ?thesis using parsed_unary soundD(1) [OF assms(1)] u LexOperator by blast
    next
      case (LexDelim d)
      then obtain opP w where "d = CHR ''(''" "Expr_GetInt prim binop n LexNone kPrioOp_Min u = Inr (False, opP, w)"
        "prim w = Inr (LexDelim (CHR '')''), t)"
        using rest None by (auto simp: incomplete_def rbind_eq_Inr split: if_splits)
      then show ?thesis using parsed_paren soundD(2) [OF assms(1)] u LexDelim
        by (fastforce simp: is_operator_def prio_defs)
    qed (use rest None in \<open>auto simp: incomplete_def rbind_eq_Inr\<close>)
  qed
qed

lemma loop_sound:
  assumes "sound n" and "expr_loop prim binop (Suc n) opP m s = Inr (False, opP', t)" and "m \<le> kPrioOp_Max"
    and "parses_operand m m s0 opP s"
  shows "parses_level m s0 opP' t"
proof -
  obtain opP1 s1 where head: "(case opP of LexOperator _ _ \<Rightarrow> Inr (opP, s) | _ \<Rightarrow> binop s) = Inr (opP1, s1)"
    and rest: "(case opP1 of
         LexOperator op pri \<Rightarrow>
           if pri \<noteq> m then Inr (False, opP1, s1)
           else rbind (expr_operand prim binop n LexNone m s1) (\<lambda>(failed, opP, s).
                  if failed then Inr (True, opP, s)
                  else rbind (Code_Operator op s) (expr_loop prim binop n opP m))
       | _ \<Rightarrow> Inr (False, opP1, s1)) = Inr (False, opP', t)"
    using assms(2) by (auto simp: rbind_eq_Inr simp del: expr_operand.simps)
  obtain p ts where p: "m \<le> tightness p" "parsed s0 p ts s1" "pending (Suc m) opP1 ts s1"
    using parsed_head [OF assms(4) head] by blast
  show ?thesis
  proof (cases "\<exists>op. opP1 = LexOperator op m")
    case False
    then have "opP' = opP1" "t = s1" using rest by (auto split: Lex.splits if_splits)
    moreover have "pending m opP1 ts s1" using p(3) False by (auto simp: pending_def less_Suc_eq)
    ultimately show ?thesis using p unfolding parses_level_def by blast
  next
    case True
    then obtain op where op: "opP1 = LexOperator op m" by blast
    then have prio: "m = prio op" "ts = [TBin op]" "\<not> Lex_IsUnop op"
      using p(3) by (auto simp: pending_def is_operator_def)
    obtain opP2 s2 s3 where run: "expr_operand prim binop n LexNone m s1 = Inr (False, opP2, s2)"
      "Code_Operator op s2 = Inr s3" "expr_loop prim binop n opP2 m s3 = Inr (False, opP', t)"
      using rest op by (auto simp: rbind_eq_Inr simp del: expr_operand.simps split: if_splits)
    have "parses_operand (Suc m) m s1 opP2 s2"
      using operand_sound [OF assms(1) run(1)] assms(3) prio prio_bounds(2) [OF prio(3)] by (auto simp: is_operator_def)
    then have "parses_operand m m s0 opP2 s3"
      using parsed_binary [OF _ prio(3) _ _ run(2)] p prio by blast
    then show ?thesis using soundD(3) [OF assms(1) run(3) assms(3)] by blast
  qed
qed

lemma all_sound: "sound n"
proof (induction n)
  case 0
  show ?case by (simp add: sound_def)
next
  case (Suc n)
  have "parses_level m s opP' t"
    if run: "Expr_GetInt prim binop (Suc n) opP m s = Inr (False, opP', t)" "\<not> is_operator opP" "m \<le> kPrioOp_Max"
    for opP m s opP' t
  proof -
    obtain opP1 s1 where 1: "expr_operand prim binop n opP m s = Inr (False, opP1, s1)"
      "expr_loop prim binop n opP1 m s1 = Inr (False, opP', t)"
      using run(1) by (auto simp: rbind_eq_Inr simp del: expr_operand.simps split: if_splits)
    have "parses_operand m m s opP1 s1"
      using operand_sound [OF Suc 1(1) run(2,3)] by (rule parses_operand_mono) simp
    then show ?thesis using soundD(3) [OF Suc 1(2) run(3)] by blast
  qed
  then show ?case
    using primary_sound [OF Suc] loop_sound [OF Suc] unfolding sound_def by blast
qed

lemma proper_strip: "prec_ok p \<Longrightarrow> proper (strip p)"
  by (induction p) auto

text \<open>A whole expression: no operator is left over, and what follows is not one.\<close>

lemma expression_sound:
  assumes "Expr_GetInt prim binop n LexNone kPrioOp_Min s = Inr (False, opP, t)"
  shows "\<exists>p. prec_ok p \<and> reads prim binop s (fringe p) t \<and> emits s (postfix (strip p)) t \<and> no_operator binop t"
proof -
  obtain p ts where p: "parsed s p ts t" "pending kPrioOp_Min opP ts t"
    using soundD(2) [OF all_sound assms] by (auto simp: parses_level_def is_operator_def prio_defs)
  then have "ts = []" "no_operator binop t" using prio_bounds(2) by (fastforce simp: pending_def)+
  then show ?thesis using p(1) unfolding parsed_def by auto
qed

text \<open>The program never grows over its array.\<close>

lemma code_add_bound: "code_add msg c s = Inr t \<Longrightarrow> FirstFreeIns t \<le> CODE_SIZECODE"
  by (auto simp: code_add_def Error_Abort_def split: if_splits)

lemma reads_bound: "reads prim binop s ts t \<Longrightarrow> FirstFreeIns s \<le> CODE_SIZECODE \<Longrightarrow> FirstFreeIns t \<le> CODE_SIZECODE"
proof (induction rule: reads.induct)
  case (operand s l t u v ts w)
  have "FirstFreeIns u \<le> CODE_SIZECODE"
    using code_operand_adds [OF operand(2)] code_add_bound unfolding adds_value_def by blast
  then show ?case by (rule operand.IH)
next
  case (put op s t ts w)
  have "FirstFreeIns t \<le> CODE_SIZECODE" using put(1) code_add_bound unfolding Code_Operator_def by blast
  then show ?case by (rule put.IH)
qed (auto dest: prim_program binop_program)

section \<open>Termination\<close>

lemma returnsD:
  assumes "returns n"
  shows "8 * length (input_pos s) < n \<Longrightarrow> Expr_GetPrim prim binop n s \<noteq> Inl OutOfFuel"
    and "\<not> is_operator opP \<Longrightarrow> m \<le> kPrioOp_Max \<Longrightarrow> 8 * length (input_pos s) + 8 < n + m \<Longrightarrow> Expr_GetInt prim binop n opP m s \<noteq> Inl OutOfFuel"
    and "m \<le> kPrioOp_Max \<Longrightarrow> 8 * length (input_pos s) + 8 < n + m \<Longrightarrow> expr_loop prim binop n opP m s \<noteq> Inl OutOfFuel"
  using assms unfolding returns_def by blast+

lemma operands_simps [simp]:
  "operands [] = 0" "operands (TBin op # ts) = operands ts" "operands (TLeaf v # ts) = Suc (operands ts)"
  "operands (TUn op # ts) = Suc (operands ts)" "operands (TOpen # ts) = Suc (operands ts)"
  "operands (TClose # ts) = Suc (operands ts)" "operands (ts @ us) = operands ts + operands us"
  by (simp_all add: operands_def)

lemma operands_fringe: "0 < operands (fringe p)"
  by (induction p) simp_all

lemma reads_consumes: "reads prim binop s ts t \<Longrightarrow> length (input_pos t) + operands ts \<le> length (input_pos s)"
proof (induction rule: reads.induct)
  case (operand s l t u v ts w)
  have "input_pos u = input_pos t" using code_operand_emits [OF operand(2)] by blast
  moreover have "l \<noteq> LexNone" using operand(2) by (auto simp: code_operand_def)
  ultimately show ?case using operand.IH prim_consumes [OF operand(1)] by simp
next
  case (put op s t ts w)
  then show ?case using put.IH Code_Operator_input [OF put(1)] by simp
qed (fastforce dest: prim_consumes binop_consumes)+

lemma parsed_consumes: "parsed s p ts t \<Longrightarrow> length (input_pos t) < length (input_pos s)"
  using reads_consumes [of s "fringe p @ ts" t] operands_fringe [of p] by (simp add: parsed_def)

lemma primary_consumes: "Expr_GetPrim prim binop n s = Inr (False, t) \<Longrightarrow> length (input_pos t) < length (input_pos s)"
  using soundD(1) [OF all_sound] parsed_consumes unfolding parses_primary_def by blast

lemma level_consumes:
  "Expr_GetInt prim binop n opP m s = Inr (False, opP', t) \<Longrightarrow> \<not> is_operator opP \<Longrightarrow> m \<le> kPrioOp_Max
     \<Longrightarrow> length (input_pos t) < length (input_pos s)"
  using soundD(2) [OF all_sound] parsed_consumes unfolding parses_level_def by blast

lemma operand_consumes:
  "expr_operand prim binop n opP m s = Inr (False, opP', t) \<Longrightarrow> \<not> is_operator opP \<Longrightarrow> m \<le> kPrioOp_Max
     \<Longrightarrow> length (input_pos t) < length (input_pos s)"
  using level_consumes [of n opP "Suc m" s opP' t] primary_consumes [of n s t]
  by (auto simp: rbind_eq_Inr split: if_splits)

lemma operand_returns:
  assumes "returns n" and "m \<le> kPrioOp_Max" and "8 * length (input_pos s) + 8 < Suc n + m" and "\<not> is_operator opP"
  shows "expr_operand prim binop n opP m s \<noteq> Inl OutOfFuel"
proof (cases "m = kPrioOp_Max")
  case True
  then show ?thesis using returnsD(1) [OF assms(1), of s] assms(3) by (simp add: rbind_eq_Inl prio_defs)
next
  case False
  then show ?thesis using returnsD(2) [OF assms(1), of opP "Suc m" s] assms by simp
qed

lemma primary_returns:
  assumes "returns n" and "8 * length (input_pos s) < Suc n"
  shows "Expr_GetPrim prim binop (Suc n) s \<noteq> Inl OutOfFuel"
proof -
  have "(case code_operand l u of
         Some r \<Rightarrow> rbind r (\<lambda>s. Inr (False, s))
       | None \<Rightarrow>
           (case l of
              LexOperator op pri \<Rightarrow>
                if \<not> Lex_IsUnop op then incomplete ''Illegal operator'' u
                else rbind (Expr_GetPrim prim binop n u) (\<lambda>(failed, s).
                       if failed then Inr (True, s) else rbind (Code_Operator op s) (\<lambda>s. Inr (False, s)))
            | LexDelim d \<Rightarrow>
                if d = CHR ''(''
                then rbind (Expr_GetInt prim binop n LexNone kPrioOp_Min u) (\<lambda>(failed, _, s).
                       if failed then Inr (True, s)
                       else rbind (prim s) (\<lambda>(l, s).
                              if l \<noteq> LexDelim (CHR '')'') then incomplete ''Missing ')'' s else Inr (False, s)))
                else if d = CHR '')''
                then rbind (Input_UnGetC (CHR '')'') u) (incomplete '')' unexpected'')
                else Inl AssertFailed
            | LexNone \<Rightarrow> incomplete ''Incomplete expression'' u
            | _ \<Rightarrow> Inl AssertFailed)) \<noteq> Inl OutOfFuel" if "prim s = Inr (l, u)" for l u
  proof (cases "code_operand l u")
    case (Some r)
    then show ?thesis using code_operand_returns by (auto simp: rbind_eq_Inl)
  next
    case None
    have "8 * length (input_pos u) + 8 < Suc n" if "l \<noteq> LexNone"
      using prim_consumes [OF \<open>prim s = Inr (l, u)\<close> that] assms(2) by simp
    then show ?thesis
      using None returnsD(1) [OF assms(1), of u] returnsD(2) [OF assms(1), of LexNone kPrioOp_Min u] prim_returns
      by (cases l) (auto simp: rbind_eq_Inl prio_defs is_operator_def split: if_splits)
  qed
  then show ?thesis using prim_returns by (auto simp: rbind_eq_Inl)
qed

lemma loop_returns:
  assumes "returns n" and "m \<le> kPrioOp_Max" and "8 * length (input_pos s) + 8 < Suc n + m"
  shows "expr_loop prim binop (Suc n) opP m s \<noteq> Inl OutOfFuel"
proof -
  let ?round = "\<lambda>op s. rbind (expr_operand prim binop n LexNone m s) (\<lambda>(failed, opP, s).
      if failed then Inr (True, opP, s) else rbind (Code_Operator op s) (expr_loop prim binop n opP m))"
  have round: "?round op u \<noteq> Inl OutOfFuel" if len: "length (input_pos u) \<le> length (input_pos s)" for op u
  proof (rule rbind_returns)
    show "expr_operand prim binop n LexNone m u \<noteq> Inl OutOfFuel"
      using operand_returns [OF assms(1,2), of u LexNone] assms(3) len by (simp add: is_operator_def)
  next
    fix x assume x: "expr_operand prim binop n LexNone m u = Inr x"
    obtain failed opP t where x': "x = (failed, opP, t)" by (cases x)
    have "rbind (Code_Operator op t) (expr_loop prim binop n opP m) \<noteq> Inl OutOfFuel" if "\<not> failed"
    proof (rule rbind_returns)
      fix w assume "Code_Operator op t = Inr w"
      then have "8 * length (input_pos w) + 8 < n + m"
        using operand_consumes [of n LexNone m u opP t] x x' that len assms(2,3) Code_Operator_input [of op t w]
        by (simp add: is_operator_def)
      then show "expr_loop prim binop n opP m w \<noteq> Inl OutOfFuel" using returnsD(3) [OF assms(1,2)] by blast
    qed simp
    then show "(case x of (failed, opP, s) \<Rightarrow>
        if failed then Inr (True, opP, s) else rbind (Code_Operator op s) (expr_loop prim binop n opP m)) \<noteq> Inl OutOfFuel"
      using x' by simp
  qed
  have rest: "(case l of LexOperator op pri \<Rightarrow> if pri \<noteq> m then Inr (False, l, u) else ?round op u
       | _ \<Rightarrow> Inr (False, l, u)) \<noteq> Inl OutOfFuel" if "length (input_pos u) \<le> length (input_pos s)" for l u
    using round [OF that] by (auto split: Lex.split)
  show ?thesis
    unfolding expr_loop.simps
  proof (rule rbind_returns)
    show "(case opP of LexOperator _ _ \<Rightarrow> Inr (opP, s) | _ \<Rightarrow> binop s) \<noteq> Inl OutOfFuel"
      using binop_returns by (auto split: Lex.split)
  next
    fix x assume "(case opP of LexOperator _ _ \<Rightarrow> Inr (opP, s) | _ \<Rightarrow> binop s) = Inr x"
    then have "length (input_pos (snd x)) \<le> length (input_pos s)"
      using binop_consumes by (cases x) (auto split: Lex.splits)
    then show "(case x of (opP, s) \<Rightarrow> case opP of
         LexOperator op pri \<Rightarrow>
           if pri \<noteq> m then Inr (False, opP, s)
           else rbind (expr_operand prim binop n LexNone m s) (\<lambda>(failed, opP, s).
                  if failed then Inr (True, opP, s)
                  else rbind (Code_Operator op s) (expr_loop prim binop n opP m))
       | _ \<Rightarrow> Inr (False, opP, s)) \<noteq> Inl OutOfFuel"
      using rest [of "snd x" "fst x"] by (simp add: case_prod_beta)
  qed
qed

lemma level_returns:
  assumes "returns n" and "\<not> is_operator opP" and "m \<le> kPrioOp_Max" and "8 * length (input_pos s) + 8 < Suc n + m"
  shows "Expr_GetInt prim binop (Suc n) opP m s \<noteq> Inl OutOfFuel"
  unfolding Expr_GetInt.simps
proof (rule rbind_returns)
  show "expr_operand prim binop n opP m s \<noteq> Inl OutOfFuel" by (rule operand_returns [OF assms(1,3,4,2)])
next
  fix x assume x: "expr_operand prim binop n opP m s = Inr x"
  obtain failed opP' t where x': "x = (failed, opP', t)" by (cases x)
  have "expr_loop prim binop n opP' m t \<noteq> Inl OutOfFuel" if "\<not> failed"
    using operand_consumes [of n opP m s opP' t] x x' that assms(2-4) by (intro returnsD(3) [OF assms(1,3)]) simp
  then show "(case x of (failed, opP, s) \<Rightarrow> if failed then Inr (True, opP, s) else expr_loop prim binop n opP m s) \<noteq> Inl OutOfFuel"
    using x' by simp
qed

lemma all_returns: "returns n"
proof (induction n)
  case 0
  show ?case by (simp add: returns_def prio_defs)
next
  case (Suc n)
  show ?case
    unfolding returns_def using primary_returns [OF Suc] level_returns [OF Suc] loop_returns [OF Suc] by blast
qed

lemma expression_returns:
  "8 * length (input_pos s) + 8 \<le> n \<Longrightarrow> Expr_GetInt prim binop n LexNone kPrioOp_Min s \<noteq> Inl OutOfFuel"
  by (intro returnsD(2) [OF all_returns]) (simp_all add: is_operator_def prio_defs)

end

end
