(* ===== verification/Lexing.thy ===== *)
theory Lexing
  imports Parser
begin

text \<open>
  The lexical analysis of \<^verbatim>\<open>lex.c\<close> provides what the parser needs: it leaves the program alone, ends, and
  every lexical element it finds costs at least one character of the line.
\<close>

section \<open>Reading forward\<close>

definition same_prog :: "asm \<Rightarrow> asm \<Rightarrow> bool" where
  "same_prog s t \<longleftrightarrow> Program t = Program s \<and> FirstFreeIns t = FirstFreeIns s \<and> gPOStack t = gPOStack s \<and> readVars t = readVars s"

text \<open>A run from \<open>s\<close> ends, and when it returns, with a result and a number of unread characters that satisfy \<open>Q\<close>.\<close>

definition leaves :: "('a \<Rightarrow> nat \<Rightarrow> bool) \<Rightarrow> asm \<Rightarrow> ('a \<times> asm) outcome \<Rightarrow> bool" where
  "leaves Q s r \<longleftrightarrow> r \<noteq> Inl OutOfFuel \<and> (\<forall>x t. r = Inr (x, t) \<longrightarrow> same_prog s t \<and> Q x (length (input_pos t)))"

fun switch_ops :: "op_switch \<Rightarrow> (Operator_e \<times> nat) list" where
  "switch_ops (Finish fs) = map snd fs"
| "switch_ops (Switch cs) = concat (map (\<lambda>(k, sw). switch_ops sw) cs)"

text \<open>What a switch leaves: an operator of its names behind them, or the input as it was.\<close>

definition switched :: "(Operator_e \<times> nat) list \<Rightarrow> asm \<Rightarrow> (Lex \<times> asm) outcome \<Rightarrow> bool" where
  "switched ops s r \<longleftrightarrow> r \<noteq> Inl OutOfFuel
     \<and> (\<forall>l t. r = Inr (l, t) \<longrightarrow> l = LexNone \<and> t = s
          \<or> (\<exists>op pri. (op, pri) \<in> set ops \<and> l = LexOperator op pri \<and> same_prog s t
               \<and> length (input_pos t) \<le> length (input_pos s)))"

definition eats :: "nat \<Rightarrow> Lex \<Rightarrow> nat \<Rightarrow> bool" where
  "eats k l n \<longleftrightarrow> n \<le> k \<and> (l \<noteq> LexNone \<longrightarrow> n < k)"

text \<open>What \<^verbatim>\<open>Lex_GetBinop\<close> leaves: an operator with its priority, or the input behind the white space.\<close>

definition bin_ok :: "Operator_e \<times> nat \<Rightarrow> bool" where
  "bin_ok x \<longleftrightarrow> \<not> Lex_IsUnop (fst x) \<and> snd x = prio (fst x)"

definition binop_result :: "asm \<Rightarrow> (Lex \<times> asm) outcome \<Rightarrow> bool" where
  "binop_result s r \<longleftrightarrow> r \<noteq> Inl OutOfFuel
     \<and> (\<forall>l t. r = Inr (l, t) \<longrightarrow> l = LexNone \<and> t = s
          \<or> (\<exists>x. bin_ok x \<and> l = LexOperator (fst x) (snd x) \<and> same_prog s t \<and> length (input_pos t) \<le> length (input_pos s)))"

text \<open>The program has no influence on the operators.\<close>

definition reprog :: "(nat \<Rightarrow> Code) \<Rightarrow> nat \<Rightarrow> asm \<Rightarrow> asm" where
  "reprog p n s = s\<lparr>Program := p, FirstFreeIns := n\<rparr>"

definition lift_reprog :: "(nat \<Rightarrow> Code) \<Rightarrow> nat \<Rightarrow> ('a \<times> asm) outcome \<Rightarrow> ('a \<times> asm) outcome" where
  "lift_reprog p n r = (case r of Inl e \<Rightarrow> Inl e | Inr (x, t) \<Rightarrow> Inr (x, reprog p n t))"

definition parsed_code :: "(bool \<times> asm) outcome \<Rightarrow> Code list" where
  "parsed_code r = (case r of Inr (False, t) \<Rightarrow> map (Program t) [0..<FirstFreeIns t] | _ \<Rightarrow> [])"

lemma same_prog_refl [simp]: "same_prog s s"
  by (simp add: same_prog_def)

lemma same_prog_trans: "same_prog s t \<Longrightarrow> same_prog t u \<Longrightarrow> same_prog s u"
  by (simp add: same_prog_def)

lemma same_prog_sel [simp]:
  "same_prog s (t\<lparr>input_pos := x\<rparr>) = same_prog s t" "same_prog s (t\<lparr>localVars := y\<rparr>) = same_prog s t"
  by (simp_all add: same_prog_def)

lemma same_prog_input [simp]: "same_prog s (Input_SkipWS t) = same_prog s t" "same_prog s (Input_Skip t) = same_prog s t"
  by (simp_all add: Input_SkipWS_def Input_Skip_def)

lemma length_input [simp]:
  "length (input_pos (Input_Skip s)) = (if Input_Look s = NUL then length (input_pos s) else length (input_pos s) - 1)"
  by (simp add: Input_Skip_def)

lemma length_SkipWS: "length (input_pos (Input_SkipWS s)) \<le> length (input_pos s)"
  by (simp add: Input_SkipWS_def length_dropWhile_le)

lemma leaves_Inl [simp]: "leaves Q s (Inl e) \<longleftrightarrow> e \<noteq> OutOfFuel"
  by (simp add: leaves_def)

lemma leaves_Inr [simp]: "leaves Q s (Inr (x, t)) \<longleftrightarrow> same_prog s t \<and> Q x (length (input_pos t))"
  by (simp add: leaves_def)

lemma leaves_rbind:
  assumes "leaves P s m" and "\<And>x t. same_prog s t \<Longrightarrow> P x (length (input_pos t)) \<Longrightarrow> leaves Q s (f (x, t))"
  shows "leaves Q s (rbind m f)"
proof (cases m)
  case (Inr a)
  then obtain x t where a: "a = (x, t)" by (cases a)
  then have "same_prog s t" "P x (length (input_pos t))" using assms(1) Inr by simp_all
  then show ?thesis using assms(2) [of t x] Inr a by simp
qed (use assms in simp)

lemma leaves_rbind_Error:
  assumes "same_prog s u" and "\<And>t. same_prog s t \<Longrightarrow> length (input_pos t) \<le> length (input_pos u) \<Longrightarrow> leaves Q s (f t)"
  shows "leaves Q s (rbind (Error e m u) f)"
proof (cases "Error e m u")
  case (Inl x)
  then show ?thesis using Error_Fixup_only [OF Inl] by auto
next
  case (Inr t)
  have "length (input_pos t) \<le> length (input_pos u)"
    using Inr by (auto simp: Error_def Let_def Input_Rest_def errorCore_def split: if_splits ErrorTag.splits)
  moreover have "same_prog s t" using Error_same [OF Inr] assms(1) by (simp add: same_but_errorsD same_prog_def)
  ultimately show ?thesis using assms(2) Inr by simp
qed

lemma leaves_rbind_UnGetC:
  assumes "same_prog s u" and "\<And>t. same_prog s t \<Longrightarrow> length (input_pos t) \<le> Suc (length (input_pos u)) \<Longrightarrow> leaves Q s (f t)"
  shows "leaves Q s (rbind (Input_UnGetC c u) f)"
  using assms by (auto simp: Input_UnGetC_def Let_def rassert_def)

lemma leaves_rbind_read: "m \<noteq> Inl OutOfFuel \<Longrightarrow> (\<And>x. m = Inr x \<Longrightarrow> leaves Q s (f x)) \<Longrightarrow> leaves Q s (rbind m f)"
  by (cases m) auto

lemma leaves_if:
  "(b \<Longrightarrow> leaves Q s f) \<Longrightarrow> (\<not> b \<Longrightarrow> leaves Q s g) \<Longrightarrow> leaves Q s (if b then f else g)"
  by simp

lemma leaves_option:
  "(x = None \<Longrightarrow> leaves Q s f) \<Longrightarrow> (\<And>y. x = Some y \<Longrightarrow> leaves Q s (g y)) \<Longrightarrow>
     leaves Q s (case x of None \<Rightarrow> f | Some y \<Rightarrow> g y)"
  by (cases x) simp_all

lemma rbind_if: "rbind (if b then x else y) f = (if b then rbind x f else rbind y f)"
  by simp

section \<open>Characters, symbols and strings\<close>

lemma Look_NUL: "Input_Look s \<noteq> NUL \<Longrightarrow> 0 < length (input_pos s)"
  by (auto simp: Input_Look_def peek_def split: if_splits)

lemma Match_kept: "Input_Match c b s = (m, t) \<Longrightarrow> same_prog u s \<Longrightarrow> same_prog u t \<and> length (input_pos t) \<le> length (input_pos s)"
  using le_trans [OF length_dropWhile_le [of isspace "tl (input_pos s)"]]
  by (auto simp: Input_Match_def split: if_splits)

lemma matched_le: "matched f cs ks \<le> length cs" "matched f cs ks \<le> length ks"
  by (induction f cs ks rule: matched.induct) auto

lemma MatchString_kept:
  assumes "Input_MatchString str s = Some t" and "same_prog u s"
  shows "same_prog u t" and "length (input_pos t) + length str = length (input_pos s)"
  using assms matched_le(1) [of id "input_pos s" str] by (auto simp: Input_MatchString_def Let_def split: if_splits)

lemma id_length_le: "id_length str \<le> length str"
  by (cases str) (simp_all add: id_length_def length_takeWhile_le)

lemma bar_length_less: "bar_length b str = Some n \<Longrightarrow> n < length str"
  by (induction str arbitrary: n) (auto split: if_splits)

lemma Symbol_leaves:
  assumes "same_prog s u" and "\<And>n. n \<le> length (input_pos u) \<Longrightarrow> Q None n"
    and "\<And>i n. n < length (input_pos u) \<Longrightarrow> Q (Some i) n"
  shows "leaves Q s (Input_Symbol u)"
proof (cases "Input_Look u = CHR ''|''")
  case True
  let ?isDbl = "peek (input_pos u) 1 = CHR ''|''"
  let ?rest = "drop (if ?isDbl then 2 else 1) (input_pos u)"
  have rest: "length ?rest < length (input_pos u)" using Look_NUL [of u] True by (simp add: NUL_def)
  show ?thesis
  proof (cases "bar_length ?isDbl ?rest")
    case None
    have "leaves Q s (rbind (Error ErrorError m (u\<lparr>input_pos := ?rest\<rparr>)) (\<lambda>s. Inr (None, s)))" for m
      using assms(1,2) rest by (intro leaves_rbind_Error) auto
    then show ?thesis using True None by (simp add: Input_Symbol_def Let_def)
  next
    case (Some len)
    then show ?thesis using True rest bar_length_less [OF Some] assms by (auto simp: Input_Symbol_def Let_def)
  qed
next
  case False
  then show ?thesis
    using assms id_length_le [of "input_pos u"] by (auto simp: Input_Symbol_def Input_SymbolNoBar_def Let_def)
qed

lemma hex_escape_leaves:
  "same_prog s u \<Longrightarrow> leaves (\<lambda>_ n. n \<le> length (input_pos u)) s (hex_escape cs i g u)"
proof (induction cs arbitrary: i g u)
  case (Cons c cs)
  have "leaves (\<lambda>_ n. n \<le> length (input_pos u)) s (hex_escape cs j g' (Input_Skip t))"
    if "same_prog s t" "length (input_pos t) \<le> length (input_pos u)" for j g' t
    using Cons.IH [of "Input_Skip t" j g'] that by (auto simp: leaves_def split: if_splits)
  then show ?case using Cons.prems by (auto simp: Let_def rbind_if intro!: leaves_rbind_Error)
qed simp

lemma octal_escape_kept: "same_prog s u \<Longrightarrow> same_prog s (snd (octal_escape c u)) \<and> length (input_pos (snd (octal_escape c u))) \<le> length (input_pos u)"
  by (simp add: octal_escape_def Let_def)

lemma get_escape_leaves:
  assumes "same_prog s u"
  shows "leaves (\<lambda>_ n. n \<le> length (input_pos u)) s (get_escape u)"
proof -
  have unget: "leaves (\<lambda>_ n. n \<le> length (input_pos u)) s (rbind (Error ErrorWarning m (Input_Skip u)) (\<lambda>s.
      rbind (Input_UnGetC (CHR ''x'') s) (\<lambda>s. Inr (c, s))))" if "Input_Look u = CHR ''x''" for m c
    using assms that Look_NUL [of u]
    by (cases "input_pos u"; intro leaves_rbind_Error leaves_rbind_UnGetC; simp add: NUL_def)
  have hex: "leaves (\<lambda>_ n. n \<le> length (input_pos u)) s (rbind (hex_escape cs 0 False (Input_Skip u)) (\<lambda>(i, s). Inr (f i, s)))" for cs f
    using assms by (intro leaves_rbind [OF hex_escape_leaves]) (auto split: if_splits)
  have oct: "leaves (\<lambda>_ n. n \<le> length (input_pos u)) s (Inr (octal_escape c (Input_Skip u)))" for c
    using octal_escape_kept [of s "Input_Skip u" c] assms by (cases "octal_escape c (Input_Skip u)") (auto split: if_splits)
  have err: "leaves (\<lambda>_ n. n \<le> length (input_pos u)) s (rbind (Error ErrorWarning m (Input_Skip u)) (\<lambda>s. Inr (c, s)))" for m c
    using assms by (intro leaves_rbind_Error) (auto split: if_splits)
  show ?thesis
    unfolding get_escape_def Input_GetC_def Let_def prod.case
    by (intro leaves_if unget hex oct err; simp add: assms)
qed

lemma string_loop_leaves:
  "same_prog s u \<Longrightarrow> length (input_pos u) < fuel \<Longrightarrow> leaves (\<lambda>_ n. n \<le> length (input_pos u)) s (string_loop fuel acc u)"
proof (induction fuel arbitrary: acc u)
  case (Suc fuel)
  have more: "leaves (\<lambda>_ n. n \<le> length (input_pos u)) s (string_loop fuel acc t)"
    if "same_prog s t" "length (input_pos t) < length (input_pos u)" for acc t
    using Suc.IH [of t acc] that Suc.prems(2) by (auto simp: leaves_def)
  show ?case
  proof (cases "Input_Look u = NUL")
    case True
    then show ?thesis using Suc.prems by (auto simp: Input_GetC_def intro!: leaves_rbind_Error)
  next
    case False
    then have len: "length (input_pos (Input_Skip u)) < length (input_pos u)" using Look_NUL by simp
    have "leaves (\<lambda>_ n. n \<le> length (input_pos u)) s (rbind (get_escape (Input_Skip u)) (\<lambda>(c, s). string_loop fuel (acc @ [c]) s))"
      by (rule leaves_rbind [OF get_escape_leaves]) (use Suc.prems len in \<open>auto intro!: more\<close>)
    then show ?thesis
      using False len Suc.prems by (auto simp: Input_GetC_def intro!: more)
  qed
qed simp

lemma GetString_leaves:
  "same_prog s u \<Longrightarrow> (\<And>x n. n \<le> length (input_pos u) \<Longrightarrow> Q x n) \<Longrightarrow> leaves Q s (Input_GetString u)"
  using string_loop_leaves [of s u "Suc (length (input_pos u))" "[]"] by (auto simp: Input_GetString_def leaves_def)

section \<open>Numbers\<close>

lemma read_digits_less: "read_digits base cs res ov = (v, ov', rest) \<Longrightarrow> rest = cs \<or> length rest < length cs"
proof (induction cs arbitrary: res ov)
  case (Cons c cs)
  then show ?case by (fastforce simp: Let_def split: if_splits)
qed simp

lemma float_rest_less:
  assumes "starts_with ''.EePp'' rest"
  shows "length (float_rest dec rest) < length rest"
proof -
  have drop: "length (dropWhile P (if b then tl r else r)) \<le> length r" for P b and r :: string
    using le_trans [OF length_dropWhile_le [of P "tl r"]] by (simp add: length_dropWhile_le)
  have skip: "length (skip_exponent r) \<le> length r" for r
    using le_trans [OF drop [of isdigit "starts_with ''-+'' (tl r)" "tl r"]] by (simp add: skip_exponent_def)
  have "length (float_rest dec rest) \<le> length (tl rest)"
  proof (cases "starts_with ''.'' rest")
    case True
    then show ?thesis using le_trans [OF skip length_dropWhile_le [of _ "tl rest"]] unfolding float_rest_def by simp
  next
    case False
    then have "starts_with ''EePp'' rest" using assms by (auto simp: starts_with_def)
    then show ?thesis
      using False drop [of isdigit "starts_with ''-+'' (tl rest)" "tl rest"] unfolding float_rest_def skip_exponent_def by (auto split: if_splits)
  qed
  then show ?thesis using assms by (cases rest) (auto simp: starts_with_def)
qed

lemma lex_float_leaves:
  assumes "same_prog s u" and "\<And>n. n \<le> length (input_pos u) \<Longrightarrow> Q LexNone n"
    and "\<And>l n. n < length rest \<Longrightarrow> Q l n" and "starts_with ''.EePp'' rest" "length rest \<le> length (input_pos u)"
  shows "leaves Q s (lex_float base mark rest u)"
proof -
  have less: "length (float_rest b rest) < length rest" for b by (rule float_rest_less [OF assms(4)])
  then have "Q LexNone n" if "n \<le> length (float_rest b rest)" for n b
    using assms(2,5) that by (meson le_trans less_imp_le)
  then show ?thesis
    using assms(1-3) less unfolding lex_float_def Let_def by (auto split: prod.split intro!: leaves_rbind_Error)
qed

lemma IntOrFloat_leaves:
  assumes "same_prog s u" and "\<And>n. n \<le> length (input_pos u) \<Longrightarrow> Q LexNone n"
    and "\<And>l n. n < length (input_pos u) \<Longrightarrow> Q l n"
  shows "leaves Q s (Lex_GetIntOrFloat base u)"
proof -
  obtain v ov rest where d: "read_digits base (input_pos u) 0 False = (v, ov, rest)" by (metis prod_cases3)
  have le: "length rest \<le> length (input_pos u)" using read_digits_less [OF d] by auto
  have "leaves Q s (lex_float base (input_pos u) rest (u\<lparr>input_pos := rest\<rparr>))" if "starts_with ''.EePp'' rest"
    using assms le that by (intro lex_float_leaves) auto
  moreover have "length rest < length (input_pos u)" if "rest \<noteq> input_pos u"
    using read_digits_less [OF d] that by simp
  ultimately show ?thesis
    using assms le unfolding Lex_GetIntOrFloat_def Let_def d prod.case
    by (auto intro!: leaves_rbind_read leaves_rbind_Error simp: rbind_if)
qed

lemma hex_digits_kept:
  "hex_digits k v s = (r, t) \<Longrightarrow> same_prog u s \<Longrightarrow> same_prog u t \<and> length (input_pos t) \<le> length (input_pos s)"
  by (induction k v s arbitrary: r t rule: hex_digits.induct) (fastforce simp: Let_def split: if_splits)+

lemma area_reads [simp]: "rbind (cur_sym s) f = (case areaCurrentSymbol s of None \<Rightarrow> Inl Undefined | Some r \<Rightarrow> f r)"
  "rbind (sym_area s r) g = (case attr_area (syms s r) of None \<Rightarrow> Inl Undefined | Some r \<Rightarrow> g r)"
  by (simp_all add: cur_sym_def sym_area_def split: option.split)

lemma FloatLiteral_leaves:
  assumes "same_prog s u" and "\<And>l n. n \<le> length (input_pos u) \<Longrightarrow> Q l n"
  shows "leaves Q s (Lex_GetFloatFloatingPointLiteral u)" and "leaves Q s (Lex_GetDoubleFloatingPointLiteral u)"
  using assms unfolding Lex_GetFloatFloatingPointLiteral_def Lex_GetDoubleFloatingPointLiteral_def
  by (auto dest!: hex_digits_kept [where u = s] intro!: leaves_rbind_Error split: prod.split option.split)

lemma char_loop_leaves:
  "same_prog s u \<Longrightarrow> length (input_pos u) < fuel \<Longrightarrow> leaves (\<lambda>_ n. n \<le> length (input_pos u)) s (char_loop fuel i v u)"
proof (induction fuel arbitrary: i v u)
  case (Suc fuel)
  have more: "leaves (\<lambda>_ n. n \<le> length (input_pos u)) s (char_loop fuel j w t)"
    if "same_prog s t" "length (input_pos t) < length (input_pos u)" for j w t
    using Suc.IH [of t j w] that Suc.prems(2) by (auto simp: leaves_def)
  have step: "leaves (\<lambda>_ n. n \<le> length (input_pos u)) s
      (if ci = NUL then rbind (Error ErrorError m t) (\<lambda>s. Inr (v, s))
       else if i = 4 then rbind (Error ErrorError m' t) (\<lambda>s. Inr (v, s))
       else rbind (if i = 1 then Error ErrorWarning m'' t else Inr t)
              (char_loop fuel (Suc i) (shl32 v 8 OR of_int (ccode ci))))"
    if "same_prog s t" "length (input_pos t) \<le> length (input_pos u)"
      "ci \<noteq> NUL \<Longrightarrow> length (input_pos t) < length (input_pos u)" for ci t m m' m''
    using that by (auto simp: rbind_if intro!: leaves_rbind_Error more)
  have "length (input_pos (Input_Skip u)) < length (input_pos u)" if "Input_Look u \<noteq> NUL"
    using Look_NUL [OF that] that by simp
  then show ?case
    using Suc.prems step [of "Input_Skip u" "Input_Look u"]
      step [of "Input_Skip (Input_Skip u)" "Input_Look (Input_Skip u)"] Look_NUL [of u]
    by (auto simp: Input_GetC_def Let_def NUL_def split: if_splits)
qed simp

lemma lex_char_leaves:
  assumes "same_prog s u" and "\<And>l n. n \<le> length (input_pos u) \<Longrightarrow> Q l n"
  shows "leaves Q s (lex_char u)"
proof -
  have "leaves Q s (rbind (char_loop (Suc (length (input_pos u))) 0 0 u) (\<lambda>(i, s). Inr (LexInt i, s)))"
    by (rule leaves_rbind [OF char_loop_leaves]) (use assms in auto)
  then show ?thesis using assms by (auto simp: lex_char_def intro!: leaves_rbind_Error)
qed

text \<open>The digit that was read is put back, or the base it stands for is.\<close>

lemma lex_number_leaves:
  assumes "same_prog s u" and "Suc (length (input_pos u)) = k" and "\<And>n. n \<le> k \<Longrightarrow> Q LexNone n" and "\<And>l n. n < k \<Longrightarrow> Q l n"
  shows "leaves Q s (lex_number c u)"
proof -
  obtain based t where t: "Input_Match (CHR ''_'') False u = (based, t)" by force
  have kept: "same_prog s t" "length (input_pos t) \<le> length (input_pos u)" using Match_kept [OF t assms(1)] by simp_all
  have "leaves Q s (Lex_GetIntOrFloat b t)" for b
    using kept assms(2-4) by (intro IntOrFloat_leaves) auto
  moreover have "leaves Q s (rbind (Error e m t) (\<lambda>s. rbind (Input_UnGetC c s) (\<lambda>s. Inr (LexNone, s))))" for e m
    using kept assms(2,3) by (intro leaves_rbind_Error leaves_rbind_UnGetC) auto
  moreover have "leaves Q s (rbind (Input_UnGetC c t) (Lex_GetIntOrFloat 10))"
    using kept assms(2-4) by (intro leaves_rbind_UnGetC IntOrFloat_leaves) auto
  ultimately show ?thesis unfolding lex_number_def t Let_def by auto
qed

lemma lex_zero_leaves:
  assumes "same_prog s u" and "Suc (length (input_pos u)) = k" and "\<And>n. n \<le> k \<Longrightarrow> Q LexNone n" and "\<And>l n. n < k \<Longrightarrow> Q l n"
  shows "leaves Q s (lex_zero u)"
proof -
  have "leaves Q s (rbind (Input_SkipN 2 u) Lex_GetFloatFloatingPointLiteral)"
    "leaves Q s (rbind (Input_SkipN 2 u) Lex_GetDoubleFloatingPointLiteral)"
    using assms by (auto simp: Input_SkipN_def rassert_def intro!: FloatLiteral_leaves)
  moreover have "leaves Q s (Lex_GetIntOrFloat 16 (Input_Skip u))"
    using assms by (intro IntOrFloat_leaves) (auto split: if_splits)
  moreover have "leaves Q s (lex_number c u)" for c using assms by (rule lex_number_leaves)
  ultimately show ?thesis by (auto simp: lex_zero_def Let_def)
qed

section \<open>Labels and variables\<close>

lemma ROUTMismatch_leaves:
  assumes "same_prog s u" and "\<And>b n. n \<le> length (input_pos u) \<Longrightarrow> Q b n"
  shows "leaves Q s (Lex_CheckForROUTMismatch rout u)"
  using assms unfolding Lex_CheckForROUTMismatch_def Let_def
  by (auto simp: rbind_if intro!: leaves_rbind_Error)

lemma ReadReferring_leaves:
  assumes "same_prog s u" and "\<And>l n. n \<le> length (input_pos u) \<Longrightarrow> Q l n"
  shows "leaves Q s (Lex_ReadReferringLocalLabel u)"
proof -
  let ?k = "length (input_pos u)"
  have mismatch: "leaves Q s (rbind (Lex_CheckForROUTMismatch r t) (\<lambda>(m, s). Inr (if m then UINT_MAX else l, s)))"
    if "same_prog s t" "length (input_pos t) \<le> ?k" for r t l
    by (rule leaves_rbind [OF ROUTMismatch_leaves [of s t "\<lambda>_ n. n \<le> ?k"]]) (use assms that in auto)
  have "leaves Q s (rbind (Input_Symbol t) (\<lambda>(rout, s).
      rbind (Lex_CheckForROUTMismatch (case rout of None \<Rightarrow> [] | Some r \<Rightarrow> r) s) (\<lambda>(m, s). Inr (if m then UINT_MAX else l, s))))"
    if "same_prog s t" "length (input_pos t) \<le> ?k" for t l
    by (rule leaves_rbind [OF Symbol_leaves [of s t "\<lambda>_ n. n \<le> ?k"]]) (use assms that in \<open>auto intro!: mismatch\<close>)
  then show ?thesis
    using assms unfolding Lex_ReadReferringLocalLabel_def Let_def
    by (auto split: option.split intro!: leaves_rbind_Error)
qed

lemma local_returns [simp]:
  "FS_GetMacroDepth s \<noteq> Inl OutOfFuel" "Local_GetLabel d n s \<noteq> Inl OutOfFuel" "Local_CreateSymbol l d b s \<noteq> Inl OutOfFuel"
  by (auto simp: FS_GetMacroDepth_def Local_GetLabel_def Local_CreateSymbol_def rbind_eq_Inl Let_def split: option.splits)

lemma label_at_returns [simp]: "label_at ds n s \<noteq> Inl OutOfFuel"
  by (induction ds n s rule: label_at.induct) (auto simp: rbind_eq_Inl split: option.splits)

lemma OutstandingFwd_leaves:
  assumes "same_prog s u" and "\<And>i n. n \<le> length (input_pos u) \<Longrightarrow> Q i n"
  shows "leaves Q s (Local_CreateSymbolForOutstandingFwdLabelRef lv dir label u)"
  unfolding Local_CreateSymbolForOutstandingFwdLabelRef_def Let_def
  using assms by (auto intro!: leaves_rbind_read simp: upd_local_def)

lemma MakeReferring_leaves:
  assumes "same_prog s u" and "\<And>l n. n \<le> length (input_pos u) \<Longrightarrow> Q l n"
  shows "leaves Q s (Lex_MakeReferringLocalLabel dir lv u)"
proof -
  let ?k = "length (input_pos u)"
  have sym: "leaves Q s (let (r, s) = Symbol_Get i t in Inr (LexId (sym_str (syms s r)), s))"
    if "same_prog s t" "length (input_pos t) \<le> ?k" for i t
    using that assms(2) by (auto simp: same_prog_def dest!: Symbol_Get_program split: prod.split)
  have name: "leaves (\<lambda>_ n. n \<le> ?k) s (case found of
        None \<Rightarrow> if dir = eBackward then Error_Abort m t else Local_CreateSymbolForOutstandingFwdLabelRef lv dir label t
      | Some (d, lbl) \<Rightarrow> rbind (Local_CreateSymbol lbl d False t) (\<lambda>i. Inr (i, t)))"
    if "same_prog s t" "length (input_pos t) \<le> ?k" for found t m label
    using that by (auto split: option.split simp: Error_Abort_def intro!: leaves_rbind_read OutstandingFwd_leaves)
  have "leaves Q s (rbind (if dir = eForward then Inr None
                else rbind (FS_GetMacroDepth t) (\<lambda>d. label_at (depths lv d) label t)) (\<lambda>found.
         rbind (case found of
                  None \<Rightarrow> if dir = eBackward then Error_Abort m t else Local_CreateSymbolForOutstandingFwdLabelRef lv dir label t
                | Some (d, lbl) \<Rightarrow> rbind (Local_CreateSymbol lbl d False t) (\<lambda>i. Inr (i, t))) (\<lambda>(i, s).
           let (r, s) = Symbol_Get i s in Inr (LexId (sym_str (syms s r)), s))))"
    if "same_prog s t" "length (input_pos t) \<le> ?k" for t m label
    by (rule leaves_rbind_read, simp add: rbind_eq_Inl, rule leaves_rbind [OF name [OF that]]) (use sym in auto)
  then show ?thesis
    unfolding Lex_MakeReferringLocalLabel_def
    by (intro leaves_rbind [OF ReadReferring_leaves [of s u "\<lambda>_ n. n \<le> ?k"]]) (use assms in auto)
qed

lemma lex_label_leaves:
  assumes "same_prog s u" and "\<And>l n. n \<le> length (input_pos u) \<Longrightarrow> Q l n"
  shows "leaves Q s (lex_label u)"
  unfolding lex_label_def Let_def using assms by (auto intro!: MakeReferring_leaves split: prod.split if_splits)

lemma builtins_return: "list_all (\<lambda>(_, _, f). \<forall>s. f s \<noteq> Inl OutOfFuel) builtins"
  by (simp add: builtins_def plain_builtins_def arch_builtins_def feature_builtins_def fpu_builtins_def
      profile_builtins_def oArchs_def boolean_def rbind_eq_Inl FS_GetBuiltinVarLineNum_def FS_GetBuiltinVarLineNumUp_def
      FS_GetBuiltinVarLineNumUpper_def bottom_line_def split: option.split)

lemma match_builtin_leaves:
  assumes "list_all (\<lambda>(_, _, f). \<forall>s. f s \<noteq> Inl OutOfFuel) bs" and "match_builtin bs u = Some r"
    and "same_prog s u" and "\<And>l n. n \<le> length (input_pos u) \<Longrightarrow> Q l n"
  shows "leaves Q s r"
  using assms
proof (induction bs u rule: match_builtin.induct)
  case (2 name keyword f rest t)
  show ?case
    using 2 by (auto simp: Input_MatchKeywordLower_def Input_MatchStringLower_def Let_def split: if_splits option.splits
      intro!: leaves_rbind_read)
qed simp

lemma BuiltinVariable_leaves:
  assumes "same_prog s u" and "\<And>l n. n \<le> length (input_pos u) \<Longrightarrow> Q l n"
  shows "leaves Q s (Lex_GetBuiltinVariable u)"
proof (cases "match_builtin builtins u")
  case None
  then show ?thesis
    using assms by (auto simp: Lex_GetBuiltinVariable_def Input_Rest_def intro!: leaves_rbind_Error)
next
  case (Some r)
  then show ?thesis using match_builtin_leaves [OF builtins_return Some assms] by (simp add: Lex_GetBuiltinVariable_def)
qed

section \<open>Operators\<close>

lemma UnGetC_Skip: "Input_UnGetC (Input_Look s) (Input_Skip s) = Inr t \<Longrightarrow> t = s"
  by (cases "input_pos s")
    (auto simp: Input_UnGetC_def Input_Skip_def Input_Look_def peek_def Let_def rbind_eq_Inr split: if_splits)

lemma switched_mono: "switched ops s r \<Longrightarrow> set ops \<subseteq> set ops' \<Longrightarrow> switched ops' s r"
  unfolding switched_def by blast

lemma try_finish_switched: "try_finish fs s = Some (l, t) \<Longrightarrow> switched (map snd fs) s (Inr (l, t))"
proof (induction fs s rule: try_finish.induct)
  case (2 str op pri rest s)
  show ?case
  proof (cases "Input_MatchString str s")
    case None
    then have "switched (map snd rest) s (Inr (l, t))" using 2(1) [OF None] 2(2) by simp
    then show ?thesis by (rule switched_mono) auto
  next
    case (Some u)
    then show ?thesis using 2(2) MatchString_kept [OF Some same_prog_refl] by (auto simp: switched_def)
  qed
qed simp

lemma switched_unget:
  assumes "switched ops (Input_Skip s) r"
  shows "switched ops s (rbind r (\<lambda>(l, t). if l = LexNone
           then rbind (Input_UnGetC (Input_Look s) t) (\<lambda>t. Inr (LexNone, t)) else Inr (l, t)))"
proof (cases r)
  case (Inr a)
  obtain l t where a: "a = (l, t)" by (cases a)
  have skip: "same_prog s u \<and> length (input_pos u) \<le> length (input_pos s)"
    if "same_prog (Input_Skip s) u" "length (input_pos u) \<le> length (input_pos (Input_Skip s))" for u
    using that by (auto simp: same_prog_def Input_Skip_def split: if_splits)
  show ?thesis
  proof (cases "l = LexNone")
    case True
    then have "t = Input_Skip s" using assms Inr a by (auto simp: switched_def)
    then show ?thesis using True Inr a UnGetC_Skip [of s] by (auto simp: switched_def rbind_eq_Inr rbind_eq_Inl)
  next
    case False
    then show ?thesis using assms Inr a skip by (auto simp: switched_def)
  qed
qed (use assms in \<open>simp add: switched_def\<close>)

lemma run_switch_switched:
  "switched (switch_ops sw) s (run_switch sw s)"
  "switched (switch_ops (Switch cs)) s (run_cases cs c s)"
proof (induction sw s and cs c s rule: run_switch_run_cases.induct)
  case (1 fs s)
  show ?case
    using try_finish_switched [of fs s] by (cases "try_finish fs s") (auto simp: switched_def)
next
  case (2 cs s)
  show ?case using switched_unget [of "switch_ops (Switch cs)" s] 2 by (simp add: Input_GetC_def Let_def)
next
  case (3 c s)
  show ?case by (simp add: switched_def)
next
  case (4 k sw cs c s)
  then show ?case by (auto intro: switched_mono)
qed

section \<open>Operands\<close>

lemma eats_less: "n < k \<Longrightarrow> eats k l n"
  by (simp add: eats_def)

lemma eats_None: "n \<le> k \<Longrightarrow> eats k LexNone n"
  by (simp add: eats_def)

lemma leaves_mono: "leaves P s r \<Longrightarrow> (\<And>x n. P x n \<Longrightarrow> Q x n) \<Longrightarrow> leaves Q s r"
  by (auto simp: leaves_def)

lemma leaves_unget_Skip: "leaves Q s (f u) \<Longrightarrow> leaves Q s (rbind (Input_UnGetC (Input_Look u) (Input_Skip u)) f)"
  using UnGetC_Skip [of u] by (cases "Input_UnGetC (Input_Look u) (Input_Skip u)") auto

lemma lex_symbol_leaves: "same_prog s u \<Longrightarrow> leaves (eats (length (input_pos u))) s (lex_symbol u)"
  unfolding lex_symbol_def
  by (rule leaves_rbind [OF Symbol_leaves [where Q = "\<lambda>i. eats (length (input_pos u)) (if i = None then LexNone else LexPosition)"]])
    (auto simp: eats_def split: option.splits if_splits)

lemma GetUnaryOp_leaves:
  assumes "same_prog s u"
    and prim: "\<And>t. same_prog s t \<Longrightarrow> length (input_pos t) < length (input_pos u) \<Longrightarrow> leaves (\<lambda>_ n. n \<le> length (input_pos t)) s (prim t)"
  shows "leaves (\<lambda>_ n. n \<le> length (input_pos u)) s (Lex_GetUnaryOp prim u)"
proof (cases "Input_MatchString ''DEF:'' u")
  case None
  have "leaves (\<lambda>_ n. n \<le> length (input_pos u)) s (run_switch sw u)" for sw
    using run_switch_switched(1) [of sw u] assms(1) by (auto simp: switched_def leaves_def intro: same_prog_trans)
  then show ?thesis using None by (simp add: Lex_GetUnaryOp_def del: run_switch.simps)
next
  case (Some t)
  then have t: "same_prog s t" "length (input_pos t) < length (input_pos u)"
    using MatchString_kept [OF Some assms(1)] by simp_all
  have bad: "leaves (\<lambda>_ n. n \<le> length (input_pos u)) s
      (rbind (Error ErrorError m w) (\<lambda>s. rbind (Input_UnGetC (CHR ''D'') s) (\<lambda>s. Inr (LexNone, s))))"
    if "same_prog s w" "length (input_pos w) \<le> length (input_pos t)" for w m
    using that t by (intro leaves_rbind_Error leaves_rbind_UnGetC) auto
  have "leaves (\<lambda>_ n. n \<le> length (input_pos u)) s (lex_def prim t)"
    unfolding lex_def_def
    by (rule leaves_rbind [OF prim [OF t]]) (use t in \<open>auto split: Lex.split intro!: bad\<close>)
  then show ?thesis using Some by (simp add: Lex_GetUnaryOp_def)
qed

lemma isdigit_NUL: "isdigit c \<Longrightarrow> c \<noteq> NUL"
  by (auto simp: isdigit_def NUL_def ccode_def)

lemma GetPrim_leaves:
  "same_prog s u \<Longrightarrow> length (input_pos u) < fuel \<Longrightarrow> leaves (eats (length (input_pos u))) s (Lex_GetPrim fuel u)"
proof (induction fuel arbitrary: u)
  case (Suc fuel)
  let ?k = "length (input_pos u)" and ?w = "Input_SkipWS u"
  let ?c = "Input_Look ?w" and ?t = "Input_Skip ?w"
  have w: "same_prog s ?w" "length (input_pos ?w) \<le> ?k" using Suc.prems length_SkipWS by simp_all
  have t: "same_prog s ?t" and less: "?c \<noteq> NUL \<Longrightarrow> Suc (length (input_pos ?t)) = length (input_pos ?w)"
    using w Look_NUL [of ?w] by auto
  have prim: "leaves (\<lambda>_ n. n \<le> length (input_pos v)) s (Lex_GetPrim fuel v)"
    if "same_prog s v" "length (input_pos v) < ?k" for v
    using Suc.IH [OF that(1)] that(2) Suc.prems(2) by (auto simp: eats_def elim!: leaves_mono)
  have unary: "leaves (eats ?k) s (rbind (Lex_GetUnaryOp (Lex_GetPrim fuel) ?t) (\<lambda>(l, s).
      if l = LexNone then rbind (Input_UnGetC (CHR '':'') s) (\<lambda>s. Inr (l, s)) else Inr (l, s)))" if "?c \<noteq> NUL"
    by (rule leaves_rbind [OF GetUnaryOp_leaves [OF t prim]])
      (use w(2) less [OF that] in \<open>auto simp: eats_def intro!: leaves_rbind_UnGetC\<close>)
  have int: "leaves (eats ?k) s (Lex_GetIntOrFloat b ?t)" if "?c \<noteq> NUL" for b
    using t w(2) less [OF that] by (intro IntOrFloat_leaves) (auto simp: eats_def)
  have number: "leaves (eats ?k) s (lex_number c ?t)" if "?c \<noteq> NUL" for c
    by (rule lex_number_leaves [OF t less [OF that]]) (use w(2) in \<open>auto simp: eats_def\<close>)
  have zero: "leaves (eats ?k) s (lex_zero ?t)" if "?c \<noteq> NUL"
    by (rule lex_zero_leaves [OF t less [OF that]]) (use w(2) in \<open>auto simp: eats_def\<close>)
  have char: "leaves (eats ?k) s (lex_char ?t)" if "?c \<noteq> NUL"
    using w(2) less [OF that] by (intro lex_char_leaves [OF t]) (auto simp: eats_def)
  have string: "leaves (eats ?k) s (rbind (Input_GetString ?t) (\<lambda>(str, s). Inr (LexString str, s)))" if "?c \<noteq> NUL"
    by (rule leaves_rbind [OF GetString_leaves [OF t, where Q = "\<lambda>_. eats ?k LexPosition"]])
      (use w(2) less [OF that] in \<open>auto simp: eats_def\<close>)
  have point: "leaves (eats ?k) s (rbind (Input_UnGetC ?c ?t) (Lex_GetIntOrFloat 10))"
    using w by (intro leaves_unget_Skip IntOrFloat_leaves) (auto simp: eats_def)
  have label: "leaves (eats ?k) s (lex_label ?t)" if "?c \<noteq> NUL"
    using w(2) less [OF that] by (intro lex_label_leaves [OF t]) (auto simp: eats_def)
  have variable: "leaves (eats ?k) s (Lex_GetBuiltinVariable ?t)" if "?c \<noteq> NUL"
    using w(2) less [OF that] by (intro BuiltinVariable_leaves [OF t]) (auto simp: eats_def)
  have symbol: "leaves (eats ?k) s (rbind (Input_UnGetC ?c ?t) lex_symbol)"
    by (rule leaves_unget_Skip, rule leaves_mono [OF lex_symbol_leaves [OF w(1)]]) (use w(2) in \<open>auto simp: eats_def\<close>)
  have token: "leaves (eats ?k) s (Inr (l, ?t))" if "?c \<noteq> NUL" for l
    using t w(2) less [OF that] by (simp add: eats_def)
  show ?case
    unfolding Lex_GetPrim.simps Input_GetC_def Let_def prod.case
    by (intro leaves_if unary int number zero char string point label variable symbol token;
        (assumption | erule isdigit_NUL | auto simp: NUL_def)?)
qed simp

section \<open>Binary operators\<close>

lemma bin_ok_prio: "\<not> Lex_IsUnop op \<Longrightarrow> bin_ok (op, prio op)"
  by (simp add: bin_ok_def)

lemma binop_result_if [intro]:
  "(b \<Longrightarrow> binop_result s x) \<Longrightarrow> (\<not> b \<Longrightarrow> binop_result s y) \<Longrightarrow> binop_result s (if b then x else y)"
  by simp

lemma binop_result_op:
  "bin_ok (op, pri) \<Longrightarrow> same_prog s t \<Longrightarrow> length (input_pos t) \<le> length (input_pos s) \<Longrightarrow> binop_result s (Inr (LexOperator op pri, t))"
  by (auto simp: binop_result_def intro!: exI [of _ "(op, pri)"])

lemma binop_result_op2:
  assumes "bin_ok x" and "bin_ok y" and "same_prog s t" and "length (input_pos t) \<le> length (input_pos s)"
  shows "binop_result s (lex_op2 c x y t)"
proof -
  obtain m u where "Input_Match c False t = (m, u)" by force
  then show ?thesis
    using assms Match_kept [of c False t m u s] by (auto simp: lex_op2_def binop_result_def split: bool.split)
qed

lemma binop_result_none:
  "binop_result s (rbind (Input_UnGetC (Input_Look s) (Input_Skip s)) (\<lambda>s. Inr (LexNone, s)))"
  using UnGetC_Skip [of s] by (auto simp: binop_result_def rbind_eq_Inr rbind_eq_Inl)

lemma binary_switch_ok: "list_all bin_ok (switch_ops (Switch binary_switch))"
  by (simp add: binary_switch_def bin_ok_def Lex_IsUnop_def)

lemma binary_switch_result:
  assumes "Input_Look s = CHR '':''"
  shows "binop_result s (rbind (Lex_GetBinaryOp (Input_Skip s)) (\<lambda>(l, s).
     if l = LexNone then rbind (Input_UnGetC (CHR '':'') s) (\<lambda>s. Inr (l, s)) else Inr (l, s)))"
proof -
  have "switched (switch_ops (Switch binary_switch)) s (rbind (Lex_GetBinaryOp (Input_Skip s)) (\<lambda>(l, t). if l = LexNone
           then rbind (Input_UnGetC (Input_Look s) t) (\<lambda>t. Inr (LexNone, t)) else Inr (l, t)))"
    unfolding Lex_GetBinaryOp_def by (rule switched_unget [OF run_switch_switched(1)])
  then show ?thesis
    using binary_switch_ok assms
    by (fastforce simp: switched_def binop_result_def list_all_iff simp del: switch_ops.simps cong: if_cong)
qed

lemma GetBinop_result: "binop_result (Input_SkipWS s) (Lex_GetBinop s)"
proof -
  let ?w = "Input_SkipWS s"
  let ?c = "Input_Look ?w" and ?t = "Input_Skip ?w"
  have t: "same_prog ?w ?t" "length (input_pos ?t) \<le> length (input_pos ?w)" by simp_all
  have tt: "same_prog ?w (Input_Skip ?t)" "length (input_pos (Input_Skip ?t)) \<le> length (input_pos ?w)" by simp_all
  have ops: "binop_result ?w (Inr (LexOperator op pri, ?t))" "binop_result ?w (Inr (LexOperator op pri, Input_Skip ?t))"
    if "bin_ok (op, pri)" for op pri
    using that t tt by (intro binop_result_op; simp)+
  have ops2: "binop_result ?w (lex_op2 c x y ?t)" "binop_result ?w (lex_op2 c x y (Input_Skip ?t))" if "bin_ok x" "bin_ok y" for c x y
    using that t tt by (intro binop_result_op2; simp)+
  have bang: "binop_result ?w (case Input_Match (CHR ''='') False ?t of
       (True, s) \<Rightarrow> Inr (LexOperator eOp_NE kPrioOp_Relational, s)
     | (False, s) \<Rightarrow> rbind (Input_UnGetC ?c s) (\<lambda>s. Inr (LexNone, s)))"
    using binop_result_none [of ?w] ops(2) [of eOp_NE kPrioOp_Relational]
    by (cases "Input_Look ?t = CHR ''=''") (simp_all add: Input_Match_def Input_Skip_def NUL_def bin_ok_def Lex_IsUnop_def)
  show ?thesis
    unfolding Lex_GetBinop_def Input_GetC_def Let_def prod.case
    by (intro binop_result_if ops ops2 bang binop_result_none binary_switch_result; simp add: bin_ok_def Lex_IsUnop_def)
qed

lemma reprog_input [simp]:
  "Input_Look (reprog p n s) = Input_Look s" "Input_Skip (reprog p n s) = reprog p n (Input_Skip s)"
  "Input_SkipWS (reprog p n s) = reprog p n (Input_SkipWS s)"
  "Input_IsEolOrCommentStart (reprog p n s) = Input_IsEolOrCommentStart s"
  "Input_Match c b (reprog p n s) = map_prod id (reprog p n) (Input_Match c b s)"
  "Input_MatchString str (reprog p n s) = map_option (reprog p n) (Input_MatchString str s)"
  by (auto simp: reprog_def Input_Look_def Input_Skip_def Input_SkipWS_def Input_IsEolOrCommentStart_def Input_Match_def
      Input_MatchString_def Let_def)

lemma lift_reprog_simps [simp]:
  "lift_reprog p n (Inr (x, t)) = Inr (x, reprog p n t)" "lift_reprog p n (Inl e) = Inl e"
  by (simp_all add: lift_reprog_def)

lemma reprog_unget:
  "(\<And>t. f (reprog p n t) = lift_reprog p n (g t)) \<Longrightarrow>
     rbind (Input_UnGetC c (reprog p n s)) f = lift_reprog p n (rbind (Input_UnGetC c s) g)"
proof -
  assume *: "\<And>t. f (reprog p n t) = lift_reprog p n (g t)"
  have "input_pos (reprog p n s) = input_pos s" "input_buff (reprog p n s) = input_buff s"
    "(reprog p n s)\<lparr>input_pos := x\<rparr> = reprog p n (s\<lparr>input_pos := x\<rparr>)" for x
    by (simp_all add: reprog_def)
  then show ?thesis using * by (auto simp: Input_UnGetC_def Let_def rassert_def)
qed

lemma reprog_rbind:
  "m' = lift_reprog p n m \<Longrightarrow> (\<And>x t. f (x, reprog p n t) = lift_reprog p n (g (x, t))) \<Longrightarrow>
     rbind m' f = lift_reprog p n (rbind m g)"
  by (cases m) auto

lemma reprog_switch:
  "run_switch sw (reprog p n s) = lift_reprog p n (run_switch sw s)"
  "run_cases cs c (reprog p n s) = lift_reprog p n (run_cases cs c s)"
proof (induction sw s and cs c s rule: run_switch_run_cases.induct)
  case (1 fs s)
  have "try_finish fs (reprog p n s) = map_option (map_prod id (reprog p n)) (try_finish fs s)"
    by (induction fs s rule: try_finish.induct) (auto split: option.split)
  then show ?case by (auto split: option.split)
next
  case (2 cs s)
  show ?case
    unfolding run_switch.simps Input_GetC_def Let_def prod.case reprog_input
    by (rule reprog_rbind [OF 2 [unfolded Input_GetC_def, OF refl refl]])
      (auto intro: reprog_unget)
qed simp_all

lemma reprog_op2: "lex_op2 c x y (reprog p n s) = lift_reprog p n (lex_op2 c x y s)"
  by (auto simp: lex_op2_def split: prod.split bool.split)

lemma reprog_GetBinop: "Lex_GetBinop (reprog p n s) = lift_reprog p n (Lex_GetBinop s)"
proof -
  have none: "rbind (Input_UnGetC c (reprog p n t)) (\<lambda>s. Inr (LexNone, s)) = lift_reprog p n (rbind (Input_UnGetC c t) (\<lambda>s. Inr (LexNone, s)))" for c t
    by (rule reprog_unget) simp
  have named: "rbind (Lex_GetBinaryOp (reprog p n t)) (\<lambda>(l, s). if l = LexNone then rbind (Input_UnGetC (CHR '':'') s) (\<lambda>s. Inr (l, s)) else Inr (l, s))
      = lift_reprog p n (rbind (Lex_GetBinaryOp t) (\<lambda>(l, s). if l = LexNone then rbind (Input_UnGetC (CHR '':'') s) (\<lambda>s. Inr (l, s)) else Inr (l, s)))" for t
    unfolding Lex_GetBinaryOp_def by (rule reprog_rbind [OF reprog_switch(1)]) (auto intro: reprog_unget)
  have if_lift: "(if b then lift_reprog p n x else lift_reprog p n y) = lift_reprog p n (if b then x else y)"
    for b and x y :: "(Lex \<times> asm) outcome" by simp
  show ?thesis
    unfolding Lex_GetBinop_def Input_GetC_def Let_def prod.case reprog_input none named reprog_op2
    by (auto split: prod.split bool.split simp: none)
qed

section \<open>The interface\<close>

lemma lex_prim_eats: "leaves (eats (length (input_pos s))) s (lex_prim s)"
  unfolding lex_prim_def by (rule GetPrim_leaves) simp_all

lemma GetBinop_none:
  assumes "Lex_GetBinop s = Inr (l, t)" and "\<not> is_operator l"
  shows "no_operator Lex_GetBinop t"
proof -
  have "t = Input_SkipWS s" "l = LexNone"
    using GetBinop_result [of s] assms by (auto simp: binop_result_def is_operator_def)
  moreover have "Lex_GetBinop (Input_SkipWS s) = Lex_GetBinop s"
    unfolding Lex_GetBinop_def by (simp add: Input_SkipWS_def dropWhile_idem)
  ultimately show ?thesis using assms by (simp add: no_operator_def)
qed

interpretation lex_c: expression_lexer lex_prim Lex_GetBinop
proof
  fix s l t assume "lex_prim s = Inr (l, t)"
  then show "Program t = Program s \<and> FirstFreeIns t = FirstFreeIns s"
    using lex_prim_eats [of s] by (simp add: leaves_def same_prog_def)
next
  fix s l t assume "Lex_GetBinop s = Inr (l, t)"
  then show "Program t = Program s \<and> FirstFreeIns t = FirstFreeIns s"
    using GetBinop_result [of s] by (auto simp: binop_result_def same_prog_def Input_SkipWS_def)
next
  fix s l t assume "lex_prim s = Inr (l, t)" "l \<noteq> LexNone"
  then show "length (input_pos t) < length (input_pos s)"
    using lex_prim_eats [of s] by (simp add: leaves_def eats_def)
next
  fix s l t assume "Lex_GetBinop s = Inr (l, t)"
  then show "length (input_pos t) \<le> length (input_pos s)"
    using GetBinop_result [of s] length_SkipWS [of s] by (auto simp: binop_result_def)
next
  fix s show "lex_prim s \<noteq> Inl OutOfFuel" using lex_prim_eats [of s] by (simp add: leaves_def)
next
  fix s show "Lex_GetBinop s \<noteq> Inl OutOfFuel" using GetBinop_result [of s] by (simp add: binop_result_def)
next
  fix s op pri t assume "Lex_GetBinop s = Inr (LexOperator op pri, t)"
  then show "\<not> Lex_IsUnop op \<and> pri = prio op"
    using GetBinop_result [of s] by (auto simp: binop_result_def bin_ok_def)
next
  fix s l t assume "Lex_GetBinop s = Inr (l, t)" "\<not> is_operator l"
  then show "no_operator Lex_GetBinop t" by (rule GetBinop_none)
next
  fix s p n assume "no_operator Lex_GetBinop s"
  then show "no_operator Lex_GetBinop (s\<lparr>Program := p, FirstFreeIns := n\<rparr>)"
    using reprog_GetBinop [of p n s]
    by (auto simp: no_operator_def reprog_def lift_reprog_def split: sum.splits prod.splits)
qed

section \<open>Expressions\<close>

text \<open>The run of \<^verbatim>\<open>Expr_Build\<close>, with the bound of the array that its program respects.\<close>

lemma Expr_Build_parses:
  assumes "Expr_Build s = Inr (False, t)"
  shows "\<exists>p. prec_ok p \<and> reads lex_prim Lex_GetBinop (Code_Init s) (fringe p) t
    \<and> FirstFreeIns t = length (postfix (strip p)) \<and> code_at t 0 (postfix (strip p))
    \<and> length (postfix (strip p)) \<le> CODE_SIZECODE \<and> no_operator Lex_GetBinop t"
proof -
  obtain opP where "Expr_GetInt lex_prim Lex_GetBinop (expr_fuel (Code_Init s)) LexNone kPrioOp_Min (Code_Init s) = Inr (False, opP, t)"
    using assms by (auto simp: Expr_Build_def Expr_Get_def rbind_eq_Inr)
  from lex_c.expression_sound [OF this] obtain p where p: "prec_ok p" "reads lex_prim Lex_GetBinop (Code_Init s) (fringe p) t"
    "emits (Code_Init s) (postfix (strip p)) t" "no_operator Lex_GetBinop t" by blast
  have "FirstFreeIns t \<le> CODE_SIZECODE" using lex_c.reads_bound [OF p(2)] by (simp add: Code_Init_def)
  then show ?thesis using p by (auto simp: emits_def Code_Init_def)
qed

text \<open>
  C1. The parser follows the priorities.  When \<^verbatim>\<open>Expr_Build\<close> succeeds, the lexical elements it has read are
  the fringe of a tree in which every operator binds as the priorities of \<^verbatim>\<open>lex.h\<close> say, left associative, and
  no other such tree has this fringe; the program is the postfix form of the tree, and what follows on the
  line is not an operator.
\<close>

theorem Expr_Build_tree:
  assumes "Expr_Build s = Inr (False, t)"
  shows "\<exists>p. prec_ok p \<and> reads lex_prim Lex_GetBinop (Code_Init s) (fringe p) t
    \<and> (\<forall>q. prec_ok q \<and> fringe q = fringe p \<longrightarrow> q = p)
    \<and> FirstFreeIns t = length (postfix (strip p)) \<and> code_at t 0 (postfix (strip p))
    \<and> no_operator Lex_GetBinop t"
  using Expr_Build_parses [OF assms] grammar_unambiguous by blast

theorem Expr_Build_tree_witness:
  "\<exists>t p. Expr_Build (asm_line ''2+3*4'') = Inr (False, t) \<and> prec_ok p \<and> code_at t 0 (postfix (strip p))
    \<and> map (Program t) [0..<FirstFreeIns t]
      = [CodeValue (pure 2), CodeValue (pure 3), CodeValue (pure 4), CodeOperator eOp_Mul, CodeOperator eOp_Add]"
proof -
  have "parsed_code (Expr_Build (asm_line ''2+3*4''))
      = [CodeValue (pure 2), CodeValue (pure 3), CodeValue (pure 4), CodeOperator eOp_Mul, CodeOperator eOp_Add]"
    by code_simp
  then obtain t where t: "Expr_Build (asm_line ''2+3*4'') = Inr (False, t)" "map (Program t) [0..<FirstFreeIns t]
      = [CodeValue (pure 2), CodeValue (pure 3), CodeValue (pure 4), CodeOperator eOp_Mul, CodeOperator eOp_Add]"
    by (auto simp: parsed_code_def split: sum.splits bool.splits)
  from Expr_Build_tree [OF t(1)] obtain p where "prec_ok p" "code_at t 0 (postfix (strip p))" by blast
  with t show ?thesis by (intro exI [of _ t] exI [of _ p] conjI)
qed

text \<open>
  C2. From the text to the value.  When \<^verbatim>\<open>Expr_BuildAndEval\<close> parses an expression, its result is the value of
  the tree the text stands for: what the evaluation of the tree yields, converted to what the caller wants.
\<close>

theorem Expr_BuildAndEval_value:
  assumes "Expr_Build s = Inr (False, t)" and "\<not> option_fussy t"
  shows "\<exists>p. prec_ok p \<and> reads lex_prim Lex_GetBinop (Code_Init s) (fringe p) t
    \<and> (\<forall>x u. tree_eval fuel (legal AND (tInt OR tSymbol) = tInt) (strip p) t = Inr (x, u) \<longrightarrow>
         (\<exists>st. Expr_BuildAndEval (Value_Equal (Suc m)) fuel legal s = Inr (tree_result legal (strip p) x, u\<lparr>Stack := st\<rparr>)))"
proof -
  obtain p where p: "prec_ok p" "reads lex_prim Lex_GetBinop (Code_Init s) (fringe p) t"
    "FirstFreeIns t = length (postfix (strip p))" "code_at t 0 (postfix (strip p))"
    "length (postfix (strip p)) \<le> CODE_SIZECODE"
    using Expr_Build_parses [OF assms(1)] by blast
  have "\<exists>st. Expr_BuildAndEval (Value_Equal (Suc m)) fuel legal s = Inr (tree_result legal (strip p) x, u\<lparr>Stack := st\<rparr>)"
    if "tree_eval fuel (legal AND (tInt OR tSymbol) = tInt) (strip p) t = Inr (x, u)" for x u
    using Code_Eval_postfix [OF lex_c.proper_strip [OF p(1)] p(4,3,5) assms(2) that, of m] assms(1)
    by (simp add: Expr_BuildAndEval_def Expr_Eval_def)
  then show ?thesis using p(1,2) by blast
qed

theorem Expr_BuildAndEval_value_witness:
  "(\<exists>t p. Expr_Build (asm_line ''2+3*4'') = Inr (False, t) \<and> prec_ok p
      \<and> reads lex_prim Lex_GetBinop (Code_Init (asm_line ''2+3*4'')) (fringe p) t)
    \<and> (case Expr_BuildAndEval (Value_Equal 1) 0 tInt (asm_line ''2+3*4'') of Inr (v, _) \<Rightarrow> v = pure 14 | _ \<Rightarrow> False)"
proof -
  have result: "case Expr_BuildAndEval (Value_Equal 1) 0 tInt (asm_line ''2+3*4'') of Inr (v, _) \<Rightarrow> v = pure 14 | _ \<Rightarrow> False"
    by code_simp
  have "(case Expr_Build (asm_line ''2+3*4'') of Inr (False, t) \<Rightarrow> \<not> option_fussy t | _ \<Rightarrow> False)"
    by code_simp
  then obtain t where t: "Expr_Build (asm_line ''2+3*4'') = Inr (False, t)" "\<not> option_fussy t"
    by (auto split: sum.splits bool.splits)
  from Expr_BuildAndEval_value [OF t, of 0 tInt 0] t(1) result show ?thesis by blast
qed

text \<open>
  C32. The parser ends on every line: the fuel of \<^verbatim>\<open>Expr_Build\<close>, eight calls for each character and eight more, is
  never used up.
\<close>

theorem Expr_Build_returns: "Expr_Build s \<noteq> Inl OutOfFuel"
  using lex_c.expression_returns [of "Code_Init s" "expr_fuel (Code_Init s)"]
  by (simp add: Expr_Build_def Expr_Get_def expr_fuel_def rbind_eq_Inl)

end
