(* ===== verification/Variables.thy ===== *)
theory Variables
  imports Lexing
begin

text \<open>
  The variables of the assembler language: \<^verbatim>\<open>variables.c\<close>.  A macro may declare local variables; what they hide
  is kept in a list and restored at the end of the macro.  The theorem: it is restored whatever was declared,
  declared again and assigned in between.
\<close>

section \<open>The current parsable object\<close>

definition cur_po :: "asm \<Rightarrow> PObject outcome" where
  "cur_po s = (case gPOStack s of [] \<Rightarrow> Inl Undefined | po # _ \<Rightarrow> Inr po)"

definition upd_po :: "(PObject \<Rightarrow> PObject) \<Rightarrow> asm \<Rightarrow> asm" where
  "upd_po f s = (case gPOStack s of [] \<Rightarrow> s | po # pos \<Rightarrow> s\<lparr>gPOStack := f po # pos\<rparr>)"

section \<open>Defining variables\<close>

text \<open>Expressions of directives; the fuel is the one of the evaluation.\<close>

definition evaluate :: "nat \<Rightarrow> u32 \<Rightarrow> asm \<Rightarrow> (Value \<times> asm) outcome" where
  "evaluate fuel legal s = Expr_BuildAndEval (Value_Equal (Suc fuel)) fuel legal s"

definition Var_GetDescription :: "u32 \<Rightarrow> string outcome" where
  "Var_GetDescription ty =
     (if ty = tInt then Inr ''integer'' else if ty = tString then Inr ''string''
      else if ty = tBool then Inr ''boolean'' else Inl AssertFailed)"

definition var_initial :: "u32 \<Rightarrow> Value" where
  "var_initial ty =
     (if ty = tInt then ValueInt 0 eIntType_PureInt else if ty = tBool then ValueBool False else ValueString [])"

text \<open>The symbol of the variable; none when a global variable would hide something that is no variable.\<close>

definition var_symbol :: "string \<Rightarrow> bool \<Rightarrow> asm \<Rightarrow> (symref option \<times> asm) outcome" where
  "var_symbol name localMacro s =
     (case (if localMacro then None else Symbol_Find name s) of
        Some r \<Rightarrow>
          if \<not> flag (attr_type (syms s r)) SYMBOL_RW
          then rbind (Error ErrorError ''Redefinition of %s %s as %s variable'' s) (\<lambda>s.
               rbind (Error_Line ErrorError ''note: %c%s %s was first used here'' s) (\<lambda>s. Inr (None, s)))
          else Inr (Some r, s)
      | None \<Rightarrow> let (r, s) = Symbol_Get name s in Inr (Some r, s))"

definition Var_Define :: "string \<Rightarrow> u32 \<Rightarrow> bool \<Rightarrow> asm \<Rightarrow> (symref option \<times> asm) outcome" where
  "Var_Define name ty localMacro s =
     rbind (rassert (ty = tInt \<or> ty = tString \<or> ty = tBool)) (\<lambda>_.
     rbind (var_symbol name localMacro s) (\<lambda>(found, s).
       case found of
         None \<Rightarrow> Inr (None, s)
       | Some r \<Rightarrow>
           let y = syms s r; known = (attr_value y \<noteq> ValueIllegal)
           in if known \<and> Tag (attr_value y) \<noteq> ty \<and> (\<not> localMacro \<or> flag (attr_type y) SYMBOL_MACRO_LOCAL)
              then rbind (Var_GetDescription (Tag (attr_value y))) (\<lambda>_.
                   rbind (Error ErrorError ''Redefinition of %s %s %s as %s %s'' s) (\<lambda>s.
                   rbind (Error_Line ErrorError ''note: Previous definition was here'' s) (\<lambda>s. Inr (None, s))))
              else
                Inr (Some r, upd_sym r (\<lambda>y. y\<lparr>attr_type := attr_type y OR
                         (SYMBOL_DEFINED OR SYMBOL_ABSOLUTE OR SYMBOL_RW
                            OR (if localMacro \<and> \<not> known then SYMBOL_MACRO_LOCAL else 0)),
                       attr_value := var_initial ty\<rparr>) s)))"

definition Var_PredefineVariables :: "asm \<Rightarrow> asm outcome" where
  "Var_PredefineVariables s =
     rbind (Var_Define ''asasm$version'' tInt False s) (\<lambda>(found, s).
       case found of
         None \<Rightarrow> Inr s
       | Some r \<Rightarrow> Inr (upd_sym r (\<lambda>y. y\<lparr>attr_value := ValueInt (asasm_version s) eIntType_PureInt\<rparr>) s))"

definition Var_PrepareForPhase :: "Phase_e \<Rightarrow> asm \<Rightarrow> asm outcome" where
  "Var_PrepareForPhase phase s =
     (case phase of
        ePassOne \<Rightarrow> Var_PredefineVariables s
      | ePassTwo \<Rightarrow> rbind (Symbol_RemoveVariables s) Var_PredefineVariables
      | _ \<Rightarrow> Inr s)"

section \<open>The directives\<close>

text \<open>The letter behind \<^verbatim>\<open>GBL\<close>, \<^verbatim>\<open>LCL\<close> and \<^verbatim>\<open>SET\<close>; without one, or when more follows, the name may be a macro.\<close>

definition var_type :: "asm \<Rightarrow> (u32 option \<times> asm) outcome" where
  "var_type s =
     (let c = Input_Look s;
          ty = (if c = CHR ''L'' then Some tBool else if c = CHR ''A'' then Some tInt
                else if c = CHR ''S'' then Some tString else None)
      in case ty of
           None \<Rightarrow> Inr (None, s)
         | Some t \<Rightarrow>
             let s = Input_Skip s
             in rbind (Input_IsEndOfKeywordN 0 s) (\<lambda>e. Inr (if e then Some t else None, s)))"

definition c_gbl :: "asm \<Rightarrow> (bool \<times> asm) outcome" where
  "c_gbl s =
     rbind (var_type s) (\<lambda>(ty, s).
       case ty of
         None \<Rightarrow> Inr (True, s)
       | Some t \<Rightarrow>
           rbind (Input_Symbol (Input_SkipWS s)) (\<lambda>(name, s).
             case name of
               None \<Rightarrow> rbind (Error ErrorError ''Missing variable name'' s) (\<lambda>s. Inr (False, s))
             | Some n \<Rightarrow> rbind (Var_Define n t False s) (\<lambda>(_, s). Inr (False, s))))"

text \<open>The restore point of a variable that is not yet local, and what \<^verbatim>\<open>Var_Define\<close> will not reset.\<close>

definition var_save :: "string \<Rightarrow> asm \<Rightarrow> asm outcome" where
  "var_save name s =
     rbind (cur_po s) (\<lambda>po.
       case Symbol_Find name s of
         None \<Rightarrow> Inr (upd_po (varListP_update (\<lambda>vs. \<lparr>vp_symbolP = None, vp_symbolAttr = sym0, vp_name = name\<rparr> # vs)) s)
       | Some r \<Rightarrow>
           if \<exists>v\<in>set (varListP po). vp_symbolP v = Some r then Inr s
           else Inr (upd_po (varListP_update (\<lambda>vs.
                       \<lparr>vp_symbolP = Some r, vp_symbolAttr = syms s r, vp_name = name\<rparr> # vs))
                     (upd_sym r (\<lambda>y. y\<lparr>attr_codeSize := 0\<rparr>) s)))"

definition declare_local :: "u32 \<Rightarrow> string option \<Rightarrow> asm \<Rightarrow> (bool \<times> asm) outcome" where
  "declare_local ty name s =
     (case name of
        None \<Rightarrow> rbind (Error ErrorError ''Missing variable name'' s) (\<lambda>s. Inr (False, s))
      | Some n \<Rightarrow> rbind (var_save n s) (\<lambda>s. rbind (Var_Define n ty True s) (\<lambda>(_, s). Inr (False, s))))"

definition c_lcl :: "asm \<Rightarrow> (bool \<times> asm) outcome" where
  "c_lcl s =
     rbind (var_type s) (\<lambda>(ty, s).
       case ty of
         None \<Rightarrow> Inr (True, s)
       | Some t \<Rightarrow>
           rbind (cur_po s) (\<lambda>po.
           if po_type po \<noteq> POType_eMacro
           then rbind (Error ErrorError ''Local variables not allowed outside macros'' s) (\<lambda>s. Inr (False, s))
           else rbind (Input_Symbol (Input_SkipWS s)) (\<lambda>(name, s). declare_local t name s)))"

text \<open>The assignment to the variable the label names.\<close>

definition var_assign :: "nat \<Rightarrow> u32 \<Rightarrow> string \<Rightarrow> asm \<Rightarrow> (bool \<times> asm) outcome" where
  "var_assign fuel ty name s =
     (case Symbol_Find name s of
        None \<Rightarrow> rbind (Error ErrorError ''Variable %.*s is undefined'' s) (\<lambda>s. Inr (False, s))
      | Some r \<Rightarrow>
          let y = syms s r
          in if \<not> flag (attr_type y) SYMBOL_RW
             then rbind (Error ErrorError ''%c%s %s can not be used as variable'' s) (\<lambda>s.
                  rbind (Error_Line ErrorError ''%c%s %s was defined here'' s) (\<lambda>s. Inr (False, s)))
             else if ty \<noteq> Tag (attr_value y)
             then rbind (Var_GetDescription (Tag (attr_value y))) (\<lambda>_.
                  rbind (Error ErrorError ''SET%c is unexpected for %s %s variable %s'' s) (\<lambda>s.
                  rbind (Error_Line ErrorError ''note: %c%s variable %s was defined here'' s) (\<lambda>s. Inr (False, s))))
             else rbind (evaluate fuel (Tag (attr_value y)) s) (\<lambda>(value, s).
                  if value = ValueIllegal
                  then rbind (Error ErrorError ''Wrong value type for variable %s'' s) (\<lambda>s. Inr (False, s))
                  else Inr (False, upd_sym r (\<lambda>y. y\<lparr>attr_value := value\<rparr>) s)))"

definition c_set :: "nat \<Rightarrow> Lex \<Rightarrow> asm \<Rightarrow> (bool \<times> asm) outcome" where
  "c_set fuel label s =
     rbind (var_type s) (\<lambda>(ty, s).
       case ty of
         None \<Rightarrow> Inr (True, s)
       | Some t \<Rightarrow>
           (case label of
              LexNone \<Rightarrow> rbind (Error ErrorError ''Variable name missing'' s) (\<lambda>s. Inr (False, s))
            | LexId name \<Rightarrow> var_assign fuel t name s
            | LexLocalLabel _ \<Rightarrow> rbind (Error ErrorError ''Local label is not allowed here'' s) (\<lambda>s. Inr (False, s))
            | _ \<Rightarrow> Inl AssertFailed))"

text \<open>The attributes of a symbol are restored, not its name.\<close>

fun Var_RestoreLocals :: "VarPos list \<Rightarrow> asm \<Rightarrow> asm outcome" where
  "Var_RestoreLocals [] s = Inr s"
| "Var_RestoreLocals (p # ps) s =
     (case vp_symbolP p of
        Some r \<Rightarrow> Var_RestoreLocals ps (upd_sym r (\<lambda>y. (vp_symbolAttr p)\<lparr>sym_str := sym_str y\<rparr>) s)
      | None \<Rightarrow> rbind (Symbol_Remove (vp_name p) s) (Var_RestoreLocals ps))"

definition lookup :: "string \<Rightarrow> asm \<Rightarrow> Symbol option" where
  "lookup name s = map_option (syms s) (Symbol_Find name s)"

text \<open>The restore points of the macro that is being executed.\<close>

definition locals :: "asm \<Rightarrow> VarPos list" where
  "locals s = (case gPOStack s of [] \<Rightarrow> [] | po # _ \<Rightarrow> varListP po)"

definition same_symbols :: "asm \<Rightarrow> asm \<Rightarrow> bool" where
  "same_symbols s t \<longleftrightarrow> syms t = syms s \<and> symbolTable t = symbolTable s \<and> symNext t = symNext s \<and> locals t = locals s"

definition saved :: "VarPos list \<Rightarrow> symref set" where
  "saved ps = {r. \<exists>p\<in>set ps. vp_symbolP p = Some r}"

text \<open>A restore point covers the symbol \<open>r\<close> of the name \<open>n\<close>.\<close>

definition covered :: "string \<Rightarrow> symref \<Rightarrow> asm \<Rightarrow> bool" where
  "covered n r s \<longleftrightarrow> r \<in> saved (locals s) \<or> (\<exists>p\<in>set (locals s). vp_symbolP p = None \<and> vp_name p = n)"

text \<open>
  What a macro does that declares local variables and assigns to them; the rest of what it does leaves the
  symbol table alone.  An assignment is taken as the storing of any value in a variable that is local: the
  evaluation and the checks of types that come before it in the code do not matter here.
\<close>

inductive local_step :: "asm \<Rightarrow> asm \<Rightarrow> bool" where
  declares: "c_lcl s = Inr (False, t) \<Longrightarrow> local_step s t"
| assigns: "Symbol_Find n s = Some r \<Longrightarrow> covered n r s
    \<Longrightarrow> local_step s (upd_sym r (\<lambda>y. y\<lparr>attr_value := x\<rparr>) s)"
| others: "same_symbols s t \<Longrightarrow> local_step s t"

text \<open>Two states with the same table whose symbols agree outside of \<open>D\<close>.\<close>

definition agree :: "symref set \<Rightarrow> asm \<Rightarrow> asm \<Rightarrow> bool" where
  "agree D s t \<longleftrightarrow> symbolTable t = symbolTable s
     \<and> (\<forall>h. \<forall>r\<in>set (symbolTable s h). sym_str (syms t r) = sym_str (syms s r))
     \<and> (\<forall>r. r \<notin> D \<longrightarrow> syms t r = syms s r)"

definition attrs_only :: "asm \<Rightarrow> asm \<Rightarrow> bool" where
  "attrs_only s t \<longleftrightarrow> (\<forall>r. sym_str (syms t r) = sym_str (syms s r))"

text \<open>Restoring now would bring back what \<open>s0\<close> had.\<close>

definition restorable :: "asm \<Rightarrow> asm \<Rightarrow> bool" where
  "restorable s0 s \<longleftrightarrow> wf_symtab s
     \<and> (\<exists>u. Var_RestoreLocals (locals s) s = Inr u \<and> (\<forall>n. lookup n u = lookup n s0))"

text \<open>In a macro that makes \<open>i\<close> local.\<close>

definition macro0 :: Macro where
  "macro0 = \<lparr>mac_name = ''m'', mac_fileName = [], mac_buf = [], labelArg = False, suffixArg = False, mac_args = [],
             defArgs = [], startLineNum = 0\<rparr>"

definition macro_po :: PObject where
  "macro_po = \<lparr>po_type = POType_eMacro, po_text = [], po_pos = 0, po_macro = macro0, po_curPtr = 0,
     po_args = replicate 18 None, varListP = [], optDirective = 0, po_fileName = [], po_lineNum = 1,
     whileIfCurDepth = 0, whileIfStartDepth = 0, lastLineSize = 0\<rparr>"

definition in_macro :: "string \<Rightarrow> asm" where
  "in_macro str = asm0\<lparr>gPOStack := [macro_po], input_buff := str, input_pos := str\<rparr>"

lemma wf_symtab_attrs:
  assumes "\<And>r. sym_str (syms t r) = sym_str (syms s r)" and "symbolTable t = symbolTable s" and "symNext t = symNext s"
  shows "wf_symtab t = wf_symtab s"
  using assms by (simp add: wf_symtab_def)

section \<open>What is restored\<close>

lemma agree_isearch:
  assumes "agree D s t"
  shows "isearch t (symbolTable s h) n = isearch s (symbolTable s h) n"
  using assms by (intro isearch_cong) (auto simp: agree_def)

lemma agree_find: "agree D s t \<Longrightarrow> Symbol_Find n t = Symbol_Find n s"
  using agree_isearch [of D s t] by (simp add: Symbol_Find_def agree_def)

lemma agree_remove:
  assumes "agree D s t" and "Symbol_Remove n s = Inr u"
  shows "\<exists>v. Symbol_Remove n t = Inr v \<and> agree D u v \<and> syms u = syms s \<and> syms v = syms t"
  using assms(2) agree_isearch [OF assms(1)] assms(1)
  by (auto simp: Symbol_Remove_def agree_def Let_def dest!: set_remove1_subset [THEN subsetD] split: option.splits if_splits)

lemma restore_agree:
  assumes "agree D s t" and "Var_RestoreLocals ps s = Inr u"
  shows "\<exists>v. Var_RestoreLocals ps t = Inr v \<and> agree D u v"
  using assms
proof (induction ps arbitrary: s t)
  case (Cons p ps)
  show ?case
  proof (cases "vp_symbolP p")
    case None
    with Cons.prems(2) obtain s' where s': "Symbol_Remove (vp_name p) s = Inr s'" "Var_RestoreLocals ps s' = Inr u"
      by (auto simp: rbind_eq_Inr)
    from agree_remove [OF Cons.prems(1) s'(1)] obtain t' where "Symbol_Remove (vp_name p) t = Inr t'" "agree D s' t'"
      by blast
    with Cons.IH [OF this(2) s'(2)] None show ?thesis by auto
  next
    case (Some r)
    have "agree D (upd_sym r (\<lambda>y. (vp_symbolAttr p)\<lparr>sym_str := sym_str y\<rparr>) s)
       (upd_sym r (\<lambda>y. (vp_symbolAttr p)\<lparr>sym_str := sym_str y\<rparr>) t)"
      using Cons.prems(1) by (auto simp: agree_def upd_sym_def)
    with Some Cons show ?thesis by auto
  qed
qed auto

lemma restore_attrs:
  assumes "agree D s t" and "attrs_only s t" and "Var_RestoreLocals ps s = Inr u"
  shows "\<exists>v. Var_RestoreLocals ps t = Inr v \<and> agree (D - saved ps) u v"
  using assms
proof (induction ps arbitrary: s t D)
  case (Cons p ps)
  show ?case
  proof (cases "vp_symbolP p")
    case None
    with Cons.prems(3) obtain s' where s': "Symbol_Remove (vp_name p) s = Inr s'" "Var_RestoreLocals ps s' = Inr u"
      by (auto simp: rbind_eq_Inr)
    from agree_remove [OF Cons.prems(1) s'(1)] obtain t' where t': "Symbol_Remove (vp_name p) t = Inr t'" "agree D s' t'"
      and "attrs_only s' t'" using Cons.prems(2) by (auto simp: attrs_only_def)
    with Cons.IH [OF t'(2) _ s'(2)] None show ?thesis by (auto simp: saved_def)
  next
    case (Some r)
    let ?f = "\<lambda>y. (vp_symbolAttr p)\<lparr>sym_str := sym_str y\<rparr>"
    have "agree (D - {r}) (upd_sym r ?f s) (upd_sym r ?f t)" "attrs_only (upd_sym r ?f s) (upd_sym r ?f t)"
      using Cons.prems(1,2) by (auto simp: agree_def attrs_only_def upd_sym_def)
    from Cons.IH [OF this] Cons.prems(3) Some obtain v where "Var_RestoreLocals ps (upd_sym r ?f t) = Inr v"
      "agree (D - {r} - saved ps) u v" by auto
    moreover have "D - {r} - saved ps = D - saved (p # ps)" using Some by (auto simp: saved_def)
    ultimately show ?thesis using Some by simp
  qed
qed (auto simp: saved_def)

lemma restore_strs: "Var_RestoreLocals ps s = Inr u \<Longrightarrow> sym_str (syms u r) = sym_str (syms s r)"
proof (induction ps arbitrary: s)
  case (Cons p ps)
  then show ?case
    by (cases "vp_symbolP p") (force simp: rbind_eq_Inr Symbol_Remove_def Let_def upd_sym_def split: option.splits)+
qed simp

text \<open>A name with a restore point without symbol is gone after the restoration.\<close>

lemma restore_removes:
  assumes "wf_symtab s" and "Var_RestoreLocals ps s = Inr u"
  shows "(Symbol_Find n s = None \<longrightarrow> Symbol_Find n u = None)
    \<and> ((\<exists>p\<in>set ps. vp_symbolP p = None \<and> vp_name p = n) \<longrightarrow> Symbol_Find n u = None)"
  using assms
proof (induction ps arbitrary: s)
  case (Cons p ps)
  show ?case
  proof (cases "vp_symbolP p")
    case None
    with Cons.prems(2) obtain s' where s': "Symbol_Remove (vp_name p) s = Inr s'" "Var_RestoreLocals ps s' = Inr u"
      by (auto simp: rbind_eq_Inr)
    from Symbol_Remove_wf [OF Cons.prems(1), of "vp_name p"] s'(1)
    have wf: "wf_symtab s'" and find: "Symbol_Find n s' = (if n = vp_name p then None else Symbol_Find n s)"
      by (auto split: if_splits)
    show ?thesis using Cons.IH [OF wf s'(2)] find None by auto
  next
    case (Some r)
    let ?t = "upd_sym r (\<lambda>y. (vp_symbolAttr p)\<lparr>sym_str := sym_str y\<rparr>) s"
    have a: "agree {r} s ?t" by (auto simp: agree_def upd_sym_def)
    have "wf_symtab ?t"
      using wf_symtab_attrs [of ?t s] Cons.prems(1) by (simp add: upd_sym_def)
    moreover have "Var_RestoreLocals ps ?t = Inr u" using Cons.prems(2) Some by simp
    ultimately show ?thesis using Cons.IH [of ?t] Some agree_find [OF a, of n] by auto
  qed
qed simp

section \<open>The invariant of a macro\<close>

lemma agree_lookup:
  assumes "agree D s t" and "\<And>r. Symbol_Find n s = Some r \<Longrightarrow> r \<notin> D"
  shows "lookup n t = lookup n s"
  using assms agree_find [OF assms(1), of n] by (cases "Symbol_Find n s") (auto simp: lookup_def agree_def)

lemma restorable_agree:
  assumes "restorable s0 s" and "agree D s t" and "locals t = locals s" and "wf_symtab t"
    and "\<And>u n r. Var_RestoreLocals (locals s) s = Inr u \<Longrightarrow> Symbol_Find n u = Some r \<Longrightarrow> r \<notin> D"
  shows "restorable s0 t"
proof -
  from assms(1) obtain u where u: "Var_RestoreLocals (locals s) s = Inr u" "\<And>n. lookup n u = lookup n s0"
    by (auto simp: restorable_def)
  from restore_agree [OF assms(2) u(1)] obtain v where v: "Var_RestoreLocals (locals s) t = Inr v" "agree D u v"
    by blast
  have "lookup n v = lookup n u" for n
    by (rule agree_lookup [OF v(2)]) (use assms(5) [OF u(1)] in blast)
  then show ?thesis using v(1) u(2) assms(3,4) by (simp add: restorable_def)
qed

lemma restorable_same:
  assumes "restorable s0 s" and "same_symbols s t"
  shows "restorable s0 t"
  by (rule restorable_agree [OF assms(1), of "{}"])
    (use assms in \<open>auto simp: agree_def same_symbols_def restorable_def wf_symtab_def\<close>)

text \<open>Changing the attributes of a symbol that will be restored or removed.\<close>

lemma locals_upd_sym [simp]: "locals (upd_sym r f s) = locals s"
  by (simp add: locals_def upd_sym_def)

lemma restorable_upd:
  assumes s: "restorable s0 s" and r: "Symbol_Find n s = Some r" "covered n r s"
    and f: "\<And>y. sym_str (f y) = sym_str y"
  shows "restorable s0 (upd_sym r f s)"
proof -
  let ?t = "upd_sym r f s"
  from s obtain u where u: "Var_RestoreLocals (locals s) s = Inr u" "\<And>n. lookup n u = lookup n s0" and wf: "wf_symtab s"
    by (auto simp: restorable_def)
  have a: "agree {r} s ?t" "attrs_only s ?t" by (auto simp: agree_def attrs_only_def upd_sym_def f)
  from restore_attrs [OF a u(1)] obtain v where v: "Var_RestoreLocals (locals s) ?t = Inr v" "agree ({r} - saved (locals s)) u v"
    by blast
  have str: "sym_str (syms u r) = n" if "r \<notin> saved (locals s)"
    using restore_strs [OF u(1)] symtab.find_name [OF wf r(1)] by simp
  have "lookup m v = lookup m u" for m
  proof (rule agree_lookup [OF v(2)])
    fix q assume q: "Symbol_Find m u = Some q"
    show "q \<notin> {r} - saved (locals s)"
    proof
      assume "q \<in> {r} - saved (locals s)"
      then have "q = r" "r \<notin> saved (locals s)" by auto
      with q str have "m = n" by (auto simp: Symbol_Find_def dest: isearch_Some)
      moreover have "Symbol_Find n u = None"
        using restore_removes [OF wf u(1), of n] r(2) \<open>r \<notin> saved (locals s)\<close> by (auto simp: covered_def)
      ultimately show False using q by simp
    qed
  qed
  moreover have "wf_symtab ?t" using wf wf_symtab_attrs [of ?t s] by (simp add: upd_sym_def f)
  ultimately show ?thesis using v(1) u(2) by (simp add: restorable_def)
qed

lemma same_symbols_refl [simp]: "same_symbols s s"
  by (simp add: same_symbols_def)

lemma same_symbols_trans: "same_symbols s t \<Longrightarrow> same_symbols t u \<Longrightarrow> same_symbols s u"
  by (simp add: same_symbols_def)

lemma Error_symbols: "Error e msg s = Inr t \<Longrightarrow> same_symbols s t"
  by (drule Error_same) (simp add: same_symbols_def locals_def same_but_errorsD)

lemma input_symbols [simp]: "same_symbols s (s\<lparr>input_pos := x\<rparr>)"
  by (simp add: same_symbols_def locals_def)

lemma Symbol_symbols: "Input_Symbol s = Inr (x, t) \<Longrightarrow> same_symbols s t"
  unfolding Input_Symbol_def Input_SymbolNoBar_def Let_def
  by (auto simp: rbind_eq_Inr dest!: Error_symbols intro: same_symbols_trans [rotated] split: if_splits option.splits)

lemma SkipWS_symbols [simp]: "same_symbols s (Input_SkipWS s)"
  by (simp add: Input_SkipWS_def)

lemma var_type_symbols: "var_type s = Inr (x, t) \<Longrightarrow> same_symbols s t"
  by (auto simp: var_type_def Input_Skip_def Let_def rbind_eq_Inr split: if_splits)

lemma restore_table: "Var_RestoreLocals ps s = Inr u \<Longrightarrow> set (symbolTable u h) \<subseteq> set (symbolTable s h)"
proof (induction ps arbitrary: s)
  case (Cons p ps)
  show ?case
  proof (cases "vp_symbolP p")
    case None
    then obtain s' where "Symbol_Remove (vp_name p) s = Inr s'" "Var_RestoreLocals ps s' = Inr u"
      using Cons.prems by (auto simp: rbind_eq_Inr)
    moreover have "set (symbolTable s' h) \<subseteq> set (symbolTable s h)"
      using \<open>Symbol_Remove (vp_name p) s = Inr s'\<close>
      by (auto simp: Symbol_Remove_def Let_def dest!: set_remove1_subset [THEN subsetD] split: option.splits if_splits)
    ultimately show ?thesis using Cons.IH by blast
  next
    case (Some r)
    with Cons.prems Cons.IH show ?thesis by (fastforce simp: upd_sym_def)
  qed
qed simp

text \<open>The declaration of a local variable that has a symbol: the restore point.\<close>

lemma save_restorable:
  assumes s: "restorable s0 s" and r: "Symbol_Find n s = Some r" and t: "var_save n s = Inr t"
  shows "restorable s0 t \<and> r \<in> saved (locals t) \<and> Symbol_Find n t = Some r"
proof -
  from t obtain po pos where po: "gPOStack s = po # pos"
    by (auto simp: var_save_def cur_po_def rbind_eq_Inr split: list.splits)
  show ?thesis
  proof (cases "\<exists>v\<in>set (varListP po). vp_symbolP v = Some r")
    case True
    with t r po have "t = s" by (simp add: var_save_def cur_po_def)
    with s r True po show ?thesis by (auto simp: saved_def locals_def)
  next
    case False
    let ?p = "\<lparr>vp_symbolP = Some r, vp_symbolAttr = syms s r, vp_name = n\<rparr>"
    have t': "t = upd_po (varListP_update (\<lambda>vs. ?p # vs)) (upd_sym r (\<lambda>y. y\<lparr>attr_codeSize := 0\<rparr>) s)"
      using t r po False by (simp add: var_save_def cur_po_def)
    have loc: "locals t = ?p # locals s" by (simp add: t' upd_po_def locals_def po upd_sym_def)
    let ?t = "upd_sym r (\<lambda>y. (vp_symbolAttr ?p)\<lparr>sym_str := sym_str y\<rparr>) t"
    have a: "agree {} s ?t" by (auto simp: agree_def t' upd_po_def po upd_sym_def)
    from s obtain u where u: "Var_RestoreLocals (locals s) s = Inr u" "\<And>n. lookup n u = lookup n s0"
      by (auto simp: restorable_def)
    from restore_agree [OF a u(1)] obtain v where v: "Var_RestoreLocals (locals s) ?t = Inr v" "agree {} u v" by blast
    have "Var_RestoreLocals (locals t) t = Inr v" using v(1) by (simp add: loc)
    moreover have "lookup n v = lookup n s0" for n using agree_lookup [OF v(2), of n] u(2) by simp
    moreover have b: "agree {r} s t" by (auto simp: agree_def t' upd_po_def po upd_sym_def)
    moreover have "wf_symtab t" using s wf_symtab_attrs [of t s] by (simp add: restorable_def t' upd_po_def po upd_sym_def)
    ultimately show ?thesis using r agree_find [OF b, of n] by (auto simp: restorable_def saved_def loc)
  qed
qed

text \<open>One that has none: the symbol is made, and the restore point removes it.\<close>

lemma new_restorable:
  assumes s: "restorable s0 s" and r: "Symbol_Find n s = None" and t: "var_save n s = Inr t"
    and g: "Symbol_Get n t = (r, u)"
  shows "restorable s0 u \<and> covered n r u \<and> Symbol_Find n u = Some r"
proof -
  let ?h = "Symbol_CalculateHash n"
  let ?p = "\<lparr>vp_symbolP = None, vp_symbolAttr = sym0, vp_name = n\<rparr>"
  from t obtain po pos where po: "gPOStack s = po # pos"
    by (auto simp: var_save_def cur_po_def rbind_eq_Inr split: list.splits)
  have t': "t = upd_po (varListP_update (\<lambda>vs. ?p # vs)) s"
    using t r po by (simp add: var_save_def cur_po_def)
  from s have wf: "wf_symtab s" by (simp add: restorable_def)
  have wft: "wf_symtab t" using wf wf_symtab_attrs [of t s] by (simp add: t' upd_po_def po)
  have ft: "Symbol_Find n t = None" using r by (simp add: t' upd_po_def po Symbol_Find_def isearch_None)
  from Symbol_Get_new [OF ft] obtain y where y: "sym_str y = n" and
    run: "Symbol_Get n t = (symNext t, t\<lparr>syms := (syms t)(symNext t := y), symNext := symNext t + 1,
         symbolTable := (symbolTable t)(?h := symbolTable t ?h @ [symNext t])\<rparr>)" by blast
  have u: "r = symNext s" "syms u = (syms s)(r := y)"
      "symbolTable u = (symbolTable s)(?h := symbolTable s ?h @ [r])" "locals u = ?p # locals s"
    using run g by (auto simp: t' upd_po_def po locals_def)
  have find: "Symbol_Find n u = Some r" using Symbol_Get_find [OF wft, of n n] g by simp
  have old: "r \<notin> set (symbolTable s h)" for h using wf_symtab_D(1) [OF wf] u(1) by blast
  obtain w where w: "Symbol_Remove n u = Inr w" "symbolTable w = symbolTable s" "syms w = syms u"
  proof
    have "remove1 r (symbolTable s ?h @ [r]) = symbolTable s ?h"
      using old [of ?h] by (simp add: remove1_append)
    then show "Symbol_Remove n u = Inr (u\<lparr>symbolTable := symbolTable s\<rparr>)"
      using find by (auto simp: Symbol_Remove_def Symbol_Find_def u(3) fun_upd_idem_iff)
  qed simp_all
  have a: "agree {r} s w" using old by (auto simp: agree_def w u(2))
  from s obtain x where x: "Var_RestoreLocals (locals s) s = Inr x" "\<And>n. lookup n x = lookup n s0"
    by (auto simp: restorable_def)
  from restore_agree [OF a x(1)] obtain v where v: "Var_RestoreLocals (locals s) w = Inr v" "agree {r} x v" by blast
  have "lookup m v = lookup m x" for m
  proof (rule agree_lookup [OF v(2)])
    fix q assume "Symbol_Find m x = Some q"
    then have "q \<in> set (symbolTable x (Symbol_CalculateHash m))" by (auto simp: Symbol_Find_def dest: isearch_Some)
    with restore_table [OF x(1)] old show "q \<notin> {r}" by blast
  qed
  moreover have "Var_RestoreLocals (locals u) u = Inr v" by (simp add: u(4) w(1) v(1))
  moreover have "wf_symtab u" using Symbol_Get_wf [OF wft, of n] g by simp
  ultimately show ?thesis using find x(2) by (auto simp: restorable_def covered_def u(4))
qed

lemma Var_Define_local:
  assumes "Symbol_Get n s = (r, u)" and "restorable s0 u" and "covered n r u" and "Symbol_Find n u = Some r"
    and "Var_Define n ty True s = Inr (x, t)"
  shows "restorable s0 t"
  using assms(5) restorable_upd [OF assms(2,4,3)]
  by (auto simp: Var_Define_def var_symbol_def assms(1) rbind_eq_Inr Let_def
      intro: restorable_same [OF assms(2)] same_symbols_trans dest!: Error_symbols split: if_splits)

lemma declare_restorable:
  assumes "restorable s0 s" and "var_save n s = Inr u" and "Var_Define n ty True u = Inr (x, t)"
  shows "restorable s0 t"
proof (cases "Symbol_Find n s")
  case None
  obtain r v where g: "Symbol_Get n u = (r, v)" by force
  from new_restorable [OF assms(1) None assms(2) g] Var_Define_local [OF g _ _ _ assms(3)] show ?thesis by blast
next
  case (Some r)
  from save_restorable [OF assms(1) Some assms(2)] Var_Define_local [OF Symbol_Get_found _ _ _ assms(3)]
  show ?thesis by (auto simp: covered_def)
qed

lemma c_lcl_restorable:
  assumes "restorable s0 s" and "c_lcl s = Inr (b, t)"
  shows "restorable s0 t"
proof -
  from assms(2) obtain ty s1 where s1: "var_type s = Inr (ty, s1)"
    by (auto simp: c_lcl_def rbind_eq_Inr)
  have r1: "restorable s0 s1" by (rule restorable_same [OF assms(1) var_type_symbols [OF s1]])
  show ?thesis
  proof (cases "ty = None \<or> (\<exists>po. cur_po s1 = Inr po \<and> po_type po \<noteq> POType_eMacro)")
    case True
    with assms(2) s1 have "same_symbols s1 t"
      by (auto simp: c_lcl_def rbind_eq_Inr dest!: Error_symbols split: option.splits if_splits)
    then show ?thesis by (rule restorable_same [OF r1])
  next
    case False
    with assms(2) s1 obtain ty' name s2 where s2: "Input_Symbol (Input_SkipWS s1) = Inr (name, s2)"
      and rest: "declare_local ty' name s2 = Inr (b, t)"
      by (auto simp: c_lcl_def rbind_eq_Inr split: option.splits if_splits)
    have "same_symbols s1 s2" using Symbol_symbols [OF s2] by (rule same_symbols_trans [OF SkipWS_symbols])
    then have r2: "restorable s0 s2" by (rule restorable_same [OF r1])
    show ?thesis
    proof (cases name)
      case None
      with rest have "same_symbols s2 t" by (auto simp: declare_local_def rbind_eq_Inr dest: Error_symbols)
      then show ?thesis by (rule restorable_same [OF r2])
    next
      case (Some n)
      with rest declare_restorable [OF r2] show ?thesis by (auto simp: declare_local_def rbind_eq_Inr)
    qed
  qed
qed

lemma local_step_restorable: "local_step s t \<Longrightarrow> restorable s0 s \<Longrightarrow> restorable s0 t"
proof (induction rule: local_step.induct)
  case (assigns n s r x)
  then show ?case by (intro restorable_upd) auto
qed (auto intro: c_lcl_restorable restorable_same)

lemma local_steps_restorable: "local_step\<^sup>*\<^sup>* s t \<Longrightarrow> restorable s0 s \<Longrightarrow> restorable s0 t"
  by (induction rule: rtranclp_induct) (auto intro: local_step_restorable)

text \<open>
  C3. Local variables.  Whatever a macro that starts without restore points declares local and assigns to its
  local variables, \<^verbatim>\<open>Var_RestoreLocals\<close> returns, and every name then stands for the symbol, with the value and all
  other attributes, that it stood for before the macro; names that were unknown are unknown again.
\<close>

theorem locals_restored:
  assumes "wf_symtab s" and "locals s = []" and "local_step\<^sup>*\<^sup>* s t"
  shows "\<exists>u. Var_RestoreLocals (locals t) t = Inr u \<and> (\<forall>n. lookup n u = lookup n s)"
  using local_steps_restorable [OF assms(3), of s] assms(1,2) by (simp add: restorable_def)

theorem locals_restored_witness:
  "\<exists>t u. c_lcl (in_macro ''A i'') = Inr (False, t) \<and> map_option attr_value (lookup ''i'' t) = Some (pure 0)
     \<and> Var_RestoreLocals (locals t) t = Inr u \<and> lookup ''i'' u = None"
proof -
  have tab: "symbolTable asm0 = (\<lambda>_. [])" "symNext asm0 = 0" by (simp_all add: asm0_def)
  have "case c_lcl (in_macro ''A i'') of Inr (False, t) \<Rightarrow> map_option attr_value (lookup ''i'' t) = Some (pure 0) | _ \<Rightarrow> False"
    by (simp add: c_lcl_def var_type_def in_macro_def macro_po_def tab Input_Look_def Input_Skip_def peek_def NUL_def
        Input_IsEndOfKeywordN_def Input_LookN_def ends_keyword_def isspace_def ccode_def Input_SkipWS_def
        Input_Symbol_def Input_SymbolNoBar_def id_length_def id_start_def isalpha_def cur_po_def declare_local_def var_save_def upd_po_def
        Symbol_Find_def Var_Define_def var_symbol_def Symbol_Get_def Symbol_New_def lookup_def upd_sym_def var_initial_def
        tag_defs pure_def)
  then obtain t where t: "c_lcl (in_macro ''A i'') = Inr (False, t)" "map_option attr_value (lookup ''i'' t) = Some (pure 0)"
    by (auto split: sum.splits bool.splits)
  have start: "wf_symtab (in_macro ''A i'')" "locals (in_macro ''A i'') = []" "lookup ''i'' (in_macro ''A i'') = None"
    by (simp_all add: in_macro_def asm0_def macro_po_def wf_symtab_def locals_def lookup_def Symbol_Find_def)
  have "local_step\<^sup>*\<^sup>* (in_macro ''A i'') t" using t(1) by (intro r_into_rtranclp declares)
  with locals_restored [OF start(1,2) this] start(3) t show ?thesis by auto
qed

end
