(* ===== verification/Source_Lines.thy ===== *)
theory Source_Lines
  imports Variables
begin

text \<open>
  Where the lines come from: the three \<^verbatim>\<open>GetLine\<close> functions of \<^verbatim>\<open>filestack.c\<close> and \<^verbatim>\<open>macros.c\<close>.  A file that
  is read from the disk is \<^verbatim>\<open>fgets()\<close> on its contents, one that is in the cache is scanned in memory, and a macro
  replaces its arguments while it is read.  The theorem: a file gives the same lines from the disk and from the
  cache.
\<close>

section \<open>Buffers\<close>

definition MAX_LINE :: nat where
  "MAX_LINE = 4096"

definition sizeof_workBuff :: nat where
  "sizeof_workBuff = MAX_LINE + 1"

definition sizeof_input_buff :: nat where
  "sizeof_input_buff = MAX_LINE + 256"

text \<open>A string up to its NUL.\<close>

definition cstr :: "string \<Rightarrow> string" where
  "cstr str = takeWhile (\<lambda>c. c \<noteq> NUL) str"

definition CR :: char where "CR = CHR 0x0D"
definition LF :: char where "LF = CHR 0x0A"
definition backslash :: char where "backslash = CHR 0x5C"

section \<open>Lines of files\<close>

text \<open>
  \<^verbatim>\<open>fgets()\<close> of the C library: at most \<^verbatim>\<open>size - 1\<close> characters up to and with the end of the line.  The result
  says also where the file position is then and whether the end of the file was met.
\<close>

fun raw_line :: "nat \<Rightarrow> string \<Rightarrow> string" where
  "raw_line (Suc n) (c # cs) = c # (if c = LF then [] else raw_line n cs)"
| "raw_line _ _ = []"

definition fgets :: "nat \<Rightarrow> string \<Rightarrow> nat \<Rightarrow> (string \<times> nat \<times> bool) option" where
  "fgets sz str pos =
     (let line = raw_line (sz - 1) (drop pos str)
      in if line = [] then None
         else Some (line, pos + length line, length line < sz - 1 \<and> last line \<noteq> LF))"

definition next_lineNum :: "asm \<Rightarrow> asm" where
  "next_lineNum = upd_po (po_lineNum_update (\<lambda>n. n + 1))"

text \<open>The loop over continued lines.  \<open>acc\<close> is what is in the buffer; no line is the end of the file.\<close>

fun file_loop :: "nat \<Rightarrow> nat \<Rightarrow> string \<Rightarrow> asm \<Rightarrow> (string option \<times> asm) outcome" where
  "file_loop 0 bufSize acc s = Inl OutOfFuel"
| "file_loop (Suc fuel) bufSize acc s =
     rbind (cur_po s) (\<lambda>po.
       case fgets bufSize (po_text po) (po_pos po) of
         None \<Rightarrow> Inr (None, s)
       | Some (raw, pos, eof) \<Rightarrow>
           let s = upd_po (po_pos_update (\<lambda>_. pos)) s; line = cstr raw; n = length line
           in if line = [] then Inr (None, s)
              else
                let s = upd_po (lastLineSize_update (\<lambda>k. k + n)) s
                in if last line = LF
                   then (if 1 < n \<and> line ! (n - 2) = backslash
                         then file_loop fuel (bufSize - (n - 2)) (acc @ take (n - 2) line) (next_lineNum s)
                         else Inr (Some (acc @ butlast line), s))
                   else if eof then Inr (Some (acc @ line), s)
                   else Error_Abort ''Line too long'' s)"

definition unread :: "PObject \<Rightarrow> string" where
  "unread po = drop (po_pos po) (po_text po)"

definition File_GetLine :: "nat \<Rightarrow> asm \<Rightarrow> (string option \<times> asm) outcome" where
  "File_GetLine bufSize s =
     rbind (cur_po s) (\<lambda>po.
       file_loop (Suc (length (unread po))) bufSize [] (upd_po (lastLineSize_update (\<lambda>_. 0)) s))"

definition is_eol :: "char \<Rightarrow> bool" where
  "is_eol c \<longleftrightarrow> c = CR \<or> c = LF"

text \<open>The end of a line in the cache is a CR, an LF or a CR and an LF.\<close>

definition skip_eol :: "string \<Rightarrow> string" where
  "skip_eol str =
     (let str = (if str \<noteq> [] \<and> hd str = CR then tl str else str)
      in if str \<noteq> [] \<and> hd str = LF then tl str else str)"

text \<open>\<open>rest\<close> is the text from \<^verbatim>\<open>curP\<close> on, \<open>start\<close> the unread text before the call.\<close>

fun cached_loop :: "nat \<Rightarrow> nat \<Rightarrow> string \<Rightarrow> string \<Rightarrow> string \<Rightarrow> asm \<Rightarrow> (string option \<times> asm) outcome" where
  "cached_loop 0 bufSize start rest acc s = Inl OutOfFuel"
| "cached_loop (Suc fuel) bufSize start rest acc s =
     (let seg = takeWhile (\<lambda>c. \<not> is_eol c) (take (bufSize - length acc) rest);
          acc = acc @ seg; rest = drop (length seg) rest
      in if rest = [] \<or> is_eol (hd rest)
         then
           let rest = skip_eol rest
           in if acc \<noteq> [] \<and> last acc = backslash
              then cached_loop fuel bufSize start rest (butlast acc) (next_lineNum s)
              else if length acc < bufSize
              then
                let n = length start - length rest
                in Inr (Some (cstr acc), upd_po (\<lambda>po. po\<lparr>lastLineSize := n, po_pos := po_pos po + n\<rparr>) s)
              else Error_Abort ''Line too long'' s
         else Error_Abort ''Line too long'' s)"

definition CachedFile_GetLine :: "nat \<Rightarrow> asm \<Rightarrow> (string option \<times> asm) outcome" where
  "CachedFile_GetLine bufSize s =
     rbind (cur_po s) (\<lambda>po.
       if unread po = [] then Inr (None, s)
       else cached_loop (2 * length (unread po) + 2) bufSize (unread po) (unread po) [] s)"

section \<open>Lines of macros\<close>

definition MACRO_ARG0 :: nat where
  "MACRO_ARG0 = 14"

definition MACRO_ARG_LIMIT :: nat where
  "MACRO_ARG_LIMIT = 18"

text \<open>The number of the macro argument a character stands for; \<^verbatim>\<open>char\<close> is unsigned or its upper half negative.\<close>

definition arg_index :: "char \<Rightarrow> nat option" where
  "arg_index c =
     (let n = nat (ccode c) in if MACRO_ARG0 \<le> n \<and> n < MACRO_ARG0 + MACRO_ARG_LIMIT then Some (n - MACRO_ARG0) else None)"

definition arg_text :: "string option list \<Rightarrow> nat \<Rightarrow> string" where
  "arg_text args i = (case args ! i of None \<Rightarrow> [] | Some a \<Rightarrow> a)"

text \<open>The loop: the line, and what is left of the macro; nothing when an argument does not fit.\<close>

fun macro_text :: "nat \<Rightarrow> string option list \<Rightarrow> string \<Rightarrow> string \<Rightarrow> (string \<times> string) option" where
  "macro_text room args acc [] = Some (acc, [])"
| "macro_text room args acc (c # cs) =
     (if length acc = room then Some (acc, c # cs)
      else case arg_index c of
             Some i \<Rightarrow>
               if room < length acc + length (arg_text args i) then None
               else macro_text room args (acc @ arg_text args i) cs
           | None \<Rightarrow> if c = LF then Some (acc, cs) else macro_text room args (acc @ [c]) cs)"

definition Macro_GetLine :: "nat \<Rightarrow> asm \<Rightarrow> (string option \<times> asm) outcome" where
  "Macro_GetLine bufSize s =
     rbind (cur_po s) (\<lambda>po.
       let rest = drop (po_curPtr po) (mac_buf (po_macro po))
       in if rest = [] then Inr (None, upd_po (lastLineSize_update (\<lambda>_. 0)) s)
          else case macro_text (bufSize - 1) (po_args po) [] rest of
                 None \<Rightarrow> Error_Abort ''Line too long'' s
               | Some (line, rest') \<Rightarrow>
                   let n = length rest - length rest'
                   in Inr (Some line, upd_po (\<lambda>po. po\<lparr>lastLineSize := n, po_curPtr := po_curPtr po + n\<rparr>) s))"

definition GetLine :: "nat \<Rightarrow> asm \<Rightarrow> (string option \<times> asm) outcome" where
  "GetLine bufSize s =
     rbind (cur_po s) (\<lambda>po.
       case po_type po of
         POType_eFile \<Rightarrow> File_GetLine bufSize s
       | POType_eCachedFile \<Rightarrow> CachedFile_GetLine bufSize s
       | POType_eMacro \<Rightarrow> Macro_GetLine bufSize s)"

section \<open>The lines of a text\<close>

text \<open>The first logical line of a text, the number of continued lines in it, and the rest of the text.\<close>

fun logical :: "string \<Rightarrow> string \<times> nat \<times> string" where
  "logical [] = ([], 0, [])"
| "logical (c # cs) =
     (if c = LF then ([], 0, cs)
      else if c = backslash \<and> cs \<noteq> [] \<and> hd cs = LF
      then (let (line, k, rest) = logical (tl cs) in (line, Suc k, rest))
      else (let (line, k, rest) = logical cs in (c # line, k, rest)))"

text \<open>
  Texts the two ways to read agree on: no NUL and no CR, no backslash behind a backslash, and no continued line at
  the end.
\<close>

fun regular :: "string \<Rightarrow> bool" where
  "regular [] \<longleftrightarrow> True"
| "regular (c # cs) \<longleftrightarrow>
     c \<noteq> NUL \<and> c \<noteq> CR \<and> (c = backslash \<longrightarrow> cs \<noteq> [] \<and> hd cs \<noteq> backslash \<and> cs \<noteq> [LF]) \<and> regular cs"

text \<open>A call that reads the logical line.\<close>

definition finished :: "nat \<Rightarrow> nat \<Rightarrow> PObject \<Rightarrow> PObject" where
  "finished n k po = po\<lparr>lastLineSize := n, po_pos := po_pos po + n, po_lineNum := po_lineNum po + of_nat k\<rparr>"

definition line_read :: "asm \<Rightarrow> string option \<times> asm" where
  "line_read s =
     (case logical (unread (hd (gPOStack s))) of (line, k, rest) \<Rightarrow>
        let n = length (unread (hd (gPOStack s))) - length rest
        in (Some line, upd_po (finished n k) s))"

text \<open>What the loop does to the parsable object.\<close>

definition advanced :: "nat \<Rightarrow> nat \<Rightarrow> PObject \<Rightarrow> PObject" where
  "advanced n k po = po\<lparr>po_pos := po_pos po + n, lastLineSize := lastLineSize po + n, po_lineNum := po_lineNum po + of_nat k\<rparr>"

definition reading :: "string \<Rightarrow> asm" where
  "reading str = asm0\<lparr>gPOStack := [macro_po\<lparr>po_type := POType_eFile, po_text := str\<rparr>]\<rparr>"

lemmas chars = NUL_def CR_def LF_def backslash_def

lemma logical_end:
  assumes "LF \<notin> set l" and "l = [] \<or> last l \<noteq> backslash"
  shows "logical (l @ LF # u) = (l, 0, u)"
  using assms
proof (induction l)
  case (Cons c l)
  then show ?case by (cases l) (auto split: if_splits simp: chars)
qed simp

lemma logical_cont:
  "LF \<notin> set l \<Longrightarrow> logical (l @ backslash # LF # u) = (let (line, k, rest) = logical u in (l @ line, Suc k, rest))"
proof (induction l)
  case Nil
  show ?case by (simp add: chars)
next
  case (Cons c l)
  then show ?case by (cases l) (auto simp: chars split: prod.splits)
qed

lemma logical_last:
  assumes "LF \<notin> set l"
  shows "logical l = (l, 0, [])"
  using assms
proof (induction l)
  case (Cons c l)
  then show ?case by (cases l) auto
qed simp

lemma regular_append: "regular (a @ b) \<Longrightarrow> regular b"
  by (induction a) auto

lemma regular_chars: "regular u \<Longrightarrow> NUL \<notin> set u \<and> CR \<notin> set u"
  by (induction u) auto

lemma regular_pair: "\<not> regular (a @ backslash # backslash # b)"
  by (induction a) auto

lemma regular_continues: "regular (a @ backslash # LF # u) \<Longrightarrow> u \<noteq> []"
  by (induction a) auto

lemma regular_last: "\<not> regular (a @ [backslash])"
  by (induction a) auto

lemma logical_length: "logical u = (line, k, rest) \<Longrightarrow> length rest \<le> length u"
proof (induction u arbitrary: line k rest rule: logical.induct)
  case (2 c cs)
  show ?case
  proof (cases "c = backslash \<and> cs \<noteq> [] \<and> hd cs = LF")
    case True
    with 2 show ?thesis by (cases "logical (tl cs)") (force simp: chars split: if_splits)
  next
    case False
    with 2 show ?thesis by (cases "logical cs") (force split: if_splits)
  qed
qed simp

text \<open>The three shapes of a regular text that is not empty.\<close>

lemma regular_cases:
  assumes "regular u" and "u \<noteq> []"
  obtains (ends) l v where "u = l @ LF # v" and "LF \<notin> set l" and "l = [] \<or> last l \<noteq> backslash"
  | (continues) l v where "u = l @ backslash # LF # v" and "LF \<notin> set l" and "l = [] \<or> last l \<noteq> backslash" and "v \<noteq> []"
  | (last) "LF \<notin> set u" and "last u \<noteq> backslash"
proof (cases "LF \<in> set u")
  case True
  then obtain l v where u: "u = l @ LF # v" "LF \<notin> set l" by (meson split_list_first)
  show ?thesis
  proof (cases "l = [] \<or> last l \<noteq> backslash")
    case True
    with u show ?thesis by (rule ends)
  next
    case False
    then obtain m where l: "l = m @ [backslash]" by (metis append_butlast_last_id)
    have "m = [] \<or> last m \<noteq> backslash"
    proof (rule ccontr)
      assume "\<not> ?thesis"
      then obtain m' where "m = m' @ [backslash]" by (metis append_butlast_last_id)
      with assms(1) u(1) l regular_pair [of m' "LF # v"] show False by simp
    qed
    moreover have "v \<noteq> []" using regular_continues [of m v] assms(1) u(1) l by simp
    ultimately show ?thesis using u l by (intro continues [of m v]) auto
  qed
next
  case False
  moreover have "last u \<noteq> backslash"
  proof
    assume "last u = backslash"
    with assms regular_last [of "butlast u"] show False by (metis append_butlast_last_id)
  qed
  ultimately show ?thesis by (rule last)
qed

section \<open>The file\<close>

lemma raw_line_LF: "LF \<notin> set l \<Longrightarrow> length l < n \<Longrightarrow> raw_line n (l @ LF # u) = l @ [LF]"
proof (induction l arbitrary: n)
  case (Cons a l) then show ?case by (cases n) auto
next
  case Nil then show ?case by (cases n) auto
qed

lemma raw_line_all: "LF \<notin> set l \<Longrightarrow> length l \<le> n \<Longrightarrow> raw_line n l = l"
proof (induction l arbitrary: n)
  case (Cons a l) then show ?case by (cases n) auto
qed simp

lemma cstr_id: "NUL \<notin> set l \<Longrightarrow> cstr l = l"
  by (simp add: cstr_def takeWhile_eq_all_conv) metis

lemma upd_po_upd_po [simp]: "upd_po f (upd_po g s) = upd_po (\<lambda>po. f (g po)) s"
  by (simp add: upd_po_def split: list.splits)

lemma file_round_LF:
  assumes "gPOStack s = po # pos" and "unread po = l @ LF # v" and "LF \<notin> set l" and "NUL \<notin> set l"
    and "length l + 1 < B"
  shows "file_loop (Suc fuel) B acc s =
    (let n = length l + 1; s = upd_po (\<lambda>po. po\<lparr>po_pos := po_pos po + n, lastLineSize := lastLineSize po + n\<rparr>) s
     in if l \<noteq> [] \<and> last l = backslash
        then file_loop fuel (B - (n - 2)) (acc @ butlast l) (next_lineNum s) else Inr (Some (acc @ l), s))"
proof -
  have "raw_line (B - 1) (l @ LF # v) = l @ [LF]" by (rule raw_line_LF) (use assms in auto)
  then have "fgets B (po_text po) (po_pos po) = Some (l @ [LF], po_pos po + (length l + 1), False)"
    using assms(2) by (simp add: fgets_def unread_def)
  moreover have "cstr (l @ [LF]) = l @ [LF]" by (rule cstr_id) (use assms(4) in \<open>auto simp: chars\<close>)
  moreover have "(1 < length l + 1 \<and> (l @ [LF]) ! (length l + 1 - 2) = backslash) = (l \<noteq> [] \<and> last l = backslash)"
    by (cases l rule: rev_cases) (auto simp: nth_append)
  moreover have "take (length l + 1 - 2) (l @ [LF]) = butlast l" by (simp add: butlast_conv_take)
  ultimately show ?thesis
    by (cases po; cases "l = []") (simp_all add: cur_po_def assms(1) Let_def upd_po_def)
qed

lemma file_round_last:
  assumes "gPOStack s = po # pos" and "unread po = l" and "l \<noteq> []" and "LF \<notin> set l" and "NUL \<notin> set l"
    and "length l + 1 < B"
  shows "file_loop (Suc fuel) B acc s =
    Inr (Some (acc @ l), upd_po (\<lambda>po. po\<lparr>po_pos := po_pos po + length l, lastLineSize := lastLineSize po + length l\<rparr>) s)"
proof -
  have "raw_line (B - 1) l = l" by (rule raw_line_all) (use assms in auto)
  moreover have "last l \<noteq> LF" using assms(3,4) by (metis last_in_set)
  ultimately have "fgets B (po_text po) (po_pos po) = Some (l, po_pos po + length l, True)"
    using assms by (auto simp add: fgets_def unread_def)
  moreover have "cstr l = l" by (rule cstr_id) (use assms in auto)
  ultimately show ?thesis using \<open>last l \<noteq> LF\<close> assms(3)
    by (cases po) (simp add: cur_po_def assms(1) Let_def upd_po_def)
qed

lemma unread_advance [simp]:
  "unread (po\<lparr>po_pos := po_pos po + n\<rparr>) = drop n (unread po)"
  by (simp add: unread_def add.commute)

lemma unread_advanced [simp]: "unread (advanced n k po) = drop n (unread po)"
  by (simp add: unread_def advanced_def add.commute)

lemma advanced_advanced: "advanced n k (advanced m j po) = advanced (m + n) (j + k) po"
  by (simp add: advanced_def add_ac)

lemma next_line_advanced:
  "next_lineNum (upd_po (\<lambda>po. po\<lparr>po_pos := po_pos po + n, lastLineSize := lastLineSize po + n\<rparr>) s)
    = upd_po (advanced n 1) s"
proof (cases "gPOStack s")
  case (Cons po pos)
  then show ?thesis by (cases po) (simp add: upd_po_def next_lineNum_def advanced_def)
qed (simp add: upd_po_def next_lineNum_def)

lemma gPOStack_upd_po: "gPOStack s = po # pos \<Longrightarrow> gPOStack (upd_po f s) = f po # pos"
  by (simp add: upd_po_def)

lemma file_loop_logical:
  assumes "gPOStack s = po # pos" and "regular (unread po)" and "unread po \<noteq> []" and "logical (unread po) = (line, k, rest)"
    and "length acc + length line + 3 \<le> B" and "length (unread po) \<le> fuel"
  shows "file_loop (Suc fuel) (B - length acc) acc s =
    Inr (Some (acc @ line), upd_po (advanced (length (unread po) - length rest) k) s)"
  using assms
proof (induction fuel arbitrary: s po acc line k rest)
  case (Suc fuel)
  have nul: "NUL \<notin> set (unread po)" using regular_chars [OF Suc.prems(2)] by blast
  from Suc.prems(2,3) show ?case
  proof (cases rule: regular_cases)
    case (ends l v)
    with Suc.prems(4) have l: "line = l" "k = 0" "rest = v" by (simp_all add: logical_end)
    show ?thesis using ends nul Suc.prems(5)
      by (subst file_round_LF [OF Suc.prems(1) ends(1,2)]) (auto simp: l Let_def upd_po_def Suc.prems(1) advanced_def)
  next
    case (continues l v)
    obtain line' k' where v: "logical v = (line', k', rest)" and l: "line = l @ line'" "k = Suc k'"
      using Suc.prems(4) by (cases "logical v") (simp add: continues(1) logical_cont [OF continues(2)])
    let ?s = "upd_po (advanced (length l + 2) 1) s"
    have s: "gPOStack ?s = advanced (length l + 2) 1 po # pos" by (rule gPOStack_upd_po [OF Suc.prems(1)])
    have u: "unread (advanced (length l + 2) 1 po) = v" by (simp add: continues(1))
    have "file_loop (Suc fuel) (B - length (acc @ l)) (acc @ l) ?s =
        Inr (Some ((acc @ l) @ line'), upd_po (advanced (length v - length rest) k') ?s)"
      using Suc.IH [OF s, unfolded u, OF _ continues(4) v, of "acc @ l"] Suc.prems(2,5,6) regular_append [of "l @ [backslash, LF]" v]
      by (simp add: continues(1) l)
    moreover have "length rest \<le> length v" using v by (rule logical_length)
    moreover have "file_loop (Suc (Suc fuel)) (B - length acc) acc s = file_loop (Suc fuel) (B - length (acc @ l)) (acc @ l) ?s"
      using continues nul Suc.prems(5)
      by (subst file_round_LF [OF Suc.prems(1), of "l @ [backslash]" v])
        (simp_all add: Let_def chars l next_line_advanced del: file_loop.simps)
    ultimately show ?thesis by (simp add: l continues(1) advanced_advanced Suc_diff_le del: file_loop.simps)
  next
    case last
    with Suc.prems(4) have l: "line = unread po" "k = 0" "rest = []" by (simp_all add: logical_last)
    show ?thesis using nul Suc.prems(3,5) last
      by (subst file_round_last [OF Suc.prems(1) refl]) (auto simp: l upd_po_def Suc.prems(1) advanced_def)
  qed
qed simp

section \<open>The cache\<close>

lemma takeWhile_seg: "LF \<notin> set l \<Longrightarrow> CR \<notin> set l \<Longrightarrow> takeWhile (\<lambda>c. \<not> is_eol c) (l @ LF # v) = l"
  by (induction l) (auto simp: is_eol_def)

lemma takeWhile_all: "LF \<notin> set l \<Longrightarrow> CR \<notin> set l \<Longrightarrow> takeWhile (\<lambda>c. \<not> is_eol c) l = l"
  by (induction l) (auto simp: is_eol_def)

text \<open>One round that finds the end of a line.\<close>

lemma cached_round_LF:
  assumes "LF \<notin> set l" and "CR \<notin> set l" and "length acc + length l < B"
  shows "cached_loop (Suc fuel) B start (l @ LF # v) acc s =
    (let acc = acc @ l
     in if acc \<noteq> [] \<and> last acc = backslash then cached_loop fuel B start v (butlast acc) (next_lineNum s)
        else let n = length start - length v
             in Inr (Some (cstr acc), upd_po (\<lambda>po. po\<lparr>lastLineSize := n, po_pos := po_pos po + n\<rparr>) s))"
proof -
  have "take (B - length acc) (l @ LF # v) = l @ LF # take (B - length acc - length l - 1) v"
    using assms(3) by (simp add: take_Cons')
  then have "takeWhile (\<lambda>c. \<not> is_eol c) (take (B - length acc) (l @ LF # v)) = l"
    by (simp add: takeWhile_seg assms(1,2))
  then show ?thesis using assms(3) by (simp add: Let_def is_eol_def skip_eol_def chars del: cached_loop.simps(1))
qed

lemma cached_round_last:
  assumes "LF \<notin> set l" and "CR \<notin> set l" and "length acc + length l < B" and "last l \<noteq> backslash" and "l \<noteq> []"
  shows "cached_loop (Suc fuel) B start l acc s =
    Inr (Some (cstr (acc @ l)), upd_po (\<lambda>po. po\<lparr>lastLineSize := length start, po_pos := po_pos po + length start\<rparr>) s)"
proof -
  have seg: "takeWhile (\<lambda>c. \<not> is_eol c) (take (B - length acc) l) = l"
    using assms(3) takeWhile_all [OF assms(1,2)] by simp
  show ?thesis using assms(3-5) unfolding cached_loop.simps Let_def seg by (simp add: skip_eol_def)
qed

lemma finished_next: "upd_po (finished n k) (next_lineNum s) = upd_po (finished n (Suc k)) s"
proof (cases "gPOStack s")
  case (Cons po pos)
  then show ?thesis by (cases po) (simp add: upd_po_def next_lineNum_def finished_def add_ac)
qed (simp add: upd_po_def next_lineNum_def)

lemma finished_0: "upd_po (\<lambda>po. po\<lparr>lastLineSize := n, po_pos := po_pos po + n\<rparr>) s = upd_po (finished n 0) s"
  by (simp add: upd_po_def finished_def split: list.split)

lemma cached_loop_logical:
  assumes "regular u" and "u \<noteq> []" and "logical u = (line, k, rest)" and "acc = [] \<or> last acc \<noteq> backslash"
    and "length acc + length line + 2 \<le> B" and "length u \<le> fuel"
  shows "cached_loop (Suc fuel) B start u acc s = Inr (Some (cstr (acc @ line)), upd_po (finished (length start - length rest) k) s)"
  using assms
proof (induction fuel arbitrary: u acc line k rest s)
  case (Suc fuel)
  have cr: "CR \<notin> set u" using regular_chars [OF Suc.prems(1)] by blast
  from Suc.prems(1,2) show ?case
  proof (cases rule: regular_cases)
    case (ends l v)
    with Suc.prems(3) have l: "line = l" "k = 0" "rest = v" by (simp_all add: logical_end)
    have cr': "CR \<notin> set l" using cr by (simp add: ends(1))
    have fits: "length acc + length l < B" using Suc.prems(5) by (simp add: l(1))
    have inv: "\<not> (acc @ l \<noteq> [] \<and> last (acc @ l) = backslash)" using ends(3) Suc.prems(4) by (cases "l = []") auto
    show ?thesis unfolding ends(1) cached_round_LF [OF ends(2) cr' fits] Let_def if_not_P [OF inv] l finished_0 ..
  next
    case (continues l v)
    obtain line' k' where v: "logical v = (line', k', rest)" and l: "line = l @ line'" "k = Suc k'"
      using Suc.prems(3) by (cases "logical v") (simp add: continues(1) logical_cont [OF continues(2)])
    have reg: "regular v" using regular_append [of "l @ [backslash, LF]" v] Suc.prems(1) continues(1) by simp
    have inv: "acc @ l = [] \<or> last (acc @ l) \<noteq> backslash" using continues(3) Suc.prems(4) by (cases "l = []") auto
    have "length (acc @ l) + length line' + 2 \<le> B" "length v \<le> fuel"
      using Suc.prems(5,6) continues(1) l(1) by simp_all
    then have "cached_loop (Suc fuel) B start v (acc @ l) (next_lineNum s) =
        Inr (Some (cstr ((acc @ l) @ line')), upd_po (finished (length start - length rest) k') (next_lineNum s))"
      by (rule Suc.IH [OF reg continues(4) v inv])
    moreover have "cached_loop (Suc (Suc fuel)) B start ((l @ [backslash]) @ LF # v) acc s
        = cached_loop (Suc fuel) B start v (acc @ l) (next_lineNum s)"
      using continues(1,2) cr Suc.prems(5)
      by (subst cached_round_LF) (auto simp: l Let_def chars butlast_append simp del: cached_loop.simps)
    ultimately show ?thesis by (simp add: continues(1) l finished_next del: cached_loop.simps)
  next
    case last
    with Suc.prems(3) have l: "line = u" "k = 0" "rest = []" by (simp_all add: logical_last)
    show ?thesis using last cr Suc.prems(2,5)
      by (subst cached_round_last) (auto simp: l finished_0)
  qed
qed simp

section \<open>The same lines\<close>

lemma regular_logical: "regular u \<Longrightarrow> logical u = (line, k, rest) \<Longrightarrow> NUL \<notin> set line"
proof (induction u arbitrary: line k rest rule: logical.induct)
  case (2 c cs)
  show ?case
  proof (cases "c = backslash \<and> cs \<noteq> [] \<and> hd cs = LF")
    case True
    then have "regular (tl cs)" using 2(3) by (cases cs) auto
    with True 2 show ?thesis by (cases "logical (tl cs)") (auto simp: chars split: if_splits)
  next
    case False
    with 2 show ?thesis by (cases "logical cs") (auto split: if_splits)
  qed
qed simp

lemma GetLine_both:
  assumes "gPOStack s = po # pos" and "regular (unread po)" and "unread po \<noteq> []"
    and "length (fst (logical (unread po))) + 3 \<le> bufSize"
  shows "File_GetLine bufSize s = Inr (line_read s) \<and> CachedFile_GetLine bufSize s = Inr (line_read s)"
proof -
  obtain line k rest where l: "logical (unread po) = (line, k, rest)" by (cases "logical (unread po)")
  let ?s = "upd_po (lastLineSize_update (\<lambda>_. 0)) s"
  let ?po = "po\<lparr>lastLineSize := 0\<rparr>"
  have s: "gPOStack ?s = ?po # pos" and u: "unread ?po = unread po"
    by (simp_all add: upd_po_def assms(1) unread_def)
  have "File_GetLine bufSize s = Inr (Some line, upd_po (advanced (length (unread po) - length rest) k) ?s)"
    using file_loop_logical [OF s, unfolded u, OF assms(2,3) l, of "[]" bufSize "length (unread po)"] assms(4) l
    by (simp add: File_GetLine_def cur_po_def assms(1) del: file_loop.simps)
  moreover have "upd_po (advanced (length (unread po) - length rest) k) ?s
      = upd_po (finished (length (unread po) - length rest) k) s"
    by (simp add: upd_po_def assms(1) advanced_def finished_def)
  moreover have "CachedFile_GetLine bufSize s =
      Inr (Some line, upd_po (finished (length (unread po) - length rest) k) s)"
    using cached_loop_logical [OF assms(2,3) l, of "[]" bufSize "2 * length (unread po) + 1" "unread po" s] assms(3,4) l
      regular_logical [OF assms(2) l]
    by (simp add: CachedFile_GetLine_def cur_po_def assms(1) cstr_id del: cached_loop.simps)
  moreover have "line_read s = (Some line, upd_po (finished (length (unread po) - length rest) k) s)"
    by (simp add: line_read_def assms(1) l Let_def)
  ultimately show ?thesis by simp
qed

text \<open>
  C36. The cache is transparent.  On a text without NUL and CR, without two backslashes in a row and whose lines
  end and fit into the buffer, reading from the disk and reading from the cache yield the same line, the first
  logical line of the text, and leave the same state: position, line number and size of the line.
\<close>

theorem File_GetLine_cached:
  assumes "gPOStack s = po # pos" and "regular (unread po)" and "unread po \<noteq> []"
    and "length (fst (logical (unread po))) + 3 \<le> bufSize"
  shows "File_GetLine bufSize s = Inr (line_read s) \<and> CachedFile_GetLine bufSize s = File_GetLine bufSize s"
  using GetLine_both [OF assms] by simp

theorem File_GetLine_cached_witness:
  "map_option fst (returned (File_GetLine 64 (reading (''ab'' @ [backslash, LF] @ ''c'' @ [LF] @ ''d'')))) = Some (Some ''abc'')
   \<and> CachedFile_GetLine 64 (reading (''ab'' @ [backslash, LF] @ ''c'' @ [LF] @ ''d''))
     = File_GetLine 64 (reading (''ab'' @ [backslash, LF] @ ''c'' @ [LF] @ ''d''))"
proof -
  let ?str = "''ab'' @ [backslash, LF] @ ''c'' @ [LF] @ ''d''"
  let ?po = "macro_po\<lparr>po_type := POType_eFile, po_text := ?str\<rparr>"
  have "unread ?po = ?str" by (simp add: unread_def macro_po_def)
  moreover have "regular ?str" "logical ?str = (''abc'', 1, ''d'')" by (simp_all add: chars)
  moreover have "gPOStack (reading ?str) = [?po]" by (simp add: reading_def)
  ultimately show ?thesis using File_GetLine_cached [of "reading ?str" ?po "[]" 64]
    by (simp add: line_read_def)
qed

end
