(* ===== verification/Substitution.thy ===== *)
theory Substitution
  imports Source_Lines
begin

text \<open>
  \<^verbatim>\<open>Input_NextLine\<close> of \<^verbatim>\<open>input.c\<close>: predefined variables, the next line of the current parsable object, and the
  substitution of variables.  The theorems say what the substitution yields and when it never ends.

  \<^verbatim>\<open>workBuff\<close> is the line a \<^verbatim>\<open>GetLine\<close> function returns, and then what is left of it; \<^verbatim>\<open>input_buff\<close> while it is
  filled is the list of the characters written so far.  The pointer \<^verbatim>\<open>input_pos\<close> is NULL meanwhile, which the
  model shows as the end of the line.
\<close>

section \<open>Predefined variables\<close>

definition upd_read :: "(Reader_Vars \<Rightarrow> Reader_Vars) \<Rightarrow> asm \<Rightarrow> asm" where
  "upd_read f s = s\<lparr>readVars := f (readVars s)\<rparr>"

definition MAX_PREDEFINES :: nat where
  "MAX_PREDEFINES = 10"

definition Input_PrepareForPhase :: "Phase_e \<Rightarrow> asm \<Rightarrow> asm" where
  "Input_PrepareForPhase phase s =
     (if phase = ePassTwo then upd_read (oPreDefIdx_update (\<lambda>_. 0)) s else s)"

definition Input_AddPredefine :: "string \<Rightarrow> asm \<Rightarrow> bool \<times> asm" where
  "Input_AddPredefine preDef s =
     (if length (oPreDefines (readVars s)) = MAX_PREDEFINES then (True, s)
      else (False, upd_read (oPreDefines_update (\<lambda>ps. ps @ [preDef])) s))"

text \<open>\<^verbatim>\<open>strstr()\<close>: what precedes the first occurrence and what follows it.\<close>

fun split_at :: "string \<Rightarrow> string \<Rightarrow> (string \<times> string) option" where
  "split_at pat [] = (if pat = [] then Some ([], []) else None)"
| "split_at pat (c # cs) =
     (if take (length pat) (c # cs) = pat then Some ([], drop (length pat) (c # cs))
      else map_option (\<lambda>(a, b). (c # a, b)) (split_at pat cs))"

definition predefine_line :: "string \<Rightarrow> asm \<Rightarrow> (string \<times> asm) outcome" where
  "predefine_line predefine s =
     (case split_at '' SET'' predefine of
        Some (name, rest) \<Rightarrow>
          let c = peek rest 0; line = CHR 0x09 # ''GBL'' @ [c] @ '' '' @ name
          in if c \<in> {CHR ''L'', CHR ''S'', CHR ''A''}
             then (if length line \<ge> sizeof_workBuff
                   then rbind (Error ErrorError (''Failed to set predefine '%s'' @ [CHR 0x27]) s) (\<lambda>s. Inr ([], s))
                   else Inr (line, s))
             else rbind (Error ErrorError (''Invalid predefine '%s'' @ [CHR 0x27]) s) (\<lambda>s. Inr ([], s))
      | None \<Rightarrow> rbind (Error ErrorError (''Invalid predefine '%s'' @ [CHR 0x27]) s) (\<lambda>s. Inr ([], s)))"

text \<open>Each predefined variable gives two lines, the declaration and the assignment.\<close>

definition next_predefine :: "string \<Rightarrow> asm \<Rightarrow> (string \<times> asm) outcome" where
  "next_predefine predefine s =
     rbind (if \<not> preDef_toggle (readVars s) then predefine_line predefine s
            else if length predefine < sizeof_workBuff then Inr (predefine, upd_read (oPreDefIdx_update Suc) s)
            else Inl Undefined) (\<lambda>(line, s).
       Inr (line, upd_read (preDef_toggle_update Not) s))"

section \<open>Reading a line\<close>

text \<open>The start of a line the C preprocessor leaves: a hash, a space, digits and a space.\<close>

definition cpp_line :: "string \<Rightarrow> bool" where
  "cpp_line line \<longleftrightarrow>
     2 \<le> length line \<and> line ! 0 = CHR ''#'' \<and> line ! 1 = CHR '' ''
     \<and> (let ds = takeWhile isdigit (drop 2 line) in ds \<noteq> [] \<and> peek line (2 + length ds) = CHR '' '')"

definition Input_NextLineCore :: "asm \<Rightarrow> (string option \<times> asm) outcome" where
  "Input_NextLineCore s =
     rbind (if oPreDefIdx (readVars s) \<noteq> length (oPreDefines (readVars s))
            then rbind (next_predefine (oPreDefines (readVars s) ! oPreDefIdx (readVars s)) s) (\<lambda>(line, s). Inr (Some line, s))
            else if gPOStack s = [] then Inr (None, s)
            else rbind (GetLine sizeof_workBuff s) (\<lambda>(line, s).
                   Inr (line, if line = None then s else next_lineNum s))) (\<lambda>(line, s).
       case line of
         None \<Rightarrow> Inr (None, s)
       | Some workBuff \<Rightarrow> Inr (Some workBuff, if cpp_line workBuff then s\<lparr>input_buff := []\<rparr> else s))"

text \<open>The text of a variable.\<close>

definition variable_text :: "Value \<Rightarrow> string outcome" where
  "variable_text v =
     (case v of
        ValueInt i _ \<Rightarrow> Inr (hex8 i)
      | ValueString str \<Rightarrow> Inr str
      | ValueBool b \<Rightarrow> Inr (if b then ''T'' else ''F'')
      | _ \<Rightarrow> Inl AssertFailed)"

text \<open>
  \<open>inP\<close> is the input behind the dollar, \<open>out\<close> what was written.  The result says whether the output must not be
  expanded, what is left of the input, and the output.
\<close>

definition put_dollar :: "string \<Rightarrow> string" where
  "put_dollar out = (if length out < sizeof_input_buff then out @ ''$'' else out)"

definition no_expansion :: "string \<Rightarrow> string \<Rightarrow> bool \<Rightarrow> bool \<Rightarrow> string \<Rightarrow> asm \<Rightarrow> (bool \<times> string \<times> string \<times> asm) outcome" where
  "no_expansion inP out inString warn msg s =
     rbind (if warn \<and> (\<not> inString \<or> option_pedantic s) then Error ErrorWarning msg s else Inr s) (\<lambda>s.
       Inr (True, inP, put_dollar out, s))"

definition Input_VarSub :: "string \<Rightarrow> string \<Rightarrow> bool \<Rightarrow> bool \<Rightarrow> asm \<Rightarrow> (bool \<times> string \<times> string \<times> asm) outcome" where
  "Input_VarSub inP out inString warn s =
     (if peek inP 0 = CHR ''$'' then Inr (True, tl inP, put_dollar out, s)
      else
        rbind (Lex_GetIDNoError (s\<lparr>input_pos := inP\<rparr>)) (\<lambda>(label, s).
        let s = s\<lparr>input_pos := []\<rparr>
        in case label of
             LexId name \<Rightarrow>
               (case Symbol_Find name s of
                  Some r \<Rightarrow>
                    if flag (attr_type (syms s r)) SYMBOL_RW
                    then
                      rbind (variable_text (attr_value (syms s r))) (\<lambda>toCopy.
                        if length out + length toCopy \<ge> MAX_LINE \<and> MAX_LINE < length out then Inl Undefined
                        else
                          let toCopy = (if length out + length toCopy \<ge> MAX_LINE then take (MAX_LINE - length out) toCopy
                                        else toCopy);
                              inP = drop (length name) inP
                          in Inr (False, if peek inP 0 = CHR ''.'' then tl inP else inP, out @ toCopy, s))
                    else no_expansion inP out inString warn ''Unknown variable '%.*s' for $ expansion, you want to use vertical bars ?'' s
                | None \<Rightarrow>
                    no_expansion inP out inString warn ''Unknown variable '%.*s' for $ expansion, you want to use vertical bars ?'' s)
           | _ \<Rightarrow> no_expansion inP out inString warn ''Non-ID in $ expansion'' s))"

text \<open>What is between vertical bars, with the closing one, is copied as it is.\<close>

fun copy_bar :: "string \<Rightarrow> string \<Rightarrow> string \<times> string" where
  "copy_bar [] out = ([], out)"
| "copy_bar (c # cs) out =
     (if length out < sizeof_input_buff
      then (if c = CHR ''|'' then (cs, out @ [c]) else copy_bar cs (out @ [c]))
      else (c # cs, out))"

text \<open>The rest of a string that ends with \<open>quote\<close>.\<close>

fun copy_string :: "nat \<Rightarrow> char \<Rightarrow> bool \<Rightarrow> bool \<Rightarrow> string \<Rightarrow> string \<Rightarrow> asm \<Rightarrow> (string \<times> string \<times> asm) outcome" where
  "copy_string 0 quote noSubst warn inP out s = Inl OutOfFuel"
| "copy_string (Suc fuel) quote noSubst warn inP out s =
     (case inP of
        [] \<Rightarrow> Inr (inP, out, s)
      | c # cs \<Rightarrow>
          if length out \<ge> sizeof_input_buff then Inr (inP, out, s)
          else if c = CHR ''$'' \<and> \<not> noSubst
          then rbind (Input_VarSub cs out True warn s) (\<lambda>(_, inP, out, s). copy_string fuel quote noSubst warn inP out s)
          else if c = quote then Inr (cs, out @ [c], s)
          else copy_string fuel quote (noSubst \<noteq> (c = CHR ''|'')) warn cs (out @ [c]) s)"

definition overflow :: "asm \<Rightarrow> 'a outcome" where
  "overflow s = Error_Abort ''Line expansion resulted in overflow - line ignored'' s"

text \<open>The characters of a line, one construct at a time.\<close>

fun arg_sub :: "nat \<Rightarrow> bool \<Rightarrow> string \<Rightarrow> string \<Rightarrow> asm \<Rightarrow> (string \<times> asm) outcome" where
  "arg_sub 0 warn inP out s = Inl OutOfFuel"
| "arg_sub (Suc fuel) warn inP out s =
     (case inP of
        [] \<Rightarrow> Inr (out, s)
      | c # cs \<Rightarrow>
          if length out \<ge> sizeof_input_buff then overflow s
          else if c = CHR '';''
          then
            let len = length inP
            in if length out + len < MAX_LINE then arg_sub fuel warn [] (out @ inP) s
               else if length out + len = MAX_LINE then arg_sub fuel warn inP out s
               else Inl Undefined
          else if c = CHR ''|'' then (let (inP, out) = copy_bar cs (out @ [c]) in arg_sub fuel warn inP out s)
          else if c = CHR 0x27 \<or> c = CHR 0x22
          then rbind (copy_string (Suc (length cs)) c False warn cs (out @ [c]) s) (\<lambda>(inP, out, s). arg_sub fuel warn inP out s)
          else if c = CHR ''$''
          then
            rbind (Input_VarSub cs out False warn s) (\<lambda>(dontReExpand, inP, out', s).
              let expanded = drop (length out) out'
              in if expanded \<noteq> [] \<and> \<not> dontReExpand
                 then (if length expanded + (length inP + 1) \<le> sizeof_workBuff
                       then arg_sub fuel warn (cstr (expanded @ inP)) out s
                       else overflow s)
                 else arg_sub fuel warn inP out' s)
          else arg_sub fuel warn cs (out @ [c]) s)"

text \<open>A line that fills the buffer to its last byte has no NUL.\<close>

definition Input_ArgSub :: "nat \<Rightarrow> bool \<Rightarrow> string \<Rightarrow> asm \<Rightarrow> asm outcome" where
  "Input_ArgSub fuel warn workBuff s =
     rbind (arg_sub fuel warn workBuff [] s) (\<lambda>(out, s).
       if length out < sizeof_input_buff then Inr (s\<lparr>input_buff := cstr out\<rparr>) else Inl Undefined)"

datatype Level_e = eNoVarSubst | eVarSubstNoWarning | eVarSubst

definition Input_NextLine :: "nat \<Rightarrow> Level_e \<Rightarrow> asm \<Rightarrow> (bool \<times> asm) outcome" where
  "Input_NextLine fuel level s =
     rbind (Input_NextLineCore (s\<lparr>input_pos := []\<rparr>)) (\<lambda>(line, s).
       case line of
         None \<Rightarrow> Inr (False, s)
       | Some workBuff \<Rightarrow>
           rbind (if level = eNoVarSubst then Inr (s\<lparr>input_buff := workBuff\<rparr>)
                  else Input_ArgSub fuel (level = eVarSubst) workBuff s) (\<lambda>s.
             Inr (True, s\<lparr>input_pos := input_buff s\<rparr>)))"

definition Input_ThisInstead :: "string \<Rightarrow> asm \<Rightarrow> asm" where
  "Input_ThisInstead p s = s\<lparr>input_buff := p, input_pos := p\<rparr>"

section \<open>What a line stands for\<close>

definition is_id :: "string \<Rightarrow> bool" where
  "is_id n \<longleftrightarrow> n \<noteq> [] \<and> id_start (hd n) \<and> list_all id_part (tl n)"

text \<open>A variable and the text it is replaced by.\<close>

definition var_text :: "asm \<Rightarrow> string \<Rightarrow> string \<Rightarrow> bool" where
  "var_text s n v \<longleftrightarrow> (\<exists>r. Symbol_Find n s = Some r \<and> flag (attr_type (syms s r)) SYMBOL_RW
     \<and> variable_text (attr_value (syms s r)) = Inr v) \<and> NUL \<notin> set v"

text \<open>The end of the name of a variable: nothing that could continue it; a dot there is dropped.\<close>

definition ends_name :: "string \<Rightarrow> bool" where
  "ends_name cs \<longleftrightarrow> cs = [] \<or> \<not> id_part (hd cs)"

definition drop_dot :: "string \<Rightarrow> string" where
  "drop_dot cs = (if peek cs 0 = CHR ''.'' then tl cs else cs)"

text \<open>
  Inside a string that ends with the character \<open>q\<close>, variables are replaced once; between vertical bars (\<open>b\<close>) they are not.
\<close>

inductive expands_string :: "asm \<Rightarrow> char \<Rightarrow> bool \<Rightarrow> string \<Rightarrow> string \<Rightarrow> string \<Rightarrow> bool" for s q where
  unclosed: "expands_string s q b [] [] []"
| closed: "expands_string s q b (q # cs) [q] cs"
| str_char: "expands_string s q (b \<noteq> (c = CHR ''|'')) cs out rest \<Longrightarrow> c \<noteq> q \<Longrightarrow> c \<noteq> NUL \<Longrightarrow> c \<noteq> CHR ''$'' \<or> b
    \<Longrightarrow> expands_string s q b (c # cs) (c # out) rest"
| str_dollar: "expands_string s q False cs out rest
    \<Longrightarrow> expands_string s q False (CHR ''$'' # CHR ''$'' # cs) (CHR ''$'' # out) rest"
| str_var: "expands_string s q False (drop_dot cs) out rest \<Longrightarrow> is_id n \<Longrightarrow> ends_name cs \<Longrightarrow> var_text s n v
    \<Longrightarrow> expands_string s q False (CHR ''$'' # n @ cs) (v @ out) rest"

text \<open>
  Outside of strings the text of a variable is read again, together with what follows it.  Comments and what is
  between vertical bars stay.
\<close>

definition special :: "char \<Rightarrow> bool" where
  "special c \<longleftrightarrow> c \<in> {NUL, CHR '';'', CHR ''|'', CHR 0x27, CHR 0x22, CHR ''$''}"

inductive expands :: "asm \<Rightarrow> string \<Rightarrow> string \<Rightarrow> bool" for s where
  line_end: "expands s [] []"
| comment: "NUL \<notin> set cs \<Longrightarrow> expands s (CHR '';'' # cs) (CHR '';'' # cs)"
| character: "expands s cs out \<Longrightarrow> \<not> special c \<Longrightarrow> expands s (c # cs) (c # out)"
| bars: "expands s cs out \<Longrightarrow> CHR ''|'' \<notin> set body \<Longrightarrow> NUL \<notin> set body
    \<Longrightarrow> expands s (CHR ''|'' # body @ CHR ''|'' # cs) (CHR ''|'' # body @ CHR ''|'' # out)"
| quoted: "expands_string s q False cs out1 rest \<Longrightarrow> expands s rest out2 \<Longrightarrow> q = CHR 0x27 \<or> q = CHR 0x22
    \<Longrightarrow> expands s (q # cs) (q # out1 @ out2)"
| dollar: "expands s cs out \<Longrightarrow> expands s (CHR ''$'' # CHR ''$'' # cs) (CHR ''$'' # out)"
| variable: "expands s (v @ drop_dot cs) out \<Longrightarrow> is_id n \<Longrightarrow> ends_name cs \<Longrightarrow> var_text s n v
    \<Longrightarrow> length (v @ drop_dot cs) < sizeof_workBuff \<Longrightarrow> expands s (CHR ''$'' # n @ cs) out"

definition short_texts :: "asm \<Rightarrow> nat \<Rightarrow> bool" where
  "short_texts s N \<longleftrightarrow> (\<forall>n v. var_text s n v \<longrightarrow> length v \<le> N)"

text \<open>The result of enough fuel.\<close>

definition yields :: "bool \<Rightarrow> string \<Rightarrow> string \<Rightarrow> asm \<Rightarrow> string \<Rightarrow> bool" where
  "yields warn inP out s res \<longleftrightarrow> (\<exists>k. \<forall>fuel\<ge>k. arg_sub fuel warn inP out s = Inr (res, s))"

text \<open>A state with a variable.\<close>

definition with_variable :: "string \<Rightarrow> string \<Rightarrow> asm" where
  "with_variable n v =
     asm0\<lparr>syms := (syms asm0)(0 := sym0\<lparr>sym_str := n, attr_type := SYMBOL_DEFINED OR SYMBOL_RW, attr_value := ValueString v\<rparr>),
          symNext := 1, symbolTable := (\<lambda>h. if h = Symbol_CalculateHash n then [0] else [])\<rparr>"

section \<open>The substitution\<close>

lemma short_textsD: "short_texts s N \<Longrightarrow> var_text s n v \<Longrightarrow> length v \<le> N"
  by (simp add: short_texts_def)

lemma id_start_facts: "id_start c \<Longrightarrow> c \<noteq> CHR ''$'' \<and> c \<noteq> CHR ''|'' \<and> \<not> isspace c"
  by (auto simp: id_start_def isalpha_def isspace_def ccode_def)

lemma id_length_id:
  assumes "is_id n" and "ends_name cs"
  shows "id_length (n @ cs) = length n"
proof -
  obtain c n' where n: "n = c # n'" "id_start c" "list_all id_part n'"
    using assms(1) by (cases n) (auto simp: is_id_def)
  have "takeWhile id_part (n' @ cs) = n'"
    using n(3) assms(2) by (induction n') (auto simp: ends_name_def, cases cs, auto)
  then show ?thesis by (simp add: id_length_def n)
qed

lemma VarSub_found:
  assumes "is_id n" and "ends_name cs" and "var_text s n v" and "length out + length v < MAX_LINE" and "input_pos s = []"
  shows "Input_VarSub (n @ cs) out inString warn s = Inr (False, drop_dot cs, out @ v, s)"
proof -
  obtain c n' where n: "n = c # n'" "id_start c" using assms(1) by (cases n) (auto simp: is_id_def)
  note c = id_start_facts [OF n(2)]
  have "Lex_GetIDNoError (s\<lparr>input_pos := n @ cs\<rparr>) = Inr (LexId n, s\<lparr>input_pos := cs\<rparr>)"
    using c id_length_id [OF assms(1,2)]
    by (simp add: Lex_GetIDNoError_def Input_SkipWS_def Input_Symbol_def Input_Look_def peek_def n(1)
        Input_SymbolNoBar_def Let_def)
  moreover have "peek (n @ cs) 0 \<noteq> CHR ''$''" using c by (simp add: peek_def n(1))
  moreover have "s\<lparr>input_pos := cs, input_pos := []\<rparr> = s" using assms(5) by simp
  moreover obtain r where "Symbol_Find n s = Some r" "flag (attr_type (syms s r)) SYMBOL_RW"
    "variable_text (attr_value (syms s r)) = Inr v" using assms(3) by (auto simp: var_text_def)
  ultimately show ?thesis using assms(4) by (simp add: Input_VarSub_def Let_def drop_dot_def)
qed

lemma VarSub_dollar:
  "length out < MAX_LINE \<Longrightarrow> Input_VarSub (CHR ''$'' # cs) out inString warn s = Inr (True, cs, out @ ''$'', s)"
  by (simp add: Input_VarSub_def peek_def put_dollar_def sizeof_input_buff_def MAX_LINE_def)

lemma expands_string_shorter: "expands_string s q b cs out rest \<Longrightarrow> length rest \<le> length cs"
  by (induction rule: expands_string.induct) (auto simp: drop_dot_def split: if_splits)

lemma drop_dot_length: "length (drop_dot cs) \<le> length cs"
  by (simp add: drop_dot_def)

lemma copy_string_expands:
  assumes "expands_string s q b cs out rest" and "input_pos s = []" and "q \<noteq> CHR ''$''"
    and "short_texts s N" and "length acc + length out + N < MAX_LINE" and "length cs \<le> fuel"
  shows "copy_string (Suc fuel) q b warn cs acc s = Inr (rest, acc @ out, s)"
  using assms
proof (induction arbitrary: acc fuel rule: expands_string.induct)
  case (closed b cs)
  then show ?case by (simp add: sizeof_input_buff_def MAX_LINE_def)
next
  case (str_char b c cs out rest)
  then obtain f where f: "fuel = Suc f" by (cases fuel) auto
  show ?case using str_char.IH [of "acc @ [c]" f] str_char.prems str_char.hyps(2-4) f
    by (auto simp: sizeof_input_buff_def MAX_LINE_def)
next
  case (str_dollar cs out rest)
  then obtain f where f: "fuel = Suc f" by (cases fuel) auto
  show ?case using str_dollar.IH [of "acc @ ''$''" f] str_dollar.prems f
    by (simp add: sizeof_input_buff_def MAX_LINE_def VarSub_dollar)
next
  case (str_var cs out rest n v)
  then obtain f where f: "fuel = Suc f" by (cases fuel) auto
  have v: "Input_VarSub (n @ cs) acc True warn s = Inr (False, drop_dot cs, acc @ v, s)"
    using str_var.prems str_var.hyps(2-4) short_textsD [OF str_var.prems(3) str_var.hyps(4)] by (intro VarSub_found) auto
  show ?case using str_var.IH [of "acc @ v" f] str_var.prems str_var.hyps(2) f v drop_dot_length [of cs]
    by (simp add: sizeof_input_buff_def MAX_LINE_def is_id_def)
qed simp

lemma id_part_NUL: "\<not> id_part NUL"
  by (simp add: id_part_def isalpha_def isdigit_def ccode_def NUL_def)

lemma is_id_NUL: "is_id n \<Longrightarrow> NUL \<notin> set n"
  using id_part_NUL by (cases n) (auto simp: is_id_def id_start_def id_part_def list_all_iff)

lemma drop_dot_NUL: "NUL \<notin> set (drop_dot cs) \<Longrightarrow> NUL \<notin> set cs"
  by (cases cs) (auto simp: drop_dot_def peek_def NUL_def split: if_splits)

lemma expands_string_NUL:
  "expands_string s q b cs out rest \<Longrightarrow> q \<noteq> NUL \<Longrightarrow> (NUL \<notin> set rest \<longrightarrow> NUL \<notin> set cs) \<and> NUL \<notin> set out"
  by (induction rule: expands_string.induct) (auto simp: NUL_def [symmetric] var_text_def dest: is_id_NUL drop_dot_NUL, auto simp: NUL_def)

text \<open>Neither the line nor the result has a NUL.\<close>

lemma expands_NUL: "expands s line res \<Longrightarrow> NUL \<notin> set line \<and> NUL \<notin> set res"
proof (induction rule: expands.induct)
  case (quoted q cs out1 rest out2)
  then show ?case using expands_string_NUL [OF quoted.hyps(1)] by (auto simp: NUL_def)
next
  case (variable v cs out n)
  then show ?case by (auto simp: NUL_def dest: is_id_NUL drop_dot_NUL, auto simp: NUL_def dest: is_id_NUL [unfolded NUL_def] drop_dot_NUL [unfolded NUL_def])
qed (auto simp: NUL_def special_def)

lemma copy_bar_body:
  "CHR ''|'' \<notin> set body \<Longrightarrow> length out + length body < MAX_LINE
    \<Longrightarrow> copy_bar (body @ CHR ''|'' # cs) out = (cs, out @ body @ ''|'')"
  by (induction body arbitrary: out) (auto simp: sizeof_input_buff_def MAX_LINE_def)

lemma yields_step:
  assumes "yields warn inP' out' s res"
    and "\<And>fuel. arg_sub (Suc fuel) warn inP out s = arg_sub fuel warn inP' out' s"
  shows "yields warn inP out s res"
proof -
  from assms(1) obtain k where k: "\<And>fuel. fuel \<ge> k \<Longrightarrow> arg_sub fuel warn inP' out' s = Inr (res, s)"
    by (auto simp: yields_def)
  have "arg_sub fuel warn inP out s = Inr (res, s)" if "fuel \<ge> Suc k" for fuel
  proof -
    from that obtain f where "fuel = Suc f" "f \<ge> k" by (cases fuel) auto
    then show ?thesis using assms(2) [of f] k [of f] by simp
  qed
  then show ?thesis unfolding yields_def by blast
qed

lemma yields_end: "yields warn [] out s out"
  unfolding yields_def by (rule exI [of _ 1]) (auto simp: Suc_le_eq gr0_conv_Suc)

lemma arg_sub_expands:
  assumes "expands s line res" and "input_pos s = []"
    and "short_texts s N" and "length out + length res + N < MAX_LINE"
  shows "yields warn line out s (out @ res)"
  using assms
proof (induction arbitrary: out rule: expands.induct)
  case line_end
  show ?case by (simp add: yields_end)
next
  case (comment cs)
  show ?case
    by (rule yields_step [OF yields_end]) (use comment.prems in \<open>simp add: sizeof_input_buff_def MAX_LINE_def\<close>)
next
  case (character cs res c)
  have "yields warn cs (out @ [c]) s ((out @ [c]) @ res)" using character.prems by (intro character.IH) auto
  then have "yields warn cs (out @ [c]) s (out @ c # res)" by simp
  then show ?case
    by (rule yields_step)
      (use character.hyps(2) character.prems in \<open>auto simp: special_def sizeof_input_buff_def MAX_LINE_def\<close>)
next
  case (bars cs res body)
  have "yields warn cs (out @ ''|'' @ body @ ''|'') s ((out @ ''|'' @ body @ ''|'') @ res)"
    using bars.prems by (intro bars.IH) auto
  then have "yields warn cs (out @ ''|'' @ body @ ''|'') s (out @ CHR ''|'' # body @ CHR ''|'' # res)" by simp
  then show ?case
    by (rule yields_step)
      (use bars.hyps(2) bars.prems copy_bar_body [of body "out @ ''|''" cs] in
        \<open>simp add: sizeof_input_buff_def MAX_LINE_def\<close>)
next
  case (quoted q cs out1 rest out2)
  have "yields warn rest (out @ q # out1) s ((out @ q # out1) @ out2)" using quoted.prems by (intro quoted.IH) auto
  then have "yields warn rest (out @ q # out1) s (out @ q # out1 @ out2)" by simp
  moreover have "copy_string (Suc (length cs)) q False warn cs (out @ [q]) s = Inr (rest, (out @ [q]) @ out1, s)"
    by (rule copy_string_expands [OF quoted.hyps(1)]) (use quoted.hyps(3) quoted.prems in auto)
  ultimately show ?case
    by (elim yields_step) (use quoted.hyps(3) quoted.prems in \<open>auto simp: sizeof_input_buff_def MAX_LINE_def\<close>)
next
  case (dollar cs res)
  have "yields warn cs (out @ ''$'') s ((out @ ''$'') @ res)" using dollar.prems by (intro dollar.IH) auto
  then have "yields warn cs (out @ ''$'') s (out @ CHR ''$'' # res)" by simp
  then show ?case
    by (rule yields_step) (use dollar.prems in \<open>simp add: sizeof_input_buff_def MAX_LINE_def VarSub_dollar\<close>)
next
  case (variable v cs res n)
  have nul: "NUL \<notin> set v" using variable.hyps(4) by (simp add: var_text_def)
  have v: "Input_VarSub (n @ cs) out False warn s = Inr (False, drop_dot cs, out @ v, s)"
    by (rule VarSub_found [OF variable.hyps(2-4)]) (use variable.prems(1,3) short_textsD [OF variable.prems(2) variable.hyps(4)] in linarith)+
  have "yields warn (v @ drop_dot cs) out s (out @ res)" using variable.prems by (intro variable.IH)
  then show ?case
  proof (rule yields_step)
    fix fuel
    have "cstr (v @ drop_dot cs) = v @ drop_dot cs" by (rule cstr_id) (use expands_NUL [OF variable.hyps(1)] in blast)
    then show "arg_sub (Suc fuel) warn (CHR ''$'' # n @ cs) out s = arg_sub fuel warn (v @ drop_dot cs) out s"
      using variable.prems variable.hyps(5) by (cases "v = []") (simp_all add: v sizeof_input_buff_def MAX_LINE_def)
  qed
qed

lemma ArgSub_expands:
  assumes "expands s line res" and "input_pos s = []"
    and "short_texts s N" and "length res + N < MAX_LINE"
  shows "\<exists>k. \<forall>fuel\<ge>k. Input_ArgSub fuel warn line s = Inr (s\<lparr>input_buff := res\<rparr>)"
proof -
  have "yields warn line [] s res" using arg_sub_expands [OF assms(1-3), where out = "[]"] assms(4) by simp
  then obtain k where k: "\<And>fuel. fuel \<ge> k \<Longrightarrow> arg_sub fuel warn line [] s = Inr (res, s)"
    by (auto simp: yields_def)
  have "cstr res = res" by (rule cstr_id) (use expands_NUL [OF assms(1)] in blast)
  moreover have "length res < sizeof_input_buff" using assms(4) by (simp add: sizeof_input_buff_def MAX_LINE_def)
  ultimately have "Input_ArgSub fuel warn line s = Inr (s\<lparr>input_buff := res\<rparr>)" if "fuel \<ge> k" for fuel
    using k [OF that] by (simp add: Input_ArgSub_def)
  then show ?thesis by blast
qed

text \<open>
  C4. The substitution of variables.  If the line stands for \<open>res\<close> (variables replaced by their texts, which are read
  again outside of strings; two dollars for one; names, comments and the rest as they are), the result and every
  text fit into the buffers, and there is enough fuel, \<^verbatim>\<open>Input_ArgSub\<close> leaves \<open>res\<close> in \<^verbatim>\<open>input_buff\<close>, without a diagnostic.
\<close>

theorem Input_ArgSub_expands:
  assumes "expands s line res" and "input_pos s = []"
    and "short_texts s N" and "length res + N < MAX_LINE"
  shows "\<exists>k. \<forall>fuel\<ge>k. Input_ArgSub fuel warn line s = Inr (s\<lparr>input_buff := res\<rparr>)"
  using assms by (rule ArgSub_expands)

lemma with_variable_find: "Symbol_Find m (with_variable n v) = (if m = n then Some 0 else None)"
  by (auto simp: Symbol_Find_def with_variable_def)

lemma with_variable_text: "NUL \<notin> set v \<Longrightarrow> var_text (with_variable n v) m w \<longleftrightarrow> m = n \<and> w = v"
  unfolding var_text_def with_variable_find
  by (auto simp: with_variable_def variable_text_def flag_def SYMBOL_RW_def SYMBOL_DEFINED_def)

lemma with_variable_pos: "input_pos (with_variable n v) = []"
  by (simp add: with_variable_def asm0_def)

theorem Input_ArgSub_expands_witness:
  "\<exists>k. Input_ArgSub k True ''A$x.B'' (with_variable ''x'' ''1'') = Inr ((with_variable ''x'' ''1'')\<lparr>input_buff := ''A1B''\<rparr>)"
proof -
  let ?s = "with_variable ''x'' ''1''"
  have v: "var_text ?s n w \<longleftrightarrow> n = ''x'' \<and> w = ''1''" for n w by (rule with_variable_text) (simp add: NUL_def)
  have "expands ?s ''1B'' ''1B''" by (intro expands.intros) (simp_all add: special_def NUL_def)
  then have "expands ?s (CHR ''$'' # ''x'' @ ''.B'') ''1B''"
    by (intro variable [of _ "''1''"]) (simp_all add: v drop_dot_def peek_def is_id_def id_start_def isalpha_def ccode_def
        ends_name_def id_part_def isdigit_def sizeof_workBuff_def MAX_LINE_def)
  then have "expands ?s ''A$x.B'' ''A1B''" using character [of ?s "''$x.B''" "''1B''" "CHR ''A''"] by (simp add: special_def NUL_def)
  moreover have "input_pos ?s = []" by (simp add: with_variable_def asm0_def)
  ultimately show ?thesis using Input_ArgSub_expands [of ?s "''A$x.B''" "''A1B''" 1 True] v by (auto simp: MAX_LINE_def short_texts_def)
qed

section \<open>A substitution that never ends\<close>

text \<open>
  Variables each of which stands for a reference to one of them: the reference is put back into the line in
  front of what follows it, whatever the output is.
\<close>

lemma arg_sub_cycle:
  assumes cycle: "\<And>n. n \<in> N \<Longrightarrow> is_id n \<and> length n + length post + length out + 2 < MAX_LINE
      \<and> (\<exists>m\<in>N. var_text s n (CHR ''$'' # m))"
    and "n \<in> N" and "ends_name post" and "peek post 0 \<noteq> CHR ''.''" and "NUL \<notin> set post" and "input_pos s = []"
  shows "arg_sub fuel warn (CHR ''$'' # n @ post) out s = Inl OutOfFuel"
  using assms(2)
proof (induction fuel arbitrary: n)
  case (Suc fuel)
  then obtain m where n: "is_id n" "var_text s n (CHR ''$'' # m)" and m: "m \<in> N" using cycle by blast
  have "Input_VarSub (n @ post) out False warn s = Inr (False, drop_dot post, out @ CHR ''$'' # m, s)"
    by (rule VarSub_found [OF n(1) assms(3) n(2)]) (use cycle [OF m] assms(6) in simp_all)
  moreover have "cstr (CHR ''$'' # m @ post) = CHR ''$'' # m @ post"
    by (rule cstr_id) (use is_id_NUL cycle [OF m] assms(5) in \<open>auto simp: NUL_def\<close>)
  moreover have "drop_dot post = post" using assms(4) by (simp add: drop_dot_def)
  ultimately show ?case using Suc.IH [OF m] cycle [OF m]
    by (simp add: sizeof_workBuff_def sizeof_input_buff_def MAX_LINE_def)
qed simp

lemma arg_sub_prefix:
  assumes "list_all (\<lambda>c. \<not> special c) pre" and "length out + length pre < MAX_LINE"
    and "\<And>fuel. arg_sub fuel warn cs (out @ pre) s = Inl OutOfFuel"
  shows "arg_sub fuel warn (pre @ cs) out s = Inl OutOfFuel"
  using assms
proof (induction pre arbitrary: out fuel)
  case (Cons c pre)
  show ?case
  proof (cases fuel)
    case (Suc f)
    then show ?thesis using Cons.IH [of "out @ [c]" f] Cons.prems
      by (simp add: special_def sizeof_input_buff_def MAX_LINE_def)
  qed simp
qed simp

text \<open>
  A cycle of variables the text of each of which is just a reference to the next (one variable that refers to
  itself, two that refer to each other, ...): wherever on a line, outside of strings, comments and bars, one of them
  is referred to, the text is put back into the line and read again for ever.  However much fuel there is, it is used
  up, and the program never returns from the line.  (When the texts hold anything beside the reference, the line
  grows until it is given up.)
\<close>

theorem Input_ArgSub_cycle:
  assumes "\<forall>n\<in>N. is_id n \<and> (\<exists>m\<in>N. var_text s n (CHR ''$'' # m))" and "n \<in> N"
    and "\<forall>n\<in>N. length pre + length n + length post + 2 < MAX_LINE"
    and "list_all (\<lambda>c. \<not> special c) pre" and "NUL \<notin> set post"
    and "ends_name post" and "peek post 0 \<noteq> CHR ''.''" and "input_pos s = []"
  shows "Input_ArgSub fuel warn (pre @ CHR ''$'' # n @ post) s = Inl OutOfFuel"
proof -
  have "arg_sub fuel warn (CHR ''$'' # n @ post) ([] @ pre) s = Inl OutOfFuel" for fuel
    by (rule arg_sub_cycle [where N = N]) (use assms in auto)
  moreover have "length pre < MAX_LINE" using assms(2,3) by auto
  ultimately have "arg_sub fuel warn (pre @ CHR ''$'' # n @ post) [] s = Inl OutOfFuel"
    by (intro arg_sub_prefix [OF assms(4)]) simp_all
  then show ?thesis by (simp add: Input_ArgSub_def)
qed

theorem Input_ArgSub_cycle_witness:
  "\<forall>fuel. Input_ArgSub fuel True ''MOV R0,$x;y'' (with_variable ''x'' ''$x'') = Inl OutOfFuel"
proof
  fix fuel
  have "list_all (\<lambda>c. \<not> special c) ''MOV R0,''" by code_simp
  then show "Input_ArgSub fuel True ''MOV R0,$x;y'' (with_variable ''x'' ''$x'') = Inl OutOfFuel"
    using Input_ArgSub_cycle [of "{''x''}" "with_variable ''x'' ''$x''" "''x''" "''MOV R0,''" "'';y''" fuel True]
    by (simp add: with_variable_text with_variable_pos NUL_def is_id_def id_start_def id_part_def isalpha_def
        isdigit_def ccode_def MAX_LINE_def ends_name_def peek_def)
qed

end
