(* ===== verification/Evaluation.thy ===== *)
theory Evaluation
  imports Variables
begin

text \<open>
  Expressions in directives: reading one and evaluating it leaves the parsable objects and the state of the line
  reader alone.
\<close>

definition same_reader :: "asm \<Rightarrow> asm \<Rightarrow> bool" where
  "same_reader s t \<longleftrightarrow> gPOStack t = gPOStack s \<and> readVars t = readVars s"

definition keeps_reader :: "operand_equality \<Rightarrow> bool" where
  "keeps_reader veq \<longleftrightarrow> (\<forall>a b s x t. veq a b s = Inr (x, t) \<longrightarrow> same_reader s t)"

lemma same_reader_refl [simp]: "same_reader s s"
  by (simp add: same_reader_def)

lemma same_reader_trans: "same_reader s t \<Longrightarrow> same_reader t u \<Longrightarrow> same_reader s u"
  by (simp add: same_reader_def)

lemma same_reader_upd [simp]:
  "same_reader s (t\<lparr>Stack := x\<rparr>) = same_reader s t" "same_reader s (t\<lparr>input_pos := i\<rparr>) = same_reader s t"
  "same_reader s (t\<lparr>input_buff := j\<rparr>) = same_reader s t"
  "same_reader s (Code_Init t) = same_reader s t" "same_reader (Code_Init s) t = same_reader s t"
  by (simp_all add: same_reader_def Code_Init_def)

lemma Error_reader: "Error e m s = Inr t \<Longrightarrow> same_reader s t"
  by (drule Error_same) (simp add: same_reader_def same_but_errorsD)

text \<open>What a run that returns leaves.\<close>

definition rd :: "asm \<Rightarrow> ('a \<times> asm) outcome \<Rightarrow> bool" where
  "rd s m \<longleftrightarrow> (\<forall>x t. m = Inr (x, t) \<longrightarrow> same_reader s t)"

lemma rd_Inr [simp]: "rd s (Inr (x, t)) = same_reader s t" and rd_Inl [simp]: "rd s (Inl e)"
  by (simp_all add: rd_def)

lemma rdD: "rd s m \<Longrightarrow> m = Inr (x, t) \<Longrightarrow> same_reader s t"
  by (simp add: rd_def)

lemma rd_weaken: "same_reader s t \<Longrightarrow> rd t m \<Longrightarrow> rd s m"
  by (auto simp: rd_def dest: same_reader_trans)

lemma rd_rbind:
  assumes "rd s m" and "\<And>x t. same_reader s t \<Longrightarrow> rd s (f (x, t))"
  shows "rd s (rbind m f)"
proof (cases m)
  case (Inr a)
  then show ?thesis using assms by (cases a) (simp add: rd_def)
qed simp

lemma rd_read: "(\<And>x. rd s (f x)) \<Longrightarrow> rd s (rbind m f)"
  by (cases m) simp_all

lemma rd_state: "(\<And>t. m = Inr t \<Longrightarrow> same_reader s t) \<Longrightarrow> (\<And>t. same_reader s t \<Longrightarrow> rd s (f t)) \<Longrightarrow> rd s (rbind m f)"
  by (cases m) simp_all

lemma rd_Error: "same_reader s u \<Longrightarrow> (\<And>t. same_reader s t \<Longrightarrow> rd s (f t)) \<Longrightarrow> rd s (rbind (Error e m u) f)"
  by (erule rd_state [rotated]) (blast dest: Error_reader intro: same_reader_trans)

lemma rd_if: "(b \<Longrightarrow> rd s f) \<Longrightarrow> (\<not> b \<Longrightarrow> rd s g) \<Longrightarrow> rd s (if b then f else g)"
  by simp

section \<open>Running a program\<close>

lemma code_add_reader: "code_add m c s = Inr t \<Longrightarrow> same_reader s t"
  by (auto simp: code_add_def Error_Abort_def same_reader_def split: if_splits)

lemma Code_Value_reader: "Code_Value v b s = Inr t \<Longrightarrow> same_reader s t"
  by (cases v) (auto simp: Code_Value_def code_splice_def Error_Abort_def same_reader_def dest: code_add_reader
      [unfolded same_reader_def] split: if_splits)

lemma keeps_rd: "keeps f \<Longrightarrow> rd s (f s)"
  using keepsD(6,7) by (simp add: rd_def same_reader_def)

lemma rd_compare:
  assumes "keeps_reader veq"
  shows "rd s (if b then rbind (veq l r s) (\<lambda>(e, s). Inr (ValueBool (g e), s)) else COMPARE op l r s)"
proof (rule rd_if)
  have "rd s (veq l r s)" using assms by (simp add: keeps_reader_def rd_def)
  then show "rd s (rbind (veq l r s) (\<lambda>(e, s). Inr (ValueBool (g e), s)))" by (rule rd_rbind) simp
  show "rd s (COMPARE op l r s)" by (rule keeps_rd) (rule keeping)
qed

lemma rd_Binop:
  assumes "keeps_reader veq"
  shows "rd s (Eval_Binop veq op l r s)"
proof -
  have "Eval_Binop veq op l r s = Eval_Binop plain_equal op l r s" if "op \<noteq> eOp_EQ" "op \<noteq> eOp_NE"
    using that by (cases op) (simp_all add: Eval_Binop_def)
  moreover have "rd s (Eval_Binop plain_equal op l r s)" by (rule keeps_rd [OF keeps_plain_Binop])
  moreover have "rd s (eval_EQ veq l r s)" unfolding eval_EQ_def by (rule rd_compare [OF assms, of _ _ _ _ "\<lambda>b. b"])
  moreover have "rd s (eval_NE veq l r s)" unfolding eval_NE_def by (rule rd_compare [OF assms])
  ultimately show ?thesis by (cases "op = eOp_EQ"; cases "op = eOp_NE") (simp_all add: Eval_Binop_def)
qed

lemma rd_operator:
  assumes "keeps_reader veq"
  shows "rd s (eval_operator veq spStart op sp s)"
proof -
  have un: "rd s (rbind (rassert b) (\<lambda>_. rbind (Eval_Unop op a s) (\<lambda>(result, s). if result = ValueIllegal then Inr ((True, m), s)
             else Inr ((False, n), s\<lparr>Stack := (Stack s)(i := result)\<rparr>))))" for a m n i b
    by (rule rd_read, rule rd_rbind [OF keeps_rd [OF keeps_Unop]]) simp
  have bin: "rd s (rbind (rassert c) (\<lambda>_. rbind (Eval_Binop veq op a b s) (\<lambda>(result, s). if result = ValueIllegal then Inr ((True, m), s)
             else Inr ((False, n), s\<lparr>Stack := (Stack s)(i := result)\<rparr>))))" for a b m n i c
    by (rule rd_read, rule rd_rbind [OF rd_Binop [OF assms]]) simp
  show ?thesis
    unfolding eval_operator_def by (rule rd_if) (rule un, rule bin)
qed

lemma rd_push: "rd s (eval_push fuel legal n i v sp s)"
  unfolding eval_push_def by (intro rd_read) (auto simp: rd_def split: if_splits)

lemma rd_rounds:
  assumes "keeps_reader veq"
  shows "rd s (eval_rounds veq fuel legal spStart n k sp s)"
proof (induction k arbitrary: sp s)
  case (Suc k)
  have "rd s (case Program s (n - Suc k) of CodeOperator op \<Rightarrow> eval_operator veq spStart op sp s
            | CodeValue v \<Rightarrow> eval_push fuel legal n (n - Suc k) v sp s)"
    using rd_operator [OF assms] rd_push by (cases "Program s (n - Suc k)") simp_all
  then show ?case unfolding eval_rounds.simps
    by (rule rd_rbind) (auto intro: rd_weaken [OF _ Suc.IH])
qed simp

lemma rd_convert: "rd s (eval_convert legal v s)"
  by (auto simp: eval_convert_def intro!: rd_if rd_state [of _ s] dest: Error_reader split: Value.split if_splits)

lemma rd_Code_Eval:
  assumes "keeps_reader veq"
  shows "rd s (Code_Eval veq fuel legal s)"
proof -
  have last: "rd s (rbind (eval_convert legal v t) (\<lambda>(v, s).
      Inr (g v, s\<lparr>Stack := (Stack s)(0 := g v)\<rparr>)))" if "same_reader s t" for v t g
    by (rule rd_rbind [OF rd_weaken [OF that rd_convert]]) simp
  have first: "rd s (if failed then Inr (v, u\<lparr>Stack := k\<rparr>) else rbind (rassert b) (\<lambda>_. Inr (w, u)))"
    if "same_reader s u" for failed v u k b w
    using that by (cases b) simp_all
  have "rd s (if FirstFreeIns s = 0 then Inr ((True, 0), s) else Code_EvalLowest veq fuel (FirstFreeIns s) 0 legal s)"
    by (simp add: Code_EvalLowest_def rd_rounds [OF assms])
  then show ?thesis unfolding Code_Eval_def Let_def
  proof (rule rd_rbind)
    fix x u assume u: "same_reader s u"
    show "rd s (case (x, u) of (x, s') \<Rightarrow> (case x of (failed, sp) \<Rightarrow> \<lambda>s.
         rbind (if failed
                then Inr (if flag legal tCode then ValueCode (map (Program s) [0..<FirstFreeIns s0]) else ValueIllegal,
                  s\<lparr>Stack := (Stack s)(0 := if flag legal tCode then ValueCode (map (Program s) [0..<FirstFreeIns s0]) else ValueIllegal)\<rparr>)
                else rbind (rassert (sp = 1)) (\<lambda>_. Inr (Stack s 0, s))) (\<lambda>(v, s).
         rbind (eval_convert legal v s) (\<lambda>(v, s).
           Inr (if Tag v AND legal = 0 then ValueIllegal else v, 
             s\<lparr>Stack := (Stack s)(0 := if Tag v AND legal = 0 then ValueIllegal else v)\<rparr>)))) s')" for s0
      by (cases x) (simp only: prod.case, rule rd_rbind [OF first [OF u]], simp only: prod.case, erule last)
  qed
qed

lemma rd_Code_Equal:
  assumes "keeps_reader veq"
  shows "rd s (Code_Equal veq n a b s)"
proof (induction n arbitrary: a b s)
  case (Suc n)
  have veq: "rd s (veq v w s)" for v w
    using assms by (simp add: keeps_reader_def rd_def)
  have step: "rd s (rbind (veq v w s) (\<lambda>(e, s). if e then Code_Equal veq n c d s else Inr (False, s)))" for v w c d
    by (rule rd_rbind [OF veq]) (simp add: rd_weaken [OF _ Suc.IH])
  consider "a = []" | "b = []" | x c y d where "a = x # c" "b = y # d"
    by (meson list.exhaust)
  then show ?case
  proof cases
    case 3
    then show ?thesis by (cases x; cases y) (simp_all add: step Suc.IH)
  qed simp_all
qed simp

lemma rd_same_code: "keeps_reader veq \<Longrightarrow> rd s (same_code veq a b s)"
  by (auto simp: same_code_def rd_Code_Equal split: Value.split)

lemma rd_equal_switch: "keeps_reader veq \<Longrightarrow> rd s (equal_switch veq a b s)"
  by (auto simp: equal_switch_def rd_same_code split: Value.split)

lemma run_reader: "Code_Value a b (Code_Init t) = Inr u \<Longrightarrow> same_reader t u"
  by (drule Code_Value_reader) simp

lemma Value_Equal_reader: "keeps_reader (Value_Equal fuel)"
proof (induction fuel)
  case 0
  show ?case by (simp add: keeps_reader_def)
next
  case (Suc fuel)
  have run: "rd s (rbind (Code_Value a True (Code_Init t)) g)"
    if "same_reader s t" "\<And>u. same_reader s u \<Longrightarrow> rd s (g u)" for a s t g
    by (rule rd_state) (use that run_reader same_reader_trans in blast)+
  have eval: "rd s (rbind (Code_Eval (Value_Equal fuel) fuel l t) g)"
    if "same_reader s t" "\<And>x u. same_reader s u \<Longrightarrow> rd s (g (x, u))" for s t l g
    by (rule rd_rbind [OF rd_weaken [OF that(1) rd_Code_Eval [OF Suc.IH]]]) (rule that(2))
  have "rd s (Value_Equal (Suc fuel) a b s)" for a b s
    unfolding Value_Equal.simps
    by (intro rd_if rd_rbind [OF rd_same_code [OF Suc.IH]] rd_equal_switch [OF Suc.IH])
      (auto intro!: rd_if run eval intro: rd_weaken rd_equal_switch [OF Suc.IH])
  then show ?case by (simp add: keeps_reader_def rd_def)
qed

section \<open>Reading and evaluating an expression\<close>

lemma leaves_rd: "leaves Q s m \<Longrightarrow> rd s m"
  by (auto simp: leaves_def rd_def same_prog_def same_reader_def)

definition rd3 :: "asm \<Rightarrow> ('a \<times> 'b \<times> asm) outcome \<Rightarrow> bool" where
  "rd3 s m \<longleftrightarrow> (\<forall>x y t. m = Inr (x, y, t) \<longrightarrow> same_reader s t)"

lemma rd3_Inr [simp]: "rd3 s (Inr (x, y, t)) = same_reader s t" and rd3_Inl [simp]: "rd3 s (Inl e)"
  by (simp_all add: rd3_def)

lemma rd3_weaken: "same_reader s t \<Longrightarrow> rd3 t m \<Longrightarrow> rd3 s m"
  by (auto simp: rd3_def dest: same_reader_trans)

lemma rd_rbind3:
  "rd3 s m \<Longrightarrow> (\<And>x y t. same_reader s t \<Longrightarrow> rd s (f (x, y, t))) \<Longrightarrow> rd s (rbind m f)"
  by (cases m) (auto simp: rd3_def)

lemma rd3_rbind3:
  "rd3 s m \<Longrightarrow> (\<And>x y t. same_reader s t \<Longrightarrow> rd3 s (f (x, y, t))) \<Longrightarrow> rd3 s (rbind m f)"
  by (cases m) (auto simp: rd3_def)

lemma rd3_rbind:
  "rd s m \<Longrightarrow> (\<And>x t. same_reader s t \<Longrightarrow> rd3 s (f (x, t))) \<Longrightarrow> rd3 s (rbind m f)"
  by (cases m) (auto simp: rd_def)

lemma rd3_state:
  "(\<And>t. m = Inr t \<Longrightarrow> same_reader s t) \<Longrightarrow> (\<And>t. same_reader s t \<Longrightarrow> rd3 s (f t)) \<Longrightarrow> rd3 s (rbind m f)"
  by (cases m) simp_all

lemma Code_Operator_reader: "Code_Operator op s = Inr t \<Longrightarrow> same_reader s t"
  unfolding Code_Operator_def by (rule code_add_reader)

lemma code_operand_reader: "code_operand l s = Some (Inr t) \<Longrightarrow> same_reader s t"
  by (cases l) (auto simp: code_operand_def code_one_defs rbind_eq_Inr same_reader_def split: prod.splits option.splits
      dest!: code_add_reader [unfolded same_reader_def] Code_Value_reader [unfolded same_reader_def] Symbol_Get_program)

lemma UnGetC_reader: "Input_UnGetC c s = Inr t \<Longrightarrow> same_reader s t"
  by (auto simp: Input_UnGetC_def Let_def rbind_eq_Inr same_reader_def split: if_splits)

lemma rd_incomplete: "rd s (incomplete m s)"
  unfolding incomplete_def by (rule rd_state) (auto dest: Error_reader)

lemma rd_lexers: "rd s (lex_prim s)" "rd s (Lex_GetBinop s)"
  using leaves_rd [OF lex_prim_eats] GetBinop_result [of s]
  by (auto simp: binop_result_def rd_def same_prog_def same_reader_def Input_SkipWS_def)

definition parser_reader :: "nat \<Rightarrow> bool" where
  "parser_reader n \<longleftrightarrow>
     (\<forall>s. rd s (Expr_GetPrim lex_prim Lex_GetBinop n s))
     \<and> (\<forall>opP m s. rd3 s (Expr_GetInt lex_prim Lex_GetBinop n opP m s))
     \<and> (\<forall>opP m s. rd3 s (expr_loop lex_prim Lex_GetBinop n opP m s))"

lemma parser_operand:
  assumes "parser_reader n"
  shows "rd3 s (expr_operand lex_prim Lex_GetBinop n opP m s)"
proof -
  have "rd s (Expr_GetPrim lex_prim Lex_GetBinop n s)" "rd3 s (Expr_GetInt lex_prim Lex_GetBinop n opP (m + 1) s)"
    using assms by (simp_all add: parser_reader_def)
  then show ?thesis by (simp add: rd3_rbind)
qed

lemma parser_prim:
  assumes n: "parser_reader n"
  shows "rd s (Expr_GetPrim lex_prim Lex_GetBinop (Suc n) s)"
proof -
  have unary: "rd t (rbind (Expr_GetPrim lex_prim Lex_GetBinop n t) (\<lambda>(failed, s).
      if failed then Inr (True, s) else rbind (Code_Operator op s) (\<lambda>s. Inr (False, s))))" for t op
  proof (rule rd_rbind)
    show "rd t (Expr_GetPrim lex_prim Lex_GetBinop n t)" using n by (simp add: parser_reader_def)
    have "rd t (rbind (Code_Operator op u) (\<lambda>s. Inr (False, s)))" if "same_reader t u" for u
      by (rule rd_state) (use that Code_Operator_reader same_reader_trans in \<open>auto\<close>)
    then show "rd t (case (x, u) of (failed, s) \<Rightarrow>
        if failed then Inr (True, s) else rbind (Code_Operator op s) (\<lambda>s. Inr (False, s)))" if "same_reader t u" for x u
      using that by simp
  qed
  have closing: "rd t (rbind (lex_prim t) (\<lambda>(l, s).
      if l \<noteq> LexDelim (CHR '')'') then incomplete m s else Inr (False, s)))" for t m
    by (rule rd_rbind [OF rd_lexers(1)]) (auto intro: rd_weaken [OF _ rd_incomplete])
  have group: "rd t (rbind (Expr_GetInt lex_prim Lex_GetBinop n LexNone k t) (\<lambda>(failed, _, s).
      if failed then Inr (True, s) else rbind (lex_prim s) (\<lambda>(l, s).
        if l \<noteq> LexDelim (CHR '')'') then incomplete m s else Inr (False, s))))" for t k m
  proof (rule rd_rbind3)
    show "rd3 t (Expr_GetInt lex_prim Lex_GetBinop n LexNone k t)" using n by (simp add: parser_reader_def)
  qed (auto intro: rd_weaken [OF _ closing])
  have unget: "rd t (rbind (Input_UnGetC c t) (incomplete m))" for t c m
    by (rule rd_state) (auto dest: UnGetC_reader intro: rd_weaken [OF _ rd_incomplete])
  have operand: "rd t (rbind r (\<lambda>s. Inr (False, s)))" if "code_operand l t = Some r" for l r t
    by (rule rd_state) (use that in \<open>auto dest: code_operand_reader\<close>)
  have "rd t (case code_operand l t of Some r \<Rightarrow> rbind r (\<lambda>s. Inr (False, s)) | None \<Rightarrow>
           (case l of
              LexOperator op pri \<Rightarrow>
                if \<not> Lex_IsUnop op then incomplete ''Illegal operator'' t
                else rbind (Expr_GetPrim lex_prim Lex_GetBinop n t) (\<lambda>(failed, s).
                       if failed then Inr (True, s) else rbind (Code_Operator op s) (\<lambda>s. Inr (False, s)))
            | LexDelim d \<Rightarrow>
                if d = CHR ''(''
                then rbind (Expr_GetInt lex_prim Lex_GetBinop n LexNone kPrioOp_Min t) (\<lambda>(failed, _, s).
                       if failed then Inr (True, s)
                       else rbind (lex_prim s) (\<lambda>(l, s).
                              if l \<noteq> LexDelim (CHR '')'') then incomplete ''Missing ')'' s else Inr (False, s)))
                else if d = CHR '')''
                then rbind (Input_UnGetC (CHR '')'') t) (incomplete '')' unexpected'')
                else Inl AssertFailed
            | LexNone \<Rightarrow> incomplete ''Incomplete expression'' t
            | _ \<Rightarrow> Inl AssertFailed))" for l t
    by (simp split: option.split Lex.split add: operand rd_incomplete unary group unget)
  then show ?thesis
    unfolding Expr_GetPrim.simps by (intro rd_rbind [OF rd_lexers(1)]) (auto intro: rd_weaken)
qed

lemma parser_loop:
  assumes n: "parser_reader n"
  shows "rd3 s (expr_loop lex_prim Lex_GetBinop (Suc n) opP m s)"
proof -
  have more: "rd3 t (rbind (Code_Operator op t) (expr_loop lex_prim Lex_GetBinop n x m))" for t op x
    by (rule rd3_state) (use n in \<open>auto simp: parser_reader_def dest: Code_Operator_reader intro: rd3_weaken\<close>)
  have round: "rd3 t (rbind (expr_operand lex_prim Lex_GetBinop n LexNone m t) (\<lambda>(failed, opP, s).
      if failed then Inr (True, opP, s) else rbind (Code_Operator op s) (expr_loop lex_prim Lex_GetBinop n opP m)))" for t op
    by (rule rd3_rbind3 [OF parser_operand [OF n]]) (auto intro: rd3_weaken [OF _ more])
  have "rd s (case opP of LexOperator _ _ \<Rightarrow> Inr (opP, s) | _ \<Rightarrow> Lex_GetBinop s)"
    by (simp add: rd_lexers split: Lex.split)
  moreover have "rd3 s (case x of
         LexOperator op pri \<Rightarrow>
           if pri \<noteq> m then Inr (False, x, t)
           else rbind (expr_operand lex_prim Lex_GetBinop n LexNone m t) (\<lambda>(failed, opP, s).
                  if failed then Inr (True, opP, s) else rbind (Code_Operator op s) (expr_loop lex_prim Lex_GetBinop n opP m))
       | _ \<Rightarrow> Inr (False, x, t))" if "same_reader s t" for x t
    using that by (simp del: expr_operand.simps split: Lex.split add: rd3_weaken [OF that round])
  ultimately show ?thesis unfolding expr_loop.simps by (intro rd3_rbind) auto
qed

lemma parser_reader: "parser_reader n"
proof (induction n)
  case 0
  show ?case by (simp add: parser_reader_def)
next
  case (Suc n)
  have "rd3 s (Expr_GetInt lex_prim Lex_GetBinop (Suc n) opP m s)" for opP m s
    unfolding Expr_GetInt.simps by (rule rd3_rbind3 [OF parser_operand [OF Suc]])
      (use Suc in \<open>auto simp: parser_reader_def intro: rd3_weaken\<close>)
  then show ?case using parser_prim [OF Suc] parser_loop [OF Suc] by (simp add: parser_reader_def)
qed

lemma Expr_Build_reader: "rd s (Expr_Build s)"
proof -
  have "rd (Code_Init s) (Expr_Get (Code_Init s))"
    unfolding Expr_Get_def by (rule rd_rbind3) (use parser_reader in \<open>auto simp: parser_reader_def\<close>)
  then show ?thesis by (simp add: Expr_Build_def rd_def)
qed

text \<open>What the directives rely on.\<close>

lemma evaluate_rd: "rd s (evaluate fuel legal s)"
  unfolding evaluate_def Expr_BuildAndEval_def Expr_Eval_def
  by (rule rd_rbind [OF Expr_Build_reader])
    (auto intro: rd_weaken [OF _ rd_Code_Eval [OF Value_Equal_reader]])

lemmas evaluate_reader = rdD [OF evaluate_rd]

end
