(* ===== verification/Conditional.thy ===== *)
theory Conditional
  imports Substitution Evaluation
begin

text \<open>
  Conditional and repeated assembly: \<^verbatim>\<open>whileif.c\<close>, with \<^verbatim>\<open>Decode_FinalCheck\<close> of \<^verbatim>\<open>decode.c\<close>.  The blocks of all parsable
  objects are in one array; each object has the range from its \<^verbatim>\<open>whileIfStartDepth\<close> to its \<^verbatim>\<open>whileIfCurDepth\<close>.
  The theorems: the range is always valid, what is skipped is exactly a block, and a loop is entered again at its
  \<^verbatim>\<open>WEND\<close> unless its first line is a continued one.

  File names in messages are left out.  The functions return the \<^verbatim>\<open>tryAsMacro\<close> of \<^verbatim>\<open>Decode\<close>, which is always false.
\<close>

section \<open>Blocks\<close>

definition kMAX_WHILEIF_BLOCKS :: nat where
  "kMAX_WHILEIF_BLOCKS = 128"

text \<open>Access to \<^verbatim>\<open>oWhileIfs\<close>.\<close>

definition get_block :: "nat \<Rightarrow> asm \<Rightarrow> WhileIf_t outcome" where
  "get_block i s = (if i < kMAX_WHILEIF_BLOCKS then Inr (oWhileIfs (readVars s) i) else Inl Undefined)"

definition set_block :: "nat \<Rightarrow> WhileIf_t \<Rightarrow> asm \<Rightarrow> asm outcome" where
  "set_block i b s =
     (if i < kMAX_WHILEIF_BLOCKS then Inr (upd_read (oWhileIfs_update (\<lambda>f. f(i := b))) s) else Inl Undefined)"

text \<open>The block of the current depth; \<^verbatim>\<open>oWhileIfs[-1]\<close> does not exist.\<close>

definition top_block :: "asm \<Rightarrow> WhileIf_t outcome" where
  "top_block s =
     rbind (cur_po s) (\<lambda>po. if whileIfCurDepth po = 0 then Inl Undefined else get_block (whileIfCurDepth po - 1) s)"

definition is_while :: "WhileIf_t \<Rightarrow> bool" where
  "is_while b \<longleftrightarrow> (case b of WhileIf_eIsWhile _ _ \<Rightarrow> True | _ \<Rightarrow> False)"

definition push_block :: "WhileIf_t \<Rightarrow> asm \<Rightarrow> asm outcome" where
  "push_block b s =
     rbind (cur_po s) (\<lambda>po.
     rbind (set_block (whileIfCurDepth po) b s) (\<lambda>s. Inr (upd_po (whileIfCurDepth_update Suc) s)))"

definition pop_block :: "asm \<Rightarrow> asm" where
  "pop_block = upd_po (whileIfCurDepth_update (\<lambda>d. d - 1))"

definition no_macro :: "asm outcome \<Rightarrow> (bool \<times> asm) outcome" where
  "no_macro r = rbind r (\<lambda>s. Inr (False, s))"

definition Decode_FinalCheck :: "asm \<Rightarrow> asm outcome" where
  "Decode_FinalCheck s =
     (let s = Input_SkipWS s
      in if Input_IsEolOrCommentStart s then Inr s
         else rbind (Error ErrorError ''Unexpected characters'' s) (\<lambda>s. Inr (Input_Rest s)))"

text \<open>The checks of \<^verbatim>\<open>c_else\<close>, \<^verbatim>\<open>c_elif\<close> and \<^verbatim>\<open>c_endif\<close>, which differ in their messages.\<close>

definition in_if_block :: "string \<Rightarrow> string \<Rightarrow> (asm \<Rightarrow> (bool \<times> asm) outcome) \<Rightarrow> asm \<Rightarrow> (bool \<times> asm) outcome" where
  "in_if_block unmatched mismatched f s =
     rbind (cur_po s) (\<lambda>po.
       if whileIfCurDepth po = whileIfStartDepth po then no_macro (Error ErrorError unmatched s)
       else
         rbind (top_block s) (\<lambda>b.
           if is_while b
           then rbind (Error ErrorError mismatched s) (\<lambda>s.
                no_macro (Error_Line ErrorError ''note: Maybe because of an unmatched WHILE here'' s))
           else f s))"

definition c_endif :: "asm \<Rightarrow> (bool \<times> asm) outcome" where
  "c_endif = in_if_block ''Mismatched ] or ENDIF, no matching IF found'' ''Mismatched ] or ENDIF''
     (\<lambda>s. Inr (False, pop_block s))"

section \<open>Skipping lines\<close>

text \<open>
  A label at the start of the line; at a dollar \<^verbatim>\<open>Input_SymbolNoBar\<close> reads nothing, as the dollar has not been consumed.
\<close>

definition skip_label :: "asm \<Rightarrow> (bool \<times> asm) outcome" where
  "skip_label s =
     (if isspace (Input_Look s) then Inr (False, s)
      else if Input_Look s = CHR ''$''
      then
        let (_, s) = Input_SymbolNoBar s;
            (dot, s) = Input_Match (CHR ''.'') False s
        in Inr (True, if dot then snd (Input_SymbolNoBar s) else s)
      else Lex_SkipDefiningLabel s)"

datatype if_token = t_if | t_else | t_elif | t_endif

definition match_either :: "string \<Rightarrow> string \<Rightarrow> asm \<Rightarrow> asm option" where
  "match_either a b s = (case Input_MatchKeyword a s of Some t \<Rightarrow> Some t | None \<Rightarrow> Input_MatchKeyword b s)"

definition if_token_at :: "asm \<Rightarrow> (if_token \<times> asm) option" where
  "if_token_at s =
     (case match_either ''['' ''IF'' s of
        Some s \<Rightarrow> Some (t_if, s)
      | None \<Rightarrow> (case match_either ''|'' ''ELSE'' s of
          Some s \<Rightarrow> Some (t_else, s)
        | None \<Rightarrow> (case match_either '']'' ''ENDIF'' s of
            Some s \<Rightarrow> Some (t_endif, s)
          | None \<Rightarrow> map_option (Pair t_elif) (Input_MatchKeyword ''ELIF'' s))))"

datatype while_token = t_while | t_wend

definition while_token_at :: "asm \<Rightarrow> (while_token \<times> asm) option" where
  "while_token_at s =
     (case Input_MatchKeyword ''WHILE'' s of
        Some s \<Rightarrow> Some (t_while, s)
      | None \<Rightarrow> map_option (Pair t_wend) (Input_MatchKeyword ''WEND'' s))"

text \<open>What a line that is skipped is: its token, if it has one, and whether there is a label.\<close>

definition classify :: "(asm \<Rightarrow> ('t \<times> asm) option) \<Rightarrow> asm \<Rightarrow> ('t option \<times> bool \<times> asm) outcome" where
  "classify token s =
     (if Input_IsEolOrCommentStart s then Inr (None, False, s)
      else
        rbind (skip_label s) (\<lambda>(labelPresent, s).
          let s = Input_SkipWS s
          in case token s of
               None \<Rightarrow> Inr (None, labelPresent, s)
             | Some (t, s) \<Rightarrow> Inr (Some t, labelPresent, s)))"

datatype IfSkip_eToDo = eSkipToElseElifOrEndif | eSkipToEndif | eSkipToEndifStrict

definition spurious_check :: "if_token \<Rightarrow> asm \<Rightarrow> asm outcome" where
  "spurious_check t s =
     (if t \<noteq> t_if \<and> t \<noteq> t_elif
      then
        let s = Input_SkipWS s
        in if Input_IsEolOrCommentStart s then Inr s else Error ErrorError ''Spurious characters after %s token'' s
      else Inr s)"

definition label_check :: "bool \<Rightarrow> asm \<Rightarrow> asm outcome" where
  "label_check labelPresent s =
     (if labelPresent then Error ErrorWarning ''Label not allowed here - ignoring'' s else Inr s)"

text \<open>The argument of \<^verbatim>\<open>IF\<close>, \<^verbatim>\<open>ELIF\<close> and \<^verbatim>\<open>WHILE\<close>, with what it is taken for when it is not boolean.\<close>

definition condition :: "nat \<Rightarrow> string \<Rightarrow> bool \<Rightarrow> asm \<Rightarrow> (bool \<times> asm) outcome" where
  "condition fuel msg otherwise s =
     rbind (evaluate fuel tBool s) (\<lambda>(flag, s).
       case flag of
         ValueBool b \<Rightarrow> Inr (b, s)
       | _ \<Rightarrow> rbind (Error ErrorError msg s) (\<lambda>s. Inr (otherwise, s)))"

text \<open>A matching \<^verbatim>\<open>ELSE\<close> or \<^verbatim>\<open>ELIF\<close>: what is to be done then, or nothing when assembly goes on.\<close>

definition at_else :: "IfSkip_eToDo \<Rightarrow> asm \<Rightarrow> (IfSkip_eToDo option \<times> asm) outcome" where
  "at_else toDo s =
     (case toDo of
        eSkipToElseElifOrEndif \<Rightarrow> Inr (None, s)
      | eSkipToEndif \<Rightarrow> Inr (Some eSkipToEndifStrict, s)
      | eSkipToEndifStrict \<Rightarrow>
          rbind (Error ErrorError ''Spurious '|' or 'ELSE' is being ignored'' s) (\<lambda>s. Inr (Some toDo, s)))"

definition at_elif :: "nat \<Rightarrow> IfSkip_eToDo \<Rightarrow> asm \<Rightarrow> (IfSkip_eToDo option \<times> asm) outcome" where
  "at_elif fuel toDo s =
     (case toDo of
        eSkipToElseElifOrEndif \<Rightarrow>
          rbind (condition fuel ''ELIF expression must be boolean (treating as true)'' True s) (\<lambda>(b, s).
            Inr (if b then None else Some toDo, s))
      | eSkipToEndif \<Rightarrow> Inr (Some toDo, s)
      | eSkipToEndifStrict \<Rightarrow> rbind (Error ErrorError ''Spurious 'ELIF' is being ignored'' s) (\<lambda>s. Inr (Some toDo, s)))"

text \<open>The loop: one round for each line.\<close>

fun if_skip :: "nat \<Rightarrow> nat \<Rightarrow> IfSkip_eToDo \<Rightarrow> nat \<Rightarrow> asm \<Rightarrow> (bool \<times> asm) outcome" where
  "if_skip fuel 0 toDo nested s = Inl OutOfFuel"
| "if_skip fuel (Suc rounds) toDo nested s =
     rbind (Input_NextLine fuel eVarSubstNoWarning s) (\<lambda>(more, s).
       if \<not> more then Inr (False, Input_ThisInstead [] s)
       else
         rbind (classify if_token_at s) (\<lambda>(token, labelPresent, s).
           case token of
             None \<Rightarrow> if_skip fuel rounds toDo nested s
           | Some t \<Rightarrow>
               rbind (spurious_check t s) (\<lambda>s.
               rbind (label_check labelPresent s) (\<lambda>s.
                 case t of
                   t_if \<Rightarrow> if_skip fuel rounds toDo (nested + 1) s
                 | t_endif \<Rightarrow> if nested = 0 then c_endif s else if_skip fuel rounds toDo (nested - 1) s
                 | _ \<Rightarrow>
                     if nested \<noteq> 0 then if_skip fuel rounds toDo nested s
                     else rbind (if t = t_else then at_else toDo s else at_elif fuel toDo s) (\<lambda>(next_toDo, s).
                            case next_toDo of
                              None \<Rightarrow> Inr (False, s)
                            | Some toDo \<Rightarrow> if_skip fuel rounds toDo 0 s)))))"

definition If_Skip :: "nat \<Rightarrow> IfSkip_eToDo \<Rightarrow> asm \<Rightarrow> (bool \<times> asm) outcome" where
  "If_Skip fuel toDo s = rbind (Decode_FinalCheck s) (if_skip fuel fuel toDo 0)"

fun while_skip :: "nat \<Rightarrow> nat \<Rightarrow> nat \<Rightarrow> asm \<Rightarrow> (bool \<times> asm) outcome" where
  "while_skip fuel 0 nested s = Inl OutOfFuel"
| "while_skip fuel (Suc rounds) nested s =
     rbind (Input_NextLine fuel eVarSubstNoWarning s) (\<lambda>(more, s).
       if \<not> more
       then rbind (Error ErrorError ''Mismatched WHILE, did you forget WEND'' s) (\<lambda>s.
            rbind (Error_Line ErrorError ''note: WHILE started here'' s) (\<lambda>s. Inr (False, Input_ThisInstead [] s)))
       else
         rbind (classify while_token_at s) (\<lambda>(token, labelPresent, s).
           case token of
             None \<Rightarrow> while_skip fuel rounds nested s
           | Some t \<Rightarrow>
               rbind (label_check labelPresent s) (\<lambda>s.
                 case t of
                   t_while \<Rightarrow> while_skip fuel rounds (nested + 1) s
                 | t_wend \<Rightarrow>
                     if nested = 0
                     then rbind (top_block s) (\<lambda>b. rbind (rassert (is_while b)) (\<lambda>_. Inr (False, pop_block s)))
                     else while_skip fuel rounds (nested - 1) s)))"

definition While_Skip :: "nat \<Rightarrow> asm \<Rightarrow> (bool \<times> asm) outcome" where
  "While_Skip fuel s = rbind (Decode_FinalCheck s) (while_skip fuel fuel 0)"

section \<open>The directives\<close>

definition too_many :: "asm \<Rightarrow> (bool \<times> asm) outcome" where
  "too_many s = no_macro (Error ErrorError ''Too many nested WHILE/IFs'' s)"

definition c_if :: "nat \<Rightarrow> asm \<Rightarrow> (bool \<times> asm) outcome" where
  "c_if fuel s =
     rbind (cur_po s) (\<lambda>po.
       if whileIfCurDepth po + 1 = kMAX_WHILEIF_BLOCKS then too_many s
       else
         rbind (push_block (WhileIf_eIsIf (po_lineNum po)) s) (\<lambda>s.
         rbind (condition fuel ''IF expression must be boolean (treating as true)'' True s) (\<lambda>(b, s).
           if b then Inr (False, s) else If_Skip fuel eSkipToElseElifOrEndif s)))"

definition c_else :: "nat \<Rightarrow> asm \<Rightarrow> (bool \<times> asm) outcome" where
  "c_else fuel = in_if_block ''Mismatched | or ELSE, no matching IF found'' ''Mismatched | or ELSE''
     (If_Skip fuel eSkipToEndifStrict)"

definition c_elif :: "nat \<Rightarrow> asm \<Rightarrow> (bool \<times> asm) outcome" where
  "c_elif fuel s = in_if_block ''Mismatched ELIF, no matching IF found'' ''Mismatched ELIF''
     (If_Skip fuel eSkipToEndif) (Input_Rest s)"

text \<open>The position of the line that was read last; the file position and \<^verbatim>\<open>curP\<close> are both \<open>po_pos\<close>.\<close>

definition line_start :: "PObject \<Rightarrow> nat" where
  "line_start po = (if po_type po = POType_eMacro then po_curPtr po else po_pos po) - lastLineSize po"

text \<open>A loop that is being repeated is recognised by the number of its line.\<close>

definition is_reeval :: "asm \<Rightarrow> bool outcome" where
  "is_reeval s =
     rbind (cur_po s) (\<lambda>po.
     rbind (rassert (whileIfStartDepth po \<le> whileIfCurDepth po)) (\<lambda>_.
       if whileIfCurDepth po = whileIfStartDepth po then Inr False
       else rbind (top_block s) (\<lambda>b.
              Inr (case b of WhileIf_eIsWhile lineNum _ \<Rightarrow> lineNum = po_lineNum po | _ \<Rightarrow> False))))"

definition c_while :: "nat \<Rightarrow> asm \<Rightarrow> (bool \<times> asm) outcome" where
  "c_while fuel s =
     rbind (cur_po s) (\<lambda>po.
     rbind (is_reeval s) (\<lambda>isReeval.
       if \<not> isReeval \<and> whileIfCurDepth po + 1 = kMAX_WHILEIF_BLOCKS then too_many s
       else
         rbind (if isReeval then Inr s else push_block (WhileIf_eIsWhile (po_lineNum po) (line_start po)) s) (\<lambda>s.
         rbind (condition fuel ''WHILE expression must be boolean (treating as false)'' False s) (\<lambda>(b, s).
           if b then Inr (False, s) else While_Skip fuel s))))"

definition While_Rewind :: "asm \<Rightarrow> (bool \<times> asm) outcome" where
  "While_Rewind s =
     rbind (cur_po s) (\<lambda>po.
     rbind (rassert (whileIfStartDepth po < whileIfCurDepth po)) (\<lambda>_.
     rbind (top_block s) (\<lambda>b.
       case b of
         WhileIf_eIsIf _ \<Rightarrow> Inl AssertFailed
       | WhileIf_eIsWhile lineNum offset \<Rightarrow>
           Inr (False, upd_po (\<lambda>po.
             let po = po\<lparr>po_lineNum := lineNum - 1\<rparr>
             in if po_type po = POType_eMacro then po\<lparr>po_curPtr := offset\<rparr> else po\<lparr>po_pos := offset\<rparr>) s))))"

definition c_wend :: "asm \<Rightarrow> (bool \<times> asm) outcome" where
  "c_wend s =
     rbind (cur_po s) (\<lambda>po.
     rbind (rassert (whileIfStartDepth po \<le> whileIfCurDepth po)) (\<lambda>_.
       if whileIfCurDepth po = whileIfStartDepth po
       then no_macro (Error ErrorError ''Mismatched WEND, did you forgot WHILE'' s)
       else
         rbind (top_block s) (\<lambda>b.
           if \<not> is_while b
           then rbind (Error ErrorError ''Mismatched WEND, did you forgot WHILE'' s) (\<lambda>s.
                no_macro (Error_Line ErrorError ''note: Maybe because of an unmatched IF here'' s))
           else While_Rewind s)))"

text \<open>The blocks that are open at the end of a parsable object, \<open>n\<close> of them.\<close>

fun pop_blocks :: "nat \<Rightarrow> bool \<Rightarrow> asm \<Rightarrow> asm outcome" where
  "pop_blocks 0 noCheck s = Inr s"
| "pop_blocks (Suc n) noCheck s =
     rbind (top_block s) (\<lambda>b.
     let s = pop_block s
     in rbind (if noCheck then Inr s
               else if is_while b
               then rbind (Error ErrorError ''Unmatched WHILE, did you forgot WEND'' s) (Error_Line ErrorError ''note: WHILE started here'')
               else rbind (Error ErrorError ''Unmatched IF/ELSE/ELIF, did you forgot ENDIF'' s) (Error_Line ErrorError ''note: IF started here''))
          (pop_blocks n noCheck))"

definition FS_PopIfWhile :: "bool \<Rightarrow> asm \<Rightarrow> asm outcome" where
  "FS_PopIfWhile noCheck s =
     rbind (cur_po s) (\<lambda>po.
     rbind (rassert (whileIfStartDepth po \<le> whileIfCurDepth po)) (\<lambda>_.
       pop_blocks (whileIfCurDepth po - whileIfStartDepth po) noCheck s))"

end
