(* ===== verification/Conditional_Blocks.thy ===== *)
theory Conditional_Blocks
  imports Conditional
begin

text \<open>
  The ranges of \<^verbatim>\<open>oWhileIfs\<close>: reading lines and evaluating conditions leave them alone (\<open>kb\<close>), and every directive keeps
  them valid and leaves the blocks of the objects below alone (\<open>ok_run\<close>).
\<close>

section \<open>Reading a line leaves the blocks alone\<close>

text \<open>The array of blocks, the macros, and the ranges of the parsable objects.\<close>

definition block_range :: "PObject \<Rightarrow> nat \<times> nat" where
  "block_range po = (whileIfStartDepth po, whileIfCurDepth po)"

definition blocks_of :: "asm \<Rightarrow> ((nat \<Rightarrow> WhileIf_t) \<times> Macro list) \<times> (nat \<times> nat) list" where
  "blocks_of s = ((oWhileIfs (readVars s), oMacroListP (readVars s)), map block_range (gPOStack s))"

text \<open>A run that returns has left the blocks alone; \<open>st\<close> is the state in its result.\<close>

definition kb :: "('a \<Rightarrow> asm) \<Rightarrow> asm \<Rightarrow> 'a outcome \<Rightarrow> bool" where
  "kb st s m \<longleftrightarrow> (\<forall>x. m = Inr x \<longrightarrow> blocks_of (st x) = blocks_of s)"

text \<open>
  The ranges of the parsable objects, the current one first: each starts where the one below it is, and there is room
  for a block.
\<close>

fun ranges_ok :: "(nat \<times> nat) list \<Rightarrow> bool" where
  "ranges_ok [] \<longleftrightarrow> True"
| "ranges_ok ((start, cur) # ds) \<longleftrightarrow>
     start \<le> cur \<and> cur < kMAX_WHILEIF_BLOCKS \<and> start = (case ds of [] \<Rightarrow> 0 | d # _ \<Rightarrow> snd d) \<and> ranges_ok ds"

definition whileif_ok :: "asm \<Rightarrow> bool" where
  "whileif_ok s \<longleftrightarrow> gPOStack s \<noteq> [] \<and> ranges_ok (map block_range (gPOStack s))"

text \<open>What belongs to the objects below the current one: the ranges and the blocks in them.\<close>

definition same_below :: "asm \<Rightarrow> asm \<Rightarrow> bool" where
  "same_below s t \<longleftrightarrow>
     map block_range (tl (gPOStack t)) = map block_range (tl (gPOStack s))
     \<and> (\<forall>i < fst (block_range (hd (gPOStack s))). oWhileIfs (readVars t) i = oWhileIfs (readVars s) i)"

text \<open>Runs that return keep the ranges valid and what is below.\<close>

definition ok_run :: "('a \<Rightarrow> asm) \<Rightarrow> asm \<Rightarrow> 'a outcome \<Rightarrow> bool" where
  "ok_run st s m \<longleftrightarrow> (whileif_ok s \<longrightarrow> (\<forall>x. m = Inr x \<longrightarrow> whileif_ok (st x) \<and> same_below s (st x)))"

definition in_block :: "asm \<Rightarrow> bool" where
  "in_block s \<longleftrightarrow> (\<exists>po. cur_po s = Inr po \<and> whileIfCurDepth po \<noteq> whileIfStartDepth po)"

text \<open>The directives, the end of a parsable object, and reading the next line.\<close>

inductive whileif_step :: "asm \<Rightarrow> asm \<Rightarrow> bool" where
  next_line: "Input_NextLine fuel level s = Inr (m, t) \<Longrightarrow> whileif_step s t"
| if_directive: "c_if fuel s = Inr (m, t) \<Longrightarrow> whileif_step s t"
| else_directive: "c_else fuel s = Inr (m, t) \<Longrightarrow> whileif_step s t"
| elif_directive: "c_elif fuel s = Inr (m, t) \<Longrightarrow> whileif_step s t"
| endif_directive: "c_endif s = Inr (m, t) \<Longrightarrow> whileif_step s t"
| while_directive: "c_while fuel s = Inr (m, t) \<Longrightarrow> whileif_step s t"
| wend_directive: "c_wend s = Inr (m, t) \<Longrightarrow> whileif_step s t"
| end_of_object: "FS_PopIfWhile noCheck s = Inr t \<Longrightarrow> whileif_step s t"

definition line_at :: "string \<Rightarrow> asm" where
  "line_at str = (reading [])\<lparr>input_buff := str, input_pos := str\<rparr>"

lemma kb_Inr [simp]: "kb st s (Inr x) \<longleftrightarrow> blocks_of (st x) = blocks_of s" and kb_Inl [simp]: "kb st s (Inl e)"
  by (simp_all add: kb_def)

lemma kbD: "kb st s m \<Longrightarrow> m = Inr x \<Longrightarrow> blocks_of (st x) = blocks_of s"
  by (simp add: kb_def)

lemma kb_bind:
  "kb st s m \<Longrightarrow> (\<And>x. blocks_of (st x) = blocks_of s \<Longrightarrow> kb st' s (f x)) \<Longrightarrow> kb st' s (rbind m f)"
  by (cases m) (simp_all add: kb_def)

lemma kb_read: "(\<And>x. m = Inr x \<Longrightarrow> kb st s (f x)) \<Longrightarrow> kb st s (rbind m f)"
  by (cases m) simp_all

lemma kb_if: "(b \<Longrightarrow> kb st s f) \<Longrightarrow> (\<not> b \<Longrightarrow> kb st s g) \<Longrightarrow> kb st s (if b then f else g)"
  by simp

lemma kb_cong: "blocks_of t = blocks_of s \<Longrightarrow> kb st t m \<Longrightarrow> kb st s m"
  by (simp add: kb_def)

lemma blocks_upd [simp]:
  "blocks_of (s\<lparr>input_pos := a\<rparr>) = blocks_of s" "blocks_of (s\<lparr>input_buff := b\<rparr>) = blocks_of s"
  "blocks_of (upd_read (oPreDefIdx_update f) s) = blocks_of s" "blocks_of (upd_read (preDef_toggle_update g) s) = blocks_of s"
  by (simp_all add: blocks_of_def upd_read_def)

lemma blocks_upd_po: "(\<And>po. block_range (f po) = block_range po) \<Longrightarrow> blocks_of (upd_po f s) = blocks_of s"
  by (simp add: blocks_of_def upd_po_def split: list.split)

lemma blocks_reader: "same_reader s t \<Longrightarrow> blocks_of t = blocks_of s"
  by (simp add: same_reader_def blocks_of_def)

lemma blocks_prog: "same_prog s t \<Longrightarrow> blocks_of t = blocks_of s"
  by (simp add: same_prog_def blocks_of_def)

lemma kb_leaves: "leaves Q s m \<Longrightarrow> kb snd s m"
  by (auto simp: leaves_def kb_def dest: blocks_prog)

lemma kb_rd: "rd s m \<Longrightarrow> kb snd s m"
  by (auto simp: rd_def kb_def dest: blocks_reader)

lemma kb_Error: "kb id s (Error e m s)"
  by (auto simp: kb_def dest: Error_reader blocks_reader)

lemma kb_input [simp]:
  "blocks_of (Input_SkipWS s) = blocks_of s" "blocks_of (Input_Skip s) = blocks_of s" "blocks_of (Input_Rest s) = blocks_of s"
  "blocks_of (Input_ThisInstead p s) = blocks_of s" "blocks_of (snd (Input_SymbolNoBar s)) = blocks_of s"
  "blocks_of (snd (Input_Match c b s)) = blocks_of s"
  by (simp_all add: Input_SkipWS_def Input_Skip_def Input_Rest_def Input_ThisInstead_def Input_SymbolNoBar_def Input_Match_def Let_def)

lemma blocks_keyword: "Input_MatchKeyword k s = Some t \<Longrightarrow> blocks_of t = blocks_of s"
  by (auto simp: Input_MatchKeyword_def Let_def split: if_splits)

lemma kb_Error': "blocks_of u = blocks_of s \<Longrightarrow> kb id s (Error e m u)"
  by (rule kb_cong [OF _ kb_Error])

lemma kb_snd_Error: "blocks_of u = blocks_of s \<Longrightarrow> kb snd s (rbind (Error e m u) (\<lambda>s. Inr (y, s)))"
  by (rule kb_bind [OF kb_Error']) simp_all

lemma kb_Symbol: "kb snd s (Input_Symbol s)"
  by (auto simp: Input_Symbol_def Let_def kb_snd_Error split: option.split)

lemma kb_Lex_GetIDNoError: "kb snd s (Lex_GetIDNoError s)"
  unfolding Lex_GetIDNoError_def by (rule kb_bind [OF kb_cong [OF _ kb_Symbol]]) auto

lemma kb_Lex_GetID: "kb snd s (Lex_GetID s)"
  unfolding Lex_GetID_def by (rule kb_bind [OF kb_Lex_GetIDNoError]) (auto intro!: kb_snd_Error split: Lex.split)

lemma kb_SkipDefiningLabel: "kb snd s (Lex_SkipDefiningLabel s)"
  unfolding Lex_SkipDefiningLabel_def
  by (intro kb_if kb_bind [OF kb_cong [OF _ kb_Symbol]] kb_bind [OF kb_Lex_GetID]) auto

abbreviation "st4 \<equiv> \<lambda>(a, b, c, s). (s :: asm)"
abbreviation "st3 \<equiv> \<lambda>(a, b, s). (s :: asm)"

lemma kb_no_expansion: "blocks_of u = blocks_of s \<Longrightarrow> kb st4 s (no_expansion inP out inString warn msg u)"
  unfolding no_expansion_def by (rule kb_bind [of id]) (auto intro: kb_Error')

lemma kb_VarSub: "kb st4 s (Input_VarSub inP out inString warn s)"
proof -
  have "kb st4 s (case label of LexId name \<Rightarrow>
               (case Symbol_Find name t of
                  Some r \<Rightarrow>
                    if flag (attr_type (syms t r)) SYMBOL_RW
                    then rbind (variable_text (attr_value (syms t r))) (\<lambda>toCopy.
                        if length out + length toCopy \<ge> MAX_LINE \<and> MAX_LINE < length out then Inl Undefined
                        else
                          let toCopy = (if length out + length toCopy \<ge> MAX_LINE then take (MAX_LINE - length out) toCopy
                                        else toCopy);
                              inP = drop (length name) inP
                          in Inr (False, if peek inP 0 = CHR ''.'' then tl inP else inP, out @ toCopy, t))
                    else no_expansion inP out inString warn m t
                | None \<Rightarrow> no_expansion inP out inString warn m t)
           | _ \<Rightarrow> no_expansion inP out inString warn m' t)" if "blocks_of t = blocks_of s" for label t m m'
    using that by (auto split: Lex.split option.split simp: kb_no_expansion Let_def intro!: kb_read)
  then show ?thesis unfolding Input_VarSub_def Let_def
    by (intro kb_if kb_bind [OF kb_cong [OF _ kb_Lex_GetIDNoError]]) auto
qed

lemma kb_copy_string: "kb st3 s (copy_string fuel quote noSubst warn inP out s)"
proof (induction fuel arbitrary: noSubst inP out s)
  case (Suc fuel)
  have "kb st3 s (rbind (Input_VarSub cs os True warn s) (\<lambda>(_, inP, out, s). copy_string fuel quote n warn inP out s))" for cs os n
    by (rule kb_bind [OF kb_VarSub]) (auto intro: kb_cong [OF _ Suc.IH])
  then show ?case using Suc.IH by (cases inP) (simp_all del: copy_string.simps add: copy_string.simps(2))
qed simp

lemma kb_arg_sub: "kb snd s (arg_sub fuel warn inP out s)"
proof (induction fuel arbitrary: inP out s)
  case (Suc fuel)
  have str: "kb snd s (rbind (copy_string n q False warn cs os s) (\<lambda>(inP, out, s). arg_sub fuel warn inP out s))" for n q cs os
    by (rule kb_bind [OF kb_copy_string]) (auto intro: kb_cong [OF _ Suc.IH])
  have var: "kb snd s (rbind (Input_VarSub cs out False warn s) (\<lambda>(dontReExpand, inP, out', s).
      let expanded = drop (length out) out'
      in if expanded \<noteq> [] \<and> \<not> dontReExpand
         then (if length expanded + (length inP + 1) \<le> sizeof_workBuff
               then arg_sub fuel warn (cstr (expanded @ inP)) out s
               else overflow s)
         else arg_sub fuel warn inP out' s))" for cs
    by (rule kb_bind [OF kb_VarSub]) (auto simp: Let_def overflow_def Error_Abort_def intro: kb_cong [OF _ Suc.IH])
  have ov: "kb snd s (overflow s)" by (simp add: overflow_def Error_Abort_def)
  show ?case
    by (cases inP) (simp_all del: arg_sub.simps copy_string.simps drop_eq_Nil add: arg_sub.simps(2) str var [unfolded Let_def] ov Suc.IH Let_def
        split: prod.split)
qed simp

lemma kb_ArgSub: "kb id s (Input_ArgSub fuel warn line s)"
  unfolding Input_ArgSub_def by (rule kb_bind [OF kb_arg_sub]) auto

section \<open>The lines\<close>

lemma block_range_upd [simp]:
  "block_range (po_pos_update f po) = block_range po" "block_range (lastLineSize_update g po) = block_range po"
  "block_range (po_curPtr_update f po) = block_range po" "block_range (po_lineNum_update h po) = block_range po"
  by (simp_all add: block_range_def)

lemma blocks_next [simp]: "blocks_of (next_lineNum s) = blocks_of s"
  by (simp add: next_lineNum_def blocks_upd_po)

lemma kb_file_loop: "kb snd s (file_loop fuel n acc s)"
proof (induction fuel arbitrary: n acc s)
  case (Suc fuel)
  have "kb snd s (file_loop fuel n acc t)" if "blocks_of t = blocks_of s" for n acc t
    using kb_cong [OF that Suc.IH] .
  then show ?case by (auto simp: Let_def Error_Abort_def intro!: kb_read split: option.split simp: blocks_upd_po)
qed simp

lemma kb_cached_loop: "kb snd s (cached_loop fuel n start rest acc s)"
proof (induction fuel arbitrary: rest acc s)
  case (Suc fuel)
  have "kb snd s (cached_loop fuel n start rest acc t)" if "blocks_of t = blocks_of s" for rest acc t
    using kb_cong [OF that Suc.IH] .
  then show ?case by (simp add: Let_def Error_Abort_def blocks_upd_po)
qed simp

lemma kb_File_GetLine: "kb snd s (File_GetLine n s)"
  unfolding File_GetLine_def by (rule kb_read) (rule kb_cong [OF _ kb_file_loop], simp add: blocks_upd_po)

lemma kb_CachedFile_GetLine: "kb snd s (CachedFile_GetLine n s)"
  unfolding CachedFile_GetLine_def by (rule kb_read) (simp del: cached_loop.simps add: kb_cached_loop)

lemma kb_Macro_GetLine: "kb snd s (Macro_GetLine n s)"
  unfolding Macro_GetLine_def
  by (rule kb_read) (simp add: Let_def Error_Abort_def blocks_upd_po split: option.split)

lemma kb_GetLine: "kb snd s (GetLine n s)"
  unfolding GetLine_def
  by (rule kb_read) (simp add: kb_File_GetLine kb_CachedFile_GetLine kb_Macro_GetLine split: POType_e.split)

lemma kb_predefine: "kb snd s (next_predefine p s)"
proof -
  have "kb snd s (predefine_line p s)"
    by (auto simp: predefine_line_def Let_def kb_snd_Error split: option.split)
  then have "kb snd s (if \<not> preDef_toggle (readVars s) then predefine_line p s
            else if length p < sizeof_workBuff then Inr (p, upd_read (oPreDefIdx_update Suc) s)
            else Inl Undefined)" by simp
  then show ?thesis unfolding next_predefine_def by (rule kb_bind) auto
qed

lemma kb_NextLineCore: "kb snd s (Input_NextLineCore s)"
proof -
  have "kb snd s (rbind (next_predefine p s) (\<lambda>(line, s). Inr (Some line, s)))" for p
    by (rule kb_bind [OF kb_predefine]) auto
  moreover have "kb snd s (rbind (GetLine n s) (\<lambda>(line, s). Inr (line, if line = None then s else next_lineNum s)))" for n
    by (rule kb_bind [OF kb_GetLine]) auto
  ultimately show ?thesis unfolding Input_NextLineCore_def
    by (intro kb_bind [of snd]) (auto split: option.split)
qed

lemma kb_NextLine: "kb snd s (Input_NextLine fuel level s)"
  unfolding Input_NextLine_def
proof (rule kb_bind [OF kb_cong [OF _ kb_NextLineCore]])
  fix x :: "string option \<times> asm" assume x: "blocks_of (snd x) = blocks_of s"
  have "kb snd s (rbind (if level = eNoVarSubst then Inr (t\<lparr>input_buff := line\<rparr>)
      else Input_ArgSub fuel (level = eVarSubst) line t) (\<lambda>s. Inr (True, s\<lparr>input_pos := input_buff s\<rparr>)))"
    if "blocks_of t = blocks_of s" for t line
    by (rule kb_bind [of id]) (use that in \<open>auto intro: kb_cong [OF _ kb_ArgSub]\<close>)
  with x show "kb snd s (case x of (line, s) \<Rightarrow> case line of None \<Rightarrow> Inr (False, s)
       | Some workBuff \<Rightarrow>
           rbind (if level = eNoVarSubst then Inr (s\<lparr>input_buff := workBuff\<rparr>)
                  else Input_ArgSub fuel (level = eVarSubst) workBuff s) (\<lambda>s.
             Inr (True, s\<lparr>input_pos := input_buff s\<rparr>)))"
    by (auto split: option.split prod.split)
qed simp


section \<open>The ranges of blocks\<close>

lemma ok_run_Inl [simp]: "ok_run st s (Inl e)"
  by (simp add: ok_run_def)

lemma whileif_ok_blocks: "blocks_of t = blocks_of s \<Longrightarrow> whileif_ok t = whileif_ok s"
  by (auto simp: whileif_ok_def blocks_of_def)

lemma same_below_blocks: "blocks_of t = blocks_of s \<Longrightarrow> same_below s t"
  by (simp add: same_below_def blocks_of_def map_tl)

lemma ok_run_kb:
  assumes "kb st s m"
  shows "ok_run st s m"
proof -
  have "whileif_ok (st x) \<and> same_below s (st x)" if "whileif_ok s" "m = Inr x" for x
    using kbD [OF assms that(2)] whileif_ok_blocks [of "st x" s] same_below_blocks [of "st x" s] that(1) by simp
  then show ?thesis by (simp add: ok_run_def)
qed

text \<open>The start of the current object is what is below it.\<close>

lemma same_below_start:
  assumes "whileif_ok s" and "whileif_ok t" and "same_below s t"
  shows "fst (block_range (hd (gPOStack t))) = fst (block_range (hd (gPOStack s)))"
proof -
  obtain a as b bs where "gPOStack s = a # as" "gPOStack t = b # bs"
    using assms(1,2) by (auto simp: whileif_ok_def neq_Nil_conv)
  then show ?thesis using assms by (cases "block_range a"; cases "block_range b") (auto simp: whileif_ok_def same_below_def)
qed

lemma same_below_trans: "whileif_ok s \<Longrightarrow> whileif_ok t \<Longrightarrow> same_below s t \<Longrightarrow> same_below t u \<Longrightarrow> same_below s u"
  using same_below_start [of s t] by (simp add: same_below_def)

lemma ok_run_bind:
  "ok_run st s m \<Longrightarrow> (\<And>x. whileif_ok (st x) \<Longrightarrow> m = Inr x \<Longrightarrow> ok_run st' (st x) (f x)) \<Longrightarrow> ok_run st' s (rbind m f)"
  by (cases m) (simp_all add: ok_run_def, blast intro: same_below_trans)

lemma ok_run_read: "(\<And>x. m = Inr x \<Longrightarrow> ok_run st s (f x)) \<Longrightarrow> ok_run st s (rbind m f)"
  by (cases m) simp_all

lemma ok_run_if: "(b \<Longrightarrow> ok_run st s f) \<Longrightarrow> (\<not> b \<Longrightarrow> ok_run st s g) \<Longrightarrow> ok_run st s (if b then f else g)"
  by simp

lemma ok_run_Inr: "blocks_of (st x) = blocks_of s \<Longrightarrow> ok_run st s (Inr x)"
  by (rule ok_run_kb) simp


section \<open>The directives keep the ranges\<close>

lemma ok_run_Error: "blocks_of u = blocks_of s \<Longrightarrow> ok_run id s (Error e m u)"
  by (rule ok_run_kb) (rule kb_Error')

lemma ok_run_no_macro: "ok_run id s m \<Longrightarrow> ok_run snd s (no_macro m)"
  unfolding no_macro_def by (erule ok_run_bind) (simp add: ok_run_Inr)

lemma ok_run_depth:
  assumes s: "gPOStack s = po # pos"
    and t: "gPOStack (st x) = po\<lparr>whileIfCurDepth := d\<rparr> # pos"
    and d: "whileif_ok s \<Longrightarrow> whileIfStartDepth po \<le> d \<and> d < kMAX_WHILEIF_BLOCKS"
    and below: "\<And>i. i < whileIfStartDepth po \<Longrightarrow> oWhileIfs (readVars (st x)) i = oWhileIfs (readVars s) i"
  shows "ok_run st s (Inr x)"
proof -
  have "whileif_ok (st x)" if "whileif_ok s"
    using that d by (simp add: whileif_ok_def s t block_range_def)
  moreover have "same_below s (st x)"
    using below by (simp add: same_below_def s t block_range_def)
  ultimately show ?thesis by (simp add: ok_run_def)
qed

lemma whileif_okD: "whileif_ok s \<Longrightarrow> gPOStack s = po # pos \<Longrightarrow> whileIfStartDepth po \<le> whileIfCurDepth po"
  "whileif_ok s \<Longrightarrow> gPOStack s = po # pos \<Longrightarrow> whileIfCurDepth po < kMAX_WHILEIF_BLOCKS"
  by (simp_all add: whileif_ok_def block_range_def)

lemma cur_po_stack: "cur_po s = Inr po \<Longrightarrow> \<exists>pos. gPOStack s = po # pos"
  by (simp add: cur_po_def split: list.splits)

lemma push_block_stack:
  assumes "gPOStack s = po # pos" and "whileIfCurDepth po < kMAX_WHILEIF_BLOCKS"
  shows "push_block b s = Inr (upd_po (whileIfCurDepth_update Suc)
    (upd_read (oWhileIfs_update (\<lambda>f. f(whileIfCurDepth po := b))) s))"
  using assms by (simp add: push_block_def cur_po_def set_block_def)

lemma ok_run_push:
  assumes "cur_po s = Inr po" and "whileIfCurDepth po + 1 \<noteq> kMAX_WHILEIF_BLOCKS"
  shows "ok_run id s (push_block b s)"
proof -
  obtain pos where s: "gPOStack s = po # pos" using cur_po_stack [OF assms(1)] by blast
  show ?thesis
  proof (cases "whileif_ok s")
    case True
    note d = whileif_okD [OF True s]
    show ?thesis unfolding push_block_stack [OF s d(2)]
      by (rule ok_run_depth [OF s, where d = "Suc (whileIfCurDepth po)"])
        (use assms(2) d in \<open>simp_all add: upd_po_def upd_read_def s\<close>)
  qed (simp add: ok_run_def)
qed

text \<open>A block of the current object can be removed.\<close>

lemma ok_run_pop:
  assumes "cur_po s = Inr po" and "whileIfCurDepth po \<noteq> whileIfStartDepth po"
  shows "ok_run snd s (Inr (x, pop_block s))"
proof -
  obtain pos where s: "gPOStack s = po # pos" using cur_po_stack [OF assms(1)] by blast
  show ?thesis
  proof (rule ok_run_depth [OF s, where d = "whileIfCurDepth po - 1"])
    assume "whileif_ok s"
    then show "whileIfStartDepth po \<le> whileIfCurDepth po - 1 \<and> whileIfCurDepth po - 1 < kMAX_WHILEIF_BLOCKS"
      using whileif_okD [OF _ s] assms(2) by fastforce
  qed (simp_all add: pop_block_def upd_po_def s)
qed

lemma ok_run_in_if_block:
  assumes "\<And>po. cur_po s = Inr po \<Longrightarrow> whileIfCurDepth po \<noteq> whileIfStartDepth po \<Longrightarrow> ok_run snd s (f s)"
  shows "ok_run snd s (in_if_block m m' f s)"
  unfolding in_if_block_def
proof (rule ok_run_read)
  fix po assume po: "cur_po s = Inr po"
  have "ok_run snd s (rbind (Error ErrorError m' s) (\<lambda>s. no_macro (Error_Line e n s)))" for e n
    by (rule ok_run_bind [OF ok_run_Error]) (simp_all add: ok_run_no_macro ok_run_Error)
  then have "ok_run snd s (rbind (top_block s) (\<lambda>b. if is_while b
      then rbind (Error ErrorError m' s) (\<lambda>s. no_macro (Error_Line e n s)) else g s))" if "ok_run snd s (g s)" for e n g
    using that by (intro ok_run_read) simp
  then show "ok_run snd s (if whileIfCurDepth po = whileIfStartDepth po then no_macro (Error ErrorError m s)
      else rbind (top_block s) (\<lambda>b. if is_while b
        then rbind (Error ErrorError m' s) (\<lambda>s. no_macro (Error_Line ErrorError ''note: Maybe because of an unmatched WHILE here'' s))
        else f s))"
    using assms [OF po] by (simp add: ok_run_no_macro ok_run_Error del: Error_Line_eq)
qed

lemma ok_run_endif: "ok_run snd s (c_endif s)"
  unfolding c_endif_def by (rule ok_run_in_if_block) (rule ok_run_pop)

lemma kb_FinalCheck: "kb id s (Decode_FinalCheck s)"
  by (auto simp: Decode_FinalCheck_def Let_def intro!: kb_bind [OF kb_Error'])

lemma kb_condition: "kb snd s (condition fuel msg b s)"
  unfolding condition_def
  by (rule kb_bind [OF kb_rd [OF evaluate_rd]]) (auto intro!: kb_snd_Error split: Value.split)

lemma kb_skip_label: "kb snd s (skip_label s)"
proof -
  have "blocks_of t = blocks_of s" if "Input_Match c b u = (d, t)" "Input_SymbolNoBar s = (n, u)" for c b u d n t
    using kb_input(5) [of s] kb_input(6) [of c b u] that by simp
  then show ?thesis
    by (auto simp: skip_label_def kb_SkipDefiningLabel Let_def split: prod.split)
qed

lemma kb_classify:
  assumes "\<And>s t v. token s = Some (t, v) \<Longrightarrow> blocks_of v = blocks_of s"
  shows "kb st3 s (classify token s)"
proof -
  have token: "kb st3 s (case token (Input_SkipWS u) of None \<Rightarrow> Inr (None, l, Input_SkipWS u) | Some (t, s) \<Rightarrow> Inr (Some t, l, s))"
    if "blocks_of u = blocks_of s" for u l
    using that assms [of "Input_SkipWS u"] by (auto split: option.split)
  show ?thesis unfolding classify_def Let_def
    by (rule kb_if, simp, rule kb_bind [OF kb_skip_label]) (simp only: split_beta token)
qed

lemma if_token_blocks: "if_token_at s = Some (t, v) \<Longrightarrow> blocks_of v = blocks_of s"
  by (auto simp: if_token_at_def match_either_def dest: blocks_keyword split: option.splits)

lemma while_token_blocks: "while_token_at s = Some (t, v) \<Longrightarrow> blocks_of v = blocks_of s"
  by (auto simp: while_token_at_def dest: blocks_keyword split: option.splits)

lemma kb_checks: "kb id s (spurious_check t s)" "kb id s (label_check l s)"
  by (simp_all add: spurious_check_def label_check_def Let_def kb_Error')

lemma kb_at_else: "kb snd s (at_else toDo s)" "kb snd s (at_elif fuel toDo s)"
  by (auto simp: at_else_def at_elif_def intro!: kb_snd_Error kb_bind [OF kb_condition] split: IfSkip_eToDo.split)


text \<open>A round of the loops, behind the line.\<close>

lemma ok_run_blocks: "blocks_of t = blocks_of s \<Longrightarrow> ok_run st t m \<Longrightarrow> ok_run st s m"
  using whileif_ok_blocks [of t s]
  by (simp add: ok_run_def same_below_def blocks_of_def map_tl) (metis (no_types, lifting) list.map_sel(1) whileif_ok_def)

lemma ok_run_checks:
  assumes "\<And>u. ok_run snd u (f u)"
  shows "ok_run snd s (rbind (spurious_check t s) (\<lambda>s. rbind (label_check l s) f))"
    "ok_run snd s (rbind (label_check l s) f)"
proof -
  have l: "ok_run snd v (rbind (label_check l v) f)" for v
    by (rule ok_run_bind [OF ok_run_kb [OF kb_checks(2)]]) (simp add: assms)
  show "ok_run snd s (rbind (label_check l s) f)" by (rule l)
  show "ok_run snd s (rbind (spurious_check t s) (\<lambda>s. rbind (label_check l s) f))"
    by (rule ok_run_bind [OF ok_run_kb [OF kb_checks(1)]]) (simp add: l)
qed

lemma ok_run_if_skip: "ok_run snd s (if_skip fuel n toDo nested s)"
proof (induction n arbitrary: toDo nested s)
  case (Suc n)
  have else_elif: "ok_run snd v (rbind m (\<lambda>(next_toDo, s). case next_toDo of None \<Rightarrow> Inr (False, s)
      | Some toDo \<Rightarrow> if_skip fuel n toDo 0 s))" if "kb snd v m" for v m
    by (rule ok_run_bind [OF ok_run_kb [OF that]]) (auto simp: ok_run_Inr Suc.IH split: option.split)
  have token: "ok_run snd v (case t of
        t_if \<Rightarrow> if_skip fuel n toDo (nested + 1) v
      | t_endif \<Rightarrow> if nested = 0 then c_endif v else if_skip fuel n toDo (nested - 1) v
      | _ \<Rightarrow>
          if nested \<noteq> 0 then if_skip fuel n toDo nested v
          else rbind (if t = t_else then at_else toDo v else at_elif fuel toDo v) (\<lambda>(next_toDo, s).
                 case next_toDo of
                   None \<Rightarrow> Inr (False, s)
                 | Some toDo \<Rightarrow> if_skip fuel n toDo 0 s))" for t v
    by (simp split: if_token.split add: Suc.IH ok_run_endif else_elif kb_at_else)
  have line: "ok_run snd u (rbind (classify if_token_at u) (\<lambda>(token, labelPresent, s).
      case token of None \<Rightarrow> if_skip fuel n toDo nested s
      | Some t \<Rightarrow>
          rbind (spurious_check t s) (\<lambda>s.
          rbind (label_check labelPresent s) (\<lambda>s.
            case t of
              t_if \<Rightarrow> if_skip fuel n toDo (nested + 1) s
            | t_endif \<Rightarrow> if nested = 0 then c_endif s else if_skip fuel n toDo (nested - 1) s
            | _ \<Rightarrow>
                if nested \<noteq> 0 then if_skip fuel n toDo nested s
                else rbind (if t = t_else then at_else toDo s else at_elif fuel toDo s) (\<lambda>(next_toDo, s).
                       case next_toDo of
                         None \<Rightarrow> Inr (False, s)
                       | Some toDo \<Rightarrow> if_skip fuel n toDo 0 s)))))" for u
    by (rule ok_run_bind [OF ok_run_kb [OF kb_classify [OF if_token_blocks]]])
      (auto simp: Suc.IH token intro!: ok_run_checks split: option.split)
  show ?case unfolding if_skip.simps
    by (rule ok_run_bind [OF ok_run_kb [OF kb_NextLine]]) (auto simp: line ok_run_Inr)
qed simp

lemma ok_run_If_Skip: "ok_run snd s (If_Skip fuel toDo s)"
  unfolding If_Skip_def by (rule ok_run_bind [OF ok_run_kb [OF kb_FinalCheck]]) (simp add: ok_run_if_skip)


lemma in_block_blocks: "blocks_of t = blocks_of s \<Longrightarrow> in_block t = in_block s"
  by (cases "gPOStack s"; cases "gPOStack t") (auto simp: in_block_def cur_po_def blocks_of_def block_range_def)

lemma ok_run_while_skip: "in_block s \<Longrightarrow> ok_run snd s (while_skip fuel n nested s)"
proof (induction n arbitrary: nested s)
  case (Suc n)
  have pop: "ok_run snd v (rbind (top_block v) (\<lambda>b. rbind (rassert (is_while b)) (\<lambda>_. Inr (False, pop_block v))))"
    if "in_block v" for v
    by (rule ok_run_read, rule ok_run_read) (use that ok_run_pop in \<open>auto simp: in_block_def\<close>)
  have token: "ok_run snd v (rbind (label_check l v) (\<lambda>s. case t of
        t_while \<Rightarrow> while_skip fuel n (nested + 1) s
      | t_wend \<Rightarrow>
          if nested = 0 then rbind (top_block s) (\<lambda>b. rbind (rassert (is_while b)) (\<lambda>_. Inr (False, pop_block s)))
          else while_skip fuel n (nested - 1) s))" if "in_block v" for t l v
  proof (rule ok_run_bind [OF ok_run_kb [OF kb_checks(2)]])
    fix w assume w: "label_check l v = Inr w"
    then have "in_block w" using kbD [OF kb_checks(2) w] in_block_blocks [of w v] that by simp
    then show "ok_run snd (id w) (case t of
        t_while \<Rightarrow> while_skip fuel n (nested + 1) w
      | t_wend \<Rightarrow>
          if nested = 0 then rbind (top_block w) (\<lambda>b. rbind (rassert (is_while b)) (\<lambda>_. Inr (False, pop_block w)))
          else while_skip fuel n (nested - 1) w)"
      by (simp split: while_token.split add: Suc.IH pop)
  qed
  have line: "ok_run snd u (rbind (classify while_token_at u) (\<lambda>(token, labelPresent, s).
      case token of None \<Rightarrow> while_skip fuel n nested s
      | Some t \<Rightarrow> rbind (label_check labelPresent s) (\<lambda>s. case t of
            t_while \<Rightarrow> while_skip fuel n (nested + 1) s
          | t_wend \<Rightarrow>
              if nested = 0 then rbind (top_block s) (\<lambda>b. rbind (rassert (is_while b)) (\<lambda>_. Inr (False, pop_block s)))
              else while_skip fuel n (nested - 1) s)))" if "in_block u" for u
  proof (rule ok_run_bind [OF ok_run_kb [OF kb_classify [OF while_token_blocks]]])
    fix x :: "while_token option \<times> bool \<times> asm"
    assume x: "classify while_token_at u = Inr x"
    have "in_block (st3 x)"
      using kbD [OF kb_classify [OF while_token_blocks] x] in_block_blocks [of "st3 x" u] that by simp
    then show "ok_run snd (st3 x) (case x of (token, labelPresent, s) \<Rightarrow>
      case token of None \<Rightarrow> while_skip fuel n nested s
      | Some t \<Rightarrow> rbind (label_check labelPresent s) (\<lambda>s. case t of
            t_while \<Rightarrow> while_skip fuel n (nested + 1) s
          | t_wend \<Rightarrow>
              if nested = 0 then rbind (top_block s) (\<lambda>b. rbind (rassert (is_while b)) (\<lambda>_. Inr (False, pop_block s)))
              else while_skip fuel n (nested - 1) s))"
      by (cases x) (auto simp: Suc.IH token split: option.split)
  qed
  have eof: "ok_run snd u (rbind (Error e m u) (\<lambda>s. rbind (Error_Line e' m' s) (\<lambda>s. Inr (False, Input_ThisInstead p s))))"
    for u e m e' m' p
    by (rule ok_run_kb) (auto intro!: kb_bind [OF kb_Error'])
  show ?case unfolding while_skip.simps
  proof (rule ok_run_bind [OF ok_run_kb [OF kb_NextLine]])
    fix x assume x: "Input_NextLine fuel eVarSubstNoWarning s = Inr x"
    have "in_block (snd x)" using kbD [OF kb_NextLine x] in_block_blocks [of "snd x" s] Suc.prems by simp
    then show "ok_run snd (snd x) (case x of (m, s) \<Rightarrow>
       if \<not> m
       then rbind (Error ErrorError ''Mismatched WHILE, did you forget WEND'' s) (\<lambda>s.
            rbind (Error_Line ErrorError ''note: WHILE started here'' s) (\<lambda>s. Inr (False, Input_ThisInstead [] s)))
       else
         rbind (classify while_token_at s) (\<lambda>(token, labelPresent, s).
           case token of None \<Rightarrow> while_skip fuel n nested s
           | Some t \<Rightarrow> rbind (label_check labelPresent s) (\<lambda>s. case t of
                   t_while \<Rightarrow> while_skip fuel n (nested + 1) s
                 | t_wend \<Rightarrow>
                     if nested = 0
                     then rbind (top_block s) (\<lambda>b. rbind (rassert (is_while b)) (\<lambda>_. Inr (False, pop_block s)))
                     else while_skip fuel n (nested - 1) s)))"
      by (cases x) (use line eof in simp)
  qed
qed simp

lemma ok_run_While_Skip: "in_block s \<Longrightarrow> ok_run snd s (While_Skip fuel s)"
  unfolding While_Skip_def
proof (rule ok_run_bind [OF ok_run_kb [OF kb_FinalCheck]])
  fix x assume "in_block s" and x: "Decode_FinalCheck s = Inr x"
  then have "in_block x" using kbD [OF kb_FinalCheck x] in_block_blocks [of x s] by simp
  then show "ok_run snd (id x) (while_skip fuel fuel 0 x)" by (simp add: ok_run_while_skip)
qed

lemma ok_run_else: "ok_run snd s (c_else fuel s)"
  unfolding c_else_def by (rule ok_run_in_if_block) (rule ok_run_If_Skip)

lemma ok_run_elif: "ok_run snd s (c_elif fuel s)"
proof -
  have "ok_run snd (Input_Rest s) (c_elif fuel s)"
    unfolding c_elif_def by (rule ok_run_in_if_block) (rule ok_run_If_Skip)
  then show ?thesis using ok_run_blocks [of "Input_Rest s" s] by simp
qed

lemma ok_run_c_if: "ok_run snd s (c_if fuel s)"
  unfolding c_if_def
proof (rule ok_run_read)
  fix po assume po: "cur_po s = Inr po"
  have *: "ok_run snd u (rbind (condition fuel m b u) (\<lambda>(b, s). if b then Inr (False, s) else If_Skip fuel td s))" for u m b td
    by (rule ok_run_bind [OF ok_run_kb [OF kb_condition]]) (auto simp: ok_run_Inr ok_run_If_Skip)
  have "ok_run snd s (rbind (push_block b s) (\<lambda>s. rbind (condition fuel m d s) (\<lambda>(b, s).
      if b then Inr (False, s) else If_Skip fuel td s)))" if "whileIfCurDepth po + 1 \<noteq> kMAX_WHILEIF_BLOCKS" for b m d td
    by (rule ok_run_bind [OF ok_run_push [OF po that]]) (simp only: id_apply *)
  then show "ok_run snd s (if whileIfCurDepth po + 1 = kMAX_WHILEIF_BLOCKS then too_many s
       else
         rbind (push_block (WhileIf_eIsIf (po_lineNum po)) s) (\<lambda>s.
         rbind (condition fuel ''IF expression must be boolean (treating as true)'' True s) (\<lambda>(b, s).
           if b then Inr (False, s) else If_Skip fuel eSkipToElseElifOrEndif s)))"
    by (simp add: too_many_def ok_run_no_macro ok_run_Error)
qed


lemma push_in_block:
  assumes "cur_po s = Inr po" and "push_block b s = Inr t" and "whileif_ok s"
  shows "in_block t"
proof -
  obtain pos where s: "gPOStack s = po # pos" using cur_po_stack [OF assms(1)] by blast
  note d = whileif_okD [OF assms(3) s]
  have "t = upd_po (whileIfCurDepth_update Suc) (upd_read (oWhileIfs_update (\<lambda>f. f(whileIfCurDepth po := b))) s)"
    using assms(2) push_block_stack [OF s d(2)] by simp
  then show ?thesis using d(1) by (simp add: in_block_def cur_po_def upd_po_def upd_read_def s)
qed

lemma ok_run_c_while: "ok_run snd s (c_while fuel s)"
proof (cases "whileif_ok s")
  case True
  have body: "ok_run snd u (rbind (condition fuel m d u) (\<lambda>(b, s). if b then Inr (False, s) else While_Skip fuel s))"
    if "in_block u" for u m d
  proof (rule ok_run_bind [OF ok_run_kb [OF kb_condition]])
    fix x assume x: "condition fuel m d u = Inr x"
    have "in_block (snd x)" using kbD [OF kb_condition x] in_block_blocks [of "snd x" u] that by simp
    then show "ok_run snd (snd x) (case x of (b, s) \<Rightarrow> if b then Inr (False, s) else While_Skip fuel s)"
      by (cases x) (simp add: ok_run_Inr ok_run_While_Skip)
  qed
  have push: "ok_run snd s (rbind (push_block b s) (\<lambda>s. rbind (condition fuel m d s) (\<lambda>(b, s).
      if b then Inr (False, s) else While_Skip fuel s)))"
    if "whileIfCurDepth po + 1 \<noteq> kMAX_WHILEIF_BLOCKS" "cur_po s = Inr po" for po b m d
    by (rule ok_run_bind [OF ok_run_push [OF that(2,1)]]) (simp add: body push_in_block [OF that(2) _ True])
  have reeval: "in_block s" if "is_reeval s = Inr True"
    using that by (auto simp: is_reeval_def in_block_def rbind_eq_Inr split: if_splits)
  have "ok_run snd s (if \<not> r \<and> whileIfCurDepth po + 1 = kMAX_WHILEIF_BLOCKS then too_many s
       else
         rbind (if r then Inr s else push_block (WhileIf_eIsWhile (po_lineNum po) (line_start po)) s) (\<lambda>s.
         rbind (condition fuel m d s) (\<lambda>(b, s). if b then Inr (False, s) else While_Skip fuel s)))"
    if "cur_po s = Inr po" "is_reeval s = Inr r" for po r m d
    using that reeval push [OF _ that(1)] by (cases r) (simp_all add: body too_many_def ok_run_no_macro ok_run_Error)
  then show ?thesis unfolding c_while_def by (intro ok_run_read) simp
qed (simp add: ok_run_def)

lemma ok_run_c_wend: "ok_run snd s (c_wend s)"
proof -
  have err: "ok_run snd s (rbind (Error e m s) (\<lambda>s. no_macro (Error_Line e' m' s)))" for e m e' m'
    by (rule ok_run_bind [OF ok_run_Error]) (simp_all add: ok_run_no_macro ok_run_Error)
  have "kb snd s (While_Rewind s)"
    unfolding While_Rewind_def
    by (intro kb_read) (auto simp: Let_def blocks_upd_po split: WhileIf_t.split)
  then have rewind: "ok_run snd s (While_Rewind s)" by (rule ok_run_kb)
  have "ok_run snd s (rbind (top_block s) (\<lambda>b. if \<not> is_while b
      then rbind (Error e m s) (\<lambda>s. no_macro (Error_Line e' m' s)) else While_Rewind s))" for e m e' m'
    by (rule ok_run_read) (use err rewind in \<open>simp del: Error_Line_eq\<close>)
  then show ?thesis unfolding c_wend_def
    by - (rule ok_run_read, rule ok_run_read, simp add: ok_run_no_macro ok_run_Error del: Error_Line_eq)
qed

section \<open>The end of a parsable object\<close>

lemma top_block_ok:
  assumes "whileif_ok s" and "gPOStack s = po # pos" and "whileIfCurDepth po \<noteq> 0"
  shows "top_block s = Inr (oWhileIfs (readVars s) (whileIfCurDepth po - 1))"
  using assms whileif_okD(2) [OF assms(1,2)] by (simp add: top_block_def cur_po_def get_block_def)

lemma blocks_cur: "blocks_of s = (w, (start, cur) # ds) \<Longrightarrow> \<exists>po pos. gPOStack s = po # pos
    \<and> (oWhileIfs (readVars s), oMacroListP (readVars s)) = w    \<and> whileIfStartDepth po = start \<and> whileIfCurDepth po = cur \<and> map block_range pos = ds"
  by (cases "gPOStack s") (auto simp: blocks_of_def block_range_def)

lemma pop_block_blocks: "blocks_of s = (w, (start, Suc cur) # ds) \<Longrightarrow> blocks_of (pop_block s) = (w, (start, cur) # ds)"
  by (drule blocks_cur) (auto simp: pop_block_def upd_po_def blocks_of_def block_range_def)

lemma whileif_ok_pop: "blocks_of s = (w, (start, Suc cur) # ds) \<Longrightarrow> start \<le> cur \<Longrightarrow> whileif_ok s \<Longrightarrow> whileif_ok (pop_block s)"
  using pop_block_blocks [of s w start cur ds]
  by (auto simp: whileif_ok_def blocks_of_def pop_block_def upd_po_def split: list.splits)

lemma pop_blocks_all:
  assumes "blocks_of s = (w, (start, start + n) # ds)" and "whileif_ok s"
  shows "\<not> crashes (pop_blocks n noCheck s)
    \<and> (\<forall>t. pop_blocks n noCheck s = Inr t \<longrightarrow> blocks_of t = (w, (start, start) # ds))"
  using assms
proof (induction n arbitrary: s)
  case (Suc n)
  have pop: "blocks_of (pop_block s) = (w, (start, start + n) # ds)" using pop_block_blocks Suc.prems(1) by simp
  have ok: "whileif_ok (pop_block s)" using whileif_ok_pop [of s w start "start + n" ds] Suc.prems by simp
  obtain po pos where "gPOStack s = po # pos" "whileIfCurDepth po = Suc (start + n)"
    using blocks_cur Suc.prems(1) by fastforce
  then have top: "\<exists>b. top_block s = Inr b" using top_block_ok [OF Suc.prems(2)] by simp
  let ?rest = "\<lambda>m. \<not> crashes (rbind m (pop_blocks n noCheck))
    \<and> (\<forall>t. rbind m (pop_blocks n noCheck) = Inr t \<longrightarrow> blocks_of t = (w, (start, start) # ds))"
  have step: "?rest m" if "kb id (pop_block s) m" "\<not> crashes m" for m
  proof (cases m)
    case (Inr t)
    then have "blocks_of t = blocks_of (pop_block s)" using kbD [OF that(1)] by simp
    then show ?thesis using Suc.IH [of t] pop ok whileif_ok_blocks [of t "pop_block s"] Inr by simp
  qed (use that(2) in simp)
  have noted: "kb id u (rbind (Error e m u) (Error_Line e' m'))" "\<not> crashes (rbind (Error e m u) (Error_Line e' m'))" for e m u e' m'
    by (auto intro!: kb_bind [OF kb_Error'] kb_Error' simp: crashes_rbind)
  have report: "?rest (if noCheck then Inr (pop_block s) else if c then rbind (Error e m (pop_block s)) (Error_Line e' m')
      else rbind (Error f k (pop_block s)) (Error_Line f' k'))" for c e m e' m' f k f' k'
    by (rule step) (use noted in \<open>simp_all del: Error_Line_eq\<close>)
  obtain b where b: "top_block s = Inr b" using top by blast
  show ?case unfolding pop_blocks.simps b rbind_Inr Let_def by (rule report)
qed simp

lemma PopIfWhile_all:
  assumes "whileif_ok s" and "gPOStack s = po # pos"
  shows "\<not> crashes (FS_PopIfWhile noCheck s)
    \<and> (\<forall>t. FS_PopIfWhile noCheck s = Inr t \<longrightarrow>
          blocks_of t = ((oWhileIfs (readVars s), oMacroListP (readVars s)),
            (whileIfStartDepth po, whileIfStartDepth po) # map block_range pos))"
proof -
  have "blocks_of s = ((oWhileIfs (readVars s), oMacroListP (readVars s)), (whileIfStartDepth po,
      whileIfStartDepth po + (whileIfCurDepth po - whileIfStartDepth po)) # map block_range pos)"
    using whileif_okD [OF assms] by (simp add: blocks_of_def assms(2) block_range_def)
  from pop_blocks_all [OF this assms(1)] show ?thesis
    using whileif_okD [OF assms] by (simp add: FS_PopIfWhile_def cur_po_def assms(2))
qed

lemma ok_run_PopIfWhile: "ok_run id s (FS_PopIfWhile noCheck s)"
proof (cases "whileif_ok s")
  case True
  then obtain po pos where s: "gPOStack s = po # pos" by (auto simp: whileif_ok_def neq_Nil_conv)
  have "whileif_ok t \<and> same_below s t" if "FS_PopIfWhile noCheck s = Inr t" for t
  proof -
    have "blocks_of t = ((oWhileIfs (readVars s), oMacroListP (readVars s)),
            (whileIfStartDepth po, whileIfStartDepth po) # map block_range pos)"
      using PopIfWhile_all [OF True s] that by simp
    from blocks_cur [OF this] show ?thesis using True whileif_okD [OF True s]
      by (auto simp: whileif_ok_def same_below_def s block_range_def)
  qed
  then show ?thesis by (simp add: ok_run_def)
qed (simp add: ok_run_def)

section \<open>The invariant\<close>

lemma ok_runD: "ok_run st s m \<Longrightarrow> whileif_ok s \<Longrightarrow> m = Inr x \<Longrightarrow> whileif_ok (st x) \<and> same_below s (st x)"
  by (simp add: ok_run_def)

lemma whileif_step_ok: "whileif_step s t \<Longrightarrow> whileif_ok s \<Longrightarrow> whileif_ok t \<and> same_below s t"
  by (induction rule: whileif_step.induct)
    (auto dest: ok_runD [OF ok_run_kb [OF kb_NextLine]] ok_runD [OF ok_run_c_if] ok_runD [OF ok_run_else]
      ok_runD [OF ok_run_elif] ok_runD [OF ok_run_endif] ok_runD [OF ok_run_c_while] ok_runD [OF ok_run_c_wend]
      ok_runD [OF ok_run_PopIfWhile])

text \<open>
  C5. The ranges of \<^verbatim>\<open>oWhileIfs\<close>.  Whatever the source does with conditional and repeated assembly, the range of each
  parsable object starts where the one below it ends and leaves room for a block, and the blocks of the objects below
  stay as they are.  At the end of an object all its blocks are removed, without a failed assertion or an access
  outside of the array.
\<close>

theorem whileif_invariant:
  assumes "whileif_step\<^sup>*\<^sup>* s t" and "whileif_ok s"
  shows "whileif_ok t \<and> same_below s t \<and> \<not> crashes (FS_PopIfWhile noCheck t)
    \<and> (\<forall>u. FS_PopIfWhile noCheck t = Inr u \<longrightarrow> snd (block_range (hd (gPOStack u))) = fst (block_range (hd (gPOStack s))))"
proof -
  have t: "whileif_ok t \<and> same_below s t" using assms
  proof (induction rule: rtranclp_induct)
    case (step t u)
    then show ?case using whileif_step_ok [of t u] same_below_trans [of s t u] by blast
  qed (simp add: same_below_def)
  then obtain po pos where po: "gPOStack t = po # pos" by (auto simp: whileif_ok_def neq_Nil_conv)
  have "whileIfStartDepth po = fst (block_range (hd (gPOStack s)))"
    using same_below_start [OF assms(2), of t] t po by (simp add: block_range_def)
  then show ?thesis using t PopIfWhile_all [OF conjunct1 [OF t] po, of noCheck]
    by (auto dest!: blocks_cur simp: block_range_def)
qed


theorem whileif_invariant_witness:
  "\<exists>t. c_if 10 (line_at ''{TRUE}'') = Inr (False, t) \<and> map block_range (gPOStack t) = [(0, 1)] \<and> whileif_ok t
    \<and> \<not> crashes (FS_PopIfWhile False t)"
proof -
  have "map_option (\<lambda>(m, t). (m, map block_range (gPOStack t))) (returned (c_if 10 (line_at ''{TRUE}''))) = Some (False, [(0, 1)])"
    by code_simp
  then obtain t where t: "c_if 10 (line_at ''{TRUE}'') = Inr (False, t)" "map block_range (gPOStack t) = [(0, 1)]"
    by (auto simp: map_option_case split: option.splits)
  have steps: "whileif_step\<^sup>*\<^sup>* (line_at ''{TRUE}'') t" using if_directive [OF t(1)] by (rule r_into_rtranclp)
  have ok: "whileif_ok (line_at ''{TRUE}'')" by code_simp
  note inv = whileif_invariant [OF steps ok, where noCheck = False]
  show ?thesis using t conjunct1 [OF inv] conjunct1 [OF conjunct2 [OF conjunct2 [OF inv]]]
    by (intro exI [of _ t] conjI)
qed

end
