(* ===== verification/Macros.thy ===== *)
theory Macros
  imports Conditional_Blocks
begin

text \<open>
  Macros, \<^verbatim>\<open>macros.c\<close>, and the stack of parsable objects of \<^verbatim>\<open>filestack.c\<close>.  A jump to \<^verbatim>\<open>lookforMEND\<close> is the
  result \<open>None\<close> of the function it is in.  What the union of a new parsable object holds beyond the fields of its type is
  never read; the model sets it to empty.  \<^verbatim>\<open>malloc()\<close> succeeds and \<^verbatim>\<open>size_t\<close> has 64 bits.  The \<^verbatim>\<open>memcmp()\<close> that looks a
  parameter up may read beyond the name of a parameter; what is behind it does not matter for the result.
\<close>

section \<open>Looking macros up\<close>

definition macro_matches :: "string \<Rightarrow> bool \<Rightarrow> Macro \<Rightarrow> bool" where
  "macro_matches name addSfxWildcard m \<longleftrightarrow>
     (let len = length name; n = length (mac_name m)
      in (n = len \<or> n < len \<and> suffixArg m \<or> len < n \<and> addSfxWildcard)
         \<and> take (min len n) name = take (min len n) (mac_name m))"

definition Macro_Find :: "string \<Rightarrow> bool \<Rightarrow> asm \<Rightarrow> Macro option" where
  "Macro_Find name addSfxWildcard s = find (macro_matches name addSfxWildcard) (oMacroListP (readVars s))"

definition Macro_GetSuffix :: "Macro \<Rightarrow> string option outcome" where
  "Macro_GetSuffix m =
     (let idx = (if labelArg m then 1 else 0)
      in rbind (rassert (if suffixArg m then idx < length (mac_args m) else idx \<le> length (mac_args m))) (\<lambda>_.
           Inr (if suffixArg m then Some (mac_args m ! idx) else None)))"

definition Macro_GetSuffixValue :: "PObject \<Rightarrow> string" where
  "Macro_GetSuffixValue po =
     (let m = po_macro po
      in if suffixArg m then arg_text (po_args po) (if labelArg m then 1 else 0) else [])"

definition Macro_PrepareForPhase :: "Phase_e \<Rightarrow> asm \<Rightarrow> asm" where
  "Macro_PrepareForPhase phase s =
     (if phase = eCleanUp then upd_read (oMacroListP_update (\<lambda>_. [])) s else s)"

datatype MKeyword_e = eMKeyword_MACRO | eMKeyword_MEND | eMKeyword_AnythingElse

definition Macro_GetKeyword :: "asm \<Rightarrow> MKeyword_e \<times> asm" where
  "Macro_GetKeyword s =
     (if \<not> isspace (Input_Look s) then (eMKeyword_AnythingElse, s)
      else
        let s = Input_SkipWS s
        in case Input_MatchKeyword ''MEND'' s of
             Some t \<Rightarrow> (eMKeyword_MEND, t)
           | None \<Rightarrow> (case Input_MatchKeyword ''MACRO'' s of
               Some t \<Rightarrow> (eMKeyword_MACRO, t)
             | None \<Rightarrow> (eMKeyword_AnythingElse, s)))"

section \<open>Defining macros\<close>

fun report_duplicates :: "nat \<Rightarrow> asm \<Rightarrow> asm outcome" where
  "report_duplicates 0 s = Inr s"
| "report_duplicates (Suc n) s =
     rbind (Error ErrorError ''Macro argument %s is already in use'' s) (report_duplicates n)"

definition AddMacroArg :: "Macro \<Rightarrow> string \<Rightarrow> string option \<Rightarrow> asm \<Rightarrow> (Macro \<times> asm) outcome" where
  "AddMacroArg m arg defValue s =
     rbind (report_duplicates (count_list (mac_args m) arg) s) (\<lambda>s.
     rbind (rassert (length (mac_args m) < MACRO_ARG_LIMIT)) (\<lambda>_.
       Inr (m\<lparr>mac_args := mac_args m @ [arg], defArgs := defArgs m @ [defValue]\<rparr>, s)))"

text \<open>\<^verbatim>\<open>memset()\<close> of the new macro.\<close>

definition blank_macro :: Macro where
  "blank_macro = \<lparr>mac_name = [], mac_fileName = [], mac_buf = [], labelArg = False, suffixArg = False, mac_args = [],
     defArgs = [], startLineNum = 0\<rparr>"

text \<open>The optional label of the prototype.\<close>

definition macro_label :: "asm \<Rightarrow> (Macro option \<times> asm) outcome" where
  "macro_label s =
     (let (dollar, t) = Input_Match (CHR ''$'') False s
      in if dollar
         then
           let (lbl, t) = Input_SymbolNoBar t
           in (case lbl of
                 None \<Rightarrow> Inr (Some blank_macro, t)
               | Some l \<Rightarrow> rbind (AddMacroArg (blank_macro\<lparr>labelArg := True\<rparr>) l None t) (\<lambda>(m, t). Inr (Some m, t)))
         else if \<not> isspace (Input_Look s)
         then rbind (Error ErrorError ''Illegal parameter start in macro definition'' s) (\<lambda>s. Inr (None, s))
         else Inr (Some blank_macro, s))"

definition macro_suffix :: "Macro \<Rightarrow> asm \<Rightarrow> (Macro option \<times> asm) outcome" where
  "macro_suffix m s =
     (let (dollar, s) = Input_Match (CHR ''$'') False s
      in if \<not> dollar then Inr (Some m, s)
         else
           rbind (Input_Symbol s) (\<lambda>(suffix, s).
             case suffix of
               None \<Rightarrow> rbind (Error ErrorError ''Missing macro name suffix'' s) (\<lambda>s. Inr (None, s))
             | Some x \<Rightarrow> rbind (AddMacroArg (m\<lparr>suffixArg := True\<rparr>) x None s) (\<lambda>(m, s). Inr (Some m, s))))"

text \<open>The report on a macro \<open>p\<close> that is already defined; \<^verbatim>\<open>Macro_GetSuffix\<close> is for the messages.\<close>

definition already_defined :: "Macro \<Rightarrow> string \<Rightarrow> Macro \<Rightarrow> asm \<Rightarrow> asm outcome" where
  "already_defined p name m s =
     (let n = length (mac_name p); len = length name
      in rbind (rassert (if suffixArg m then (len \<le> n \<and> \<not> suffixArg p) \<or> suffixArg p
                         else n = len \<and> \<not> suffixArg p \<or> n \<le> len \<and> suffixArg p)) (\<lambda>_.
         rbind (if n = len \<and> suffixArg p = suffixArg m
                then (if suffixArg m
                      then rbind (Macro_GetSuffix m) (\<lambda>_. Error ErrorError ''Macro '%.*s$%s' is already defined'' s)
                      else Error ErrorError (''Macro '%.*s' is already defined'') s)
                else if n \<le> len \<and> suffixArg p
                then rbind (Macro_GetSuffix p) (\<lambda>_.
                     if suffixArg m
                     then rbind (Macro_GetSuffix m) (\<lambda>_.
                          Error ErrorError (''Macro definition '%.*s$%s' is eclipsed by macro definition '%s$%s'' @ [CHR 0x27]) s)
                     else Error ErrorError ''Macro definition '%.*s' is eclipsed by macro definition '%s$%s'' s)
                else if len \<le> n \<and> suffixArg m
                then rbind (Macro_GetSuffix m) (\<lambda>_.
                     if suffixArg p
                     then rbind (Macro_GetSuffix p) (\<lambda>_.
                          Error ErrorError (''Macro definition '%.*s$%s' eclipses macro definition '%s$%s'' @ [CHR 0x27]) s)
                     else Error ErrorError (''Macro definition '%.*s$%s' eclipses macro definition '%s'' @ [CHR 0x27]) s)
                else Inl AssertFailed) (\<lambda>s.
         if suffixArg p
         then rbind (Macro_GetSuffix p) (\<lambda>_. Error_Line ErrorError ''note: Macro %s$%s was defined here'' s)
         else Error_Line ErrorError ''note: Macro %s was defined here'' s)))"

text \<open>The default value of a parameter.\<close>

definition param_default :: "asm \<Rightarrow> (string option \<times> asm) outcome" where
  "param_default s =
     (let (eq, s) = Input_Match (CHR ''='') False s
      in if \<not> eq then Inr (None, s)
         else
           let (quoted, s) = Input_Match (CHR 0x22) False s
           in if quoted then rbind (Input_GetString s) (\<lambda>(v, s). Inr (Some v, Input_SkipWS s))
              else let (v, s) = Input_Argument s in Inr (Some v, s))"

fun macro_params :: "nat \<Rightarrow> Macro \<Rightarrow> asm \<Rightarrow> (Macro \<times> asm) outcome" where
  "macro_params 0 m s = Inl OutOfFuel"
| "macro_params (Suc fuel) m s =
     (if Input_IsEolOrCommentStart s then Inr (m, s)
      else if length (mac_args m) = MACRO_ARG_LIMIT
      then rbind (Error ErrorError ''Too many arguments in macro definition'' s) (\<lambda>s. Inr (m, s))
      else
        let (dollar, s) = Input_Match (CHR ''$'') False s
        in if \<not> dollar
           then rbind (Error ErrorError ''Illegal parameter start in macro definition'' s) (\<lambda>s. Inr (m, s))
           else
             rbind (Input_Symbol s) (\<lambda>(arg, s).
               case arg of
                 None \<Rightarrow> rbind (Error ErrorError ''Failed to parse macro parameter'' s) (\<lambda>s. Inr (m, s))
               | Some arg \<Rightarrow>
                   rbind (param_default (Input_SkipWS s)) (\<lambda>(defValue, s).
                   rbind (AddMacroArg m arg defValue s) (\<lambda>(m, s).
                   let (comma, s) = Input_Match (CHR '','') True s
                   in if comma then macro_params fuel m s else Inr (m, s)))))"


section \<open>The body of a macro\<close>

text \<open>
  What follows a dollar: the number of the parameter it names, if it names one.  Without a dollar behind it or a
  parameter the input is taken back.
\<close>

definition param_index :: "string list \<Rightarrow> string option \<Rightarrow> nat option" where
  "param_index args token =
     (case token of None \<Rightarrow> None
      | Some t \<Rightarrow> map_option fst (find (\<lambda>(i, a). a = t) (zip [0..<length args] args)))"

definition body_param :: "string list \<Rightarrow> asm \<Rightarrow> (nat option \<times> asm) outcome" where
  "body_param args s =
     (let mark = Input_GetMark s; (dollar, s) = Input_Match (CHR ''$'') False s
      in if dollar then Inr (None, s)
         else
           let (bar, s) = Input_Match (CHR ''|'') False s;
               (token, s) = Input_SymbolNoBar s;
               (closed, s) = (if bar then Input_Match (CHR ''|'') False s else (True, s))
           in rbind (if \<not> closed then Error ErrorError ''Missing vertical bar'' s else Inr s) (\<lambda>s.
              let s = snd (Input_Match (CHR ''.'') False s)
              in case param_index args token of
                   Some i \<Rightarrow> Inr (Some i, s)
                 | None \<Rightarrow> Inr (None, Input_RollBackToMark mark s)))"

text \<open>A line: each parameter becomes one character; the line ends with a newline.\<close>

fun macro_chars :: "nat \<Rightarrow> string list \<Rightarrow> bool \<Rightarrow> asm \<Rightarrow> (string \<times> asm) outcome" where
  "macro_chars 0 args vbar s = Inl OutOfFuel"
| "macro_chars (Suc fuel) args vbar s =
     (let (c, s) = Input_GetC s
      in if c = NUL then Inr ([LF], s)
         else if c = CHR ''$'' \<and> \<not> vbar
         then
           rbind (body_param args s) (\<lambda>(i, s).
           rbind (macro_chars fuel args vbar s) (\<lambda>(cs, s).
             Inr ((case i of Some i \<Rightarrow> char_of (MACRO_ARG0 + i) | None \<Rightarrow> c) # cs, s)))
         else
           rbind (macro_chars fuel args (vbar \<noteq> (c = CHR ''|'')) s) (\<lambda>(cs, s). Inr (c # cs, s)))"

fun macro_body :: "nat \<Rightarrow> nat \<Rightarrow> string list \<Rightarrow> asm \<Rightarrow> (string \<times> asm) outcome" where
  "macro_body fuel 0 args s = Inl OutOfFuel"
| "macro_body fuel (Suc n) args s =
     rbind (Input_NextLine fuel eNoVarSubst s) (\<lambda>(more_lines, s).
       if \<not> more_lines then Error_Abort ''End of file found while looking for MEND'' s
       else
         let mark = Input_GetMark s; (keyword, s) = Macro_GetKeyword s
         in if keyword = eMKeyword_MEND then Inr ([], s)
            else
              rbind (if keyword = eMKeyword_MACRO then Error ErrorError ''Macro definitions cannot be nested'' s else Inr s) (\<lambda>s.
              let s = Input_RollBackToMark mark s
              in rbind (macro_chars (Suc (length (input_pos s))) args False s) (\<lambda>(line, s).
                 rbind (macro_body fuel n args s) (\<lambda>(rest, s). Inr (line @ rest, s)))))"

fun look_for_MEND :: "nat \<Rightarrow> nat \<Rightarrow> asm \<Rightarrow> (bool \<times> asm) outcome" where
  "look_for_MEND fuel 0 s = Inl OutOfFuel"
| "look_for_MEND fuel (Suc n) s =
     rbind (Input_NextLine fuel eNoVarSubst s) (\<lambda>(more_lines, s).
       if \<not> more_lines then Error_Abort ''End of file found while looking for MEND'' s
       else
         let (keyword, s) = Macro_GetKeyword s
         in if keyword = eMKeyword_MEND then Inr (False, s) else look_for_MEND fuel n s)"

text \<open>The name of the macro, when the prototype is one of a new macro.\<close>

definition macro_prototype :: "asm \<Rightarrow> (Macro option \<times> asm) outcome" where
  "macro_prototype s =
     rbind (macro_label s) (\<lambda>(m, s).
       case m of
         None \<Rightarrow> Inr (None, s)
       | Some m \<Rightarrow>
           rbind (Input_Symbol (Input_SkipWS s)) (\<lambda>(macroName, s).
             case macroName of
               None \<Rightarrow> Error_Abort ''Missing macro name'' s
             | Some name \<Rightarrow>
                 rbind (macro_suffix m s) (\<lambda>(m, s).
                   case m of
                     None \<Rightarrow> Inr (None, s)
                   | Some m \<Rightarrow>
                       (case Macro_Find name (suffixArg m) s of
                          Some p \<Rightarrow> rbind (already_defined p name m s) (\<lambda>s. Inr (None, s))
                        | None \<Rightarrow> Inr (Some (m\<lparr>mac_name := name\<rparr>), Input_SkipWS s)))))"

text \<open>The parameters and the body of a new macro.\<close>

definition define_macro :: "nat \<Rightarrow> Macro \<Rightarrow> asm \<Rightarrow> (bool \<times> asm) outcome" where
  "define_macro fuel m s =
     rbind (macro_params (Suc MACRO_ARG_LIMIT) m s) (\<lambda>(m, s).
     rbind (Decode_FinalCheck s) (\<lambda>s.
       let start = FS_GetCurLineNumber s
       in rbind (macro_body fuel fuel (mac_args m) s) (\<lambda>(buf, s).
            let m = m\<lparr>startLineNum := start, mac_fileName := FS_GetCurFileName s, mac_buf := buf\<rparr>
            in Inr (False, upd_read (oMacroListP_update (\<lambda>ms. m # ms)) s))))"

definition c_macro :: "nat \<Rightarrow> asm \<Rightarrow> (bool \<times> asm) outcome" where
  "c_macro fuel s =
     (if gPhase s = ePassTwo then look_for_MEND fuel fuel s
      else
        let s = Input_SkipWS s
        in rbind (if Input_IsEolOrCommentStart s then Inr s else Error ErrorError ''Spurious characters following MACRO'' s) (\<lambda>s.
           rbind (Input_NextLine fuel eNoVarSubst s) (\<lambda>(more_lines, s).
             if \<not> more_lines then Error_Abort ''End of file found within macro definition'' s
             else
               rbind (macro_prototype s) (\<lambda>(m, s).
                 case m of None \<Rightarrow> look_for_MEND fuel fuel s | Some m \<Rightarrow> define_macro fuel m s))))"

section \<open>The stack of parsable objects\<close>

definition cur_depth :: "asm \<Rightarrow> nat" where
  "cur_depth s = (case gPOStack s of [] \<Rightarrow> 0 | po # _ \<Rightarrow> whileIfCurDepth po)"

definition push_object :: "(PObject \<Rightarrow> PObject) \<Rightarrow> asm \<Rightarrow> asm" where
  "push_object f s =
     s\<lparr>gPOStack := f \<lparr>po_type = POType_eFile, po_text = [], po_pos = 0, po_macro = blank_macro, po_curPtr = 0,
         po_args = [], varListP = [], optDirective = 0, po_fileName = [], po_lineNum = 0,
         whileIfCurDepth = cur_depth s, whileIfStartDepth = cur_depth s, lastLineSize = 0\<rparr> # gPOStack s\<rparr>"

definition too_deep :: "asm \<Rightarrow> bool" where
  "too_deep s \<longleftrightarrow> length (gPOStack s) = PARSEOBJECT_STACK_SIZE"

definition FS_PushMacroPObject :: "Macro \<Rightarrow> string option list \<Rightarrow> asm \<Rightarrow> asm outcome" where
  "FS_PushMacroPObject m args s =
     (if too_deep s then Error_Abort ''Maximum file/macro nesting level reached (%d)'' s
      else
        rbind (rassert (gPOStack s \<noteq> [])) (\<lambda>_.
          Inr (push_object (\<lambda>po. po\<lparr>po_type := POType_eMacro, po_macro := m, po_args := args,
                 optDirective := gOpt_DirectiveValue s, po_fileName := mac_fileName m, po_lineNum := startLineNum m\<rparr>) s)))"

definition FS_SetFileCacheSize :: "u32 \<Rightarrow> asm \<Rightarrow> asm" where
  "FS_SetFileCacheSize sizeMByte = upd_read (oFileCacheSize_update (\<lambda>_. unat sizeMByte * 1024 * 1024))"

text \<open>A file is put into the cache when it fits and all of it, at least a byte, can be read.\<close>

definition CachedFile_Lookup :: "ASFile \<Rightarrow> asm \<Rightarrow> string option \<times> asm" where
  "CachedFile_Lookup asFile s =
     (case map_of (oCachedFileListP (readVars s)) (canonName asFile) of
        Some str \<Rightarrow> (Some str, s)
      | None \<Rightarrow>
          if oFileCacheSize (readVars s) < asf_size asFile then (None, s)
          else
            (case host_file s (canonName asFile) of
               None \<Rightarrow> (None, s)
             | Some str \<Rightarrow>
                 if asf_size asFile = 0 \<or> length str < asf_size asFile then (None, s)
                 else
                   let str = take (asf_size asFile) str
                   in (Some str, upd_read (\<lambda>r. r\<lparr>oFileCacheSize := oFileCacheSize r - asf_size asFile,
                         oCachedFileListP := (canonName asFile, str) # oCachedFileListP r\<rparr>)
                       (FS_StoreFileName (canonName asFile) s))))"

definition FS_PushFilePObject :: "string \<Rightarrow> asm \<Rightarrow> (bool \<times> asm) outcome" where
  "FS_PushFilePObject fileName s =
     (if too_deep s then Error_Abort ''Maximum file/macro nesting level reached (%d)'' s
      else
        (case Include_Find s fileName of
          None \<Rightarrow> rbind (Error ErrorError (''Cannot find file '' @ [CHR 0x22] @ ''%s'' @ [CHR 0x22]) s) (\<lambda>s. Inr (True, s))
        | Some asFile \<Rightarrow>
            let (cached, s) = CachedFile_Lookup asFile s;
                push = (\<lambda>ty str. push_object (\<lambda>po. po\<lparr>po_type := ty, po_text := str, po_fileName := canonName asFile\<rparr>)
                          (FS_StoreFileName (canonName asFile) s))
            in case cached of
                 Some str \<Rightarrow> Inr (False, push POType_eCachedFile str)
               | None \<Rightarrow>
                   (case host_file s (canonName asFile) of
                      None \<Rightarrow> rbind (Error ErrorError (''Cannot open file '' @ [CHR 0x22] @ ''%s'' @ [CHR 0x22]) s) (\<lambda>s. Inr (True, s))
                    | Some str \<Rightarrow> Inr (False, push POType_eFile str))))"

text \<open>The end of a parsable object.  What is freed and set to NULL goes with the object.\<close>

definition FS_PopFilePObject :: "bool \<Rightarrow> asm \<Rightarrow> asm outcome" where
  "FS_PopFilePObject noCheck s =
     rbind (cur_po s) (\<lambda>po. rbind (rassert (po_type po \<noteq> POType_eMacro)) (\<lambda>_. FS_PopIfWhile noCheck s))"

definition FS_PopMacroPObject :: "bool \<Rightarrow> asm \<Rightarrow> asm outcome" where
  "FS_PopMacroPObject noCheck s =
     rbind (cur_po s) (\<lambda>po.
     rbind (rassert (po_type po = POType_eMacro)) (\<lambda>_.
     rbind (FS_PopIfWhile noCheck s) (\<lambda>s.
     rbind (Var_RestoreLocals (varListP po) s) (\<lambda>s.
       Inr (s\<lparr>gOpt_DirectiveValue := optDirective po\<rparr>)))))"

definition FS_PopPObject :: "bool \<Rightarrow> asm \<Rightarrow> asm outcome" where
  "FS_PopPObject noCheck s =
     (case gPOStack s of
        [] \<Rightarrow> Inr s
      | po # _ \<Rightarrow>
          rbind (case po_type po of
                   POType_eMacro \<Rightarrow> rbind (Local_FinishMacro noCheck s) (FS_PopMacroPObject noCheck)
                 | _ \<Rightarrow> FS_PopFilePObject noCheck s) (\<lambda>s.
            Inr (s\<lparr>gPOStack := tl (gPOStack s)\<rparr>)))"

section \<open>Calling macros\<close>

text \<open>An argument; a single bar stands for the default value, which must exist.\<close>

definition strip_spaces :: "string \<Rightarrow> string" where
  "strip_spaces str = rev (dropWhile isspace (rev str))"

definition call_arg :: "Macro \<Rightarrow> nat \<Rightarrow> asm \<Rightarrow> (string \<times> asm) outcome" where
  "call_arg m marg s =
     (let (quoted, s) = Input_Match (CHR 0x22) False s
      in rbind (if quoted then Input_GetString s
                else let (a, s) = Input_Argument s in Inr (strip_spaces a, s)) (\<lambda>(arg, s).
         if arg = ''|''
         then (case defArgs m ! marg of None \<Rightarrow> Inl Undefined | Some v \<Rightarrow> Inr (v, s))
         else Inr (arg, s)))"

text \<open>The arguments from the number of those that are known on; none when there are too many.\<close>

fun call_args :: "nat \<Rightarrow> Macro \<Rightarrow> bool \<Rightarrow> string option list \<Rightarrow> asm \<Rightarrow> (string option list option \<times> asm) outcome" where
  "call_args 0 m tryEmptyParam args s = Inl OutOfFuel"
| "call_args (Suc fuel) m tryEmptyParam args s =
     (if \<not> tryEmptyParam \<and> Input_IsEolOrCommentStart s then Inr (Some args, s)
      else if length args = length (mac_args m)
      then rbind (Error ErrorError ''Too many macro arguments'' s) (\<lambda>s.
           rbind (Error_Line ErrorWarning ''note: Macro %.*s was defined here'' s) (\<lambda>s. Inr (None, s)))
      else
        rbind (call_arg m (length args) s) (\<lambda>(arg, s).
        let args = args @ [Some arg]; (comma, s) = Input_Match (CHR '','') True (Input_SkipWS s)
        in if comma then call_args fuel m True args s else Inr (Some args, s)))"

text \<open>The label and the suffix.\<close>

definition label_text :: "Lex \<Rightarrow> string option" where
  "label_text label = (case label of LexId i \<Rightarrow> Some i | LexLocalLabel i \<Rightarrow> Some i | _ \<Rightarrow> None)"

definition label_arg :: "Macro \<Rightarrow> Lex \<Rightarrow> asm \<Rightarrow> (string option list \<times> asm) outcome" where
  "label_arg m label s =
     (case label_text label of
        Some l \<Rightarrow>
          if labelArg m then Inr ([Some l], s)
          else
            rbind (Error ErrorWarning ''Label argument is ignored by macro %.*s'' s) (\<lambda>s.
            rbind (Error_Line ErrorWarning ''note: Macro %.*s was defined here'' s) (\<lambda>s. Inr ([], s)))
      | None \<Rightarrow> Inr (if labelArg m then [None] else [], s))"

definition suffix_arg :: "Macro \<Rightarrow> string \<Rightarrow> string option list outcome" where
  "suffix_arg m name =
     (let n = length (mac_name m)
      in rbind (rassert (n \<le> length name)) (\<lambda>_.
         if n < length name then rbind (rassert (suffixArg m)) (\<lambda>_. Inr [Some (drop n name)])
         else Inr (if suffixArg m then [None] else [])))"

definition Macro_Call :: "string \<Rightarrow> Lex \<Rightarrow> asm \<Rightarrow> (bool \<times> asm) outcome" where
  "Macro_Call macroName label s =
     (case Macro_Find macroName False s of
        None \<Rightarrow> Inr (True, s)
      | Some m \<Rightarrow>
          rbind (label_arg m label s) (\<lambda>(lbl, s).
          rbind (suffix_arg m macroName) (\<lambda>suffix.
          rbind (call_args (Suc MACRO_ARG_LIMIT) m False (lbl @ suffix) (Input_SkipWS s)) (\<lambda>(args, s).
            case args of
              None \<Rightarrow> Inr (False, s)
            | Some args \<Rightarrow>
                rbind (FS_PushMacroPObject m (args @ replicate (MACRO_ARG_LIMIT - length args) None) s) (\<lambda>s. Inr (False, s))))))"

definition c_mexit :: "asm \<Rightarrow> (bool \<times> asm) outcome" where
  "c_mexit s =
     rbind (cur_po s) (\<lambda>po.
       if po_type po \<noteq> POType_eMacro then no_macro (Error ErrorError ''MEXIT found outside a macro'' s)
       else no_macro (FS_PopPObject True s))"

definition c_mend :: "asm \<Rightarrow> (bool \<times> asm) outcome" where
  "c_mend s = no_macro (Error ErrorError ''MEND found outside a macro'' s)"

section \<open>The next line of the source\<close>

fun ASM_NextLine :: "nat \<Rightarrow> nat \<Rightarrow> asm \<Rightarrow> (bool \<times> asm) outcome" where
  "ASM_NextLine fuel 0 s = Inl OutOfFuel"
| "ASM_NextLine fuel (Suc n) s =
     (if gPOStack s = [] then Inr (False, s)
      else
        rbind (Input_NextLine fuel eVarSubst s) (\<lambda>(found, s).
          if found then Inr (True, s)
          else
            rbind (cur_po s) (\<lambda>po.
            rbind (if po_type po \<noteq> POType_eMacro then Error_Line ErrorWarning ''No END found'' s else Inr s) (\<lambda>s.
            rbind (FS_PopPObject False s) (ASM_NextLine fuel n)))))"

end
