(* ===== verification/Macro_Names.thy ===== *)
theory Macro_Names
  imports Macros "HOL-Library.Sublist"
begin

text \<open>
  The names of macros, which may be prefixes of what calls them: \<^verbatim>\<open>c_macro\<close> keeps every call unambiguous.
\<close>

section \<open>No call is ambiguous\<close>

text \<open>The macros a name calls.\<close>

definition called :: "string \<Rightarrow> Macro list \<Rightarrow> Macro list" where
  "called name ms = filter (macro_matches name False) ms"

definition macro_wf :: "Macro \<Rightarrow> bool" where
  "macro_wf m \<longleftrightarrow>
     length (defArgs m) = length (mac_args m) \<and> length (mac_args m) \<le> MACRO_ARG_LIMIT
     \<and> (if labelArg m then 1 else 0) + (if suffixArg m then 1 else 0) \<le> length (mac_args m)"

definition macros_ok :: "Macro list \<Rightarrow> bool" where
  "macros_ok ms \<longleftrightarrow> (\<forall>name. length (called name ms) \<le> 1) \<and> (\<forall>m\<in>set ms. macro_wf m)"

text \<open>The lines that follow a \<^verbatim>\<open>MACRO\<close>, in pass one.\<close>

definition macro_source :: asm where
  "macro_source = (reading ('' f$s $p'' @ [LF] @ ''$p.b'' @ [LF] @ '' MEND'' @ [LF]))\<lparr>gPhase := ePassOne\<rparr>"

lemma macro_wf_text [simp]: "macro_wf (m\<lparr>startLineNum := n, mac_fileName := f, mac_buf := t\<rparr>) = macro_wf m"
  by (simp add: macro_wf_def)

lemma matches_call: "macro_matches name False m \<longleftrightarrow>
    take (length (mac_name m)) name = mac_name m \<and> (length (mac_name m) = length name \<or> suffixArg m)"
  by (auto simp: macro_matches_def Let_def min_def)

lemma matches_prefix: "macro_matches name False m \<longleftrightarrow>
    prefix (mac_name m) name \<and> (mac_name m = name \<or> suffixArg m)"
  by (auto simp: matches_call prefix_def) (metis append_take_drop_id)

lemma matches_wild: "macro_matches name True m \<longleftrightarrow>
    macro_matches name False m \<or> prefix name (mac_name m)"
  unfolding matches_prefix
  by (auto simp: macro_matches_def Let_def min_def prefix_def) (metis append_take_drop_id)+

text \<open>If a name calls both the new macro and an old one, the old one was found.\<close>

lemma clash_found:
  assumes "macro_matches name False m" and "macro_matches name False p"
  shows "macro_matches (mac_name m) (suffixArg m) p"
proof -
  have m: "prefix (mac_name m) name" "mac_name m = name \<or> suffixArg m"
    and p: "prefix (mac_name p) name" "mac_name p = name \<or> suffixArg p"
    using assms by (simp_all add: matches_prefix)
  consider "prefix (mac_name p) (mac_name m)" | "prefix (mac_name m) (mac_name p)"
    using prefix_same_cases [OF m(1) p(1)] by blast
  then show ?thesis
  proof cases
    case 1
    then have "macro_matches (mac_name m) False p"
      using m(1) p(2) by (auto simp: matches_prefix dest: prefix_order.antisym)
    then show ?thesis by (cases "suffixArg m") (simp_all add: matches_wild)
  next
    case 2
    show ?thesis
    proof (cases "suffixArg m")
      case True
      with 2 show ?thesis by (simp add: matches_wild)
    next
      case False
      with m have "mac_name m = name" by simp
      with assms(2) False show ?thesis by simp
    qed
  qed
qed

lemma macros_ok_Cons:
  assumes "macros_ok ms" and "find (macro_matches (mac_name m) (suffixArg m)) ms = None" and "macro_wf m"
  shows "macros_ok (m # ms)"
proof -
  have "length (called name (m # ms)) \<le> 1" for name
  proof (cases "macro_matches name False m")
    case True
    then have "called name ms = []"
      using clash_found [OF True] assms(2) by (auto simp: called_def filter_empty_conv find_None_iff)
    then show ?thesis by (simp add: called_def)
  qed (use assms(1) in \<open>simp add: macros_ok_def called_def\<close>)
  then show ?thesis using assms(1,3) by (simp add: macros_ok_def)
qed

lemma called_find:
  assumes "macros_ok ms"
  shows "find (macro_matches name False) ms = Some m \<longleftrightarrow> m \<in> set ms \<and> macro_matches name False m"
proof -
  have "\<exists>x. set (called name ms) \<subseteq> {x}"
    using assms by (cases "called name ms") (auto simp: macros_ok_def dest!: spec [of _ name])
  then obtain x where "set (called name ms) \<subseteq> {x}" by blast
  moreover have "find (macro_matches name False) ms = Some m \<Longrightarrow> m \<in> set (called name ms)" for m
    by (auto simp: called_def find_Some_iff)
  moreover have "find (macro_matches name False) ms = None \<Longrightarrow> m \<notin> set (called name ms)"
    by (auto simp: called_def find_None_iff)
  ultimately show ?thesis by (cases "find (macro_matches name False) ms") (auto simp: called_def)
qed

text \<open>The report on a clash.\<close>

lemma GetSuffix_wf: "macro_wf m \<Longrightarrow> \<exists>x. Macro_GetSuffix m = Inr x"
  by (cases "mac_args m"; cases "tl (mac_args m)") (auto simp: Macro_GetSuffix_def macro_wf_def Let_def split: if_splits)

lemma already_defined_reports:
  assumes "Macro_Find name (suffixArg m) s = Some p" and "macro_wf p" and "macro_wf m"
  shows "\<not> crashes (already_defined p name m s)"
proof -
  have match: "macro_matches name (suffixArg m) p" using assms(1) by (auto simp: Macro_Find_def find_Some_iff)
  obtain x y where "Macro_GetSuffix m = Inr x" "Macro_GetSuffix p = Inr y" using GetSuffix_wf assms(2,3) by blast
  then show ?thesis using match
    by (auto simp: already_defined_def Let_def crashes_rbind macro_matches_def)
qed


text \<open>Reading the definition leaves the list alone, up to the new macro.\<close>

lemma blocks_macros: "blocks_of t = blocks_of s \<Longrightarrow> oMacroListP (readVars t) = oMacroListP (readVars s)"
  by (simp add: blocks_of_def)

lemma kb_report_duplicates: "kb id s (report_duplicates n s)"
proof (induction n arbitrary: s)
  case (Suc n)
  have "kb id u (rbind (Error e m u) (report_duplicates n))" for u e m
    by (rule kb_bind [OF kb_Error]) (simp only: id_apply kb_cong [OF _ Suc.IH])
  then show ?case unfolding report_duplicates.simps .
qed (simp add: kb_Inr)

lemma kb_AddMacroArg: "kb snd s (AddMacroArg m arg v s)"
  unfolding AddMacroArg_def by (rule kb_bind [OF kb_report_duplicates], rule kb_read) simp

lemma AddMacroArg_result:
  assumes "AddMacroArg m arg v s = Inr (m', t)"
  shows "m' = m\<lparr>mac_args := mac_args m @ [arg], defArgs := defArgs m @ [v]\<rparr>" "length (mac_args m) < MACRO_ARG_LIMIT"
  using assms by (auto simp: AddMacroArg_def rbind_eq_Inr)

lemma AddMacroArg_wf: "AddMacroArg m arg v s = Inr (m', t) \<Longrightarrow> macro_wf m \<Longrightarrow> macro_wf m'"
  using AddMacroArg_result [of m arg v s m' t] by (simp add: macro_wf_def)

lemma kb_input_more [simp]: "blocks_of (snd (Input_Argument s)) = blocks_of s" "blocks_of (Input_RollBackToMark mark s) = blocks_of s"
  "blocks_of (snd (Input_GetC s)) = blocks_of s"
  by (simp_all add: Input_Argument_def Input_RollBackToMark_def Input_GetC_def Let_def)

lemma kb_macro_label: "kb snd s (macro_label s)"
  unfolding macro_label_def Let_def
  by (auto simp: split_beta intro!: kb_snd_Error kb_bind [OF kb_cong [OF _ kb_AddMacroArg]] split: option.split)

lemma kb_macro_suffix: "kb snd s (macro_suffix m s)"
  unfolding macro_suffix_def Let_def
  by (auto simp: split_beta intro!: kb_snd_Error kb_bind [OF kb_cong [OF _ kb_Symbol]] kb_bind [OF kb_cong [OF _ kb_AddMacroArg]] split: option.split)


lemma kb_Error_Line: "blocks_of u = blocks_of s \<Longrightarrow> kb id s (Error_Line e m u)"
  unfolding Error_Line_eq by (rule kb_Error')

lemma kb_already_defined: "kb id s (already_defined p name m s)"
  unfolding already_defined_def Let_def
  by (intro kb_read kb_bind [of id s] kb_if kb_Error kb_Error_Line kb_Inl) simp_all

lemma kb_GetString: "kb snd s (Input_GetString s)"
  using GetString_leaves [where s = s and u = s and Q = "\<lambda>_ _. True"] by (simp add: same_prog_def kb_leaves)

lemma kb_param_default: "kb snd s (param_default s)"
  unfolding param_default_def Let_def
  by (auto simp: split_beta intro!: kb_bind [OF kb_cong [OF _ kb_GetString]])

lemma kb_macro_params: "kb snd s (macro_params fuel m s)"
proof (induction fuel arbitrary: m s)
  case (Suc fuel)
  have again: "kb snd s (macro_params fuel m' u)" if "blocks_of u = blocks_of s" for m' u
    using kb_cong [OF that Suc.IH] .
  show ?case
    unfolding macro_params.simps Let_def
    by (auto simp: split_beta intro!: kb_snd_Error again kb_bind [OF kb_cong [OF _ kb_Symbol]]
      kb_bind [OF kb_cong [OF _ kb_param_default]] kb_bind [OF kb_cong [OF _ kb_AddMacroArg]] split: option.split)
qed simp

lemma kb_body_param: "kb snd s (body_param args s)"
  unfolding body_param_def Let_def
  by (auto simp: split_beta intro!: kb_bind [OF kb_Error', of _ s] split: option.split)

lemma kb_macro_chars: "kb snd s (macro_chars fuel args vbar s)"
proof (induction fuel arbitrary: vbar s)
  case (Suc fuel)
  have again: "kb snd s (macro_chars fuel args b u)" if "blocks_of u = blocks_of s" for b u
    using kb_cong [OF that Suc.IH] .
  show ?case
    unfolding macro_chars.simps Let_def
    by (auto simp: split_beta intro!: kb_bind [OF again] kb_bind [OF kb_cong [OF _ kb_body_param]])
qed simp

lemma blocks_GetKeyword [simp]: "blocks_of (snd (Macro_GetKeyword s)) = blocks_of s"
  by (auto simp: Macro_GetKeyword_def Let_def dest!: blocks_keyword split: option.split)

lemma kb_macro_body: "kb snd s (macro_body fuel n args s)"
proof (induction n arbitrary: s)
  case (Suc n)
  have again: "kb snd s (macro_body fuel n args u)" if "blocks_of u = blocks_of s" for u
    using kb_cong [OF that Suc.IH] .
  show ?case
    unfolding macro_body.simps Let_def
    by (auto simp: split_beta Error_Abort_def simp del: macro_chars.simps intro!: kb_bind [OF kb_NextLine] kb_bind [OF kb_Error', of _ s]
      kb_bind [OF kb_cong [OF _ kb_macro_chars]] kb_bind [OF again])
qed simp

lemma kb_look_for_MEND: "kb snd s (look_for_MEND fuel n s)"
proof (induction n arbitrary: s)
  case (Suc n)
  have again: "kb snd s (look_for_MEND fuel n u)" if "blocks_of u = blocks_of s" for u
    using kb_cong [OF that Suc.IH] .
  show ?case
    unfolding look_for_MEND.simps Let_def
    by (auto simp: split_beta Error_Abort_def intro!: kb_bind [OF kb_NextLine] again)
qed simp


lemma kb_macro_prototype: "kb snd s (macro_prototype s)"
  unfolding macro_prototype_def
  by (auto simp: Error_Abort_def intro!: kb_bind [OF kb_macro_label] kb_bind [OF kb_cong [OF _ kb_Symbol]] kb_bind [OF kb_cong [OF _ kb_macro_suffix]]
    kb_bind [OF kb_cong [OF _ kb_already_defined]] split: option.split)

lemma macro_label_result:
  assumes "macro_label s = Inr (Some m, t)"
  shows "length (mac_args m) = (if labelArg m then 1 else 0)" and "length (defArgs m) = length (mac_args m)" and "\<not> suffixArg m"
  using assms
  by (auto simp: macro_label_def Let_def split_beta rbind_eq_Inr blank_macro_def split: if_splits option.splits dest!: AddMacroArg_result(1))

lemma macro_suffix_result:
  assumes "macro_suffix m s = Inr (Some m', t)"
  shows "m' = m \<or> suffixArg m' \<and> labelArg m' = labelArg m \<and> length (mac_args m') = Suc (length (mac_args m))
    \<and> length (defArgs m') = Suc (length (defArgs m))"
  using assms
  by (auto simp: macro_suffix_def Let_def split_beta rbind_eq_Inr split: if_splits option.splits dest!: AddMacroArg_result(1))

lemma macro_prototype_new:
  assumes "macro_prototype s = Inr (Some m, t)"
  shows "macro_wf m" and "find (macro_matches (mac_name m) (suffixArg m)) (oMacroListP (readVars s)) = None"
proof -
  obtain m1 s1 name s2 m2 s3 where run: "macro_label s = Inr (Some m1, s1)" "Input_Symbol (Input_SkipWS s1) = Inr (Some name, s2)"
    "macro_suffix m1 s2 = Inr (Some m2, s3)" "Macro_Find name (suffixArg m2) s3 = None" "m = m2\<lparr>mac_name := name\<rparr>"
    using assms by (auto simp: macro_prototype_def rbind_eq_Inr Error_Abort_def split: option.splits)
  have "blocks_of s3 = blocks_of s"
    using kbD [OF kb_macro_label run(1)] kbD [OF kb_Symbol run(2)] kbD [OF kb_macro_suffix run(3)] by simp
  then show "find (macro_matches (mac_name m) (suffixArg m)) (oMacroListP (readVars s)) = None"
    using run(4,5) blocks_macros [of s3 s] by (simp add: Macro_Find_def)
  show "macro_wf m"
    using macro_label_result [OF run(1)] macro_suffix_result [OF run(3)] run(5)
    by (elim disjE) (simp_all add: macro_wf_def MACRO_ARG_LIMIT_def split: if_splits)
qed

lemma macro_params_result:
  "macro_params fuel m s = Inr (m', t) \<Longrightarrow> macro_wf m
   \<Longrightarrow> macro_wf m' \<and> mac_name m' = mac_name m \<and> suffixArg m' = suffixArg m"
proof (induction fuel arbitrary: m s)
  case (Suc fuel)
  show ?case
  proof (cases "m' = m")
    case False
    then obtain arg d u v n w where run: "AddMacroArg m arg d u = Inr (n, v)" "n = m' \<or> macro_params fuel n w = Inr (m', t)"
      using Suc.prems(1) by (simp add: Let_def split_beta rbind_eq_Inr split: if_splits option.splits) blast+
    then have "macro_wf n \<and> mac_name n = mac_name m \<and> suffixArg n = suffixArg m"
      using AddMacroArg_wf Suc.prems(2) AddMacroArg_result(1) by fastforce
    then show ?thesis using run(2) Suc.IH by metis
  qed (use Suc.prems(2) in simp)
qed simp


text \<open>What \<^verbatim>\<open>c_macro\<close> does to the list; the blocks stay.\<close>

lemma c_macro_blocks:
  assumes "c_macro fuel s = Inr (b, t)"
  shows "blocks_of t = blocks_of s
    \<or> (\<exists>m. blocks_of t = ((oWhileIfs (readVars s), m # oMacroListP (readVars s)), map block_range (gPOStack s)) \<and> macro_wf m
         \<and> find (macro_matches (mac_name m) (suffixArg m)) (oMacroListP (readVars s)) = None)"
proof -
  have skip: "blocks_of t = blocks_of s"
    if "look_for_MEND fuel fuel u = Inr (b, t)" "blocks_of u = blocks_of s" for u
    using kbD [OF kb_look_for_MEND that(1)] that(2) by simp
  show ?thesis
  proof (cases "gPhase s = ePassTwo")
    case True
    then show ?thesis using skip [of s] assms by (simp add: c_macro_def)
  next
    case False
    let ?s = "Input_SkipWS s"
    let ?rest = "\<lambda>(m, s). case m of None \<Rightarrow> look_for_MEND fuel fuel s | Some m \<Rightarrow> define_macro fuel m s"
    let ?read = "\<lambda>s. rbind (Input_NextLine fuel eNoVarSubst s) (\<lambda>(more_lines, s).
          if \<not> more_lines then Error_Abort ''End of file found within macro definition'' s
          else rbind (macro_prototype s) ?rest)"
    have r: "rbind (if Input_IsEolOrCommentStart ?s then Inr ?s
        else Error ErrorError ''Spurious characters following MACRO'' ?s) ?read = Inr (b, t)"
      using assms False by (simp only: c_macro_def Let_def if_False)
    obtain u where u0: "(if Input_IsEolOrCommentStart ?s then Inr ?s
        else Error ErrorError ''Spurious characters following MACRO'' ?s) = Inr u" and ru: "?read u = Inr (b, t)"
      using rbind_eq_Inr [THEN iffD1, OF r] by blast
    obtain x where x: "Input_NextLine fuel eNoVarSubst u = Inr x"
      and rx: "(case x of (more_lines, s) \<Rightarrow>
          if \<not> more_lines then Error_Abort ''End of file found within macro definition'' s
          else rbind (macro_prototype s) ?rest) = Inr (b, t)"
      using rbind_eq_Inr [THEN iffD1, OF ru] by blast
    obtain v where v0: "x = (True, v)" and rv: "rbind (macro_prototype v) ?rest = Inr (b, t)"
      using rx by (cases x) (auto simp: Error_Abort_def split: if_splits)
    obtain m w where w0: "macro_prototype v = Inr (m, w)" and rw: "?rest (m, w) = Inr (b, t)"
      using rbind_eq_Inr [THEN iffD1, OF rv] by (auto simp: split_paired_Ex)
    have u: "blocks_of u = blocks_of s" using u0 kbD [OF kb_Error', of ?s s] by (auto split: if_splits)
    have v: "blocks_of v = blocks_of s" using kbD [OF kb_NextLine x] u v0 by simp
    have w: "blocks_of w = blocks_of s" using kbD [OF kb_macro_prototype w0] v by simp
    show ?thesis
    proof (cases m)
      case None
      then show ?thesis using skip [OF _ w] rw by simp
    next
      case (Some n)
      obtain n' a y buf z where body: "macro_params (Suc MACRO_ARG_LIMIT) n w = Inr (n', a)" "Decode_FinalCheck a = Inr y"
        "macro_body fuel fuel (mac_args n') y = Inr (buf, z)"
        "t = upd_read (oMacroListP_update (\<lambda>ms. n'\<lparr>startLineNum := FS_GetCurLineNumber y,
           mac_fileName := FS_GetCurFileName z, mac_buf := buf\<rparr> # ms)) z"
        using rw by (auto simp: Some define_macro_def Let_def rbind_eq_Inr)
      have "blocks_of z = blocks_of s"
        using kbD [OF kb_macro_params body(1)] kbD [OF kb_FinalCheck body(2)] kbD [OF kb_macro_body body(3)] w by simp
      moreover have "macro_wf n" "find (macro_matches (mac_name n) (suffixArg n)) (oMacroListP (readVars v)) = None"
        using macro_prototype_new w0 Some by auto
      ultimately show ?thesis
        using macro_params_result [OF body(1)] blocks_macros [OF v] blocks_macros [of z s]
        by (simp add: body(4) upd_read_def blocks_of_def)
    qed
  qed
qed

text \<open>
  C12. No call of a macro is ambiguous.  A macro may have a suffix as its parameter, so that its name is a prefix of what
  calls it.  As \<^verbatim>\<open>c_macro\<close> rejects a definition that is eclipsed by one before it or eclipses one, every name calls at
  most one macro, however the directive is used: what \<^verbatim>\<open>Macro_Find\<close> returns for a call does not depend on the order of the
  list, which only grows, and the report on a clash never fails an assertion.
\<close>

theorem c_macro_unambiguous:
  assumes "macros_ok (oMacroListP (readVars s))" and "c_macro fuel s = Inr (b, t)"
  shows "macros_ok (oMacroListP (readVars t)) \<and> suffix (oMacroListP (readVars s)) (oMacroListP (readVars t))
    \<and> (\<forall>name m. Macro_Find name False t = Some m \<longleftrightarrow> m \<in> set (oMacroListP (readVars t)) \<and> macro_matches name False m)
    \<and> (\<forall>m p name. Macro_Find name (suffixArg m) t = Some p \<and> macro_wf m \<longrightarrow> \<not> crashes (already_defined p name m t))"
proof -
  have list: "oMacroListP (readVars t) = oMacroListP (readVars s)
      \<or> (\<exists>m. oMacroListP (readVars t) = m # oMacroListP (readVars s) \<and> macro_wf m
           \<and> find (macro_matches (mac_name m) (suffixArg m)) (oMacroListP (readVars s)) = None)"
    using c_macro_blocks [OF assms(2)] by (auto simp: blocks_of_def)
  then have ok: "macros_ok (oMacroListP (readVars t))"
    using assms(1) macros_ok_Cons by auto
  then have "p \<in> set (oMacroListP (readVars t)) \<Longrightarrow> macro_wf p" for p by (simp add: macros_ok_def)
  then have "macro_wf p" if "Macro_Find name w t = Some p" for name w p
    using that by (auto simp: Macro_Find_def find_Some_iff)
  then have "Macro_Find name (suffixArg m) t = Some p \<Longrightarrow> macro_wf m \<Longrightarrow> \<not> crashes (already_defined p name m t)" for m p name
    using already_defined_reports by blast
  moreover have "suffix (oMacroListP (readVars s)) (oMacroListP (readVars t))"
    using list by (auto simp: suffix_def)
  ultimately show ?thesis using ok called_find [OF ok] by (simp add: Macro_Find_def)
qed



theorem c_macro_unambiguous_witness:
  "\<exists>t. c_macro 12 macro_source = Inr (False, t) \<and> map mac_name (oMacroListP (readVars t)) = [''f'']
    \<and> macros_ok (oMacroListP (readVars t))"
proof -
  have "(case c_macro 12 macro_source of Inr (b, t) \<Rightarrow> b = False \<and> map mac_name (oMacroListP (readVars t)) = [''f''] | Inl _ \<Rightarrow> False)"
    by code_simp
  moreover have "macros_ok (oMacroListP (readVars macro_source))"
    by (simp add: macro_source_def reading_def asm0_def macros_ok_def called_def)
  ultimately show ?thesis
    by (auto split: sum.splits dest: c_macro_unambiguous)
qed

end
