(* ===== verification/Object_Stack.thy ===== *)
theory Object_Stack
  imports Macro_Names
begin

text \<open>
  The stack of parsable objects: files, macro calls, conditional blocks and the end of objects together.
\<close>

section \<open>The stack\<close>

text \<open>The depth of the blocks below the first of some ranges.\<close>

definition depth_of :: "(nat \<times> nat) list \<Rightarrow> nat" where
  "depth_of rs = (case rs of [] \<Rightarrow> 0 | r # _ \<Rightarrow> snd r)"

abbreviation ranges :: "asm \<Rightarrow> (nat \<times> nat) list" where
  "ranges s \<equiv> map block_range (gPOStack s)"

definition stack_ok :: "asm \<Rightarrow> bool" where
  "stack_ok s \<longleftrightarrow> ranges_ok (ranges s) \<and> length (gPOStack s) \<le> PARSEOBJECT_STACK_SIZE"

text \<open>The lowest \<open>d\<close> objects, and what is theirs.\<close>

definition callers :: "nat \<Rightarrow> asm \<Rightarrow> (nat \<times> nat) list" where
  "callers d s = drop (length (gPOStack s) - d) (ranges s)"

definition same_callers :: "nat \<Rightarrow> asm \<Rightarrow> asm \<Rightarrow> bool" where
  "same_callers d s t \<longleftrightarrow>
     callers d t = callers d s \<and> (\<forall>i < depth_of (callers d s). oWhileIfs (readVars t) i = oWhileIfs (readVars s) i)"

text \<open>What the assembler does with the stack.\<close>

inductive asm_step :: "asm \<Rightarrow> asm \<Rightarrow> bool" where
  conditional: "whileif_step s t \<Longrightarrow> gPOStack s \<noteq> [] \<Longrightarrow> asm_step s t"
| macro_definition: "c_macro fuel s = Inr (b, t) \<Longrightarrow> asm_step s t"
| macro_call: "Macro_Call name label s = Inr (b, t) \<Longrightarrow> asm_step s t"
| include_file: "FS_PushFilePObject fileName s = Inr (b, t) \<Longrightarrow> asm_step s t"
| message: "Error tag msg s = Inr t \<Longrightarrow> asm_step s t"
| object_ends: "FS_PopPObject noCheck s = Inr t \<Longrightarrow> asm_step s t"

text \<open>In a macro that a file calls, at an \<^verbatim>\<open>IF\<close> that the macro does not close.\<close>

definition open_block :: asm where
  "open_block = (line_at ''{TRUE}'')\<lparr>gPOStack := [macro_po, macro_po\<lparr>po_type := POType_eFile\<rparr>]\<rparr>"

section \<open>Calls and ends of objects\<close>

lemma ranges_ok_alt: "ranges_ok ((start, cur) # ds) \<longleftrightarrow>
    start \<le> cur \<and> cur < kMAX_WHILEIF_BLOCKS \<and> start = depth_of ds \<and> ranges_ok ds"
  by (simp add: depth_of_def)

lemma depth_less: "ranges_ok ds \<Longrightarrow> depth_of ds < kMAX_WHILEIF_BLOCKS"
  by (cases ds) (auto simp: depth_of_def kMAX_WHILEIF_BLOCKS_def)

lemma depth_mono: "ranges_ok (cs @ ds) \<Longrightarrow> depth_of ds \<le> depth_of (cs @ ds)"
proof (induction cs)
  case (Cons r cs)
  then show ?case by (cases r) (simp add: ranges_ok_alt, simp add: depth_of_def)
qed simp

lemma blocks_split: "blocks_of s = ((oWhileIfs (readVars s), oMacroListP (readVars s)), ranges s)"
  by (simp add: blocks_of_def)

lemma kb_call_arg: "kb snd s (call_arg m marg s)"
  unfolding call_arg_def Let_def
  by (auto simp: split_beta intro!: kb_bind [OF kb_cong [OF _ kb_GetString]] split: option.split)

lemma kb_call_args: "kb snd s (call_args fuel m e args s)"
proof (induction fuel arbitrary: e args s)
  case (Suc fuel)
  have again: "kb snd s (call_args fuel m e as u)" if "blocks_of u = blocks_of s" for e as u
    using kb_cong [OF that Suc.IH] .
  show ?case
    unfolding call_args.simps Let_def
    by (auto simp: split_beta intro!: again kb_bind [OF kb_Error'] kb_bind [OF kb_call_arg] kb_snd_Error)
qed simp

lemma kb_label_arg: "kb snd s (label_arg m label s)"
  unfolding label_arg_def
  by (auto intro!: kb_bind [OF kb_Error'] kb_snd_Error split: option.split)

lemma blocks_push:
  assumes "\<And>po. block_range (f po) = block_range po"
  shows "blocks_of (push_object f s)
    = ((oWhileIfs (readVars s), oMacroListP (readVars s)), (depth_of (ranges s), depth_of (ranges s)) # ranges s)"
proof -
  have "cur_depth s = depth_of (ranges s)"
    by (simp add: cur_depth_def depth_of_def block_range_def split: list.split)
  then show ?thesis by (simp add: push_object_def blocks_of_def assms) (simp add: block_range_def)
qed

text \<open>An object is put on the stack, or the blocks stay.\<close>

definition pushes :: "asm \<Rightarrow> asm \<Rightarrow> bool" where
  "pushes s t \<longleftrightarrow> blocks_of t = blocks_of s \<or>
     length (gPOStack s) \<noteq> PARSEOBJECT_STACK_SIZE
     \<and> snd (blocks_of t) = (depth_of (ranges s), depth_of (ranges s)) # ranges s \<and> oWhileIfs (readVars t) = oWhileIfs (readVars s)"

lemma pushes_push:
  assumes "blocks_of u = blocks_of s" and "\<not> too_deep s" and "\<And>po. block_range (f po) = block_range po"
  shows "pushes s (push_object f u)"
proof -
  have u: "ranges u = ranges s" "oWhileIfs (readVars u) = oWhileIfs (readVars s)"
    using assms(1) by (simp_all add: blocks_split)
  have "snd (blocks_of (push_object f u)) = (depth_of (ranges s), depth_of (ranges s)) # ranges s"
    by (simp add: blocks_push [OF assms(3)] u)
  moreover have "oWhileIfs (readVars (push_object f u)) = oWhileIfs (readVars s)" by (simp add: push_object_def u(2))
  ultimately show ?thesis using assms(2) unfolding pushes_def too_deep_def by blast
qed

lemma pushes_macro: "FS_PushMacroPObject m args s = Inr t \<Longrightarrow> pushes s t"
  by (auto simp: FS_PushMacroPObject_def pushes_def too_deep_def Error_Abort_def rbind_eq_Inr blocks_push block_range_def split: if_splits)
    (simp_all add: push_object_def)

lemma pushes_cong: "blocks_of u = blocks_of s \<Longrightarrow> pushes u t \<Longrightarrow> pushes s t"
  by (auto simp: pushes_def blocks_of_def dest: map_eq_imp_length_eq)

lemma pushes_Macro_Call:
  assumes "Macro_Call name label s = Inr (b, t)"
  shows "pushes s t"
proof (cases "Macro_Find name False s")
  case None
  then show ?thesis using assms by (simp add: Macro_Call_def pushes_def)
next
  case (Some m)
  then obtain lbl u suffix args v where run: "label_arg m label s = Inr (lbl, u)"
    "call_args (Suc MACRO_ARG_LIMIT) m False (lbl @ suffix) (Input_SkipWS u) = Inr (args, v)"
    "(case args of None \<Rightarrow> Inr (False, v)
      | Some args \<Rightarrow> rbind (FS_PushMacroPObject m (args @ replicate (MACRO_ARG_LIMIT - length args) None) v) (\<lambda>s. Inr (False, s))) = Inr (b, t)"
    using assms by (auto simp: Macro_Call_def rbind_eq_Inr)
  have v: "blocks_of v = blocks_of s"
    using kbD [OF kb_label_arg run(1)] kbD [OF kb_call_args run(2)] by simp
  show ?thesis
  proof (cases args)
    case None
    then show ?thesis using run(3) v by (simp add: pushes_def)
  next
    case (Some as)
    then show ?thesis using run(3) pushes_macro pushes_cong [OF v] by (auto simp: rbind_eq_Inr)
  qed
qed

lemma blocks_store [simp]: "blocks_of (FS_StoreFileName f s) = blocks_of s"
  by (simp add: FS_StoreFileName_def blocks_of_def)

lemma blocks_lookup [simp]: "blocks_of (snd (CachedFile_Lookup f s)) = blocks_of s"
  by (auto simp: CachedFile_Lookup_def Let_def blocks_of_def upd_read_def FS_StoreFileName_def split: option.split)

lemma pushes_file:
  assumes "FS_PushFilePObject fileName s = Inr (b, t)"
  shows "pushes s t"
proof (cases "Include_Find s fileName")
  case None
  then have "blocks_of t = blocks_of s"
    using assms kbD [OF kb_snd_Error [OF refl]] by (auto simp: FS_PushFilePObject_def Error_Abort_def split: if_splits)
  then show ?thesis by (simp add: pushes_def)
next
  case (Some f)
  obtain cached u where u: "CachedFile_Lookup f s = (cached, u)" by fastforce
  have blocks: "blocks_of u = blocks_of s" using blocks_lookup [of f s] by (simp add: u)
  have push: "pushes s (push_object (\<lambda>po. po\<lparr>po_type := ty, po_text := str, po_fileName := canonName f\<rparr>) (FS_StoreFileName (canonName f) u))"
    if "\<not> too_deep s" for ty str
    by (rule pushes_push) (use that blocks in \<open>simp_all add: block_range_def\<close>)
  have "too_deep s \<Longrightarrow> FS_PushFilePObject fileName s \<noteq> Inr (b, t)" by (simp add: FS_PushFilePObject_def Error_Abort_def)
  then have ok: "\<not> too_deep s" using assms by blast
  have failed: "pushes s t" if "rbind (Error e m u) (\<lambda>s. Inr (y, s)) = Inr (b, t)" for e m y
    using kbD [OF kb_snd_Error [OF blocks] that] by (simp add: pushes_def)
  show ?thesis
    using assms ok by (auto simp: FS_PushFilePObject_def Some u Let_def intro: push [OF ok] failed split: option.splits)
qed


section \<open>The frame of a step\<close>

lemma whileif_ok_stack: "whileif_ok s \<longleftrightarrow> gPOStack s \<noteq> [] \<and> ranges_ok (ranges s)"
  by (simp add: whileif_ok_def)

lemma callers_start:
  assumes "ranges_ok (ranges s)" and "d < length (gPOStack s)"
  shows "depth_of (callers d s) \<le> fst (block_range (hd (gPOStack s)))"
proof -
  obtain po pos where s: "gPOStack s = po # pos" using assms(2) by (cases "gPOStack s") auto
  obtain start cur where r: "block_range po = (start, cur)" by fastforce
  have "callers d s = drop (length pos - d) (map block_range pos)"
    using assms(2) by (simp add: callers_def s Suc_diff_le)
  moreover have "depth_of (drop n (map block_range pos)) \<le> depth_of (map block_range pos)" for n
    using depth_mono [of "take n (map block_range pos)" "drop n (map block_range pos)"] assms(1) by (simp add: s r del: drop_map take_map)
  ultimately show ?thesis using assms(1) by (simp add: s r ranges_ok_alt del: ranges_ok.simps)
qed

lemma step_whileif:
  assumes "ranges_ok (ranges s)" and "whileif_ok t" and "same_below s t" and "gPOStack s \<noteq> []"
  shows "ranges_ok (ranges t) \<and> length (gPOStack t) = length (gPOStack s) \<and> (d < length (gPOStack s) \<longrightarrow> same_callers d s t)"
proof -
  obtain p ps q qs where st: "gPOStack s = p # ps" "gPOStack t = q # qs"
    using assms(2,4) by (auto simp: whileif_ok_stack neq_Nil_conv)
  have tl: "map block_range qs = map block_range ps" using assms(3) by (simp add: same_below_def st)
  then have len: "length qs = length ps" by (rule map_eq_imp_length_eq)
  have "callers d t = callers d s" if "d < length (gPOStack s)"
    using that by (simp add: callers_def st len Suc_diff_le tl)
  moreover have "oWhileIfs (readVars t) i = oWhileIfs (readVars s) i" if "d < length (gPOStack s)" "i < depth_of (callers d s)" for i
    using that callers_start [OF assms(1) that(1)] assms(3) by (simp add: same_below_def)
  ultimately show ?thesis using assms(2) len by (simp add: whileif_ok_stack same_callers_def st)
qed

lemma step_blocks:
  assumes "snd (blocks_of t) = ranges s" and "oWhileIfs (readVars t) = oWhileIfs (readVars s)"
  shows "ranges t = ranges s \<and> length (gPOStack t) = length (gPOStack s) \<and> same_callers d s t"
proof -
  have r: "ranges t = ranges s" using assms(1) by (simp add: blocks_of_def)
  then have "length (gPOStack t) = length (gPOStack s)" by (rule map_eq_imp_length_eq)
  then show ?thesis using r assms(2) by (simp add: same_callers_def callers_def)
qed

lemma step_pushes:
  assumes "pushes s t" and "stack_ok s"
  shows "stack_ok t \<and> (d \<le> length (gPOStack s) \<longrightarrow> same_callers d s t)"
proof (cases "blocks_of t = blocks_of s")
  case True
  then show ?thesis using step_blocks [of t s d] assms(2) unfolding blocks_split by (simp add: stack_ok_def)
next
  case False
  then have t: "length (gPOStack s) \<noteq> PARSEOBJECT_STACK_SIZE" "ranges t = (depth_of (ranges s), depth_of (ranges s)) # ranges s"
    "oWhileIfs (readVars t) = oWhileIfs (readVars s)"
    using assms(1) by (auto simp: pushes_def blocks_split)
  have len: "length (gPOStack t) = Suc (length (gPOStack s))"
    using arg_cong [OF t(2), of length] by simp
  have "ranges_ok (ranges t)"
    using assms(2) depth_less by (simp add: t(2) ranges_ok_alt stack_ok_def del: ranges_ok.simps)
  moreover have "callers d t = callers d s" if "d \<le> length (gPOStack s)"
    using that by (simp add: callers_def len Suc_diff_le t(2))
  ultimately show ?thesis using assms(2) t(1,3) len by (simp add: stack_ok_def same_callers_def)
qed


text \<open>The end of an object.\<close>

lemma kb_Local_FinishMacro: "kb id s (Local_FinishMacro noCheck s)"
proof -
  have "kb snd s (finish_macro d noCheck fs s)" for d fs s
  proof (induction fs arbitrary: s)
    case (Cons f fs)
    have again: "kb snd s (finish_macro d noCheck fs u)" if "blocks_of u = blocks_of s" for u
      using kb_cong [OF that Cons.IH] .
    have report: "kb id s (if noCheck then Inr s else Local_ReportMissingFwdLabel s)"
      using kb_Error by (simp add: Local_ReportMissingFwdLabel_def)
    have "kb snd s (rbind (if noCheck then Inr s else Local_ReportMissingFwdLabel s) (finish_macro d noCheck fs))"
      by (rule kb_bind [OF report]) (simp only: id_apply again)
    moreover have "kb snd s (rbind (finish_macro d noCheck fs s) (\<lambda>(rest, s). Inr (f # rest, s)))"
      by (rule kb_bind [OF Cons.IH]) auto
    ultimately show ?case unfolding finish_macro.simps by (intro kb_read) simp
  qed simp
  then show ?thesis
    unfolding Local_FinishMacro_def
    by (intro kb_read kb_bind) (auto simp: blocks_of_def upd_local_def)
qed

lemma kb_RestoreLocals: "kb id s (Var_RestoreLocals ps s)"
proof (induction ps arbitrary: s)
  case (Cons p ps)
  have again: "kb id s (Var_RestoreLocals ps u)" if "blocks_of u = blocks_of s" for u
    using kb_cong [OF that Cons.IH] .
  have "kb id s (Symbol_Remove n s)" for n
    by (simp add: Symbol_Remove_def Let_def blocks_of_def split: option.split)
  then have "kb id s (rbind (Symbol_Remove n s) (Var_RestoreLocals ps))" for n
    by (rule kb_bind) (simp only: id_apply again)
  moreover have "kb id s (Var_RestoreLocals ps (upd_sym r f s))" for r f
    by (rule again) (simp add: blocks_of_def upd_sym_def)
  ultimately show ?case unfolding Var_RestoreLocals.simps by (simp only: option.split simp_thms)
qed simp


lemma popped_blocks:
  assumes "FS_PopIfWhile noCheck s = Inr t" and "whileif_ok s"
  shows "tl (ranges t) = tl (ranges s) \<and> oWhileIfs (readVars t) = oWhileIfs (readVars s)"
proof -
  obtain po pos where po: "gPOStack s = po # pos" using assms(2) by (auto simp: whileif_ok_stack neq_Nil_conv)
  then show ?thesis
    using PopIfWhile_all [OF assms(2) po, of noCheck] assms(1) by (simp add: blocks_split)
qed

lemma popped_file:
  assumes "FS_PopFilePObject noCheck s = Inr t" and "whileif_ok s"
  shows "tl (ranges t) = tl (ranges s) \<and> oWhileIfs (readVars t) = oWhileIfs (readVars s)"
  using assms popped_blocks [of noCheck s t] by (auto simp: FS_PopFilePObject_def rbind_eq_Inr)

lemma popped_macro:
  assumes "FS_PopMacroPObject noCheck s = Inr t" and "whileif_ok s"
  shows "tl (ranges t) = tl (ranges s) \<and> oWhileIfs (readVars t) = oWhileIfs (readVars s)"
proof -
  obtain po where "cur_po s = Inr po" using assms(1) by (auto simp: FS_PopMacroPObject_def rbind_eq_Inr)
  then obtain u v where run: "FS_PopIfWhile noCheck s = Inr u" "Var_RestoreLocals (varListP po) u = Inr v"
    "t = v\<lparr>gOpt_DirectiveValue := optDirective po\<rparr>"
    using assms(1) by (auto simp: FS_PopMacroPObject_def rbind_eq_Inr)
  have "blocks_of t = blocks_of u"
    using kbD [OF kb_RestoreLocals run(2)] by (simp add: blocks_of_def run(3))
  then show ?thesis using popped_blocks [OF run(1) assms(2)] by (simp add: blocks_split)
qed

lemma popped:
  assumes "FS_PopPObject noCheck s = Inr t" and "ranges_ok (ranges s)"
  shows "ranges t = tl (ranges s) \<and> oWhileIfs (readVars t) = oWhileIfs (readVars s)"
proof (cases "gPOStack s")
  case Nil
  then show ?thesis using assms(1) by (simp add: FS_PopPObject_def)
next
  case (Cons po pos)
  have ok: "whileif_ok s" using Cons assms(2) by (simp add: whileif_ok_stack)
  obtain u where u: "t = u\<lparr>gPOStack := tl (gPOStack u)\<rparr>" "(case po_type po of
      POType_eMacro \<Rightarrow> rbind (Local_FinishMacro noCheck s) (FS_PopMacroPObject noCheck)
    | _ \<Rightarrow> FS_PopFilePObject noCheck s) = Inr u"
    using assms(1) by (auto simp: FS_PopPObject_def Cons rbind_eq_Inr)
  have "tl (ranges u) = tl (ranges s) \<and> oWhileIfs (readVars u) = oWhileIfs (readVars s)"
  proof (cases "po_type po = POType_eMacro")
    case True
    then obtain v where v: "Local_FinishMacro noCheck s = Inr v" "FS_PopMacroPObject noCheck v = Inr u"
      using u(2) by (auto simp: rbind_eq_Inr)
    have "blocks_of v = blocks_of s" using kbD [OF kb_Local_FinishMacro v(1)] by simp
    then show ?thesis
      using popped_macro [OF v(2)] ok whileif_ok_blocks [of v s] by (simp add: blocks_split)
  next
    case False
    then have "FS_PopFilePObject noCheck s = Inr u" using u(2) by (cases "po_type po") auto
    then show ?thesis using popped_file ok by blast
  qed
  then show ?thesis by (simp add: u(1) map_tl)
qed

lemma c_macro_ranges:
  assumes "c_macro fuel s = Inr (b, t)"
  shows "ranges t = ranges s \<and> oWhileIfs (readVars t) = oWhileIfs (readVars s)"
  using c_macro_blocks [OF assms] by (auto simp: blocks_of_def)

lemma asm_step_frame:
  assumes "asm_step s t" and "stack_ok s" and "d < length (gPOStack s)" and "d < length (gPOStack t)"
  shows "stack_ok t \<and> same_callers d s t"
  using assms
proof (induction rule: asm_step.induct)
  case (conditional s t)
  have ok: "ranges_ok (ranges s)" "whileif_ok s" using conditional by (simp_all add: stack_ok_def whileif_ok_stack)
  have "whileif_ok t \<and> same_below s t" by (rule whileif_step_ok [OF conditional.hyps(1) ok(2)])
  then show ?case using step_whileif [OF ok(1), of t d] conditional by (simp add: stack_ok_def)
next
  case (macro_definition fuel s b t)
  then show ?case using c_macro_ranges [OF macro_definition.hyps] step_blocks [of t s d] by (simp add: stack_ok_def blocks_of_def)
next
  case (macro_call name label s b t)
  then show ?case using step_pushes [OF pushes_Macro_Call [OF macro_call.hyps], of d] by simp
next
  case (include_file fileName s b t)
  then show ?case using step_pushes [OF pushes_file [OF include_file.hyps], of d] by simp
next
  case (message tag msg s t)
  then show ?case using kbD [OF kb_Error message.hyps] step_blocks [of t s d] by (simp add: stack_ok_def blocks_split)
next
  case (object_ends noCheck s t)
  then have p: "ranges t = tl (ranges s)" "oWhileIfs (readVars t) = oWhileIfs (readVars s)"
    using popped by (auto simp: stack_ok_def)
  have len: "length (gPOStack t) = length (gPOStack s) - 1" using arg_cong [OF p(1), of length] by simp
  have "ranges_ok (tl (ranges s))"
    using object_ends.prems(1) by (cases "ranges s") (auto simp: stack_ok_def)
  moreover have "callers d t = callers d s"
    using object_ends.prems(2,3) by (simp add: callers_def len p(1) drop_Suc [symmetric] Suc_diff_Suc)
  moreover have "length (gPOStack t) \<le> length (gPOStack s)" by (simp add: len)
  ultimately show ?case using object_ends.prems(1) p by (auto simp: stack_ok_def same_callers_def)
qed

text \<open>The loop that gets the next line consists of such steps.\<close>

lemma ASM_NextLine_steps: "ASM_NextLine fuel n s = Inr (b, t) \<Longrightarrow> asm_step\<^sup>*\<^sup>* s t"
proof (induction n arbitrary: s)
  case (Suc n)
  show ?case
  proof (cases "gPOStack s = []")
    case False
    obtain found u where u: "Input_NextLine fuel eVarSubst s = Inr (found, u)"
      using Suc.prems False by (auto simp: rbind_eq_Inr)
    have line: "asm_step s u" by (rule conditional [OF next_line [OF u] False])
    show ?thesis
    proof (cases found)
      case True
      then show ?thesis using Suc.prems False line by (simp add: u r_into_rtranclp)
    next
      case no_line: False
      obtain po :: PObject and v w where run: "(if po_type po \<noteq> POType_eMacro then Error_Line ErrorWarning ''No END found'' u else Inr u) = Inr v"
        "FS_PopPObject False v = Inr w" "ASM_NextLine fuel n w = Inr (b, t)"
        using Suc.prems False no_line by (auto simp: u rbind_eq_Inr simp del: Error_Line_eq)
      have "asm_step\<^sup>*\<^sup>* u v"
        using run(1) message [of ErrorWarning "''No END found''" u v] by (auto split: if_splits)
      then show ?thesis
        using line object_ends [OF run(2)] Suc.IH [OF run(3)] by (meson converse_rtranclp_into_rtranclp rtranclp_trans)
    qed
  qed (use Suc.prems in simp)
qed simp

text \<open>
  C6. The stack of parsable objects.  Whatever is assembled, with files that include files, macros that call macros and
  conditional blocks in all of them, the stack keeps its bound and the ranges of \<^verbatim>\<open>oWhileIfs\<close> follow each other.  From
  when an object is entered until it ends, with any number of objects above it, the conditional blocks of its callers
  stay what they were; when it has ended, the ranges are those at the call.
\<close>

theorem object_stack:
  assumes "(\<lambda>s t. asm_step s t \<and> length pos < length (gPOStack t))\<^sup>*\<^sup>* s t" and "stack_ok s" and "gPOStack s = po # pos"
  shows "stack_ok t \<and> same_callers (length pos) s t
    \<and> (\<forall>u noCheck. length (gPOStack t) = Suc (length pos) \<and> FS_PopPObject noCheck t = Inr u
         \<longrightarrow> ranges u = map block_range pos)"
proof -
  have "stack_ok t \<and> same_callers (length pos) s t \<and> length pos < length (gPOStack t)" using assms(1)
  proof (induction rule: rtranclp_induct)
    case base
    then show ?case using assms(2,3) by (simp add: same_callers_def)
  next
    case (step t u)
    have t: "stack_ok t" "length pos < length (gPOStack t)" and u: "length pos < length (gPOStack u)" using step by auto
    have "stack_ok u \<and> same_callers (length pos) t u"
      using step.hyps(2) asm_step_frame [OF _ t u] by blast
    then show ?case using step.IH u by (auto simp: same_callers_def)
  qed
  moreover have "ranges u = map block_range pos"
    if "stack_ok t" "same_callers (length pos) s t" "length (gPOStack t) = Suc (length pos)" "FS_PopPObject noCheck t = Inr u" for u noCheck
  proof -
    have "ranges u = tl (ranges t)" using popped [OF that(4)] that(1) by (simp add: stack_ok_def)
    also have "tl (ranges t) = callers (length pos) t" by (simp add: callers_def that(3) drop_Suc)
    also have "\<dots> = map block_range pos" using that(2) by (simp add: same_callers_def callers_def assms(3))
    finally show ?thesis .
  qed
  ultimately show ?thesis by blast
qed


theorem object_stack_witness:
  "\<exists>t u. c_if 10 open_block = Inr (False, t) \<and> map block_range (gPOStack t) = [(0, 1), (0, 0)]
    \<and> FS_PopPObject False t = Inr u \<and> map block_range (gPOStack u) = [(0, 0)]"
proof -
  have "returned (rbind (c_if 10 open_block) (\<lambda>(b, t).
      rbind (rassert (\<not> b \<and> map block_range (gPOStack t) = [(0, 1), (0, 0)])) (\<lambda>_.
      rbind (FS_PopPObject False t) (\<lambda>_. Inr ())))) = Some ()"
    by code_simp
  then obtain t u where t: "c_if 10 open_block = Inr (False, t)" "map block_range (gPOStack t) = [(0, 1), (0, 0)]"
    "FS_PopPObject False t = Inr u"
    by (auto simp: rbind_eq_Inr)
  have len: "length (gPOStack t) = 2" using arg_cong [OF t(2), of length] by simp
  have s: "gPOStack open_block = macro_po # [macro_po\<lparr>po_type := POType_eFile\<rparr>]" by (simp add: open_block_def)
  have ok: "stack_ok open_block"
    by (simp add: stack_ok_def open_block_def block_range_def macro_po_def kMAX_WHILEIF_BLOCKS_def PARSEOBJECT_STACK_SIZE_def)
  have "asm_step open_block t" by (rule conditional [OF if_directive [OF t(1)]]) (simp add: s)
  then have "(\<lambda>s t. asm_step s t \<and> length [macro_po\<lparr>po_type := POType_eFile\<rparr>] < length (gPOStack t))\<^sup>*\<^sup>* open_block t"
    by (intro r_into_rtranclp) (simp add: len)
  from object_stack [OF this ok s] t len show ?thesis
    by (auto simp: block_range_def macro_po_def)
qed

end
