(* ===== verification/Macro_Text.thy ===== *)
theory Macro_Text
  imports Macros "HOL-Library.Sublist"
begin

text \<open>
  The bodies of macros: storing the parameters as control characters and reading them back with the arguments of a call
  is textual substitution, which \<open>expand\<close> defines.
\<close>

section \<open>The text of a macro\<close>

text \<open>What a dollar and the text behind it refer to; nothing when a bar is missing.\<close>

definition drop_first :: "char \<Rightarrow> string \<Rightarrow> string" where
  "drop_first c str = (if str \<noteq> [] \<and> hd str = c then tl str else str)"

definition bad_bar :: "string \<Rightarrow> bool" where
  "bad_bar cs \<longleftrightarrow> cs \<noteq> [] \<and> hd cs = CHR ''|'' \<and>
     (let rest = drop (id_length (tl cs)) (tl cs) in rest = [] \<or> hd rest \<noteq> CHR ''|'')"

definition param_ref :: "string list \<Rightarrow> string \<Rightarrow> (nat \<times> string) option" where
  "param_ref args cs =
     (let bar = (cs \<noteq> [] \<and> hd cs = CHR ''|''); name = (if bar then tl cs else cs); n = id_length name;
          rest = drop n name; rest = (if bar then tl rest else rest)
      in map_option (\<lambda>i. (i, drop_first (CHR ''.'') rest)) (param_index args (if n = 0 then None else Some (take n name))))"

text \<open>A line of the macro with texts for its parameters.\<close>

function expand :: "string list \<Rightarrow> (nat \<Rightarrow> string) \<Rightarrow> bool \<Rightarrow> string \<Rightarrow> string option" where
  "expand args val vbar [] = Some []"
| "expand args val vbar (c # cs) =
     (if c = CHR ''$'' \<and> \<not> vbar
      then
        if cs \<noteq> [] \<and> hd cs = CHR ''$'' then map_option (\<lambda>r. c # r) (expand args val vbar (tl cs))
        else if bad_bar cs then None
        else
          case param_ref args cs of
            None \<Rightarrow> map_option (\<lambda>r. c # r) (expand args val vbar cs)
          | Some p \<Rightarrow> map_option (\<lambda>r. val (fst p) @ r) (expand args val vbar (snd p))
      else map_option (\<lambda>r. c # r) (expand args val (vbar \<noteq> (c = CHR ''|'')) cs))"
  by pat_completeness auto

text \<open>A line without control characters that stand for parameters.\<close>

definition plain_line :: "string \<Rightarrow> bool" where
  "plain_line line \<longleftrightarrow> (\<forall>c\<in>set line. c \<noteq> NUL \<and> c \<noteq> LF \<and> arg_index c = None)"

text \<open>The lines up to \<^verbatim>\<open>MEND\<close>; they define no macro.\<close>

fun body_lines :: "nat \<Rightarrow> nat \<Rightarrow> asm \<Rightarrow> (string list \<times> asm) option" where
  "body_lines fuel 0 s = None"
| "body_lines fuel (Suc n) s =
     (case Input_NextLine fuel eNoVarSubst s of
        Inr (True, u) \<Rightarrow>
          (case Macro_GetKeyword u of
             (eMKeyword_MEND, v) \<Rightarrow> Some ([], v)
           | (eMKeyword_MACRO, v) \<Rightarrow> None
           | (eMKeyword_AnythingElse, v) \<Rightarrow>
               (case body_lines fuel n (u\<lparr>input_pos := []\<rparr>) of
                  Some (ls, t) \<Rightarrow> Some (input_pos u # ls, t)
                | None \<Rightarrow> None))
      | _ \<Rightarrow> None)"

text \<open>What a call is read as.\<close>

fun macro_lines :: "nat \<Rightarrow> nat \<Rightarrow> asm \<Rightarrow> (string option list \<times> asm) outcome" where
  "macro_lines bufSize 0 s = Inr ([], s)"
| "macro_lines bufSize (Suc n) s =
     rbind (Macro_GetLine bufSize s) (\<lambda>(l, s). rbind (macro_lines bufSize n s) (\<lambda>(ls, s). Inr (l # ls, s)))"

definition body_source :: asm where
  "body_source = (reading (''$p.b|$p| $$'' @ [LF] @ '' MEND'' @ [LF]))\<lparr>gPhase := ePassOne\<rparr>"

lemma suffix_drop_first: "suffix (drop_first c str) str"
  by (simp add: drop_first_def suffix_tl)

lemma param_ref_suffix:
  assumes "param_ref args cs = Some p"
  shows "suffix (snd p) cs"
proof -
  define name where "name = (if cs \<noteq> [] \<and> hd cs = CHR ''|'' then tl cs else cs)"
  define rest where "rest = drop (id_length name) name"
  have "snd p = drop_first (CHR ''.'') rest \<or> snd p = drop_first (CHR ''.'') (tl rest)"
    using assms by (auto simp: param_ref_def Let_def rest_def name_def split: if_splits)
  then have "suffix (snd p) rest"
    by (metis suffix_drop_first suffix_tl suffix_order.trans)
  moreover have "suffix rest name" "suffix name cs" by (simp_all add: rest_def name_def suffix_drop suffix_tl)
  ultimately show ?thesis by (meson suffix_order.trans)
qed

lemma param_ref_length: "param_ref args cs = Some p \<Longrightarrow> length (snd p) \<le> length cs"
  by (rule suffix_length_le [OF param_ref_suffix])

lemma param_ref_subset: "param_ref args cs = Some p \<Longrightarrow> set (snd p) \<subseteq> set cs"
  by (rule set_mono_suffix [OF param_ref_suffix])

termination expand
  by (relation "measure (\<lambda>(args, val, vbar, cs). length cs)") (auto simp: le_imp_less_Suc dest!: param_ref_length)

lemma Match_False:
  "c \<noteq> NUL \<Longrightarrow> Input_Match c False s =
     (if input_pos s \<noteq> [] \<and> hd (input_pos s) = c then (True, s\<lparr>input_pos := tl (input_pos s)\<rparr>) else (False, s))"
  by (cases "input_pos s") (auto simp: Input_Match_def Input_Look_def peek_def)

lemma drop_dot_Match: "snd (Input_Match (CHR ''.'') False s) = s\<lparr>input_pos := drop_first (CHR ''.'') (input_pos s)\<rparr>"
  by (simp add: Match_False drop_first_def NUL_def)

lemma body_param_reads:
  assumes "\<not> bad_bar (input_pos s)"
  shows "body_param args s =
    (if input_pos s \<noteq> [] \<and> hd (input_pos s) = CHR ''$'' then Inr (None, s\<lparr>input_pos := tl (input_pos s)\<rparr>)
     else Inr (case param_ref args (input_pos s) of None \<Rightarrow> (None, s) | Some p \<Rightarrow> (Some (fst p), s\<lparr>input_pos := snd p\<rparr>)))"
proof (cases "input_pos s \<noteq> [] \<and> hd (input_pos s) = CHR ''$''")
  case True
  then show ?thesis by (simp add: body_param_def Match_False NUL_def)
next
  case no_dollar: False
  then have no: "Input_Match (CHR ''$'') False s = (False, s)" by (simp add: Match_False NUL_def)
  show ?thesis
  proof (cases "input_pos s \<noteq> [] \<and> hd (input_pos s) = CHR ''|''")
    case True
    then obtain ys where ys: "input_pos s = CHR ''|'' # ys" by (cases "input_pos s") auto
    let ?n = "id_length ys"
    obtain zs where zs: "drop ?n ys = CHR ''|'' # zs"
      using assms by (cases "drop ?n ys") (auto simp: bad_bar_def ys Let_def)
    have "Input_Match (CHR ''|'') False s = (True, s\<lparr>input_pos := ys\<rparr>)" by (simp add: Match_False NUL_def ys)
    moreover have "Input_SymbolNoBar (s\<lparr>input_pos := ys\<rparr>) = (if ?n = 0 then None else Some (take ?n ys), s\<lparr>input_pos := CHR ''|'' # zs\<rparr>)"
      by (simp add: Input_SymbolNoBar_def zs)
    moreover have "Input_Match (CHR ''|'') False (s\<lparr>input_pos := CHR ''|'' # zs\<rparr>) = (True, s\<lparr>input_pos := zs\<rparr>)"
      by (simp add: Match_False NUL_def)
    ultimately have "body_param args s = (case param_index args (if ?n = 0 then None else Some (take ?n ys)) of
        Some i \<Rightarrow> Inr (Some i, s\<lparr>input_pos := drop_first (CHR ''.'') zs\<rparr>) | None \<Rightarrow> Inr (None, s))"
      by (simp add: body_param_def no Let_def drop_dot_Match Input_GetMark_def Input_RollBackToMark_def ys [symmetric] cong: option.case_cong)
    then show ?thesis by (simp add: ys param_ref_def zs Let_def split: option.split)
  next
    case no_bar: False
    let ?n = "id_length (input_pos s)"
    have "Input_Match (CHR ''|'') False s = (False, s)" using no_bar by (simp add: Match_False NUL_def)
    moreover have "Input_SymbolNoBar s = (if ?n = 0 then None else Some (take ?n (input_pos s)), s\<lparr>input_pos := drop ?n (input_pos s)\<rparr>)"
      by (simp add: Input_SymbolNoBar_def Let_def)
    ultimately have "body_param args s = (case param_index args (if ?n = 0 then None else Some (take ?n (input_pos s))) of
        Some i \<Rightarrow> Inr (Some i, s\<lparr>input_pos := drop_first (CHR ''.'') (drop ?n (input_pos s))\<rparr>) | None \<Rightarrow> Inr (None, s))"
      by (simp add: body_param_def no Let_def drop_dot_Match Input_GetMark_def Input_RollBackToMark_def cong: option.case_cong)
    then show ?thesis using no_dollar no_bar by (auto simp: param_ref_def Let_def split: option.split)
  qed
qed

lemma macro_chars_expand:
  assumes "expand args val vbar line = Some enc" and "val = (\<lambda>i. [char_of (MACRO_ARG0 + i)])" and "NUL \<notin> set line"
    and "length line < fuel" and "input_pos s = line"
  shows "macro_chars fuel args vbar s = Inr (enc @ [LF], s\<lparr>input_pos := []\<rparr>)"
  using assms
proof (induction args val vbar line arbitrary: enc fuel s rule: expand.induct)
  case (1 args val vbar)
  then show ?case by (cases fuel) (simp_all add: Input_GetC_def Input_Look_def Input_Skip_def peek_def)
next
  case (2 args val vbar c cs)
  obtain n where fuel: "fuel = Suc n" "length cs < n" using "2.prems"(4) by (cases fuel) auto
  have c: "c \<noteq> NUL" using "2.prems"(3) by auto
  let ?s = "s\<lparr>input_pos := cs\<rparr>"
  have get: "Input_GetC s = (c, ?s)" using "2.prems"(5) c by (simp add: Input_GetC_def Input_Look_def Input_Skip_def peek_def)
  show ?case
  proof (cases "c = CHR ''$'' \<and> \<not> vbar")
    case False
    then obtain r where r: "expand args val (vbar \<noteq> (c = CHR ''|'')) cs = Some r" "enc = c # r"
      using "2.prems"(1) by (auto split: if_splits)
    have "macro_chars n args (vbar \<noteq> (c = CHR ''|'')) ?s = Inr (r @ [LF], ?s\<lparr>input_pos := []\<rparr>)"
      using "2.IH"(4) [OF False r(1) "2.prems"(2)] "2.prems"(3) fuel(2) by simp
    then show ?thesis using False c by (cases vbar) (auto simp: fuel(1) get r(2) Let_def)
  next
    case dollar: True
    show ?thesis
    proof (cases "cs \<noteq> [] \<and> hd cs = CHR ''$''")
      case True
      then obtain r where r: "expand args val vbar (tl cs) = Some r" "enc = c # r"
        using "2.prems"(1) dollar by (auto split: if_splits)
      have "macro_chars n args vbar (?s\<lparr>input_pos := tl cs\<rparr>) = Inr (r @ [LF], ?s\<lparr>input_pos := []\<rparr>)"
        using "2.IH"(1) [OF dollar True r(1) "2.prems"(2), of n "?s\<lparr>input_pos := tl cs\<rparr>"] "2.prems"(3) fuel(2) True by (cases cs) auto
      moreover have "body_param args ?s = Inr (None, ?s\<lparr>input_pos := tl cs\<rparr>)"
        using True by (subst body_param_reads) (auto simp: bad_bar_def)
      ultimately show ?thesis using dollar c by (simp add: fuel(1) get r(2) Let_def)
    next
      case no_dollar: False
      have bar: "\<not> bad_bar cs" using "2.prems"(1) dollar no_dollar by auto
      show ?thesis
      proof (cases "param_ref args cs")
        case None
        then obtain r where r: "expand args val vbar cs = Some r" "enc = c # r"
          using "2.prems"(1) dollar no_dollar bar by auto
        have "macro_chars n args vbar ?s = Inr (r @ [LF], ?s\<lparr>input_pos := []\<rparr>)"
          using "2.IH"(2) [OF dollar no_dollar bar None r(1) "2.prems"(2), of n ?s] "2.prems"(3) fuel(2) by simp
        moreover have "body_param args ?s = Inr (None, ?s)"
          using no_dollar None bar by (subst body_param_reads) auto
        ultimately show ?thesis using dollar c by (simp add: fuel(1) get r(2) Let_def)
      next
        case (Some p)
        then obtain r where r: "expand args val vbar (snd p) = Some r" "enc = val (fst p) @ r"
          using "2.prems"(1) dollar no_dollar bar by auto
        then have r: "expand args val vbar (snd p) = Some r" "enc = char_of (MACRO_ARG0 + fst p) # r"
          by (simp_all add: "2.prems"(2))
        have "macro_chars n args vbar (?s\<lparr>input_pos := snd p\<rparr>) = Inr (r @ [LF], ?s\<lparr>input_pos := []\<rparr>)"
          using "2.IH"(3) [OF dollar no_dollar bar Some r(1) "2.prems"(2), of n "?s\<lparr>input_pos := snd p\<rparr>"] "2.prems"(3) fuel(2)
            param_ref_length [OF Some] param_ref_subset [OF Some] by auto
        moreover have "body_param args ?s = Inr (Some (fst p), ?s\<lparr>input_pos := snd p\<rparr>)"
          using no_dollar Some bar by (subst body_param_reads) auto
        ultimately show ?thesis using dollar c by (simp add: fuel(1) get r(2) Let_def)
      qed
    qed
  qed
qed


lemma arg_index_char: "i < MACRO_ARG_LIMIT \<Longrightarrow> arg_index (char_of (MACRO_ARG0 + i)) = Some i"
proof -
  assume "i < MACRO_ARG_LIMIT"
  moreover have "\<forall>i\<in>set [0..<MACRO_ARG_LIMIT]. arg_index (char_of (MACRO_ARG0 + i)) = Some i" by code_simp
  ultimately show ?thesis by simp
qed

lemma param_ref_index: "param_ref args cs = Some p \<Longrightarrow> fst p < length args"
  by (auto simp: param_ref_def param_index_def Let_def find_Some_iff split: option.splits if_splits)

lemma macro_text_expand:
  assumes "expand args val vbar line = Some enc" and "val = (\<lambda>i. [char_of (MACRO_ARG0 + i)])"
    and "plain_line line" and "length args \<le> MACRO_ARG_LIMIT"
    and "expand args (arg_text vals) vbar line = Some res" and "length acc + length res < room"
  shows "macro_text room vals acc (enc @ LF # rest) = Some (acc @ res, rest)"
  using assms
proof (induction args val vbar line arbitrary: enc acc res rule: expand.induct)
  case (1 args val vbar)
  then show ?case by (simp add: arg_index_def LF_def MACRO_ARG0_def ccode_def)
next
  case (2 args val vbar c cs)
  have c: "c \<noteq> LF" "arg_index c = None" and cs: "plain_line cs"
    using "2.prems"(3) by (auto simp: plain_line_def)
  have plain: "macro_text room vals acc ((c # r) @ LF # rest) = Some (acc @ res, rest)"
    if "macro_text room vals (acc @ [c]) (r @ LF # rest) = Some ((acc @ [c]) @ res', rest)" "res = c # res'" for r res'
    using that c "2.prems"(6) by simp
  show ?case
  proof (cases "c = CHR ''$'' \<and> \<not> vbar")
    case False
    then obtain r res' where r: "expand args val (vbar \<noteq> (c = CHR ''|'')) cs = Some r" "enc = c # r"
      "expand args (arg_text vals) (vbar \<noteq> (c = CHR ''|'')) cs = Some res'" "res = c # res'"
      using "2.prems"(1,5) by (auto split: if_splits)
    show ?thesis
      unfolding r(2) by (rule plain [OF _ r(4)]) (rule "2.IH"(4) [OF False r(1) "2.prems"(2) cs "2.prems"(4) r(3)], use "2.prems"(6) r(4) in simp)
  next
    case dollar: True
    show ?thesis
    proof (cases "cs \<noteq> [] \<and> hd cs = CHR ''$''")
      case True
      then obtain r res' where r: "expand args val vbar (tl cs) = Some r" "enc = c # r"
        "expand args (arg_text vals) vbar (tl cs) = Some res'" "res = c # res'"
        using "2.prems"(1,5) dollar by (auto split: if_splits)
      have "plain_line (tl cs)" using cs by (cases cs) (auto simp: plain_line_def)
      then show ?thesis
        unfolding r(2) by (intro plain [OF _ r(4)] "2.IH"(1) [OF dollar True r(1) "2.prems"(2) _ "2.prems"(4) r(3)]) (use "2.prems"(6) r(4) in simp_all)
    next
      case no_dollar: False
      have bar: "\<not> bad_bar cs" using "2.prems"(1) dollar no_dollar by auto
      show ?thesis
      proof (cases "param_ref args cs")
        case None
        then obtain r res' where r: "expand args val vbar cs = Some r" "enc = c # r"
          "expand args (arg_text vals) vbar cs = Some res'" "res = c # res'"
          using "2.prems"(1,5) dollar no_dollar bar by auto
        show ?thesis
          unfolding r(2) by (rule plain [OF _ r(4)])
            (rule "2.IH"(2) [OF dollar no_dollar bar None r(1) "2.prems"(2) cs "2.prems"(4) r(3)], use "2.prems"(6) r(4) in simp)
      next
        case (Some p)
        then obtain r res' where r: "expand args val vbar (snd p) = Some r" "enc = val (fst p) @ r"
          "expand args (arg_text vals) vbar (snd p) = Some res'" "res = arg_text vals (fst p) @ res'"
          using "2.prems"(1,5) dollar no_dollar bar by auto
        have enc: "enc = char_of (MACRO_ARG0 + fst p) # r" by (simp add: r(2) "2.prems"(2))
        have "arg_index (char_of (MACRO_ARG0 + fst p)) = Some (fst p)"
          using param_ref_index [OF Some] "2.prems"(4) by (simp add: arg_index_char)
        moreover have "plain_line (snd p)"
          using cs param_ref_subset [OF Some] by (auto simp: plain_line_def)
        then have "macro_text room vals (acc @ arg_text vals (fst p)) (r @ LF # rest) = Some ((acc @ arg_text vals (fst p)) @ res', rest)"
          by (rule "2.IH"(3) [OF dollar no_dollar bar Some r(1) "2.prems"(2) _ "2.prems"(4) r(3)]) (use "2.prems"(6) r(4) in simp)
        ultimately show ?thesis using "2.prems"(6) by (simp add: enc r(4))
      qed
    qed
  qed
qed


lemma expand_defined: "expand args v vbar line = Some x \<Longrightarrow> \<exists>y. expand args w vbar line = Some y"
proof (induction args v vbar line arbitrary: x rule: expand.induct)
  case (2 args val vbar c cs)
  show ?case
    using "2.prems" "2.IH" by (auto split: if_splits option.splits)
qed simp

lemma GetKeyword_mark: "Macro_GetKeyword u = (k, v) \<Longrightarrow> Input_RollBackToMark (Input_GetMark u) v = u"
  by (auto simp: Macro_GetKeyword_def Input_RollBackToMark_def Input_GetMark_def Input_SkipWS_def Input_MatchKeyword_def Let_def
      split: if_splits option.splits)

lemma macro_body_lines:
  assumes "body_lines fuel n s = Some (ls, t)"
    and "list_all2 (\<lambda>l e. NUL \<notin> set l \<and> expand args (\<lambda>i. [char_of (MACRO_ARG0 + i)]) False l = Some e) ls es"
  shows "macro_body fuel n args s = Inr (concat (map (\<lambda>e. e @ [LF]) es), t)"
  using assms
proof (induction n arbitrary: s ls es)
  case (Suc n)
  obtain u where u: "Input_NextLine fuel eNoVarSubst s = Inr (True, u)"
    using Suc.prems(1) by (auto split: sum.splits bool.splits)
  obtain k v where k: "Macro_GetKeyword u = (k, v)" by fastforce
  show ?case
  proof (cases k)
    case eMKeyword_MEND
    then show ?thesis using Suc.prems by (simp add: u k Let_def)
  next
    case eMKeyword_MACRO
    then show ?thesis using Suc.prems(1) by (simp add: u k)
  next
    case eMKeyword_AnythingElse
    then obtain ls' where ls: "body_lines fuel n (u\<lparr>input_pos := []\<rparr>) = Some (ls', t)" "ls = input_pos u # ls'"
      using Suc.prems(1) by (auto simp: u k split: option.splits)
    then obtain e es' where es: "es = e # es'" "NUL \<notin> set (input_pos u)"
      "expand args (\<lambda>i. [char_of (MACRO_ARG0 + i)]) False (input_pos u) = Some e"
      "list_all2 (\<lambda>l e. NUL \<notin> set l \<and> expand args (\<lambda>i. [char_of (MACRO_ARG0 + i)]) False l = Some e) ls' es'"
      using Suc.prems(2) by (auto simp: list_all2_Cons1)
    have "macro_chars (Suc (length (input_pos u))) args False u = Inr (e @ [LF], u\<lparr>input_pos := []\<rparr>)"
      by (rule macro_chars_expand [OF es(3) refl es(2)]) simp_all
    then show ?thesis
      using eMKeyword_AnythingElse Suc.IH [OF ls(1) es(4)] GetKeyword_mark [OF k]
      by (simp add: u k Let_def es(1) del: macro_chars.simps)
  qed
qed simp

lemma macro_lines_read:
  assumes "list_all2 (\<lambda>l e. plain_line l \<and> expand args (\<lambda>i. [char_of (MACRO_ARG0 + i)]) False l = Some e) ls es"
    and "list_all2 (\<lambda>l x. expand args (arg_text vals) False l = Some x \<and> length x + 1 < bufSize) ls xs"
    and "length args \<le> MACRO_ARG_LIMIT"
    and "gPOStack s = po # pos" and "po_args po = vals"
    and "mac_buf (po_macro po) = pre @ concat (map (\<lambda>e. e @ [LF]) es)" and "po_curPtr po = length pre"
  shows "\<exists>t. macro_lines bufSize (Suc (length xs)) s = Inr (map Some xs @ [None], t)"
  using assms
proof (induction ls arbitrary: es xs s po pre)
  case Nil
  then show ?case by (simp add: Macro_GetLine_def cur_po_def Let_def)
next
  case (Cons l ls)
  obtain e es' x xs' where es: "es = e # es'" "xs = x # xs'" "plain_line l"
    "expand args (\<lambda>i. [char_of (MACRO_ARG0 + i)]) False l = Some e"
    "expand args (arg_text vals) False l = Some x" "length x + 1 < bufSize"
    using Cons.prems(1,2) by (auto simp: list_all2_Cons1)
  let ?rest = "concat (map (\<lambda>e. e @ [LF]) es')"
  let ?po = "po\<lparr>lastLineSize := length e + 1, po_curPtr := length (pre @ e @ [LF])\<rparr>"
  have "macro_text (bufSize - 1) vals [] (e @ LF # ?rest) = Some ([] @ x, ?rest)"
    by (rule macro_text_expand [OF es(4) refl es(3) Cons.prems(3) es(5)]) (use es(6) in simp)
  then have "Macro_GetLine bufSize s = Inr (Some x, s\<lparr>gPOStack := ?po # pos\<rparr>)"
    using Cons.prems(4-7) by (simp add: Macro_GetLine_def cur_po_def Let_def upd_po_def es(1))
  moreover have "\<exists>t. macro_lines bufSize (Suc (length xs')) (s\<lparr>gPOStack := ?po # pos\<rparr>) = Inr (map Some xs' @ [None], t)"
    by (rule Cons.IH [where es = es' and po = ?po and pre = "pre @ e @ [LF]"]) (use Cons.prems es(1,2) in simp_all)
  ultimately show ?case by (auto simp: es(2) simp del: macro_lines.simps(2)) (simp add: macro_lines.simps(2) [of _ "Suc _"])
qed


text \<open>
  C11. Macros are textual substitution.  What \<^verbatim>\<open>macro_body\<close> stores of the lines up to \<^verbatim>\<open>MEND\<close> is read back by a call, line by
  line, as the text that the rules for macros give: every \<^verbatim>\<open>$param\<close>, \<^verbatim>\<open>$|param|\<close>, with or without a dot behind it, is the
  argument of the call, \<^verbatim>\<open>$$\<close> is a dollar, other dollars stay, and nothing is replaced between vertical bars.  This holds
  for lines without control characters and when the results fit into the buffer.
\<close>

theorem macro_expands:
  assumes "body_lines fuel n s = Some (ls, t)" and "length (mac_args m) \<le> MACRO_ARG_LIMIT"
    and "list_all2 (\<lambda>l x. plain_line l \<and> expand (mac_args m) (arg_text vals) False l = Some x \<and> length x + 1 < bufSize) ls xs"
  shows "\<exists>buf. macro_body fuel n (mac_args m) s = Inr (buf, t)
    \<and> (\<forall>u v. FS_PushMacroPObject (m\<lparr>mac_buf := buf\<rparr>) vals u = Inr v
         \<longrightarrow> (\<exists>w. macro_lines bufSize (Suc (length xs)) v = Inr (map Some xs @ [None], w)))"
proof -
  let ?enc = "\<lambda>l e. expand (mac_args m) (\<lambda>i. [char_of (MACRO_ARG0 + i)]) False l = Some e"
  have "\<exists>es. list_all2 (\<lambda>l e. plain_line l \<and> ?enc l e) ls es"
    using assms(3) by (induction rule: list_all2_induct) (use expand_defined in \<open>blast+\<close>)
  then obtain es where es: "list_all2 (\<lambda>l e. plain_line l \<and> ?enc l e) ls es" by blast
  let ?buf = "concat (map (\<lambda>e. e @ [LF]) es)"
  have "macro_body fuel n (mac_args m) s = Inr (?buf, t)"
    by (rule macro_body_lines [OF assms(1) list_all2_mono [OF es]]) (auto simp: plain_line_def)
  moreover have "\<exists>w. macro_lines bufSize (Suc (length xs)) v = Inr (map Some xs @ [None], w)"
    if "FS_PushMacroPObject (m\<lparr>mac_buf := ?buf\<rparr>) vals u = Inr v" for u v
  proof -
    have v: "gPOStack v = hd (gPOStack v) # tl (gPOStack v)" "po_args (hd (gPOStack v)) = vals"
      "mac_buf (po_macro (hd (gPOStack v))) = [] @ ?buf" "po_curPtr (hd (gPOStack v)) = length ([] :: string)"
      using that by (auto simp: FS_PushMacroPObject_def push_object_def Error_Abort_def rbind_eq_Inr split: if_splits)
    show ?thesis
      by (rule macro_lines_read [OF es list_all2_mono [OF assms(3)] assms(2) v]) simp
  qed
  ultimately show ?thesis by blast
qed

theorem macro_expands_witness:
  "\<exists>buf t u w. macro_body 20 3 [''p''] body_source = Inr (buf, t)
    \<and> FS_PushMacroPObject (blank_macro\<lparr>mac_args := [''p''], mac_buf := buf\<rparr>) [Some ''a''] body_source = Inr u
    \<and> macro_lines 20 2 u = Inr ([Some ''ab|$p| $'', None], w)"
proof -
  have "map_option fst (body_lines 20 3 body_source) = Some [''$p.b|$p| $$'']" by code_simp
  then obtain t where t: "body_lines 20 3 body_source = Some ([''$p.b|$p| $$''], t)" by auto
  have line: "plain_line ''$p.b|$p| $$''" "expand [''p''] (arg_text [Some ''a'']) False ''$p.b|$p| $$'' = Some ''ab|$p| $''" by code_simp+
  have push: "\<exists>v. FS_PushMacroPObject m vals body_source = Inr v" for m vals
    by (simp add: FS_PushMacroPObject_def too_deep_def body_source_def reading_def PARSEOBJECT_STACK_SIZE_def)
  obtain buf where buf: "macro_body 20 3 [''p''] body_source = Inr (buf, t)"
    "\<forall>u v. FS_PushMacroPObject (blank_macro\<lparr>mac_args := [''p''], mac_buf := buf\<rparr>) [Some ''a''] u = Inr v
       \<longrightarrow> (\<exists>w. macro_lines 20 (Suc (Suc 0)) v = Inr ([Some ''ab|$p| $'', None], w))"
    using macro_expands [OF t, of "blank_macro\<lparr>mac_args := [''p'']\<rparr>" "[Some ''a'']" 20 "[''ab|$p| $'']"] line
    by (auto simp: MACRO_ARG_LIMIT_def simp del: expand.simps macro_lines.simps)
  moreover obtain v where v: "FS_PushMacroPObject (blank_macro\<lparr>mac_args := [''p''], mac_buf := buf\<rparr>) [Some ''a''] body_source = Inr v"
    using push by blast
  moreover obtain w where "macro_lines 20 2 v = Inr ([Some ''ab|$p| $'', None], w)"
    using buf(2) v unfolding numeral_2_eq_2 by blast
  ultimately show ?thesis by blast
qed

end
