(* ===== verification/Literals.thy ===== *)
theory Literals
  imports Lexing
begin

text \<open>
  Literals and names of \<^verbatim>\<open>lex.c\<close>: integer literals have the value of their digits as long as 64 bits hold it,
  and what happens when they do not.
\<close>

section \<open>Digits\<close>

definition valid_digit :: "u64 \<Rightarrow> char \<Rightarrow> bool" where
  "valid_digit base c \<longleftrightarrow> isxdigit (tolower c) \<and> digit_num (tolower c) < uint base"

text \<open>The literal ends: no digit of the base follows, and nothing that makes it a floating point literal.\<close>

definition ends_literal :: "u64 \<Rightarrow> string \<Rightarrow> bool" where
  "ends_literal base rest \<longleftrightarrow> rest = [] \<or> (\<not> valid_digit base (hd rest) \<and> \<not> starts_with ''.EePp'' rest)"

fun number_from :: "int \<Rightarrow> int \<Rightarrow> string \<Rightarrow> int" where
  "number_from base n [] = n"
| "number_from base n (c # cs) = number_from base (base * n + digit_num (tolower c)) cs"

lemma num_value_from: "num_value base ds = nat (number_from base 0 ds)"
proof -
  have "foldl (\<lambda>n d. base * n + digit_num (tolower d)) n ds = number_from base n ds" for n
    by (induction ds arbitrary: n) simp_all
  then show ?thesis by (simp add: num_value_def)
qed

lemma digit_num_bounds: "isxdigit c \<Longrightarrow> 0 \<le> digit_num c \<and> digit_num c < 16"
  by (auto simp: isxdigit_def digit_num_def isdigit_def)

lemma number_from_mono:
  assumes "0 \<le> n" and "1 \<le> base" and "list_all (valid_digit b) ds"
  shows "n \<le> number_from base n ds"
  using assms
proof (induction ds arbitrary: n)
  case (Cons c cs)
  then have d: "0 \<le> digit_num (tolower c)" using digit_num_bounds by (auto simp: valid_digit_def)
  have n: "n \<le> base * n" using Cons.prems(1,2) mult_right_mono [of 1 base n] by simp
  show ?case using Cons.IH [of "base * n + digit_num (tolower c)"] Cons.prems d n by simp
qed simp

text \<open>A step stays exact when the number it leads to fits.\<close>

lemma digit_step:
  assumes "valid_digit base c" and "uint res * uint base + digit_num (tolower c) < 2 ^ 64"
  shows "uint (res * base + of_int (digit_num (tolower c))) = uint base * uint res + digit_num (tolower c)"
proof -
  have d: "0 \<le> digit_num (tolower c)" using assms(1) digit_num_bounds by (auto simp: valid_digit_def)
  have "uint (res * base + of_int (digit_num (tolower c))) = (uint res * uint base + digit_num (tolower c)) mod 2 ^ 64"
    by (simp add: uint_word_ariths word_of_int_eq_iff mod_simps take_bit_eq_mod unsigned_of_int)
  also have "\<dots> = uint res * uint base + digit_num (tolower c)" using assms(2) d by (intro mod_pos_pos_trivial) auto
  finally show ?thesis by (simp add: mult.commute)
qed

lemma read_digits_exact:
  assumes "list_all (valid_digit base) ds" and "rest = [] \<or> \<not> valid_digit base (hd rest)" and "1 \<le> uint base"
    and "number_from (uint base) (uint res) ds < 2 ^ 64"
  shows "read_digits base (ds @ rest) res ov = (of_int (number_from (uint base) (uint res) ds), ov, rest)"
  using assms
proof (induction ds arbitrary: res)
  case Nil
  then show ?case by (cases rest) (auto simp: valid_digit_def Let_def)
next
  case (Cons c cs)
  let ?n = "uint base * uint res + digit_num (tolower c)"
  let ?next = "res * base + of_int (digit_num (tolower c))"
  have c: "valid_digit base c" and d: "0 \<le> digit_num (tolower c)"
    using Cons.prems(1) digit_num_bounds by (auto simp: valid_digit_def)
  have "0 \<le> ?n" using d by simp
  then have "?n \<le> number_from (uint base) ?n cs"
    by (rule number_from_mono [OF _ Cons.prems(3), of ?n base cs]) (use Cons.prems(1) in simp)
  then have "?n < 2 ^ 64" using Cons.prems(4) by simp
  then have n: "uint ?next = ?n" by (intro digit_step [OF c]) (simp add: mult.commute)
  have "uint res * 1 \<le> uint res * uint base" using Cons.prems(3) by (intro mult_left_mono) auto
  then have "\<not> ?next < res" using n d by (simp add: word_less_def mult.commute)
  then show ?case using Cons.IH [of ?next] Cons.prems c n by (simp add: valid_digit_def Let_def)
qed

lemma ucast_literal: "ucast (of_int n :: u64) = (of_int n :: u32)"
  by transfer simp

lemma read_digits_mod:
  "list_all (valid_digit base) ds \<Longrightarrow> rest = [] \<or> \<not> valid_digit base (hd rest) \<Longrightarrow> res = of_int n \<Longrightarrow>
     \<exists>ov'. read_digits base (ds @ rest) res ov = (of_int (number_from (uint base) n ds), ov', rest)"
proof (induction ds arbitrary: res n ov)
  case Nil
  then show ?case by (cases rest) (auto simp: valid_digit_def Let_def)
next
  case (Cons c cs)
  let ?next = "res * base + of_int (digit_num (tolower c))"
  have "?next = of_int (uint base * n + digit_num (tolower c))" using Cons.prems(3) by (simp add: mult.commute)
  then show ?case using Cons.IH [of ?next "uint base * n + digit_num (tolower c)"] Cons.prems
    by (simp add: valid_digit_def Let_def)
qed

text \<open>
  C33. Integer literals.  A run of digits of the base, decimal, hexadecimal or one of 2 to 9, with a value
  that 64 bits hold becomes the integer of this value, of 32 bits when it fits, without a diagnostic; what
  follows is left on the line.
\<close>

theorem literal_value:
  assumes "2 \<le> base \<and> base \<le> 10 \<or> base = 16" and "ds \<noteq> []" and "list_all (valid_digit base) ds"
    and "ends_literal base rest" and "input_pos s = ds @ rest" and "num_value (uint base) ds < 2 ^ 64"
  shows "Lex_GetIntOrFloat base s =
    Inr (if num_value (uint base) ds < 2 ^ 32 then LexInt (of_nat (num_value (uint base) ds))
         else LexInt64 (of_nat (num_value (uint base) ds)), s\<lparr>input_pos := rest\<rparr>)"
proof -
  have base: "1 \<le> uint base" using assms(1) by (auto simp: word_le_def)
  let ?n = "number_from (uint base) 0 ds"
  have n: "0 \<le> ?n" using number_from_mono [OF _ base assms(3), of 0] by simp
  then have "?n < 2 ^ 64" using assms(6) by (simp add: num_value_from nat_less_iff)
  then have digits: "read_digits base (input_pos s) 0 False = (of_int ?n, False, rest)"
    using read_digits_exact [of base ds rest 0 False] assms(3-5) base by (auto simp: ends_literal_def)
  have float: "\<not> starts_with ''.EePp'' rest" using assms(4) by (auto simp: ends_literal_def starts_with_def)
  have val: "of_nat (num_value (uint base) ds) = (of_int ?n :: u64)" "of_nat (num_value (uint base) ds) = (of_int ?n :: u32)"
    using n by (simp_all add: num_value_from)
  have fits: "(of_int ?n :: u64) \<le> 0xFFFFFFFF \<longleftrightarrow> num_value (uint base) ds < 2 ^ 32"
    using n \<open>?n < 2 ^ 64\<close>
    by (auto simp: word_le_def num_value_from nat_less_iff unsigned_of_int take_bit_int_eq_self)
  have rest: "rest \<noteq> input_pos s" using assms(2,5) by simp
  show ?thesis
    using assms(1) float rest unfolding Lex_GetIntOrFloat_def digits Let_def prod.case
    by (simp add: fits val ucast_literal)
qed

theorem literal_value_witness:
  "returned (rbind (Lex_GetIntOrFloat 16 (asm_line ''12aB+1'')) (\<lambda>(l, s). Inr (l, input_pos s))) = Some (LexInt 0x12AB, ''+1'')"
proof -
  have digits: "list_all (valid_digit 16) ''12aB''" "ends_literal 16 ''+1''" "num_value 16 ''12aB'' = 0x12AB"
    by code_simp+
  have "Lex_GetIntOrFloat 16 (asm_line ''12aB+1'') =
      Inr (if num_value (uint (16::u64)) ''12aB'' < 2 ^ 32 then LexInt (of_nat (num_value (uint (16::u64)) ''12aB''))
           else LexInt64 (of_nat (num_value (uint (16::u64)) ''12aB'')), (asm_line ''12aB+1'')\<lparr>input_pos := ''+1''\<rparr>)"
    by (rule literal_value) (use digits in \<open>simp_all add: asm_line_def\<close>)
  then show ?thesis using digits(3) by simp
qed

text \<open>
  C34. An overflow of 64 bits that goes unnoticed.  When the digits stand for a number that 64 bits do not hold
  but what is left of it fits into 32 bits, the literal is read as that remainder, without any diagnostic: the
  overflow is only reported for results of more than 32 bits.
\<close>

theorem literal_wraps:
  assumes "2 \<le> base \<and> base \<le> 10 \<or> base = 16" and "ds \<noteq> []" and "list_all (valid_digit base) ds"
    and "ends_literal base rest" and "input_pos s = ds @ rest" and "num_value (uint base) ds mod 2 ^ 64 < 2 ^ 32"
  shows "Lex_GetIntOrFloat base s = Inr (LexInt (of_nat (num_value (uint base) ds)), s\<lparr>input_pos := rest\<rparr>)"
proof -
  let ?n = "number_from (uint base) 0 ds"
  obtain ov where digits: "read_digits base (input_pos s) 0 False = (of_int ?n, ov, rest)"
    using read_digits_mod [of base ds rest 0 0 False] assms(3-5) by (auto simp: ends_literal_def)
  have n: "0 \<le> ?n" using number_from_mono [OF _ _ assms(3), of 0 "uint base"] assms(1) by (auto simp: word_le_def)
  have float: "\<not> starts_with ''.EePp'' rest" using assms(4) by (auto simp: ends_literal_def starts_with_def)
  have val: "of_nat (num_value (uint base) ds) = (of_int ?n :: u32)" using n by (simp add: num_value_from)
  have fits: "(of_int ?n :: u64) \<le> 0xFFFFFFFF"
  proof -
    have "uint (of_int ?n :: u64) = ?n mod 2 ^ 64" by (simp add: unsigned_of_int take_bit_eq_mod)
    also have "\<dots> = int (nat ?n mod 2 ^ 64)" using n by (simp add: zmod_int)
    finally show ?thesis using assms(6) by (simp add: word_le_def num_value_from)
  qed
  have rest: "rest \<noteq> input_pos s" using assms(2,5) by simp
  show ?thesis
    using assms(1) float rest fits unfolding Lex_GetIntOrFloat_def digits Let_def prod.case by (simp add: val ucast_literal)
qed

theorem literal_wraps_witness:
  "returned (rbind (Lex_GetIntOrFloat 10 (asm_line ''18446744073709551617'')) (\<lambda>(l, s). Inr (l, oMessages s)))
     = Some (LexInt 1, [])"
proof -
  let ?ds = "''18446744073709551617''"
  have digits: "list_all (valid_digit 10) ?ds" "num_value 10 ?ds = 18446744073709551617"
    by (simp_all add: valid_digit_def num_value_def digit_num_def isdigit_def isxdigit_def tolower_def ccode_def)
  have "Lex_GetIntOrFloat 10 (asm_line ?ds) = Inr (LexInt (of_nat (num_value (uint (10::u64)) ?ds)), (asm_line ?ds)\<lparr>input_pos := []\<rparr>)"
    by (rule literal_wraps) (use digits in \<open>simp_all add: asm_line_def ends_literal_def\<close>)
  then show ?thesis using digits(2) by (simp add: asm_line_def asm0_def)
qed

end
