(* ===== verification/Conditional_Skip.thy ===== *)
theory Conditional_Skip
  imports Conditional
begin

text \<open>
  What \<^verbatim>\<open>If_Skip\<close> skips, against the structure of the text, and how \<^verbatim>\<open>WEND\<close> enters a loop again.
\<close>

section \<open>What is skipped\<close>

text \<open>The next line while lines are skipped: its token, and the state behind the checks.\<close>

definition skipped_line :: "nat \<Rightarrow> asm \<Rightarrow> (if_token option \<times> asm) outcome" where
  "skipped_line fuel s =
     rbind (Input_NextLine fuel eVarSubstNoWarning s) (\<lambda>(m, s).
     rbind (rassert m) (\<lambda>_.
     rbind (classify if_token_at s) (\<lambda>(token, labelPresent, s).
       case token of
         None \<Rightarrow> Inr (None, s)
       | Some t \<Rightarrow> rbind (spurious_check t s) (\<lambda>s. rbind (label_check labelPresent s) (\<lambda>s. Inr (token, s))))))"

abbreviation read_line :: "nat \<Rightarrow> asm \<Rightarrow> if_token option \<Rightarrow> asm \<Rightarrow> bool" where
  "read_line fuel s token t \<equiv> skipped_line fuel s = Inr (token, t)"

text \<open>Lines in which every \<^verbatim>\<open>IF\<close> has its \<^verbatim>\<open>ENDIF\<close>, with their number; \<open>arms\<close> is what is between the two.\<close>

inductive balanced :: "nat \<Rightarrow> nat \<Rightarrow> asm \<Rightarrow> asm \<Rightarrow> bool" and arms :: "nat \<Rightarrow> nat \<Rightarrow> asm \<Rightarrow> asm \<Rightarrow> bool" for fuel where
  no_lines: "balanced fuel 0 s s"
| plain_line: "read_line fuel s None t \<Longrightarrow> balanced fuel n t u \<Longrightarrow> balanced fuel (Suc n) s u"
| nested_if: "read_line fuel s (Some t_if) t \<Longrightarrow> arms fuel m t u \<Longrightarrow> read_line fuel u (Some t_endif) v
    \<Longrightarrow> balanced fuel n v w \<Longrightarrow> balanced fuel (Suc (m + Suc n)) s w"
| last_arm: "balanced fuel n s t \<Longrightarrow> arms fuel n s t"
| next_arm: "balanced fuel m s t \<Longrightarrow> read_line fuel t (Some k) u \<Longrightarrow> k = t_else \<or> k = t_elif \<Longrightarrow> arms fuel n u v
    \<Longrightarrow> arms fuel (m + Suc n) s v"

text \<open>
  \<open>skips fuel n toDo s r\<close>: when an arm is skipped, \<open>n\<close> lines are read and the result is \<open>r\<close>.  The arm that is assembled
  next is the first whose condition is true, or that of the \<^verbatim>\<open>ELSE\<close>, unless one was assembled before.
\<close>

inductive skips :: "nat \<Rightarrow> nat \<Rightarrow> IfSkip_eToDo \<Rightarrow> asm \<Rightarrow> (bool \<times> asm) outcome \<Rightarrow> bool" for fuel where
  reaches_endif: "balanced fuel n s t \<Longrightarrow> read_line fuel t (Some t_endif) u \<Longrightarrow> skips fuel (Suc n) toDo s (c_endif u)"
| reaches_else: "balanced fuel n s t \<Longrightarrow> read_line fuel t (Some t_else) u
    \<Longrightarrow> skips fuel (Suc n) eSkipToElseElifOrEndif s (Inr (False, u))"
| elif_true: "balanced fuel n s t \<Longrightarrow> read_line fuel t (Some t_elif) u
    \<Longrightarrow> condition fuel ''ELIF expression must be boolean (treating as true)'' True u = Inr (True, v)
    \<Longrightarrow> skips fuel (Suc n) eSkipToElseElifOrEndif s (Inr (False, v))"
| elif_false: "balanced fuel n s t \<Longrightarrow> read_line fuel t (Some t_elif) u
    \<Longrightarrow> condition fuel ''ELIF expression must be boolean (treating as true)'' True u = Inr (False, v)
    \<Longrightarrow> skips fuel m eSkipToElseElifOrEndif v r \<Longrightarrow> skips fuel (n + Suc m) eSkipToElseElifOrEndif s r"
| passes_elif: "balanced fuel n s t \<Longrightarrow> read_line fuel t (Some t_elif) u \<Longrightarrow> skips fuel m eSkipToEndif u r
    \<Longrightarrow> skips fuel (n + Suc m) eSkipToEndif s r"
| passes_else: "balanced fuel n s t \<Longrightarrow> read_line fuel t (Some t_else) u \<Longrightarrow> skips fuel m eSkipToEndifStrict u r
    \<Longrightarrow> skips fuel (n + Suc m) eSkipToEndif s r"
| second_else: "balanced fuel n s t \<Longrightarrow> read_line fuel t (Some t_else) u
    \<Longrightarrow> Error ErrorError ''Spurious '|' or 'ELSE' is being ignored'' u = Inr v \<Longrightarrow> skips fuel m eSkipToEndifStrict v r
    \<Longrightarrow> skips fuel (n + Suc m) eSkipToEndifStrict s r"
| late_elif: "balanced fuel n s t \<Longrightarrow> read_line fuel t (Some t_elif) u
    \<Longrightarrow> Error ErrorError ''Spurious 'ELIF' is being ignored'' u = Inr v \<Longrightarrow> skips fuel m eSkipToEndifStrict v r
    \<Longrightarrow> skips fuel (n + Suc m) eSkipToEndifStrict s r"
| text_ends: "balanced fuel n s t \<Longrightarrow> Input_NextLine fuel eVarSubstNoWarning t = Inr (False, u)
    \<Longrightarrow> skips fuel (Suc n) toDo s (Inr (False, Input_ThisInstead [] u))"

text \<open>A text to skip in.\<close>

definition nested_text :: asm where
  "nested_text = reading ('' ['' @ [LF] @ '' ]'' @ [LF] @ '' |'' @ [LF])"

text \<open>A loop whose first line has a continued line, and the state at its end.\<close>

definition loop_text :: string where
  "loop_text = '' WHILE '' @ [backslash, LF] @ ''a'' @ [LF]"

definition loop_ends :: asm where
  "loop_ends = (reading loop_text)\<lparr>gPOStack := [macro_po\<lparr>po_type := POType_eFile, po_text := loop_text,
     po_pos := length loop_text, whileIfCurDepth := 1\<rparr>],
     readVars := (readVars asm0)\<lparr>oWhileIfs := (\<lambda>_. WhileIf_eIsWhile 3 0)\<rparr>\<rparr>"

lemma if_skip_line:
  assumes "read_line fuel s token t"
  shows "if_skip fuel (Suc n) toDo nested s = (case token of
      None \<Rightarrow> if_skip fuel n toDo nested t
    | Some t_if \<Rightarrow> if_skip fuel n toDo (Suc nested) t
    | Some t_endif \<Rightarrow> if nested = 0 then c_endif t else if_skip fuel n toDo (nested - 1) t
    | Some k \<Rightarrow>
        if nested \<noteq> 0 then if_skip fuel n toDo nested t
        else rbind (if k = t_else then at_else toDo t else at_elif fuel toDo t) (\<lambda>(next_toDo, s).
               case next_toDo of None \<Rightarrow> Inr (False, s) | Some toDo \<Rightarrow> if_skip fuel n toDo 0 s))"
proof -
  obtain u l v where u: "Input_NextLine fuel eVarSubstNoWarning s = Inr (True, u)" "classify if_token_at u = Inr (token, l, v)"
    "case token of None \<Rightarrow> t = v | Some k \<Rightarrow> \<exists>w. spurious_check k v = Inr w \<and> label_check l w = Inr t"
    using assms by (auto simp: skipped_line_def rbind_eq_Inr split: option.splits)
  then show ?thesis by (cases token) (auto split: if_token.split)
qed

lemma skip_balanced:
  "balanced fuel n s t \<Longrightarrow> if_skip fuel (n + r) toDo nested s = if_skip fuel r toDo nested t"
  "arms fuel n s t \<Longrightarrow> if_skip fuel (n + r) toDo (Suc nested) s = if_skip fuel r toDo (Suc nested) t"
proof (induction arbitrary: r nested and r nested rule: balanced_arms.inducts)
  case (nested_if s t m u v n w)
  have "if_skip fuel (Suc (m + Suc n) + r) toDo nested s = if_skip fuel (Suc (m + Suc (n + r))) toDo nested s"
    by (simp add: add.assoc del: if_skip.simps)
  also have "\<dots> = if_skip fuel (m + Suc (n + r)) toDo (Suc nested) t"
    by (simp add: if_skip_line [OF nested_if(1)] del: if_skip.simps)
  also have "\<dots> = if_skip fuel (Suc (n + r)) toDo (Suc nested) u" by (rule nested_if(3))
  also have "\<dots> = if_skip fuel (n + r) toDo nested v" by (simp add: if_skip_line [OF nested_if(4)] del: if_skip.simps)
  finally show ?case by (simp only: nested_if(6))
next
  case (next_arm m s t k u n v)
  have "if_skip fuel (m + Suc n + r) toDo (Suc nested) s = if_skip fuel (m + Suc (n + r)) toDo (Suc nested) s"
    by (simp add: add.assoc del: if_skip.simps)
  also have "\<dots> = if_skip fuel (Suc (n + r)) toDo (Suc nested) t" by (rule next_arm(2))
  also have "\<dots> = if_skip fuel (n + r) toDo (Suc nested) u"
    using next_arm(6) by (auto simp: if_skip_line [OF next_arm(3)] simp del: if_skip.simps)
  finally show ?case by (simp only: next_arm(5))
qed (simp_all add: if_skip_line del: if_skip.simps)

lemma skip_arm:
  assumes "balanced fuel n s t" and "read_line fuel t (Some k) u"
  shows "if_skip fuel (n + Suc r) toDo 0 s = (case k of
      t_if \<Rightarrow> if_skip fuel r toDo 1 u
    | t_endif \<Rightarrow> c_endif u
    | k \<Rightarrow> rbind (if k = t_else then at_else toDo u else at_elif fuel toDo u) (\<lambda>(next_toDo, s).
               case next_toDo of None \<Rightarrow> Inr (False, s) | Some toDo \<Rightarrow> if_skip fuel r toDo 0 s))"
  using skip_balanced(1) [OF assms(1), of "Suc r" toDo 0] if_skip_line [OF assms(2), of r toDo 0]
  by (cases k) (simp_all del: if_skip.simps)

lemma if_skip_skips: "skips fuel n toDo s r \<Longrightarrow> if_skip fuel (n + k) toDo 0 s = r"
proof (induction arbitrary: k rule: skips.induct)
  case (text_ends n s t u toDo)
  then show ?case using skip_balanced(1) [OF text_ends(1), of "Suc k" toDo 0] by simp
next
  case (reaches_endif n s t u toDo)
  then show ?case using skip_arm [of fuel n s t t_endif u k] by simp
next
  case (reaches_else n s t u)
  then show ?case using skip_arm [of fuel n s t t_else u k] by (simp add: at_else_def)
next
  case (elif_true n s t u v)
  then show ?case using skip_arm [of fuel n s t t_elif u k] by (simp add: at_elif_def)
next
  case (elif_false n s t u v m r)
  then show ?case using skip_arm [of fuel n s t t_elif u "m + k"] by (simp add: at_elif_def add.assoc del: if_skip.simps)
next
  case (passes_elif n s t u m r)
  then show ?case using skip_arm [of fuel n s t t_elif u "m + k"] by (simp add: at_elif_def add.assoc del: if_skip.simps)
next
  case (passes_else n s t u m r)
  then show ?case using skip_arm [of fuel n s t t_else u "m + k"] by (simp add: at_else_def add.assoc del: if_skip.simps)
next
  case (second_else n s t u v m r)
  then show ?case using skip_arm [of fuel n s t t_else u "m + k"] by (simp add: at_else_def add.assoc del: if_skip.simps)
next
  case (late_elif n s t u v m r)
  then show ?case using skip_arm [of fuel n s t t_elif u "m + k"] by (simp add: at_elif_def add.assoc del: if_skip.simps)
qed

text \<open>
  C10. Skipping the arms of an \<^verbatim>\<open>IF\<close>.  The counter of \<^verbatim>\<open>If_Skip\<close> implements the structure of the text: over balanced
  lines it goes on to the arm that is to be assembled, the end of the \<^verbatim>\<open>IF\<close> or the end of the text, and whatever is
  nested in the arms it skips has no effect.  As many rounds are needed as there are lines.
\<close>

theorem If_Skip_arms:
  assumes "Decode_FinalCheck s = Inr t" and "skips fuel n toDo t r" and "n \<le> fuel"
  shows "If_Skip fuel toDo s = r"
  using if_skip_skips [OF assms(2), of "fuel - n"] assms(1,3) by (simp add: If_Skip_def)

theorem If_Skip_arms_witness:
  "\<exists>t. If_Skip 5 eSkipToElseElifOrEndif nested_text = Inr (False, t) \<and> FS_GetCurLineNumber t = 4"
proof -
  have "returned (rbind (skipped_line 5 nested_text) (\<lambda>(k, s). rbind (rassert (k = Some t_if)) (\<lambda>_.
     rbind (skipped_line 5 s) (\<lambda>(k, s). rbind (rassert (k = Some t_endif)) (\<lambda>_.
     rbind (skipped_line 5 s) (\<lambda>(k, s). rbind (rassert (k = Some t_else)) (\<lambda>_. Inr (FS_GetCurLineNumber s)))))))) = Some 4"
    by code_simp
  then obtain t1 t2 t3 where t: "read_line 5 nested_text (Some t_if) t1" "read_line 5 t1 (Some t_endif) t2"
    "read_line 5 t2 (Some t_else) t3" "FS_GetCurLineNumber t3 = 4"
    by (simp add: rbind_eq_Inr) blast
  have "balanced 5 (Suc (0 + Suc 0)) nested_text t2"
    by (rule nested_if [OF t(1) last_arm [OF no_lines] t(2) no_lines])
  then have "skips 5 (Suc (Suc (0 + Suc 0))) eSkipToElseElifOrEndif nested_text (Inr (False, t3))"
    using t(3) by (rule reaches_else)
  moreover have "Decode_FinalCheck nested_text = Inr nested_text"
    by (simp add: Decode_FinalCheck_def nested_text_def reading_def asm0_def Input_SkipWS_def Input_IsEolOrCommentStart_def
        Input_Look_def peek_def)
  ultimately show ?thesis using If_Skip_arms [of nested_text nested_text 5 _ eSkipToElseElifOrEndif] t(4) by simp
qed

section \<open>Entering a loop again\<close>

lemma NextLineCore_file:
  assumes s: "gPOStack s = po # pos" and "po_type po \<noteq> POType_eMacro" and "oPreDefIdx (readVars s) = length (oPreDefines (readVars s))"
    and "regular (unread po)" and "unread po \<noteq> []" and l: "logical (unread po) = (line, k, rest)"
    and "length line + 3 \<le> sizeof_workBuff"
  shows "\<exists>t. Input_NextLineCore s = Inr (Some line, t) \<and> readVars t = readVars s
    \<and> gPOStack t = (finished (length (unread po) - length rest) k po)\<lparr>po_lineNum := po_lineNum po + of_nat k + 1\<rparr> # pos"
proof -
  have "GetLine sizeof_workBuff s = Inr (line_read s)"
    using GetLine_both [OF s assms(4,5), of sizeof_workBuff] assms(2,7) l
    by (cases "po_type po") (simp_all add: GetLine_def cur_po_def s)
  then show ?thesis using assms(3)
    by (simp add: Input_NextLineCore_def s line_read_def l Let_def next_lineNum_def upd_po_def finished_def)
qed


text \<open>
  C39. A loop whose first line is a continued one.  \<^verbatim>\<open>c_while\<close> has put a block on the stack with the number of its line, the
  position of its line, and \<^verbatim>\<open>WEND\<close> goes back to the position.  The line is read again, but it is recognised as the line
  of the loop only if it has no continued lines: \<^verbatim>\<open>c_wend\<close> subtracts one from the line number, and reading adds the number
  of all lines.  Otherwise each round puts another block on the stack, until there are too many.
\<close>

theorem While_again:
  assumes "gPOStack s = po # pos" and "po_type po \<noteq> POType_eMacro" and "oPreDefIdx (readVars s) = length (oPreDefines (readVars s))"
    and "regular (unread po)" and "unread po \<noteq> []" and "logical (unread po) = (line, k, rest)" and "length line + 3 \<le> sizeof_workBuff"
    and "Input_NextLineCore s = Inr (Some line, t)"
    and "gPOStack u = qo # qos" and "po_type qo = po_type po" and "po_text qo = po_text po"
    and "oPreDefIdx (readVars u) = length (oPreDefines (readVars u))"
    and "top_block u = Inr (WhileIf_eIsWhile (po_lineNum (hd (gPOStack t))) (line_start (hd (gPOStack t))))"
    and "c_wend u = Inr (m, v)" and "whileIfStartDepth qo < whileIfCurDepth qo"
  shows "\<exists>w. Input_NextLineCore v = Inr (Some line, w) \<and> is_reeval w = Inr (of_nat k = (0 :: u32))"
proof -
  let ?n = "length (unread po) - length rest"
  have t: "gPOStack t = (finished ?n k po)\<lparr>po_lineNum := po_lineNum po + of_nat k + 1\<rparr> # pos"
    using NextLineCore_file [OF assms(1-7)] assms(8) by auto
  have start: "line_start (hd (gPOStack t)) = po_pos po"
    using assms(2) by (simp add: t line_start_def finished_def)
  let ?qo = "qo\<lparr>po_lineNum := po_lineNum po + of_nat k, po_pos := po_pos po\<rparr>"
  have v: "v = u\<lparr>gPOStack := ?qo # qos\<rparr>"
    using assms(2,9,10,13-15)
    by (simp add: c_wend_def cur_po_def is_while_def While_Rewind_def upd_po_def t start [unfolded t list.sel] Let_def)
  have q: "unread ?qo = unread po" by (simp add: unread_def assms(11))
  obtain w where w: "Input_NextLineCore v = Inr (Some line, w)" "readVars w = readVars v"
    "gPOStack w = (finished ?n k ?qo)\<lparr>po_lineNum := po_lineNum ?qo + of_nat k + 1\<rparr> # qos"
    using NextLineCore_file [of v ?qo qos line k rest] assms(2,4-7,10,12) by (auto simp: v q)
  have "top_block w = top_block u"
    using assms(9,15) w(2) by (simp add: top_block_def cur_po_def w(3) get_block_def v finished_def)
  then have "is_reeval w = Inr (po_lineNum (hd (gPOStack t)) = po_lineNum po + of_nat k + of_nat k + 1)"
    using assms(13,15) by (simp add: is_reeval_def cur_po_def w(3) finished_def)
  also have "(po_lineNum (hd (gPOStack t)) = po_lineNum po + of_nat k + of_nat k + 1) \<longleftrightarrow> of_nat k = (0 :: u32)"
    by (simp add: t)
  finally show ?thesis using w(1) by blast
qed


theorem While_again_witness:
  "\<exists>v w. c_wend loop_ends = Inr (False, v) \<and> Input_NextLineCore v = Inr (Some '' WHILE a'', w) \<and> is_reeval w = Inr False"
proof -
  let ?po = "macro_po\<lparr>po_type := POType_eFile, po_text := loop_text\<rparr>"
  let ?qo = "macro_po\<lparr>po_type := POType_eFile, po_text := loop_text, po_pos := length loop_text, whileIfCurDepth := 1\<rparr>"
  have s: "gPOStack (reading loop_text) = [?po]" "unread ?po = loop_text"
    "oPreDefIdx (readVars (reading loop_text)) = length (oPreDefines (readVars (reading loop_text)))"
    by (simp_all add: reading_def unread_def macro_po_def asm0_def)
  have chars_ok: "regular loop_text" "loop_text \<noteq> []" "logical loop_text = ('' WHILE a'', 1, [])"
    by (simp_all add: loop_text_def chars)
  obtain t where t: "Input_NextLineCore (reading loop_text) = Inr (Some '' WHILE a'', t)"
    "gPOStack t = [(finished (length loop_text) 1 ?po)\<lparr>po_lineNum := po_lineNum ?po + of_nat 1 + 1\<rparr>]"
    using NextLineCore_file [OF s(1), of "'' WHILE a''" 1 "[]"] s(2,3) chars_ok by (auto simp: sizeof_workBuff_def MAX_LINE_def)
  have u: "gPOStack loop_ends = [?qo]" "oPreDefIdx (readVars loop_ends) = length (oPreDefines (readVars loop_ends))"
    by (simp_all add: loop_ends_def asm0_def)
  have top: "top_block loop_ends = Inr (WhileIf_eIsWhile (po_lineNum (hd (gPOStack t))) (line_start (hd (gPOStack t))))"
    by (simp add: top_block_def cur_po_def u get_block_def kMAX_WHILEIF_BLOCKS_def t(2) line_start_def finished_def)
      (simp add: loop_ends_def macro_po_def)
  obtain v where v: "c_wend loop_ends = Inr (False, v)"
    by (simp add: c_wend_def cur_po_def u(1) top is_while_def While_Rewind_def macro_po_def)
  show ?thesis
    using While_again [OF s(1) _ s(3), unfolded s(2), OF _ chars_ok _ t(1) u(1) _ _ u(2) top v] v
    by (simp add: sizeof_workBuff_def MAX_LINE_def macro_po_def)
qed

end
