(* ===== verification/Options.thy ===== *)
theory Options
  imports Literals Conditional_Skip
begin

text \<open>
  What follows a mnemonic: conditions, flags, widths and modes, \<^verbatim>\<open>option.c\<close>.  A condition needs two characters; the second
  is only read when the first is not the end of the line, as what C reads behind the end does not matter.
\<close>

section \<open>Options\<close>

definition "kOption_NotRecognized = (- 1 :: u32)"

definition "EQ = (0x00000000 :: u32)"
definition "NE = (0x10000000 :: u32)"
definition "CS = (0x20000000 :: u32)"
definition "CC = (0x30000000 :: u32)"
definition "MI = (0x40000000 :: u32)"
definition "PL = (0x50000000 :: u32)"
definition "VS = (0x60000000 :: u32)"
definition "VC = (0x70000000 :: u32)"
definition "HI = (0x80000000 :: u32)"
definition "LS = (0x90000000 :: u32)"
definition "GE = (0xA0000000 :: u32)"
definition "LT = (0xB0000000 :: u32)"
definition "GT = (0xC0000000 :: u32)"
definition "LE = (0xD0000000 :: u32)"

definition "H_FLAG = (0x00000020 :: u32)"
definition "S_FLAG = (0x00000040 :: u32)"
definition "L_FLAG = (0x00100000 :: u32)"
definition "W_FLAG = (0x00200000 :: u32)"
definition "B_FLAG = (0x00400000 :: u32)"
definition "P_FLAG = (0x01000000 :: u32)"
definition "PSR_S_FLAG = (0x00100000 :: u32)"
definition "PSR_P_FLAG = (0x0000F000 :: u32)"
definition "N_FLAG = (0x00400000 :: u32)"
definition "LINK_BIT = (0x01000000 :: u32)"
definition "EXCEPTION_BIT = (0x00400000 :: u32)"

definition "STACKMODE_IB = P_FLAG OR U_FLAG"
definition "STACKMODE_IA = U_FLAG"
definition "STACKMODE_DB = P_FLAG"
definition "STACKMODE_DA = (0 :: u32)"

definition "PRECISION_SINGLE = (0x00000000 :: u32)"
definition "PRECISION_DOUBLE = (0x00000080 :: u32)"
definition "PRECISION_EXTENDED = (0x00080000 :: u32)"
definition "PRECISION_MEM_SINGLE = (0x00000000 :: u32)"
definition "PRECISION_MEM_DOUBLE = (0x00008000 :: u32)"
definition "PRECISION_MEM_EXTENDED = (0x00400000 :: u32)"
definition "PRECISION_MEM_PACKED = (0x00408000 :: u32)"

definition "ROUND_NEAREST = (0x00 :: u32)"
definition "ROUND_PLUSINF = (0x20 :: u32)"
definition "ROUND_MINUSINF = (0x40 :: u32)"
definition "ROUND_ZERO = (0x60 :: u32)"

datatype InstrWidth_e = eInstrWidth_Unrecognized | eInstrWidth_NotSpecified | eInstrWidth_Enforce16bit | eInstrWidth_Enforce32bit

section \<open>Conditions\<close>

text \<open>\<^verbatim>\<open>c ^ 32\<close>: the bit 5.\<close>

definition xor32 :: "char \<Rightarrow> char" where
  "xor32 c = (case c of Char b0 b1 b2 b3 b4 b5 b6 b7 \<Rightarrow> Char b0 b1 b2 b3 b4 (\<not> b5) b6 b7)"

definition cond_codes :: "(string \<times> u32) list" where
  "cond_codes =
     [(''al'', AL), (''cc'', CC), (''cs'', CS), (''eq'', EQ), (''ge'', GE), (''gt'', GT), (''hi'', HI), (''hs'', CS), (''le'', LE),
      (''lo'', CC), (''ls'', LS), (''lt'', LT), (''mi'', MI), (''ne'', NE), (''pl'', PL), (''vc'', VC), (''vs'', VS)]"

definition cond_NV :: "asm \<Rightarrow> (u32 \<times> asm) outcome" where
  "cond_NV s =
     rbind (Target_CheckCPUFeature kCPUExt_v5 False s) (\<lambda>(v5, s).
       if v5 then Inr (kOption_NotRecognized, s)
       else
         rbind (Target_CheckCPUFeature kCPUExt_v4 False s) (\<lambda>(v4, s).
           if v4
           then rbind (Error ErrorWarning ''For ARMv4, use of NV condition code is UNPREDICTABLE'' s) (\<lambda>s. Inr (NV, s))
           else Inr (NV, s)))"

definition GetCCodeIfThere :: "bool \<Rightarrow> nat \<Rightarrow> asm \<Rightarrow> (u32 \<times> asm) outcome" where
  "GetCCodeIfThere doLowerCase skipChars s =
     rbind (Input_LookN skipChars s) (\<lambda>c1.
       if c1 = NUL then Inr (kOption_NotRecognized, s)
       else
         rbind (Input_LookN (skipChars + 1) s) (\<lambda>c2.
           let cc = (if doLowerCase then [c1, c2] else [xor32 c1, xor32 c2])
           in if cc = ''nv'' then cond_NV s
              else Inr (case map_of cond_codes cc of Some v \<Rightarrow> v | None \<Rightarrow> kOption_NotRecognized, s)))"

definition Option_GetCCodeIfThere :: "bool \<Rightarrow> asm \<Rightarrow> (u32 \<times> asm) outcome" where
  "Option_GetCCodeIfThere doLowerCase s =
     rbind (GetCCodeIfThere doLowerCase 0 s) (\<lambda>(cc, s).
       if cc \<noteq> kOption_NotRecognized then rbind (Input_SkipN 2 s) (\<lambda>s. Inr (cc, s)) else Inr (cc, s))"

definition GetCCode_option :: "bool \<Rightarrow> asm \<Rightarrow> (u32 \<times> asm) outcome" where
  "GetCCode_option doLowerCase s =
     rbind (Option_GetCCodeIfThere doLowerCase s) (\<lambda>(ccode, s).
       Inr (if ccode = kOption_NotRecognized then AL else ccode, s))"

section \<open>Parsing with a state\<close>

record ParseState =
  ps_idx :: nat
  ps_cc :: u32
  ps_doLowerCase :: bool

definition ParseState_Init :: "bool \<Rightarrow> ParseState" where
  "ParseState_Init doLowerCase = \<lparr>ps_idx = 0, ps_cc = 0, ps_doLowerCase = doLowerCase\<rparr>"

definition or32 :: "char \<Rightarrow> char" where
  "or32 c = (case c of Char b0 b1 b2 b3 b4 b5 b6 b7 \<Rightarrow> Char b0 b1 b2 b3 b4 True b6 b7)"

text \<open>\<open>cased\<close> is the lower case or the upper case letter; \<open>c\<close> is upper case.\<close>

definition cased :: "bool \<Rightarrow> char \<Rightarrow> char" where
  "cased doLowerCase c = (if doLowerCase then or32 c else c)"

definition ParseState_IsOptChar :: "u32 \<Rightarrow> char \<Rightarrow> ParseState \<Rightarrow> asm \<Rightarrow> (ParseState \<times> asm) outcome" where
  "ParseState_IsOptChar v c p s =
     rbind (Input_LookN (ps_idx p) s) (\<lambda>d.
       Inr (if d = cased (ps_doLowerCase p) c then p\<lparr>ps_cc := ps_cc p OR v, ps_idx := ps_idx p + 1\<rparr> else p, s))"

definition ParseState_IsOptCC :: "ParseState \<Rightarrow> asm \<Rightarrow> (ParseState \<times> asm) outcome" where
  "ParseState_IsOptCC p s =
     rbind (GetCCodeIfThere (ps_doLowerCase p) (ps_idx p) s) (\<lambda>(cc, s).
       Inr (if cc \<noteq> kOption_NotRecognized then p\<lparr>ps_cc := ps_cc p OR cc, ps_idx := ps_idx p + 2\<rparr>
            else p\<lparr>ps_cc := ps_cc p OR AL\<rparr>, s))"

definition ParseState_IsEndOfKeyword :: "ParseState \<Rightarrow> asm \<Rightarrow> (bool \<times> asm) outcome" where
  "ParseState_IsEndOfKeyword p s =
     rbind (Input_LookN (ps_idx p) s) (\<lambda>c.
       if ends_keyword c \<or> c = CHR ''.'' then rbind (Input_SkipN (ps_idx p) s) (\<lambda>s. Inr (True, s)) else Inr (False, s))"

text \<open>\<open>[<cc>]\<close>, \<open>[<cc>][<c>]\<close> and \<open>[<c>][<cc>]\<close>, each up to the end of the keyword.\<close>

definition only_cc :: "bool \<Rightarrow> asm \<Rightarrow> (u32 option \<times> asm) outcome" where
  "only_cc doLowerCase s =
     rbind (ParseState_IsOptCC (ParseState_Init doLowerCase) s) (\<lambda>(p, s).
     rbind (ParseState_IsEndOfKeyword p s) (\<lambda>(ok, s). Inr (if ok then Some (ps_cc p) else None, s)))"

definition cc_then_char :: "bool \<Rightarrow> char \<Rightarrow> u32 \<Rightarrow> asm \<Rightarrow> (u32 option \<times> asm) outcome" where
  "cc_then_char doLowerCase c cval s =
     rbind (ParseState_IsOptCC (ParseState_Init doLowerCase) s) (\<lambda>(p, s).
     rbind (ParseState_IsOptChar cval c p s) (\<lambda>(p, s).
     rbind (ParseState_IsEndOfKeyword p s) (\<lambda>(ok, s). Inr (if ok then Some (ps_cc p) else None, s))))"

definition char_then_cc :: "bool \<Rightarrow> char \<Rightarrow> u32 \<Rightarrow> asm \<Rightarrow> (u32 option \<times> asm) outcome" where
  "char_then_cc doLowerCase c cval s =
     rbind (ParseState_IsOptChar cval c (ParseState_Init doLowerCase) s) (\<lambda>(p, s).
     rbind (ParseState_IsOptCC p s) (\<lambda>(p, s).
     rbind (ParseState_IsEndOfKeyword p s) (\<lambda>(ok, s). Inr (if ok then Some (ps_cc p) else None, s))))"

definition recognized :: "u32 option \<Rightarrow> u32" where
  "recognized r = (case r of Some cc \<Rightarrow> cc | None \<Rightarrow> kOption_NotRecognized)"

definition or_else :: "(asm \<Rightarrow> (u32 option \<times> asm) outcome) \<Rightarrow> (asm \<Rightarrow> (u32 option \<times> asm) outcome) \<Rightarrow> asm \<Rightarrow> (u32 option \<times> asm) outcome" where
  "or_else f g s = rbind (f s) (\<lambda>(r, s). case r of Some cc \<Rightarrow> Inr (r, s) | None \<Rightarrow> g s)"

definition GetOptCCodeAndOptChar :: "bool \<Rightarrow> char \<Rightarrow> u32 \<Rightarrow> asm \<Rightarrow> (u32 \<times> asm) outcome" where
  "GetOptCCodeAndOptChar doLowerCase c cval s =
     rbind (or_else (only_cc doLowerCase) (\<lambda>s.
       case State_GetSyntax s of
         eSyntax_PreUALOnly \<Rightarrow> cc_then_char doLowerCase c cval s
       | eSyntax_Both \<Rightarrow> or_else (cc_then_char doLowerCase c cval) (char_then_cc doLowerCase c cval) s
       | eSyntax_UALOnly \<Rightarrow> char_then_cc doLowerCase c cval s) s) (\<lambda>(r, s). Inr (recognized r, s))"

text \<open>\<^verbatim>\<open>Option_LinkCond\<close> and \<^verbatim>\<open>Option_ExceptionCond\<close> only differ in the character.\<close>

definition opt_char_cond :: "char \<Rightarrow> u32 \<Rightarrow> bool \<Rightarrow> asm \<Rightarrow> (u32 \<times> asm) outcome" where
  "opt_char_cond c cval doLowerCase s =
     rbind (or_else (only_cc doLowerCase) (char_then_cc doLowerCase c cval) s) (\<lambda>(r, s). Inr (recognized r, s))"

section \<open>The options of the mnemonics\<close>

definition IsEndOfKeyword :: "u32 \<Rightarrow> asm \<Rightarrow> u32" where
  "IsEndOfKeyword option s =
     (if ends_keyword (Input_Look s) \<or> Input_Look s = CHR ''.'' then option else kOption_NotRecognized)"

definition Option_GetInstrWidth :: "bool \<Rightarrow> asm \<Rightarrow> (InstrWidth_e \<times> asm) outcome" where
  "Option_GetInstrWidth doLowerCase s =
     (let otherwise = Inr (if ends_keyword (Input_Look s) then eInstrWidth_NotSpecified else eInstrWidth_Unrecognized, s)
      in if State_GetSyntax s = eSyntax_PreUALOnly then otherwise
         else case Input_MatchKeyword (if doLowerCase then ''.w'' else ''.W'') s of
                Some s \<Rightarrow> Inr (eInstrWidth_Enforce32bit, s)
              | None \<Rightarrow>
                  (case Input_MatchKeyword (if doLowerCase then ''.n'' else ''.N'') s of
                     Some s \<Rightarrow>
                       if State_GetInstrType s = eInstrType_ARM
                       then rbind (Error ErrorError ''Narrow instruction qualifier is not possible in ARM mode'' s)
                              (\<lambda>s. Inr (eInstrWidth_NotSpecified, s))
                       else Inr (eInstrWidth_Enforce16bit, s)
                   | None \<Rightarrow> otherwise))"

text \<open>The modes by their two letters; the second letter is only read behind a first that fits.\<close>

definition stack_modes :: "bool \<Rightarrow> (string \<times> u32) list" where
  "stack_modes isLoad =
     [(''DB'', STACKMODE_DB), (''DA'', STACKMODE_DA),
      (''ED'', if isLoad then STACKMODE_IB else STACKMODE_DA), (''EA'', if isLoad then STACKMODE_DB else STACKMODE_IA),
      (''FD'', if isLoad then STACKMODE_IA else STACKMODE_DB), (''FA'', if isLoad then STACKMODE_DA else STACKMODE_IB),
      (''IB'', STACKMODE_IB), (''IA'', STACKMODE_IA)]"

definition GetStackMode :: "bool \<Rightarrow> bool \<Rightarrow> asm \<Rightarrow> (u32 \<times> asm) outcome" where
  "GetStackMode isLoad doLowerCase s =
     (if Input_Look s = NUL then Inr (kOption_NotRecognized, s)
      else
        rbind (Input_LookN 1 s) (\<lambda>c2.
          case find (\<lambda>(m, v). [Input_Look s, c2] = map (cased doLowerCase) m) (stack_modes isLoad) of
            Some (m, v) \<Rightarrow> rbind (Input_SkipN 2 s) (\<lambda>s. Inr (v, s))
          | None \<Rightarrow> Inr (kOption_NotRecognized, s)))"

text \<open>The first letter that matches.\<close>

fun match_letter :: "bool \<Rightarrow> (char \<times> u32) list \<Rightarrow> u32 \<Rightarrow> asm \<Rightarrow> u32 \<times> asm" where
  "match_letter doLowerCase [] otherwise s = (otherwise, s)"
| "match_letter doLowerCase ((c, v) # cs) otherwise s =
     (let (found, s) = Input_Match (cased doLowerCase c) False s
      in if found then (v, s) else match_letter doLowerCase cs otherwise s)"

definition GetFPAPrecision :: "bool \<Rightarrow> bool \<Rightarrow> asm \<Rightarrow> u32 \<times> asm" where
  "GetFPAPrecision forLdfStfUsage doLowerCase =
     match_letter doLowerCase
       [(CHR ''S'', if forLdfStfUsage then PRECISION_MEM_SINGLE else PRECISION_SINGLE),
        (CHR ''D'', if forLdfStfUsage then PRECISION_MEM_DOUBLE else PRECISION_DOUBLE),
        (CHR ''E'', if forLdfStfUsage then PRECISION_MEM_EXTENDED else PRECISION_EXTENDED),
        (CHR ''P'', if forLdfStfUsage then PRECISION_MEM_PACKED else kOption_NotRecognized)] kOption_NotRecognized"

definition GetFPARounding :: "bool \<Rightarrow> asm \<Rightarrow> u32 \<times> asm" where
  "GetFPARounding doLowerCase =
     match_letter doLowerCase [(CHR ''P'', ROUND_PLUSINF), (CHR ''M'', ROUND_MINUSINF), (CHR ''Z'', ROUND_ZERO)] ROUND_NEAREST"

definition Option_Cond :: "bool \<Rightarrow> asm \<Rightarrow> (u32 \<times> asm) outcome" where
  "Option_Cond doLowerCase s = rbind (GetCCode_option doLowerCase s) (\<lambda>(cc, s). Inr (IsEndOfKeyword cc s, s))"

definition Option_CondS :: "bool \<Rightarrow> asm \<Rightarrow> (u32 \<times> asm) outcome" where
  "Option_CondS doLowerCase = GetOptCCodeAndOptChar doLowerCase (CHR ''S'') PSR_S_FLAG"

definition Option_SCond :: "bool \<Rightarrow> asm \<Rightarrow> (u32 \<times> asm) outcome" where
  "Option_SCond doLowerCase s =
     (let (found, s) = Input_Match (cased doLowerCase (CHR ''S'')) False s; option = (if found then PSR_S_FLAG else 0)
      in rbind (GetCCode_option doLowerCase s) (\<lambda>(cc, s). Inr (IsEndOfKeyword (option OR cc) s, s)))"

definition Option_CondSP :: "bool \<Rightarrow> asm \<Rightarrow> (u32 \<times> asm) outcome" where
  "Option_CondSP doLowerCase s =
     (let syntax = State_GetSyntax s; gotS = (syntax = eSyntax_UALOnly); S = Input_Match (cased doLowerCase (CHR ''S'')) False;
          (gotS, s) = (if gotS then (True, s) else S s)
      in rbind (GetCCode_option doLowerCase s) (\<lambda>(cc, s).
           let option = cc OR PSR_S_FLAG; (gotS, s) = (if gotS then (True, s) else S s);
               (gotP, s) = (if syntax \<noteq> eSyntax_UALOnly then Input_Match (cased doLowerCase (CHR ''P'')) False s else (False, s));
               (gotS, s) = (if gotS then (True, s) else S s)
           in rbind (if gotS \<and> option_pedantic s
                     then Error ErrorInfo ''%c suffix on comparison instruction is DEPRECATED'' s else Inr s) (\<lambda>s.
              let option = (if gotP then option OR PSR_P_FLAG else option); result = IsEndOfKeyword option s
              in rbind (if result \<noteq> kOption_NotRecognized \<and> gotP \<and> flag (gOptionAPCS s) APCS_OPT_32BIT
                        then Error ErrorWarning ''TSTP/TEQP/CMNP/CMPP inadvisable in 32-bit PC configurations'' s
                        else Inr s) (\<lambda>s. Inr (result, s)))))"

definition Option_CondB :: "bool \<Rightarrow> asm \<Rightarrow> (u32 \<times> asm) outcome" where
  "Option_CondB doLowerCase = GetOptCCodeAndOptChar doLowerCase (CHR ''B'') B_FLAG"

definition Option_LdrStrType :: "bool \<Rightarrow> bool \<Rightarrow> asm \<Rightarrow> u32 \<times> asm" where
  "Option_LdrStrType isStore doLowerCase s =
     (let M = (\<lambda>c. Input_Match (cased doLowerCase c) False); (gotS, s) = M (CHR ''S'') s
      in if gotS
         then
           if isStore then (kOption_NotRecognized, s)
           else
             let (gotH, s) = M (CHR ''H'') s
             in if gotH then (H_FLAG OR 0x90 OR S_FLAG OR L_FLAG, s)
                else let (gotB, s) = M (CHR ''B'') s in (if gotB then 0x90 OR S_FLAG OR L_FLAG else kOption_NotRecognized, s)
         else
           let (gotD, s) = M (CHR ''D'') s
           in if gotD then (if isStore then 0x90 OR S_FLAG OR H_FLAG else 0x90 OR S_FLAG, s)
              else
                let (gotH, s) = M (CHR ''H'') s
                in if gotH then (if isStore then 0x90 OR H_FLAG else 0x90 OR H_FLAG OR L_FLAG, s)
                   else
                     let (gotB, s) = M (CHR ''B'') s;
                         option = (if gotB then B_FLAG else 0) OR 0x04000000;
                         option = (if isStore then option else option OR L_FLAG);
                         (gotT, s) = M (CHR ''T'') s
                     in (if gotT then option OR W_FLAG else option, s))"

definition Option_LdrStrCondAndType :: "bool \<Rightarrow> bool \<Rightarrow> asm \<Rightarrow> (u32 \<times> asm) outcome" where
  "Option_LdrStrCondAndType isStore doLowerCase s =
     rbind (Option_GetCCodeIfThere doLowerCase s) (\<lambda>(option, s).
     rbind (let (ty, s) = Option_LdrStrType isStore doLowerCase s
            in if option = kOption_NotRecognized
               then
                 if ty \<noteq> kOption_NotRecognized then rbind (GetCCode_option doLowerCase s) (\<lambda>(cc, s). Inr (ty OR cc, s))
                 else Inr (ty, s)
               else Inr (option OR ty, s)) (\<lambda>(option, s).
       Inr (IsEndOfKeyword option s, s)))"

definition Option_CondRfeSrs :: "bool \<Rightarrow> bool \<Rightarrow> asm \<Rightarrow> (u32 \<times> asm) outcome" where
  "Option_CondRfeSrs isLoad doLowerCase s =
     rbind (GetStackMode isLoad doLowerCase s) (\<lambda>(option, s).
       Inr (IsEndOfKeyword (if option = kOption_NotRecognized then STACKMODE_IA else option) s, s))"

definition Option_CondLdmStm :: "bool \<Rightarrow> bool \<Rightarrow> asm \<Rightarrow> (u32 \<times> asm) outcome" where
  "Option_CondLdmStm isLDM doLowerCase s =
     (let syntax = State_GetSyntax s
      in rbind (if syntax = eSyntax_UALOnly then Inr (kOption_NotRecognized, s) else Option_GetCCodeIfThere doLowerCase s) (\<lambda>(ccode, s).
         rbind (if syntax \<noteq> eSyntax_PreUALOnly
                then
                  rbind (GetStackMode isLDM doLowerCase s) (\<lambda>(stackMode, s).
                  let stackMode = (if stackMode = kOption_NotRecognized then STACKMODE_IA else stackMode)
                  in rbind (if ccode = kOption_NotRecognized then Option_GetCCodeIfThere doLowerCase s else Inr (ccode, s)) (\<lambda>(ccode, s).
                       Inr (stackMode, ccode, s)))
                else
                  (case Input_MatchString (if doLowerCase then ''ia'' else ''IA'') s of
                     Some s \<Rightarrow> Inr (STACKMODE_IA, ccode, s)
                   | None \<Rightarrow> Inr (kOption_NotRecognized, ccode, s))) (\<lambda>(stackMode, ccode, s).
           let ccode = (if ccode = kOption_NotRecognized then AL else ccode)
           in Inr (IsEndOfKeyword (ccode OR stackMode) s, s))))"

definition Option_CondLfmSfm :: "bool \<Rightarrow> asm \<Rightarrow> (u32 \<times> asm) outcome" where
  "Option_CondLfmSfm = GetCCode_option"

definition Option_CondPrecRound :: "bool \<Rightarrow> asm \<Rightarrow> (u32 \<times> asm) outcome" where
  "Option_CondPrecRound doLowerCase s =
     rbind (GetCCode_option doLowerCase s) (\<lambda>(option, s).
       let (prec, s) = GetFPAPrecision False doLowerCase s; option = option OR prec
       in if option = kOption_NotRecognized then Inr (kOption_NotRecognized, s)
          else let (round, s) = GetFPARounding doLowerCase s in Inr (IsEndOfKeyword (option OR round) s, s))"

definition Option_CondPrec_P :: "bool \<Rightarrow> asm \<Rightarrow> (u32 \<times> asm) outcome" where
  "Option_CondPrec_P doLowerCase s =
     rbind (GetCCode_option doLowerCase s) (\<lambda>(option, s).
       let (prec, s) = GetFPAPrecision True doLowerCase s; option = option OR prec
       in Inr (if option = kOption_NotRecognized then kOption_NotRecognized else IsEndOfKeyword option s, s))"

definition Option_CondL :: "bool \<Rightarrow> asm \<Rightarrow> (u32 \<times> asm) outcome" where
  "Option_CondL doLowerCase = GetOptCCodeAndOptChar doLowerCase (CHR ''L'') N_FLAG"

definition Option_CondOptRound :: "bool \<Rightarrow> asm \<Rightarrow> (u32 \<times> asm) outcome" where
  "Option_CondOptRound doLowerCase s =
     rbind (GetCCode_option doLowerCase s) (\<lambda>(cc, s).
       let (round, s) = GetFPARounding doLowerCase s in Inr (IsEndOfKeyword (cc OR PRECISION_SINGLE OR round) s, s))"

definition Option_LinkCond :: "bool \<Rightarrow> asm \<Rightarrow> (u32 \<times> asm) outcome" where
  "Option_LinkCond = opt_char_cond (CHR ''L'') LINK_BIT"

definition Option_ExceptionCond :: "bool \<Rightarrow> asm \<Rightarrow> (u32 \<times> asm) outcome" where
  "Option_ExceptionCond = opt_char_cond (CHR ''E'') EXCEPTION_BIT"

definition Option_ADRL :: "bool \<Rightarrow> asm \<Rightarrow> (u32 \<times> asm) outcome" where
  "Option_ADRL doLowerCase = GetOptCCodeAndOptChar doLowerCase (CHR ''L'') 1"

definition Option_IsValidARMMode :: "u32 \<Rightarrow> bool" where
  "Option_IsValidARMMode armMode \<longleftrightarrow> armMode \<in> {0x10, 0x11, 0x12, 0x13, 0x16, 0x17, 0x1A, 0x1B, 0x1F}"

end
