(* ===== verification/Option_Language.thy ===== *)
theory Option_Language
  imports Options
begin

text \<open>
  The texts that \<^verbatim>\<open>GetOptCCodeAndOptChar\<close> of \<^verbatim>\<open>option.c\<close> accepts: the grammar of the options behind a mnemonic as an
  inductive relation, a parser on texts that the functions of \<^verbatim>\<open>option.c\<close> are shown to be, and the agreement of the two.
\<close>

section \<open>The language of the options\<close>

definition has_v5 :: "asm \<Rightarrow> bool" where
  "has_v5 s \<longleftrightarrow> Target_GetCPUFeatures s AND kCPUExt_v5 = kCPUExt_v5"

text \<open>The texts of the conditions, and no text for always.\<close>

definition cond_texts :: "bool \<Rightarrow> (string \<times> u32) list" where
  "cond_texts doLowerCase = map (\<lambda>(t, v). (if doLowerCase then t else map xor32 t, v)) cond_codes"

definition opt_cond_texts :: "bool \<Rightarrow> (string \<times> u32) list" where
  "opt_cond_texts doLowerCase = ([], AL) # cond_texts doLowerCase"

definition ends_option :: "string \<Rightarrow> bool" where
  "ends_option rest \<longleftrightarrow> ends_keyword (peek rest 0) \<or> peek rest 0 = CHR ''.''"

text \<open>The suffixes of a mnemonic with an optional letter, by the syntax.\<close>

inductive option_text :: "Syntax_e \<Rightarrow> bool \<Rightarrow> char \<Rightarrow> u32 \<Rightarrow> string \<Rightarrow> u32 \<Rightarrow> bool" for syn doLowerCase c cval where
  cond_only: "(t, v) \<in> set (opt_cond_texts doLowerCase) \<Longrightarrow> option_text syn doLowerCase c cval t v"
| cond_letter: "(t, v) \<in> set (opt_cond_texts doLowerCase) \<Longrightarrow> syn \<noteq> eSyntax_UALOnly
    \<Longrightarrow> option_text syn doLowerCase c cval (t @ [cased doLowerCase c]) (v OR cval)"
| letter_cond: "(t, v) \<in> set (opt_cond_texts doLowerCase) \<Longrightarrow> syn \<noteq> eSyntax_PreUALOnly
    \<Longrightarrow> option_text syn doLowerCase c cval (cased doLowerCase c # t) (v OR cval)"

section \<open>The parser on texts\<close>

definition cond_at :: "bool \<Rightarrow> string \<Rightarrow> u32 option" where
  "cond_at doLowerCase xs = (case xs of a # b # _ \<Rightarrow> map_of (cond_texts doLowerCase) [a, b] | _ \<Rightarrow> None)"

definition p_cc :: "bool \<Rightarrow> string \<Rightarrow> u32 \<times> string" where
  "p_cc doLowerCase xs = (case cond_at doLowerCase xs of Some v \<Rightarrow> (v, drop 2 xs) | None \<Rightarrow> (AL, xs))"

definition p_char :: "char \<Rightarrow> u32 \<Rightarrow> u32 \<times> string \<Rightarrow> u32 \<times> string" where
  "p_char c cval p = (if snd p \<noteq> [] \<and> hd (snd p) = c then (fst p OR cval, tl (snd p)) else p)"

definition p_char_cc :: "bool \<Rightarrow> char \<Rightarrow> u32 \<Rightarrow> string \<Rightarrow> u32 \<times> string" where
  "p_char_cc doLowerCase c cval xs =
     (let (v, ys) = p_char c cval (0, xs); (w, zs) = p_cc doLowerCase ys in (v OR w, zs))"

definition p_end :: "u32 \<times> string \<Rightarrow> (u32 \<times> string) option" where
  "p_end p = (if ends_option (snd p) then Some p else None)"

definition p_option :: "Syntax_e \<Rightarrow> bool \<Rightarrow> char \<Rightarrow> u32 \<Rightarrow> string \<Rightarrow> (u32 \<times> string) option" where
  "p_option syn doLowerCase c cval xs =
     (let cc_char = p_end (p_char c cval (p_cc doLowerCase xs)); char_cc = p_end (p_char_cc doLowerCase c cval xs)
      in case p_end (p_cc doLowerCase xs) of
           Some r \<Rightarrow> Some r
         | None \<Rightarrow>
             (case syn of
                eSyntax_PreUALOnly \<Rightarrow> cc_char
              | eSyntax_UALOnly \<Rightarrow> char_cc
              | eSyntax_Both \<Rightarrow> (case cc_char of Some r \<Rightarrow> Some r | None \<Rightarrow> char_cc)))"

text \<open>What the functions return for a result of the parser.\<close>

definition option_parsed :: "asm \<Rightarrow> (u32 \<times> string) option \<Rightarrow> u32 option \<times> asm" where
  "option_parsed s r = (case r of Some (v, rest) \<Rightarrow> (Some v, s\<lparr>input_pos := rest\<rparr>) | None \<Rightarrow> (None, s))"

definition state_at :: "asm \<Rightarrow> ParseState \<Rightarrow> u32 \<times> string \<Rightarrow> bool" where
  "state_at s p r \<longleftrightarrow> ps_idx p \<le> length (input_pos s) \<and> r = (ps_cc p, drop (ps_idx p) (input_pos s))"

lemma xor32_xor32 [simp]: "xor32 (xor32 c) = c"
  by (cases c) (simp add: xor32_def)

lemma map_of_inj: "inj f \<Longrightarrow> map_of (map (\<lambda>(t, v). (f t, v)) xs) (f t) = map_of xs t"
  by (induction xs) (auto simp: inj_eq)

lemma cond_codes_xor:
  "map_of cond_codes (if doLowerCase then [a, b] else [xor32 a, xor32 b]) = map_of (cond_texts doLowerCase) [a, b]"
proof (cases doLowerCase)
  case False
  have inj: "inj (map xor32)" by (rule inj_mapI, rule inj_on_inverseI [where g = xor32]) simp
  show ?thesis using False map_of_inj [OF inj, of cond_codes "[xor32 a, xor32 b]"] by (simp add: cond_texts_def)
qed (simp add: cond_texts_def)

text \<open>The conditions and the ends.\<close>

definition letters :: string where
  "letters = ''SBLE''"

lemma cond_values: "list_all (\<lambda>(t, v). v \<noteq> kOption_NotRecognized) (cond_texts b)"
  by (induct b) (simp_all add: cond_texts_def cond_codes_def kOption_NotRecognized_def AL_def CC_def CS_def EQ_def GE_def GT_def HI_def
      LE_def LS_def LT_def MI_def NE_def PL_def VC_def VS_def)

lemma cond_chars:
  "list_all (\<lambda>(t, v). length t = 2 \<and> list_all (\<lambda>c. \<not> ends_keyword c \<and> c \<noteq> CHR ''.'' \<and> c \<noteq> NUL) t) (cond_texts b)"
  by (induct b) code_simp+

lemma cond_distinct: "distinct (map fst (cond_texts b))"
  by (induct b) code_simp+

lemma no_NV: "map_of (cond_texts b) ''nv'' = None" "map_of (cond_texts b) ''NV'' = None"
  by (induct b) code_simp+

lemma letter_chars: "list_all (\<lambda>c. \<not> ends_keyword (cased b c) \<and> cased b c \<noteq> CHR ''.'' \<and> cased b c \<noteq> NUL) letters"
  by (induct b) code_simp+

text \<open>No text can be taken for another: a letter and a condition for a condition and a letter.\<close>

lemma letter_conds:
  "list_all (\<lambda>c. list_all (\<lambda>(t, v). cond_at b (cased b c # t) = None \<or> t ! 1 \<noteq> cased b c) (cond_texts b)) letters"
  by (induct b) code_simp+

text \<open>The functions are the parser on the rest of the line.\<close>

lemma cond_text:
  assumes "(t, v) \<in> set (cond_texts b)"
  shows "\<exists>x y. t = [x, y] \<and> \<not> ends_option (x # xs) \<and> \<not> ends_option (y # xs) \<and> x \<noteq> NUL \<and> y \<noteq> NUL \<and> v \<noteq> kOption_NotRecognized"
proof -
  have t: "length t = 2" "list_all (\<lambda>c. \<not> ends_keyword c \<and> c \<noteq> CHR ''.'' \<and> c \<noteq> NUL) t"
    using cond_chars [of b] assms by (auto simp: list_all_iff)
  have v: "v \<noteq> kOption_NotRecognized" using cond_values [of b] assms by (auto simp: list_all_iff)
  obtain x y where xy: "t = [x, y]" using t(1) by (auto simp: numeral_2_eq_2 length_Suc_conv)
  show ?thesis using t(2) v unfolding xy by (simp add: ends_option_def peek_def)
qed

lemma cond_at_text:
  assumes "(t, v) \<in> set (cond_texts b)"
  shows "cond_at b (t @ xs) = Some v"
proof -
  obtain x y where "t = [x, y]" using cond_text [OF assms] by blast
  then show ?thesis using cond_distinct assms by (simp add: cond_at_def map_of_is_SomeI)
qed

lemma cond_at_Some:
  assumes "cond_at b xs = Some v"
  shows "(take 2 xs, v) \<in> set (cond_texts b) \<and> xs = take 2 xs @ drop 2 xs"
  using assms by (auto simp: cond_at_def dest!: map_of_SomeD split: list.splits)

lemma cond_at_ends:
  assumes "ends_option xs"
  shows "cond_at b xs = None" "cond_at b (x # xs) = None"
proof -
  have "cond_at b zs = None" if "zs = xs \<or> zs = x # xs" for zs
  proof (rule ccontr)
    assume "cond_at b zs \<noteq> None"
    then obtain v where v: "cond_at b zs = Some v" by blast
    obtain y z where yz: "take 2 zs = [y, z]" "\<not> ends_option (y # tl xs)" "\<not> ends_option (z # tl xs)" "y \<noteq> NUL" "z \<noteq> NUL"
      using cond_text [of _ v b "tl xs"] cond_at_Some [OF v] by metis
    show False
      using that yz assms by (cases xs) (auto simp: ends_option_def peek_def)
  qed
  then show "cond_at b xs = None" "cond_at b (x # xs) = None" by blast+
qed

lemma GetCCodeIfThere_at:
  assumes "has_v5 s" and "k \<le> length (input_pos s)" and "NUL \<notin> set (input_pos s)"
  shows "GetCCodeIfThere b k s = Inr (case cond_at b (drop k (input_pos s)) of Some v \<Rightarrow> v | None \<Rightarrow> kOption_NotRecognized, s)"
proof (cases "drop k (input_pos s)")
  case Nil
  then show ?thesis using assms(2) by (simp add: GetCCodeIfThere_def Input_LookN_def peek_def cond_at_def)
next
  case (Cons x xs)
  have k: "k < length (input_pos s)" using Cons by (metis drop_all leI list.distinct(1))
  then have x: "input_pos s ! k = x" "x \<noteq> NUL"
    using Cons assms(3) by (metis Cons_nth_drop_Suc list.inject, metis Cons_nth_drop_Suc list.inject nth_mem)
  have xs: "drop (Suc k) (input_pos s) = xs" using Cons k by (metis Cons_nth_drop_Suc list.inject)
  have v5: "cond_NV s = Inr (kOption_NotRecognized, s)"
    using assms(1) by (simp add: cond_NV_def Target_CheckCPUFeature_def Target_CheckCPUFeatureDetail_def has_v5_def)
  define y where "y = peek (input_pos s) (Suc k)"
  have nv: "map_of (cond_texts b) [x, y] = None" if "(if b then [x, y] else [xor32 x, xor32 y]) = ''nv''"
    using no_NV [of b] that cond_codes_xor [of b x y] by (cases b) (auto simp: cond_codes_def)
  have "cond_at b (x # xs) = map_of (cond_texts b) [x, y]"
  proof (cases xs)
    case Nil
    then have "y = NUL" using xs k by (simp add: y_def peek_def)
    then have "map_of (cond_texts b) [x, y] = None"
      using cond_text [of "[x, y]" _ b] by (cases "map_of (cond_texts b) [x, y]") (auto dest: map_of_SomeD)
    then show ?thesis by (simp add: cond_at_def Nil)
  next
    case (Cons z zs)
    then have "y = z" using xs k by (metis Cons_nth_drop_Suc drop_all leI list.distinct(1) list.inject peek_def y_def)
    then show ?thesis by (simp add: cond_at_def Cons)
  qed
  moreover have "Input_LookN k s = Inr x" "Input_LookN (k + 1) s = Inr y"
    using k x by (simp_all add: Input_LookN_def peek_def y_def)
  ultimately show ?thesis
    using x(2) nv by (simp add: GetCCodeIfThere_def Cons Let_def v5 cond_codes_xor split: option.split)
qed


lemma IsOptCC_at:
  assumes "has_v5 s" and "NUL \<notin> set (input_pos s)" and "state_at s p (v, xs)"
  shows "\<exists>q. ParseState_IsOptCC p s = Inr (q, s) \<and> ps_doLowerCase q = ps_doLowerCase p
    \<and> state_at s q (v OR fst (p_cc (ps_doLowerCase p) xs), snd (p_cc (ps_doLowerCase p) xs))"
proof -
  have k: "ps_idx p \<le> length (input_pos s)" "xs = drop (ps_idx p) (input_pos s)" "v = ps_cc p"
    using assms(3) by (auto simp: state_at_def)
  show ?thesis
  proof (cases "cond_at (ps_doLowerCase p) xs")
    case None
    then show ?thesis
      using GetCCodeIfThere_at [OF assms(1) k(1) assms(2)] k by (simp add: ParseState_IsOptCC_def state_at_def p_cc_def)
  next
    case (Some w)
    have "w \<noteq> kOption_NotRecognized" using cond_text cond_at_Some [OF Some] by blast
    moreover have "ps_idx p + 2 \<le> length (input_pos s)"
    proof -
      have "length xs \<ge> 2" using Some by (auto simp: cond_at_def split: list.splits)
      then show ?thesis using k by simp
    qed
    ultimately show ?thesis
      using GetCCodeIfThere_at [OF assms(1) k(1) assms(2)] k Some
      by (simp add: ParseState_IsOptCC_def state_at_def p_cc_def add.commute)
  qed
qed

lemma IsOptChar_at:
  assumes "state_at s p r" and "cased (ps_doLowerCase p) c \<noteq> NUL" and "NUL \<notin> set (input_pos s)"
  shows "\<exists>q. ParseState_IsOptChar cval c p s = Inr (q, s) \<and> ps_doLowerCase q = ps_doLowerCase p
    \<and> state_at s q (p_char (cased (ps_doLowerCase p) c) cval r)"
proof -
  have k: "ps_idx p \<le> length (input_pos s)" "r = (ps_cc p, drop (ps_idx p) (input_pos s))"
    using assms(1) by (auto simp: state_at_def)
  show ?thesis
  proof (cases "drop (ps_idx p) (input_pos s)")
    case Nil
    then have "peek (input_pos s) (ps_idx p) = NUL" by (simp add: peek_def)
    then show ?thesis using k assms(2) Nil by (simp add: ParseState_IsOptChar_def Input_LookN_def state_at_def p_char_def)
  next
    case (Cons x xs)
    then have i: "ps_idx p < length (input_pos s)" by (metis drop_all leI list.distinct(1))
    then have "peek (input_pos s) (ps_idx p) = x" "drop (Suc (ps_idx p)) (input_pos s) = xs"
      using Cons by (metis Cons_nth_drop_Suc list.inject peek_def, metis Cons_nth_drop_Suc list.inject)
    then show ?thesis using k i Cons by (simp add: ParseState_IsOptChar_def Input_LookN_def state_at_def p_char_def)
  qed
qed

lemma IsEndOfKeyword_at:
  assumes "state_at s p r"
  shows "rbind (ParseState_IsEndOfKeyword p s) (\<lambda>(ok, s). Inr (if ok then Some (ps_cc p) else None, s)) = Inr (option_parsed s (p_end r))"
proof -
  have k: "ps_idx p \<le> length (input_pos s)" "r = (ps_cc p, drop (ps_idx p) (input_pos s))"
    using assms by (auto simp: state_at_def)
  have "peek (drop (ps_idx p) (input_pos s)) 0 = peek (input_pos s) (ps_idx p)" by (simp add: peek_def)
  then show ?thesis
    using k by (simp add: ParseState_IsEndOfKeyword_def Input_LookN_def Input_SkipN_def ends_option_def p_end_def option_parsed_def)
qed

lemma state_at_Init: "state_at s (ParseState_Init b) (0, input_pos s)"
  by (simp add: state_at_def ParseState_Init_def)

lemma only_cc_at:
  assumes "has_v5 s" and "NUL \<notin> set (input_pos s)"
  shows "only_cc b s = Inr (option_parsed s (p_end (p_cc b (input_pos s))))"
proof -
  obtain p where p: "ParseState_IsOptCC (ParseState_Init b) s = Inr (p, s)" "state_at s p (p_cc b (input_pos s))"
    using IsOptCC_at [OF assms state_at_Init, of b] by (auto simp: ParseState_Init_def)
  show ?thesis using IsEndOfKeyword_at [OF p(2)] by (simp add: only_cc_def p(1))
qed

lemma cc_then_char_at:
  assumes "has_v5 s" and "NUL \<notin> set (input_pos s)" and "cased b c \<noteq> NUL"
  shows "cc_then_char b c cval s = Inr (option_parsed s (p_end (p_char (cased b c) cval (p_cc b (input_pos s)))))"
proof -
  obtain p where p: "ParseState_IsOptCC (ParseState_Init b) s = Inr (p, s)" "ps_doLowerCase p = b"
    "state_at s p (p_cc b (input_pos s))"
    using IsOptCC_at [OF assms(1,2) state_at_Init, of b] by (auto simp: ParseState_Init_def)
  obtain q where "ParseState_IsOptChar cval c p s = Inr (q, s)" "state_at s q (p_char (cased b c) cval (p_cc b (input_pos s)))"
    using IsOptChar_at [OF p(3)] assms p(2) by blast
  then show ?thesis using IsEndOfKeyword_at by (simp add: cc_then_char_def p(1))
qed

lemma char_then_cc_at:
  assumes "has_v5 s" and "NUL \<notin> set (input_pos s)" and "cased b c \<noteq> NUL"
  shows "char_then_cc b c cval s = Inr (option_parsed s (p_end (p_char_cc b (cased b c) cval (input_pos s))))"
proof -
  obtain p where p: "ParseState_IsOptChar cval c (ParseState_Init b) s = Inr (p, s)" "ps_doLowerCase p = b"
    "state_at s p (p_char (cased b c) cval (0, input_pos s))"
    using IsOptChar_at [OF state_at_Init, of b c s cval] assms by (auto simp: ParseState_Init_def)
  obtain v xs where v: "p_char (cased b c) cval (0, input_pos s) = (v, xs)" by fastforce
  obtain q where "ParseState_IsOptCC p s = Inr (q, s)" "state_at s q (p_char_cc b (cased b c) cval (input_pos s))"
    using IsOptCC_at [OF assms(1,2), of p v xs] p v by (auto simp: p_char_cc_def split_beta)
  then show ?thesis using IsEndOfKeyword_at by (simp add: char_then_cc_def p(1))
qed


lemma GetOpt_at:
  assumes "has_v5 s" and "NUL \<notin> set (input_pos s)" and "cased b c \<noteq> NUL"
  shows "GetOptCCodeAndOptChar b c cval s =
    (case p_option (State_GetSyntax s) b (cased b c) cval (input_pos s) of
       Some (v, rest) \<Rightarrow> Inr (v, s\<lparr>input_pos := rest\<rparr>) | None \<Rightarrow> Inr (kOption_NotRecognized, s))"
  by (simp add: GetOptCCodeAndOptChar_def or_else_def only_cc_at [OF assms(1,2)] cc_then_char_at [OF assms] char_then_cc_at [OF assms]
      p_option_def option_parsed_def Let_def recognized_def split: option.split Syntax_e.split)

text \<open>Texts of the language are parsed.\<close>

lemma opt_cond_cases:
  assumes "(t, v) \<in> set (opt_cond_texts b)"
  obtains "t = []" "v = AL" | x y where "t = [x, y]" "(t, v) \<in> set (cond_texts b)"
  using assms cond_text by (auto simp: opt_cond_texts_def) blast

lemma p_cc_text:
  assumes "(t, v) \<in> set (opt_cond_texts b)" and "ends_option rest"
  shows "p_cc b (t @ rest) = (v, rest)" and "p_cc b (t @ x # rest) = (v, x # rest)"
proof -
  have "p_cc b (t @ xs) = (v, xs)" if "xs = rest \<or> xs = x # rest" for xs
    using assms(1)
  proof (cases rule: opt_cond_cases)
    case 1
    then show ?thesis using that cond_at_ends [OF assms(2), of b] by (auto simp: p_cc_def)
  next
    case (2 y z)
    then show ?thesis using cond_at_text [of t v b xs] by (simp add: p_cc_def)
  qed
  then show "p_cc b (t @ rest) = (v, rest)" and "p_cc b (t @ x # rest) = (v, x # rest)" by simp_all
qed

lemma p_cc_inverse: "p_cc b xs = (v, ys) \<Longrightarrow> \<exists>t. xs = t @ ys \<and> (t, v) \<in> set (opt_cond_texts b)"
proof (cases "cond_at b xs")
  case (Some w)
  assume "p_cc b xs = (v, ys)"
  then show ?thesis
    using cond_at_Some [OF Some] Some by (intro exI [of _ "take 2 xs"]) (simp add: p_cc_def opt_cond_texts_def)
qed (simp add: p_cc_def opt_cond_texts_def)

lemma p_end_simps: "ends_option (snd r) \<Longrightarrow> p_end r = Some r" "\<not> ends_option (snd r) \<Longrightarrow> p_end r = None"
  by (simp_all add: p_end_def)

lemma letter: "c \<in> set letters \<Longrightarrow> \<not> ends_option (cased b c # xs)"
  using letter_chars [of b] by (auto simp: list_all_iff ends_option_def peek_def)

lemma letter_cond_order:
  assumes "(t, v) \<in> set (cond_texts b)" and "cond_at b (cased b c # t @ xs) = Some w"
    and "c \<in> set letters"
  shows "t ! 1 \<noteq> cased b c"
proof -
  obtain x y where t: "t = [x, y]" using cond_text [OF assms(1)] by blast
  have "cond_at b (cased b c # t) = Some w" using assms(2) by (simp add: cond_at_def t)
  then show ?thesis using letter_conds [of b] assms(1,3) by (force simp: list_all_iff)
qed

lemma p_option_text:
  assumes "option_text syn b c cval t v" and "ends_option rest" and "c \<in> set letters"
  shows "p_option syn b (cased b c) cval (t @ rest) = Some (v, rest)"
  using assms(1)
proof cases
  case cond_only
  then show ?thesis
    by (simp add: p_option_def Let_def p_cc_text [OF _ assms(2)] p_end_simps assms(2))
next
  case (cond_letter u w)
  have "p_cc b (t @ rest) = (w, cased b c # rest)"
    using p_cc_text(2) [OF cond_letter(3) assms(2)] by (simp add: cond_letter(1))
  then show ?thesis
    using cond_letter(4) letter [OF assms(3)] assms(2)
    by (cases syn) (simp_all add: p_option_def Let_def p_end_simps p_char_def cond_letter(2))
next
  case (letter_cond u w)
  have char_cc: "p_end (p_char_cc b (cased b c) cval (t @ rest)) = Some (v, rest)"
    using p_cc_text(1) [OF letter_cond(3) assms(2)] assms(2)
    by (simp add: p_char_cc_def p_char_def letter_cond(1,2) p_end_simps or.commute)
  have "p_end (p_cc b (t @ rest)) = None
    \<and> (p_end (p_char (cased b c) cval (p_cc b (t @ rest))) = None \<or> p_end (p_char (cased b c) cval (p_cc b (t @ rest))) = Some (v, rest))"
    using letter_cond(3)
  proof (cases rule: opt_cond_cases)
    case 1
    have "p_cc b (t @ rest) = (AL, cased b c # rest)"
      using cond_at_ends(2) [OF assms(2)] by (simp add: p_cc_def letter_cond(1) 1)
    then show ?thesis
      using letter [OF assms(3)] assms(2) by (simp add: p_end_simps p_char_def letter_cond(2) 1)
  next
    case (2 x y)
    have ends: "\<not> ends_option (x # y # rest)" "\<not> ends_option (y # rest)"
      using cond_text [OF 2(2), of "y # rest"] cond_text [OF 2(2), of rest] 2(1) by auto
    show ?thesis
    proof (cases "cond_at b (cased b c # u @ rest)")
      case None
      then have "p_cc b (t @ rest) = (AL, cased b c # x # y # rest)" by (simp add: p_cc_def letter_cond(1) 2(1))
      then show ?thesis using letter [OF assms(3)] ends by (simp add: p_end_simps p_char_def)
    next
      case (Some z)
      then have "p_cc b (t @ rest) = (z, y # rest)" by (simp add: p_cc_def letter_cond(1) 2(1))
      moreover have "y \<noteq> cased b c" using letter_cond_order [OF 2(2) Some assms(3)] by (simp add: 2(1))
      ultimately show ?thesis using ends by (simp add: p_end_simps p_char_def)
    qed
  qed
  then show ?thesis using char_cc letter_cond(4) by (cases syn) (auto simp: p_option_def Let_def)
qed


text \<open>Only texts of the language are parsed.\<close>

lemma p_end_Some: "p_end r = Some (v, rest) \<longleftrightarrow> r = (v, rest) \<and> ends_option rest"
  by (auto simp: p_end_def)

lemma p_char_inverse:
  "p_char c cval (w, ys) = (v, rest) \<Longrightarrow> (v = w \<and> rest = ys) \<or> (v = w OR cval \<and> ys = c # rest)"
  by (cases ys) (auto simp: p_char_def split: if_splits)

lemma p_option_only:
  assumes "p_option syn b (cased b c) cval xs = Some (v, rest)"
  shows "\<exists>t. xs = t @ rest \<and> option_text syn b c cval t v \<and> ends_option rest"
proof -
  obtain w ys where w: "p_cc b xs = (w, ys)" by fastforce
  obtain t where t: "xs = t @ ys" "(t, w) \<in> set (opt_cond_texts b)" using p_cc_inverse [OF w] by blast
  consider "p_end (p_cc b xs) = Some (v, rest)"
    | "syn \<noteq> eSyntax_UALOnly" "p_end (p_char (cased b c) cval (p_cc b xs)) = Some (v, rest)"
    | "syn \<noteq> eSyntax_PreUALOnly" "p_end (p_char_cc b (cased b c) cval xs) = Some (v, rest)"
    using assms by (cases syn) (auto simp: p_option_def Let_def split: option.splits)
  then show ?thesis
  proof cases
    case 1
    then have "v = w" "rest = ys" "ends_option rest" by (simp_all add: p_end_Some w)
    then show ?thesis using t cond_only by blast
  next
    case 2
    then have "(v = w \<and> rest = ys) \<or> (v = w OR cval \<and> ys = cased b c # rest)" "ends_option rest"
      using p_char_inverse by (auto simp: p_end_Some w)
    then show ?thesis using t cond_only cond_letter [OF t(2) 2(1), of c cval] by auto
  next
    case 3
    obtain u zs where u: "p_char (cased b c) cval (0, xs) = (u, zs)" by fastforce
    obtain x where x: "p_cc b zs = (x, rest)" "v = u OR x" "ends_option rest"
      using 3(2) by (auto simp: p_char_cc_def u p_end_Some split: prod.splits)
    obtain t' where t': "zs = t' @ rest" "(t', x) \<in> set (opt_cond_texts b)" using p_cc_inverse [OF x(1)] by blast
    from p_char_inverse [OF u] show ?thesis
      using t' x(2,3) cond_only letter_cond [OF t'(2) 3(1), of c cval] by (auto simp: or.commute)
  qed
qed

text \<open>
  C8. The options behind a mnemonic.  From ARMv5 on, \<^verbatim>\<open>GetOptCCodeAndOptChar\<close>, which reads the options of the mnemonics with
  a flag \<open>S\<close>, \<open>B\<close> or \<open>L\<close>, accepts exactly the texts \<open>[<cc>]\<close>, before UAL \<open>[<cc>][<c>]\<close> and with UAL \<open>[<c>][<cc>]\<close>, in the
  case of the mnemonic, up to the end of the keyword, with the condition and flag they stand for; no text can be taken
  for another.  On all others it returns \<^verbatim>\<open>kOption_NotRecognized\<close> and reads nothing.
\<close>

theorem option_language:
  assumes "has_v5 s" and "NUL \<notin> set (input_pos s)" and "c \<in> set letters"
  shows "(\<forall>t v rest. input_pos s = t @ rest \<and> option_text (State_GetSyntax s) b c cval t v \<and> ends_option rest
       \<longrightarrow> GetOptCCodeAndOptChar b c cval s = Inr (v, s\<lparr>input_pos := rest\<rparr>))
    \<and> ((\<nexists>t v rest. input_pos s = t @ rest \<and> option_text (State_GetSyntax s) b c cval t v \<and> ends_option rest)
       \<longrightarrow> GetOptCCodeAndOptChar b c cval s = Inr (kOption_NotRecognized, s))"
proof -
  have c: "cased b c \<noteq> NUL" using letter_chars [of b] assms(3) by (auto simp: list_all_iff)
  note at = GetOpt_at [OF assms(1,2) c, of cval]
  show ?thesis
    using p_option_text [OF _ _ assms(3)] p_option_only by (auto simp: at split: option.split) blast+
qed

theorem option_language_witness:
  "Option_CondS False (asm0\<lparr>input_pos := ''SEQ r0'', oCurrentSyntax := eSyntax_UALOnly\<rparr>)
     = Inr (PSR_S_FLAG OR EQ, asm0\<lparr>input_pos := '' r0'', oCurrentSyntax := eSyntax_UALOnly\<rparr>)"
proof -
  let ?s = "asm0\<lparr>input_pos := ''SEQ r0'', oCurrentSyntax := eSyntax_UALOnly\<rparr>"
  have "(''EQ'', EQ) \<in> set (opt_cond_texts False)"
    by (simp add: opt_cond_texts_def cond_texts_def cond_codes_def xor32_def)
  then have "option_text (State_GetSyntax ?s) False (CHR ''S'') PSR_S_FLAG (cased False (CHR ''S'') # ''EQ'') (EQ OR PSR_S_FLAG)"
    by (rule letter_cond) (simp add: State_GetSyntax_def)
  then have "input_pos ?s = ''SEQ'' @ '' r0'' \<and> option_text (State_GetSyntax ?s) False (CHR ''S'') PSR_S_FLAG ''SEQ'' (EQ OR PSR_S_FLAG)
      \<and> ends_option '' r0''"
    by (simp add: cased_def ends_option_def peek_def ends_keyword_def isspace_def ccode_def)
  moreover have "has_v5 ?s" "NUL \<notin> set (input_pos ?s)" "CHR ''S'' \<in> set letters"
    by (simp_all add: has_v5_def Target_GetCPUFeatures_def asm0_def letters_def NUL_def)
  ultimately have "GetOptCCodeAndOptChar False (CHR ''S'') PSR_S_FLAG ?s = Inr (EQ OR PSR_S_FLAG, ?s\<lparr>input_pos := '' r0''\<rparr>)"
    using option_language by blast
  then show ?thesis by (simp add: Option_CondS_def or.commute)
qed

end
