(* ===== verification/Operands.thy ===== *)
theory Operands
  imports Options
begin

text \<open>
  The operands of data processing instructions: registers, register lists, shifts and immediate constants, \<^verbatim>\<open>get.c\<close>.
\<close>

section \<open>Registers\<close>

definition "INVALID_REG = (0xFFFFFFFF :: u32)"
definition "IMM_RHS = (0x02000000 :: u32)"
definition "NO_SHIFT = (0 :: u32)"

definition SHIFT_REG :: "u32 \<Rightarrow> u32" where
  "SHIFT_REG s = shl32 s 8 OR 0x10"

definition GetRegisterValue :: "bool \<Rightarrow> IntType_e \<Rightarrow> asm \<Rightarrow> (u32 \<times> asm) outcome" where
  "GetRegisterValue genError ty s =
     (let nothing = (\<lambda>s. Inr (if genError then 0 else INVALID_REG, s));
          failed = (\<lambda>msg s. if genError then rbind (Error ErrorError msg s) nothing else nothing s)
      in rbind (if genError then Lex_GetID s else Lex_GetIDNoError s) (\<lambda>(lexSym, s).
           case lexSym of
             LexId str \<Rightarrow>
               (case Symbol_Find str s of
                  Some r \<Rightarrow>
                    if flag (attr_type (syms s r)) SYMBOL_DEFINED
                    then
                      (case attr_value (syms s r) of
                         ValueInt i t \<Rightarrow> if t = ty then Inr (i, s) else failed ([CHR 0x27] @ ''%s' is not a %s'') s
                       | _ \<Rightarrow> failed ([CHR 0x27] @ ''%s' is not a %s'') s)
                    else failed ''Undefined %s %.*s'' s
                | None \<Rightarrow> failed ''Undefined %s %.*s'' s)
           | _ \<Rightarrow> nothing s))"

definition Get_CPUReg :: "asm \<Rightarrow> (u32 \<times> asm) outcome" where
  "Get_CPUReg = GetRegisterValue True eIntType_CPU"

definition Get_CPURegNoError :: "asm \<Rightarrow> (u32 \<times> asm) outcome" where
  "Get_CPURegNoError s =
     rbind (GetRegisterValue False eIntType_CPU s) (\<lambda>(reg, t).
       Inr (reg, if reg = INVALID_REG then Input_RollBackToMark (Input_GetMark s) t else t))"

definition Get_FPUReg :: "asm \<Rightarrow> (u32 \<times> asm) outcome" where
  "Get_FPUReg = GetRegisterValue True eIntType_FPU"

definition Get_CopReg :: "asm \<Rightarrow> (u32 \<times> asm) outcome" where
  "Get_CopReg = GetRegisterValue True eIntType_CoProReg"

definition Get_CopNum :: "asm \<Rightarrow> (u32 \<times> asm) outcome" where
  "Get_CopNum = GetRegisterValue True eIntType_CoProNum"

section \<open>Register lists\<close>

text \<open>An interval of registers, \<open>low\<close> and \<open>high\<close>.\<close>

definition reg_interval :: "asm \<Rightarrow> (u32 \<times> u32 \<times> asm) outcome" where
  "reg_interval s =
     rbind (Get_CPUReg s) (\<lambda>(low, s).
       let s = Input_SkipWS s
       in if Input_Look s = CHR ''-''
          then
            rbind (Get_CPUReg (Input_Skip s)) (\<lambda>(high, s).
              let s = Input_SkipWS s
              in if high < low
                 then rbind (if option_pedantic s then Error ErrorInfo ''Register interval in wrong order r%d-r%d'' s else Inr s)
                        (\<lambda>s. Inr (high, low, s))
                 else Inr (low, high, s))
          else if Input_Look s = CHR '','' \<or> Input_Look s = CHR ''}''
          then Inr (low, low, s)
          else rbind (Error ErrorError ''Illegal character '%c' in register list'' s) (\<lambda>s. Inr (low, 15, s)))"

text \<open>The bits of an interval; C leaves shifts by 32 and more undefined.\<close>

definition reg_bits :: "u32 \<Rightarrow> u32 \<Rightarrow> u32 outcome" where
  "reg_bits low high =
     (if low < 32 \<and> high + 1 < 32 then Inr (push_bit (unat (high + 1)) 1 - push_bit (unat low) 1) else Inl Undefined)"

fun reg_list :: "nat \<Rightarrow> u32 \<Rightarrow> asm \<Rightarrow> (u32 \<times> asm) outcome" where
  "reg_list 0 regList s = Inl OutOfFuel"
| "reg_list (Suc fuel) regList s =
     rbind (reg_interval s) (\<lambda>(low, high, s).
     rbind (reg_bits low high) (\<lambda>bits.
     rbind (if option_pedantic s \<and> push_bit (unat low) 1 < regList then Error ErrorInfo ''Registers in wrong order'' s else Inr s) (\<lambda>s.
     rbind (if bits AND regList \<noteq> 0 then Error ErrorInfo ''Register occurs more than once in register list'' s else Inr s) (\<lambda>s.
       let regList = regList OR bits; (comma, s) = Input_Match (CHR '','') True s
       in if comma then reg_list fuel regList s else Inr (regList, s)))))"

definition Get_CPURList :: "asm \<Rightarrow> (u32 \<times> asm) outcome" where
  "Get_CPURList s =
     (let (open, s) = Input_Match (CHR ''{'') True s
      in rbind (if open then Inr s else Error ErrorError ''Missing '{' before reglist'' s) (\<lambda>s.
         rbind (reg_list (Suc (length (input_pos s))) 0 s) (\<lambda>(regList, s).
           let (close, s) = Input_Match (CHR ''}'') False s
           in rbind (if close then Inr s else Error ErrorError ''Inserting missing '}' after reglist'' s) (\<lambda>s. Inr (regList, s)))))"

section \<open>Shifts and constants\<close>

text \<open>The letters of an operator; a letter is only read when those before it fit.\<close>

definition shift_ops :: "(string \<times> u32) list" where
  "shift_ops = [(''asl'', LSL), (''asr'', ASR), (''lsl'', LSL), (''lsr'', LSR), (''ror'', ROR), (''rrx'', RRX)]"

definition getShiftOp :: "asm \<Rightarrow> (u32 \<times> asm) outcome" where
  "getShiftOp s =
     (case map_of shift_ops (map (\<lambda>n. tolower (peek (input_pos s) n)) [0, 1, 2]) of
        Some r \<Rightarrow> rbind (Input_SkipN 3 s) (\<lambda>s. Inr (r, s))
      | None \<Rightarrow> rbind (Error ErrorError ''Illegal shiftop %c%c%c'' s) (\<lambda>s. Inr (0, s)))"

definition getShift :: "nat \<Rightarrow> bool \<Rightarrow> asm \<Rightarrow> (u32 \<times> asm) outcome" where
  "getShift fuel regshift s =
     rbind (getShiftOp s) (\<lambda>(shift, s).
       if shift = RRX then Inr (SHIFT_OP shift, s)
       else
         let (hash, s) = Input_Match (CHR ''#'') False (Input_SkipWS s)
         in if hash
            then
              rbind (evaluate fuel tInt s) (\<lambda>(im, s).
                case im of
                  ValueInt i _ \<Rightarrow> Fix_ShiftImm shift i s
                | _ \<Rightarrow> rbind (Error ErrorError ''Illegal shift expression'' s) (\<lambda>s. Inr (0, s)))
            else if regshift
            then rbind (Get_CPUReg s) (\<lambda>(r, s). Inr (SHIFT_REG r OR SHIFT_OP shift, s))
            else rbind (Error ErrorError ''Only shift immediate allowed here'' s) (\<lambda>s. Inr (0, s)))"

text \<open>The rotation behind an immediate constant.\<close>

definition rotator :: "nat \<Rightarrow> u32 \<Rightarrow> u32 \<Rightarrow> asm \<Rightarrow> (u32 \<times> asm) outcome" where
  "rotator fuel i ir s =
     rbind (if i <s 0 \<or> 256 \<le>s i then Error ErrorError ''Immediate value out of range: 0x%x'' s else Inr s) (\<lambda>s.
     rbind (evaluate fuel tInt s) (\<lambda>(v, s).
     rbind (case v of
              ValueInt r eIntType_PureInt \<Rightarrow> Inr (r, s)
            | _ \<Rightarrow> rbind (Error ErrorError ''Illegal immediate expression'' s) (\<lambda>s. Inr (0, s))) (\<lambda>(r, s).
     rbind (if 30 < r \<or> r mod 2 = 1 then Error ErrorError ''Bad rotator %d'' s else Inr s) (\<lambda>s.
       Inr (ir OR shl32 (shr32 r 1) 8, s)))))"

definition Get_RHS :: "nat \<Rightarrow> bool \<Rightarrow> bool \<Rightarrow> u32 \<Rightarrow> asm \<Rightarrow> (u32 \<times> asm) outcome" where
  "Get_RHS fuel regshift shift ir s =
     (let (hash, s) = Input_Match (CHR ''#'') False s
      in if hash
         then
           let ir = ir OR IMM_RHS
           in rbind (evaluate fuel (tInt OR tAddr) s) (\<lambda>(im, s).
                case im of
                  ValueAddr _ i \<Rightarrow> Fix_Imm8s4 ir i s
                | ValueInt i eIntType_PureInt \<Rightarrow>
                    let (comma, s) = Input_Match (CHR '','') False s
                    in rbind (if comma then rotator fuel i ir s else Inr (ir, s)) (\<lambda>(ir, s). Fix_Imm8s4 ir i s)
                | _ \<Rightarrow>
                    rbind (if gPhase s \<noteq> ePassOne then Error ErrorError ''Illegal immediate expression'' s else Inr s)
                      (\<lambda>s. Inr (ir, s)))
         else
           rbind (Get_CPUReg s) (\<lambda>(r, s).
             let ir = ir OR r
             in if shift
                then
                  let (comma, s) = Input_Match (CHR '','') True (Input_SkipWS s)
                  in if comma then rbind (getShift fuel regshift s) (\<lambda>(op, s). Inr (ir OR op, s)) else Inr (ir OR NO_SHIFT, s)
                else Inr (ir, s)))"

end
