(* ===== verification/Register_Lists.thy ===== *)
theory Register_Lists
  imports Operands
begin

text \<open>
  What register lists are read as: the items of a list with their text and the registers they stand for, and the bits of
  the word that \<^verbatim>\<open>Get_CPURList\<close> of \<^verbatim>\<open>get.c\<close> returns for them.
\<close>

section \<open>Register lists\<close>

text \<open>The register a name stands for.\<close>

definition reg_of :: "asm \<Rightarrow> string \<Rightarrow> u32 option" where
  "reg_of s a =
     (case Symbol_Find a s of
        None \<Rightarrow> None
      | Some p \<Rightarrow>
          if flag (attr_type (syms s p)) SYMBOL_DEFINED
          then (case attr_value (syms s p) of ValueInt r t \<Rightarrow> if t = eIntType_CPU then Some r else None | _ \<Rightarrow> None)
          else None)"

text \<open>An item of a list is a register or an interval of registers.\<close>

type_synonym reg_item = "string \<times> string option"

definition item_text :: "reg_item \<Rightarrow> string" where
  "item_text x = (case x of (a, None) \<Rightarrow> a | (a, Some b) \<Rightarrow> a @ ''-'' @ b)"

fun items_text :: "reg_item list \<Rightarrow> string" where
  "items_text [] = []"
| "items_text [x] = item_text x"
| "items_text (x # xs) = item_text x @ '','' @ items_text xs"

definition is_reg :: "asm \<Rightarrow> string \<Rightarrow> bool" where
  "is_reg s a \<longleftrightarrow> is_id a \<and> (\<exists>r. reg_of s a = Some r \<and> r < 16)"

definition item_ok :: "asm \<Rightarrow> reg_item \<Rightarrow> bool" where
  "item_ok s x \<longleftrightarrow> is_reg s (fst x) \<and> (\<forall>b. snd x = Some b \<longrightarrow> is_reg s b)"

definition reg_num :: "asm \<Rightarrow> string \<Rightarrow> nat" where
  "reg_num s a = unat (the (reg_of s a))"

definition item_regs :: "asm \<Rightarrow> reg_item \<Rightarrow> nat set" where
  "item_regs s x =
     (let l = reg_num s (fst x); h = (case snd x of None \<Rightarrow> l | Some b \<Rightarrow> reg_num s b) in {min l h..max l h})"

definition same_regs :: "asm \<Rightarrow> asm \<Rightarrow> bool" where
  "same_regs s t \<longleftrightarrow> symbolTable t = symbolTable s \<and> syms t = syms s \<and> oNumErrors t = oNumErrors s"

text \<open>Two registers.\<close>

definition two_regs :: asm where
  "two_regs =
     (let reg = (\<lambda>a n. sym0\<lparr>sym_str := a, attr_type := SYMBOL_DEFINED, attr_value := ValueInt n eIntType_CPU\<rparr>)
      in asm0\<lparr>syms := (\<lambda>r. if r = 0 then reg ''a'' 4 else reg ''b'' 7), symbolTable := (\<lambda>_. [0, 1]), input_pos := ''{b-a,a}''\<rparr>)"

lemma isearch_syms: "syms t = syms s \<Longrightarrow> isearch t xs a = isearch s xs a"
  by (rule isearch_cong) simp

lemma same_regs_of: "same_regs s t \<Longrightarrow> reg_of t = reg_of s"
  by (rule ext) (simp add: same_regs_def reg_of_def Symbol_Find_def isearch_syms [of t s] split: option.split Value.split)

lemma same_regs_items:
  assumes "same_regs s t"
  shows "item_ok t = item_ok s" and "item_regs t = item_regs s"
proof -
  have r: "is_reg t = is_reg s" "reg_num t = reg_num s"
    by (rule ext, simp add: is_reg_def reg_num_def same_regs_of [OF assms])+
  show "item_ok t = item_ok s" by (rule ext) (simp add: item_ok_def r(1))
  show "item_regs t = item_regs s"
  proof (rule ext)
    fix x show "item_regs t x = item_regs s x" by (cases "snd x") (simp_all add: item_regs_def r(2))
  qed
qed

lemma same_regs_trans: "same_regs s t \<Longrightarrow> same_regs t u \<Longrightarrow> same_regs s u"
  by (simp add: same_regs_def)

lemma same_regs_pos [simp]: "same_regs s (s\<lparr>input_pos := p\<rparr>)"
  by (simp add: same_regs_def)

lemma same_regs_refl [simp]: "same_regs s s"
  by (simp add: same_regs_def)

lemma counted_info:
  assumes "oNumErrors s \<le> MAXERR"
  shows "\<exists>t. (if b then Error ErrorInfo m s else Inr s) = Inr t \<and> input_pos t = input_pos s \<and> same_regs s t"
  using assms by (simp add: Error_def errorCore_def same_regs_def Let_def)

lemma bits_interval:
  fixes low high :: u32
  assumes "low \<le> high" and "high < 16"
  shows "\<exists>w. reg_bits low high = Inr w \<and> (\<forall>i. bit w i \<longleftrightarrow> i \<in> {unat low..unat high})"
proof -
  let ?m = "mask (Suc (unat high)) AND NOT (mask (unat low)) :: u32"
  have h: "unat high < 16" "unat low \<le> unat high" using assms by (simp_all add: word_less_nat_alt word_le_nat_alt)
  have "mask (unat low) + ?m = mask (unat low) OR ?m"
    by (rule disjunctive_add) (simp add: bit_simps)
  also have "\<dots> = mask (Suc (unat high))"
    by (rule bit_word_eqI) (use h in \<open>auto simp: bit_simps\<close>)
  finally have "?m = mask (Suc (unat high)) - mask (unat low)" by (simp add: algebra_simps)
  then have "?m = push_bit (Suc (unat high)) 1 - push_bit (unat low) 1"
    by (simp add: mask_eq_exp_minus_1 push_bit_eq_mult)
  moreover have "high + 1 < 32" "low < 32" "unat (high + 1) = Suc (unat high)"
    using h unat_add_lem [of high 1] by (auto simp: word_less_nat_alt)
  ultimately have "reg_bits low high = Inr ?m" by (simp add: reg_bits_def)
  moreover have "bit ?m i \<longleftrightarrow> i \<in> {unat low..unat high}" for i
    using h by (auto simp: bit_simps)
  ultimately show ?thesis by blast
qed

lemma GetID_name:
  assumes "is_id a" and "input_pos s = a @ x # rest" and "\<not> id_part x"
  shows "Lex_GetID s = Inr (LexId a, s\<lparr>input_pos := x # rest\<rparr>)"
proof -
  obtain c cs where a: "a = c # cs" "id_start c" using assms(1) by (cases a) (auto simp: is_id_def)
  have "id_length (input_pos s) = length a"
    using id_length_id [OF assms(1), of "x # rest"] assms(3) by (simp add: assms(2) ends_name_def)
  then show ?thesis
    using id_start_facts [OF a(2)]
    by (simp add: Lex_GetID_def Lex_GetIDNoError_def Input_SkipWS_def Input_Symbol_def Input_SymbolNoBar_def Input_Look_def
        peek_def assms(2) a(1) Let_def)
qed

lemma Get_CPUReg_name:
  assumes "is_reg s a" and "input_pos s = a @ x # rest" and "\<not> id_part x"
  shows "\<exists>r. Get_CPUReg s = Inr (r, s\<lparr>input_pos := x # rest\<rparr>) \<and> r < 16 \<and> unat r = reg_num s a"
proof -
  let ?t = "s\<lparr>input_pos := x # rest\<rparr>"
  obtain r where r: "reg_of s a = Some r" "r < 16" and a: "is_id a" using assms(1) by (auto simp: is_reg_def)
  have "reg_of ?t a = Some r" using r(1) same_regs_of [OF same_regs_pos] by simp
  then have "Get_CPUReg s = Inr (r, ?t)"
    by (simp add: Get_CPUReg_def GetRegisterValue_def GetID_name [OF a assms(2,3)] reg_of_def split: option.splits if_splits Value.splits)
  then show ?thesis using r by (simp add: reg_num_def)
qed


lemma list_chars: "\<not> id_part (CHR ''-'')" "\<not> id_part (CHR '','')" "\<not> id_part (CHR ''}'')"
  by (simp_all add: id_part_def isalpha_def isdigit_def ccode_def)

lemma interval_item:
  assumes "item_ok s x" and "input_pos s = item_text x @ y # rest" and "y \<in> {CHR '','', CHR ''}''}" and "oNumErrors s \<le> MAXERR"
  shows "\<exists>l h t. reg_interval s = Inr (l, h, t) \<and> l \<le> h \<and> h < 16 \<and> item_regs s x = {unat l..unat h}
    \<and> input_pos t = y # rest \<and> same_regs s t"
proof -
  obtain a ob where x: "x = (a, ob)" by fastforce
  have y: "\<not> id_part y" "\<not> isspace y" using assms(3) list_chars by (auto simp: isspace_def ccode_def)
  show ?thesis
  proof (cases ob)
    case None
    then have pos: "input_pos s = a @ y # rest" "is_reg s a" using assms(1,2) by (simp_all add: x item_text_def item_ok_def)
    obtain r where "Get_CPUReg s = Inr (r, s\<lparr>input_pos := y # rest\<rparr>)" "r < 16" "unat r = reg_num s a"
      using Get_CPUReg_name [OF pos(2,1) y(1)] by blast
    then show ?thesis
      using y assms(3) by (auto simp: reg_interval_def Input_SkipWS_def Input_Look_def peek_def item_regs_def x None Let_def same_regs_def)
  next
    case (Some b)
    then have pos: "input_pos s = a @ CHR ''-'' # b @ y # rest" "is_reg s a" "is_reg s b"
      using assms(1,2) by (simp_all add: x item_text_def item_ok_def)
    obtain r where r: "Get_CPUReg s = Inr (r, s\<lparr>input_pos := CHR ''-'' # b @ y # rest\<rparr>)" "r < 16" "unat r = reg_num s a"
      using Get_CPUReg_name [OF pos(2,1) list_chars(1)] by blast
    let ?s = "s\<lparr>input_pos := b @ y # rest\<rparr>"
    have "is_reg ?s b" using pos(3) same_regs_of [OF same_regs_pos] by (simp add: is_reg_def)
    then obtain q where q: "Get_CPUReg ?s = Inr (q, ?s\<lparr>input_pos := y # rest\<rparr>)" "q < 16" "unat q = reg_num ?s b"
      using Get_CPUReg_name [of ?s b y rest] y(1) by auto
    have num: "reg_num ?s b = reg_num s b" using same_regs_of [OF same_regs_pos] by (simp add: reg_num_def)
    have dash: "\<not> isspace (CHR ''-'')" by (simp add: isspace_def ccode_def)
    let ?t = "s\<lparr>input_pos := y # rest\<rparr>"
    have run: "reg_interval s = (if q < r
        then rbind (if option_pedantic ?t then Error ErrorInfo ''Register interval in wrong order r%d-r%d'' ?t else Inr ?t)
               (\<lambda>s. Inr (q, r, s))
        else Inr (r, q, ?t))"
      using y(2) dash r(1) q(1) by (simp add: reg_interval_def Input_SkipWS_def Input_Look_def Input_Skip_def peek_def Let_def NUL_def)
    obtain t where t: "(if option_pedantic ?t then Error ErrorInfo ''Register interval in wrong order r%d-r%d'' ?t else Inr ?t) = Inr t"
      "input_pos t = input_pos ?t" "same_regs ?t t"
      using counted_info [of ?t] assms(4) by fastforce
    have regs: "item_regs s x = {min (unat r) (unat q)..max (unat r) (unat q)}"
      by (simp add: item_regs_def x Some r(3) q(3) num Let_def)
    have same: "same_regs s t" using t(3) by (simp add: same_regs_def)
    show ?thesis
    proof (cases "q < r")
      case True
      then have "unat q < unat r" by (simp add: word_less_nat_alt)
      then show ?thesis using run t True r(2) regs same by auto
    next
      case False
      then have "unat r \<le> unat q" by (simp add: word_less_nat_alt)
      then show ?thesis using run False q(2) regs by (auto simp: same_regs_def)
    qed
  qed
qed

lemma items_text_Cons: "items_text (x # xs) = item_text x @ (if xs = [] then [] else CHR '','' # items_text xs)"
  by (cases xs) simp_all

lemma items_text_start:
  assumes "list_all (item_ok s) xs" and "xs \<noteq> []"
  shows "\<exists>c cs. items_text xs = c # cs \<and> id_start c"
proof -
  obtain x ys where x: "xs = x # ys" using assms(2) by (cases xs) auto
  then have "is_id (fst x)" using assms(1) by (simp add: item_ok_def is_reg_def)
  then obtain c cs where "fst x = c # cs" "id_start c" by (cases "fst x") (auto simp: is_id_def)
  then show ?thesis by (cases x; cases "snd x") (simp_all add: x items_text_Cons item_text_def)
qed

lemma reg_list_items:
  assumes "list_all (item_ok s) xs" and "xs \<noteq> []" and "input_pos s = items_text xs @ CHR ''}'' # rest"
    and "oNumErrors s \<le> MAXERR" and "length xs \<le> fuel"
  shows "\<exists>w t. reg_list fuel acc s = Inr (w, t) \<and> input_pos t = CHR ''}'' # rest \<and> same_regs s t
    \<and> (\<forall>i. bit w i \<longleftrightarrow> bit acc i \<or> (\<exists>x\<in>set xs. i \<in> item_regs s x))"
  using assms
proof (induction xs arbitrary: fuel acc s)
  case (Cons x xs)
  obtain n where fuel: "fuel = Suc n" "length xs \<le> n" using Cons.prems(5) by (cases fuel) auto
  let ?y = "if xs = [] then CHR ''}'' else CHR '',''" and ?rest = "if xs = [] then rest else items_text xs @ CHR ''}'' # rest"
  have pos: "input_pos s = item_text x @ ?y # ?rest" using Cons.prems(3) by (simp add: items_text_Cons)
  have item: "item_ok s x" and y: "?y \<in> {CHR '','', CHR ''}''}" using Cons.prems(1) by simp_all
  obtain l h t where t: "reg_interval s = Inr (l, h, t)" "l \<le> h" "h < 16" "item_regs s x = {unat l..unat h}"
    "input_pos t = ?y # ?rest" "same_regs s t"
    using interval_item [OF item pos y Cons.prems(4)] by blast
  obtain bits where bits: "reg_bits l h = Inr bits" "\<And>i. bit bits i \<longleftrightarrow> i \<in> {unat l..unat h}" using bits_interval [OF t(2,3)] by blast
  obtain u where u: "(if option_pedantic t \<and> push_bit (unat l) 1 < acc then Error ErrorInfo ''Registers in wrong order'' t else Inr t) = Inr u"
    "input_pos u = ?y # ?rest" "same_regs s u"
  proof -
    have "oNumErrors t \<le> MAXERR" using t(6) Cons.prems(4) by (simp add: same_regs_def)
    from counted_info [OF this] show ?thesis using that t(5) same_regs_trans [OF t(6)] by metis
  qed
  obtain v where v: "(if bits AND acc \<noteq> 0 then Error ErrorInfo ''Register occurs more than once in register list'' u else Inr u) = Inr v"
    "input_pos v = ?y # ?rest" "same_regs s v"
  proof -
    have "oNumErrors u \<le> MAXERR" using u(3) Cons.prems(4) by (simp add: same_regs_def)
    from counted_info [OF this] show ?thesis using that u(2) same_regs_trans [OF u(3)] by metis
  qed
  show ?case
  proof (cases "xs = []")
    case True
    then show ?thesis
      using t(1,4) bits u(1) v by (auto simp: fuel(1) Input_Match_def Input_Look_def peek_def Let_def bit_simps)
  next
    case False
    let ?v = "v\<lparr>input_pos := items_text xs @ CHR ''}'' # rest\<rparr>"
    have same: "same_regs s ?v" using v(3) by (simp add: same_regs_def)
    note items = same_regs_items [OF same]
    obtain c cs where c: "items_text xs = c # cs" "id_start c"
      using items_text_start [OF _ False, of s] Cons.prems(1) by auto
    have "Input_Match (CHR '','') True v = (True, ?v)"
      using v(2) False id_start_facts [OF c(2)] by (simp add: Input_Match_def Input_Look_def peek_def NUL_def c(1))
    then have "reg_list fuel acc s = reg_list n (acc OR bits) ?v"
      using t(1) bits(1) u(1) v(1) by (simp add: fuel(1))
    moreover obtain w z where "reg_list n (acc OR bits) ?v = Inr (w, z)" "input_pos z = CHR ''}'' # rest" "same_regs ?v z"
      "\<forall>i. bit w i \<longleftrightarrow> bit (acc OR bits) i \<or> (\<exists>x\<in>set xs. i \<in> item_regs s x)"
      using Cons.IH [of ?v n "acc OR bits"] Cons.prems(1,4) False fuel(2) same items by (auto simp: same_regs_def)
    ultimately show ?thesis using t(4) bits(2) same_regs_trans [OF same] by (auto simp: bit_simps)
  qed
qed simp


text \<open>
  C9. Register lists.  \<^verbatim>\<open>Get_CPURList\<close> reads a list of registers and intervals of registers, the ends of an interval in any
  order, and returns the word with exactly the bits of the registers that are named, also when some are named twice;
  it counts no error.
\<close>

theorem Get_CPURList_bits:
  assumes "list_all (item_ok s) xs" and "xs \<noteq> []" and "input_pos s = ''{'' @ items_text xs @ ''}'' @ rest"
    and "oNumErrors s \<le> MAXERR"
  shows "\<exists>w t. Get_CPURList s = Inr (w, t) \<and> input_pos t = rest \<and> oNumErrors t = oNumErrors s
    \<and> (\<forall>i. bit w i \<longleftrightarrow> (\<exists>x\<in>set xs. i \<in> item_regs s x))"
proof -
  let ?s = "s\<lparr>input_pos := items_text xs @ CHR ''}'' # rest\<rparr>"
  have same: "same_regs s ?s" by simp
  obtain c cs where c: "items_text xs = c # cs" "id_start c" using items_text_start [OF assms(1,2)] by blast
  have "Input_Match (CHR ''{'') True s = (True, ?s)"
    using id_start_facts [OF c(2)] by (simp add: Input_Match_def Input_Look_def peek_def NUL_def assms(3) c(1))
  moreover have "length xs \<le> Suc (length (input_pos ?s))"
  proof -
    have "length xs \<le> Suc (length (items_text xs))" by (induction xs rule: items_text.induct) auto
    then show ?thesis by simp
  qed
  then obtain w t where "reg_list (Suc (length (input_pos ?s))) 0 ?s = Inr (w, t)" "input_pos t = CHR ''}'' # rest" "same_regs ?s t"
    "\<forall>i. bit w i \<longleftrightarrow> (\<exists>x\<in>set xs. i \<in> item_regs s x)"
    using reg_list_items [of ?s xs rest "Suc (length (input_pos ?s))" 0] assms(1,2,4) same_regs_items [OF same]
    by (simp del: reg_list.simps) blast
  ultimately show ?thesis
    by (simp add: Get_CPUReg_def Get_CPURList_def Input_Match_def Input_Look_def peek_def NUL_def same_regs_def Let_def del: reg_list.simps)
qed

theorem Get_CPURList_bits_witness:
  "\<exists>w t. Get_CPURList two_regs = Inr (w, t) \<and> input_pos t = [] \<and> bit w 4 \<and> bit w 7 \<and> \<not> bit w 3"
proof -
  have r: "reg_of two_regs ''a'' = Some 4" "reg_of two_regs ''b'' = Some 7"
    by (simp_all add: reg_of_def two_regs_def Symbol_Find_def EqSymLex_def flag_def SYMBOL_DEFINED_def Let_def)
  have "is_id ''a''" "is_id ''b''" by (simp_all add: is_id_def id_start_def isalpha_def ccode_def)
  then have ok: "list_all (item_ok two_regs) [(''b'', Some ''a''), (''a'', None)]"
    by (simp add: item_ok_def is_reg_def r)
  have regs: "item_regs two_regs (''b'', Some ''a'') = {4..7}" "item_regs two_regs (''a'', None) = {4}"
    by (simp_all add: item_regs_def reg_num_def r Let_def)
  have "input_pos two_regs = ''{'' @ items_text [(''b'', Some ''a''), (''a'', None)] @ ''}'' @ []" "oNumErrors two_regs \<le> MAXERR"
    by (simp_all add: two_regs_def item_text_def Let_def asm0_def)
  from Get_CPURList_bits [OF ok _ this] show ?thesis by (auto simp: regs)
qed

end
