(* ===== verification/Decoder.thy ===== *)
theory Decoder
  imports Conditional_Skip
begin

text \<open>
  The table of mnemonics and directives and the search in it, \<^verbatim>\<open>decode.c\<close>.  The callbacks of the table are represented by
  their names.  Reading a mnemonic of the table behind its NUL or an entry behind the table is undefined.  Characters are
  compared as \<^verbatim>\<open>unsigned char\<close>.
\<close>

section \<open>The table\<close>

datatype eCB = eCB_Void | eCB_VoidPMatch | eCB_NoLex | eCB_NoLexPMatch | eCB_Lex | eCB_LexPMatch | eCB_Symbol

datatype decode_table_t =
  Entry (mnemonic: string) (cb_type: eCB) (instr: bool) (updateMap: bool) (parse_opcode: string)

definition oDecodeTable_1 :: "decode_table_t list" where
  "oDecodeTable_1 =
     [Entry ''!'' eCB_NoLex False False ''c_info'', Entry ''#'' eCB_Lex False False ''c_alloc'',
      Entry ''%'' eCB_Void False True ''c_reserve'', Entry ''&'' eCB_Void False True ''c_ampersand'',
      Entry ''*'' eCB_Symbol False False ''c_equ'', Entry ''='' eCB_Void False True ''c_dcb'',
      Entry ''ABS'' eCB_VoidPMatch True True ''m_abs'', Entry ''ACS'' eCB_VoidPMatch True True ''m_acs'',
      Entry ''ADC'' eCB_VoidPMatch True True ''m_adc'', Entry ''ADD'' eCB_VoidPMatch True True ''m_add'',
      Entry ''ADF'' eCB_VoidPMatch True True ''m_adf'', Entry ''ADR'' eCB_VoidPMatch True True ''m_adr'',
      Entry ''ALIGN'' eCB_Void False False ''c_align'', Entry ''AND'' eCB_VoidPMatch True True ''m_and'',
      Entry ''AOF'' eCB_NoLex False False ''c_aof'', Entry ''AOUT'' eCB_NoLex False False ''c_aout'',
      Entry ''AREA'' eCB_NoLex False False ''c_area'', Entry ''ARM'' eCB_NoLex False False ''c_code32'',
      Entry ''ASN'' eCB_VoidPMatch True True ''m_asn'', Entry ''ASR'' eCB_VoidPMatch True True ''m_asr'',
      Entry ''ASSERT'' eCB_NoLex False False ''c_assert'', Entry ''ATN'' eCB_VoidPMatch True True ''m_atn'',
      Entry ''B'' eCB_VoidPMatch True True ''m_branch'', Entry ''BFC'' eCB_VoidPMatch True True ''m_bfc'',
      Entry ''BFI'' eCB_VoidPMatch True True ''m_bfi'', Entry ''BIC'' eCB_VoidPMatch True True ''m_bic'',
      Entry ''BIN'' eCB_NoLex False False ''c_incbin'', Entry ''BKPT'' eCB_VoidPMatch True True ''m_bkpt'',
      Entry ''BLX'' eCB_VoidPMatch True True ''m_blx'', Entry ''BX'' eCB_VoidPMatch True True ''m_bx'',
      Entry ''BXJ'' eCB_VoidPMatch True True ''m_bxj'', Entry ''CB'' eCB_VoidPMatch True True ''m_cbnz_cbz'',
      Entry ''CDP'' eCB_VoidPMatch True True ''m_cdp'', Entry ''CLREX'' eCB_Void True True ''m_clrex'',
      Entry ''CLZ'' eCB_VoidPMatch True True ''m_clz'', Entry ''CMF'' eCB_VoidPMatch True True ''m_cmf'',
      Entry ''CMN'' eCB_VoidPMatch True True ''m_cmn'', Entry ''CMP'' eCB_VoidPMatch True True ''m_cmp'',
      Entry ''CN'' eCB_Symbol False False ''c_cn'', Entry ''CNF'' eCB_VoidPMatch True True ''m_cnf'',
      Entry ''CODE16'' eCB_NoLex False False ''c_code16'', Entry ''CODE32'' eCB_NoLex False False ''c_code32'',
      Entry ''COMMON'' eCB_NoLex False False ''c_common'', Entry ''COS'' eCB_VoidPMatch True True ''m_cos'',
      Entry ''CP'' eCB_Symbol False False ''c_cp'', Entry ''CPS'' eCB_VoidPMatch True True ''m_cps'',
      Entry ''DATA'' eCB_Void False False ''c_data'', Entry ''DBG'' eCB_VoidPMatch True True ''m_dbg'',
      Entry ''DCB'' eCB_Void False True ''c_dcb'', Entry ''DCD'' eCB_VoidPMatch False True ''c_dcd'',
      Entry ''DCFD'' eCB_VoidPMatch False True ''c_dcfd'', Entry ''DCFH'' eCB_VoidPMatch False True ''c_dcfh'',
      Entry ''DCFS'' eCB_VoidPMatch False True ''c_dcfs'', Entry ''DCI'' eCB_VoidPMatch False True ''c_dci'',
      Entry ''DCQ'' eCB_VoidPMatch False True ''c_dcq'', Entry ''DCW'' eCB_VoidPMatch False True ''c_dcw'',
      Entry ''DMB'' eCB_Void True True ''m_dmb'', Entry ''DSB'' eCB_Void True True ''m_dsb'',
      Entry ''DVF'' eCB_VoidPMatch True True ''m_dvf'', Entry ''ELIF'' eCB_NoLex False False ''c_elif'',
      Entry ''ELSE'' eCB_NoLex False False ''c_else'', Entry ''END'' eCB_NoLex False False ''c_end'',
      Entry ''ENDFUNC'' eCB_NoLex False False ''c_endfunc'', Entry ''ENDIF'' eCB_NoLex False False ''c_endif'',
      Entry ''ENDP'' eCB_NoLex False False ''c_endfunc'', Entry ''ENTRY'' eCB_NoLex False False ''c_entry'',
      Entry ''EOR'' eCB_VoidPMatch True True ''m_eor'', Entry ''EQU'' eCB_Symbol False False ''c_equ'',
      Entry ''EXP'' eCB_VoidPMatch True True ''m_exp'', Entry ''EXPORT'' eCB_NoLex False False ''c_export'',
      Entry ''EXTERN'' eCB_NoLex False False ''c_import'', Entry ''FDV'' eCB_VoidPMatch True True ''m_fdv'',
      Entry ''FIELD'' eCB_Lex False False ''c_alloc'', Entry ''FILL'' eCB_Void False True ''c_fill'',
      Entry ''FIX'' eCB_VoidPMatch True True ''m_fix'', Entry ''FLT'' eCB_VoidPMatch True True ''m_flt'',
      Entry ''FML'' eCB_VoidPMatch True True ''m_fml'', Entry ''FN'' eCB_Symbol False False ''c_fn'',
      Entry ''FRAME'' eCB_NoLex False False ''c_frame'', Entry ''FRD'' eCB_VoidPMatch True True ''m_frd'',
      Entry ''FUNCTION'' eCB_NoLex False False ''c_function'', Entry ''GBL'' eCB_NoLexPMatch False False ''c_gbl'',
      Entry ''GET'' eCB_NoLex False False ''c_get'', Entry ''GLOBAL'' eCB_NoLex False False ''c_export'',
      Entry ''IDFN'' eCB_NoLex False False ''c_idfn'', Entry ''IF'' eCB_NoLex False False ''c_if'',
      Entry ''IMPORT'' eCB_NoLex False False ''c_import'', Entry ''INCBIN'' eCB_NoLex False False ''c_incbin'',
      Entry ''INCLUDE'' eCB_NoLex False False ''c_get'', Entry ''INFO'' eCB_NoLex False False ''c_info'',
      Entry ''ISB'' eCB_Void True True ''m_isb'', Entry ''IT'' eCB_VoidPMatch True True ''m_it'',
      Entry ''KEEP'' eCB_NoLex False False ''c_keep'', Entry ''LCL'' eCB_NoLexPMatch False False ''c_lcl'',
      Entry ''LDC'' eCB_VoidPMatch True True ''m_ldc'', Entry ''LDF'' eCB_VoidPMatch True True ''m_ldf'',
      Entry ''LDM'' eCB_VoidPMatch True True ''m_ldm'', Entry ''LDR'' eCB_VoidPMatch True True ''m_ldr'',
      Entry ''LDREX'' eCB_VoidPMatch True True ''m_ldrex'', Entry ''LEAF'' eCB_NoLex False False ''c_leaf'',
      Entry ''LFM'' eCB_VoidPMatch True True ''m_lfm'', Entry ''LGN'' eCB_VoidPMatch True True ''m_lgn'',
      Entry ''LNK'' eCB_NoLex False False ''c_lnk'', Entry ''LOG'' eCB_VoidPMatch True True ''m_log'',
      Entry ''LSL'' eCB_VoidPMatch True True ''m_lsl'', Entry ''LSR'' eCB_VoidPMatch True True ''m_lsr'',
      Entry ''LTORG'' eCB_NoLex False False ''c_ltorg'', Entry ''MACRO'' eCB_NoLex False False ''c_macro'',
      Entry ''MAP'' eCB_NoLex False False ''c_record'', Entry ''MCR'' eCB_VoidPMatch True True ''m_mcr'',
      Entry ''MCRR'' eCB_VoidPMatch True True ''m_mcrr'', Entry ''MEND'' eCB_NoLex False False ''c_mend'',
      Entry ''MEXIT'' eCB_NoLex False False ''c_mexit'', Entry ''MLA'' eCB_VoidPMatch True True ''m_mla'',
      Entry ''MLS'' eCB_VoidPMatch True True ''m_mls'', Entry ''MNF'' eCB_VoidPMatch True True ''m_mnf'',
      Entry ''MOV'' eCB_VoidPMatch True True ''m_mov'', Entry ''MRC'' eCB_VoidPMatch True True ''m_mrc'',
      Entry ''MRRC'' eCB_VoidPMatch True True ''m_mrrc'', Entry ''MRS'' eCB_VoidPMatch True True ''m_mrs'',
      Entry ''MSR'' eCB_VoidPMatch True True ''m_msr'', Entry ''MUF'' eCB_VoidPMatch True True ''m_muf'',
      Entry ''MUL'' eCB_VoidPMatch True True ''m_mul'', Entry ''MVF'' eCB_VoidPMatch True True ''m_mvf'',
      Entry ''MVN'' eCB_VoidPMatch True True ''m_mvn'', Entry ''NOFP'' eCB_NoLex False False ''c_nofp'',
      Entry ''NOP'' eCB_VoidPMatch True True ''m_nop'', Entry ''NRM'' eCB_VoidPMatch True True ''m_nrm'',
      Entry ''OPT'' eCB_NoLex False False ''c_opt'', Entry ''ORG'' eCB_NoLex False False ''c_org'']"

definition oDecodeTable_2 :: "decode_table_t list" where
  "oDecodeTable_2 =
     [Entry ''ORR'' eCB_VoidPMatch True True ''m_orr'', Entry ''PKH'' eCB_VoidPMatch True True ''m_pkh'',
      Entry ''PL'' eCB_VoidPMatch True True ''m_pl'', Entry ''POL'' eCB_VoidPMatch True True ''m_pol'',
      Entry ''POP'' eCB_VoidPMatch True True ''m_pop'', Entry ''POW'' eCB_VoidPMatch True True ''m_pow'',
      Entry ''PRESERVE8'' eCB_NoLex False False ''c_preserve8'', Entry ''PROC'' eCB_NoLex False False ''c_function'',
      Entry ''PUSH'' eCB_VoidPMatch True True ''m_push'', Entry ''QADD'' eCB_VoidPMatch True True ''m_qadd'',
      Entry ''QDADD'' eCB_VoidPMatch True True ''m_qdadd'', Entry ''QDSUB'' eCB_VoidPMatch True True ''m_qdsub'',
      Entry ''QSUB'' eCB_VoidPMatch True True ''m_qsub'', Entry ''RDF'' eCB_VoidPMatch True True ''m_rdf'',
      Entry ''RELOC'' eCB_NoLex False False ''c_reloc'', Entry ''REQUIRE8'' eCB_NoLex False False ''c_require8'',
      Entry ''RFC'' eCB_VoidPMatch True True ''m_rfc'', Entry ''RFE'' eCB_VoidPMatch True True ''m_rfe'',
      Entry ''RFS'' eCB_VoidPMatch True True ''m_rfs'', Entry ''RLIST'' eCB_Symbol False False ''c_rlist'',
      Entry ''RMF'' eCB_VoidPMatch True True ''m_rmf'', Entry ''RN'' eCB_Symbol False False ''c_rn'',
      Entry ''RND'' eCB_VoidPMatch True True ''m_rnd'', Entry ''ROR'' eCB_VoidPMatch True True ''m_ror'',
      Entry ''ROUT'' eCB_Lex False False ''c_rout'', Entry ''RPW'' eCB_VoidPMatch True True ''m_rpw'',
      Entry ''RRX'' eCB_VoidPMatch True True ''m_rrx'', Entry ''RSB'' eCB_VoidPMatch True True ''m_rsb'',
      Entry ''RSC'' eCB_VoidPMatch True True ''m_rsc'', Entry ''RSF'' eCB_VoidPMatch True True ''m_rsf'',
      Entry ''SBC'' eCB_VoidPMatch True True ''m_sbc'', Entry ''SBFX'' eCB_VoidPMatch True True ''m_sbfx'',
      Entry ''SET'' eCB_LexPMatch False False ''c_set'', Entry ''SEV'' eCB_VoidPMatch True True ''m_sev'',
      Entry ''SFM'' eCB_VoidPMatch True True ''m_sfm'', Entry ''SIN'' eCB_VoidPMatch True True ''m_sin'',
      Entry ''SMC'' eCB_VoidPMatch True True ''m_smc'', Entry ''SMI'' eCB_VoidPMatch True True ''m_smi'',
      Entry ''SMLABB'' eCB_VoidPMatch True True ''m_smlabb'', Entry ''SMLABT'' eCB_VoidPMatch True True ''m_smlabt'',
      Entry ''SMLAL'' eCB_VoidPMatch True True ''m_smlal'', Entry ''SMLALBB'' eCB_VoidPMatch True True ''m_smlalbb'',
      Entry ''SMLALBT'' eCB_VoidPMatch True True ''m_smlalbt'', Entry ''SMLALTB'' eCB_VoidPMatch True True ''m_smlaltb'',
      Entry ''SMLALTT'' eCB_VoidPMatch True True ''m_smlaltt'', Entry ''SMLATB'' eCB_VoidPMatch True True ''m_smlatb'',
      Entry ''SMLATT'' eCB_VoidPMatch True True ''m_smlatt'', Entry ''SMLAWB'' eCB_VoidPMatch True True ''m_smlawb'',
      Entry ''SMLAWT'' eCB_VoidPMatch True True ''m_smlawt'', Entry ''SMULBB'' eCB_VoidPMatch True True ''m_smulbb'',
      Entry ''SMULBT'' eCB_VoidPMatch True True ''m_smulbt'', Entry ''SMULL'' eCB_VoidPMatch True True ''m_smull'',
      Entry ''SMULTB'' eCB_VoidPMatch True True ''m_smultb'', Entry ''SMULTT'' eCB_VoidPMatch True True ''m_smultt'',
      Entry ''SMULWB'' eCB_VoidPMatch True True ''m_smulwb'', Entry ''SMULWT'' eCB_VoidPMatch True True ''m_smulwt'',
      Entry ''SPACE'' eCB_Void False True ''c_reserve'', Entry ''SQT'' eCB_VoidPMatch True True ''m_sqt'',
      Entry ''SRS'' eCB_VoidPMatch True True ''m_srs'', Entry ''STC'' eCB_VoidPMatch True True ''m_stc'',
      Entry ''STF'' eCB_VoidPMatch True True ''m_stf'', Entry ''STM'' eCB_VoidPMatch True True ''m_stm'',
      Entry ''STR'' eCB_VoidPMatch True True ''m_str'', Entry ''STREX'' eCB_VoidPMatch True True ''m_strex'',
      Entry ''STRONG'' eCB_NoLex False False ''c_strong'', Entry ''SUB'' eCB_VoidPMatch True True ''m_sub'',
      Entry ''SUBT'' eCB_NoLex False False ''c_title'', Entry ''SUF'' eCB_VoidPMatch True True ''m_suf'',
      Entry ''SVC'' eCB_VoidPMatch True True ''m_swi'', Entry ''SWI'' eCB_VoidPMatch True True ''m_swi'',
      Entry ''SWP'' eCB_VoidPMatch True True ''m_swp'', Entry ''SXT'' eCB_VoidPMatch True True ''m_sxt'',
      Entry ''TAN'' eCB_VoidPMatch True True ''m_tan'', Entry ''TEQ'' eCB_VoidPMatch True True ''m_teq'',
      Entry ''THUMB'' eCB_NoLex False False ''c_thumb'', Entry ''THUMBX'' eCB_NoLex False False ''c_thumbx'',
      Entry ''TST'' eCB_VoidPMatch True True ''m_tst'', Entry ''TTL'' eCB_NoLex False False ''c_title'',
      Entry ''UBFX'' eCB_VoidPMatch True True ''m_ubfx'', Entry ''UMLAL'' eCB_VoidPMatch True True ''m_umlal'',
      Entry ''UMULL'' eCB_VoidPMatch True True ''m_umull'', Entry ''UND'' eCB_VoidPMatch True True ''m_und'',
      Entry ''URD'' eCB_VoidPMatch True True ''m_urd'', Entry ''UXT'' eCB_VoidPMatch True True ''m_uxt'',
      Entry ''WEND'' eCB_NoLex False False ''c_wend'', Entry ''WFC'' eCB_VoidPMatch True True ''m_wfc'',
      Entry ''WFE'' eCB_VoidPMatch True True ''m_wfe'', Entry ''WFI'' eCB_VoidPMatch True True ''m_wfi'',
      Entry ''WFS'' eCB_VoidPMatch True True ''m_wfs'', Entry ''WHILE'' eCB_NoLex False False ''c_while'',
      Entry ''YIELD'' eCB_VoidPMatch True True ''m_yield'', Entry ''['' eCB_NoLex False False ''c_if'',
      Entry '']'' eCB_NoLex False False ''c_endif'', Entry ''^'' eCB_NoLex False False ''c_record'',
      Entry ''|'' eCB_NoLex False False ''c_else'']"

definition oDecodeTable :: "decode_table_t list" where
  "oDecodeTable = oDecodeTable_1 @ oDecodeTable_2"

definition DECODE_ENTRIES :: nat where
  "DECODE_ENTRIES = length oDecodeTable"

section \<open>The search\<close>

definition LowerCaseIsOK :: "decode_table_t \<Rightarrow> bool" where
  "LowerCaseIsOK e = instr e"

definition IsARMOrThumbInstr :: "decode_table_t \<Rightarrow> bool" where
  "IsARMOrThumbInstr e \<longleftrightarrow>
     instr e \<or> peek (mnemonic e) 0 = CHR ''D'' \<and> peek (mnemonic e) 1 = CHR ''C'' \<and> peek (mnemonic e) 2 = CHR ''I''"

definition ResolveLowerCase :: "bool \<Rightarrow> char \<Rightarrow> char" where
  "ResolveLowerCase doLowerCase c = (if doLowerCase then tolower c else c)"

fun MatchRestOfKeyword :: "bool \<Rightarrow> string \<Rightarrow> string \<Rightarrow> bool" where
  "MatchRestOfKeyword doLowerCase l [] = True"
| "MatchRestOfKeyword doLowerCase l (c # r) =
     (peek l 0 = ResolveLowerCase doLowerCase c \<and> MatchRestOfKeyword doLowerCase (tl l) r)"

definition IsPartiallyMatched :: "decode_table_t \<Rightarrow> bool" where
  "IsPartiallyMatched e \<longleftrightarrow> cb_type e = eCB_VoidPMatch \<or> cb_type e = eCB_LexPMatch \<or> cb_type e = eCB_NoLexPMatch"

text \<open>\<open>oDecodeTable[i].mnemonic[k]\<close> and the mnemonic from \<open>k\<close> on.\<close>

definition mnem_char :: "nat \<Rightarrow> nat \<Rightarrow> char outcome" where
  "mnem_char i k =
     (if i < DECODE_ENTRIES \<and> k \<le> length (mnemonic (oDecodeTable ! i)) then Inr (peek (mnemonic (oDecodeTable ! i)) k) else Inl Undefined)"

definition mnem_rest :: "nat \<Rightarrow> nat \<Rightarrow> string outcome" where
  "mnem_rest i k =
     (if i < DECODE_ENTRIES \<and> k \<le> length (mnemonic (oDecodeTable ! i)) then Inr (drop k (mnemonic (oDecodeTable ! i))) else Inl Undefined)"

text \<open>The ends of the range of entries with the character \<open>c\<close> at the position \<open>k\<close>.\<close>

fun first_match :: "bool \<Rightarrow> nat \<Rightarrow> char \<Rightarrow> nat \<Rightarrow> nat \<Rightarrow> nat outcome" where
  "first_match dl k c low lowNew =
     (if low < lowNew
      then rbind (mnem_char (lowNew - 1) k) (\<lambda>m. if ResolveLowerCase dl m = c then first_match dl k c low (lowNew - 1) else Inr lowNew)
      else Inr lowNew)"

function last_match :: "bool \<Rightarrow> nat \<Rightarrow> char \<Rightarrow> nat \<Rightarrow> nat \<Rightarrow> nat outcome" where
  "last_match dl k c high highNew =
     (if highNew < high
      then rbind (mnem_char (highNew + 1) k) (\<lambda>m. if ResolveLowerCase dl m = c then last_match dl k c high (highNew + 1) else Inr highNew)
      else Inr highNew)"
  by pat_completeness auto
termination by (relation "measure (\<lambda>(dl, k, c, high, highNew). high - highNew)") auto

text \<open>
  The range for one more character, or none.  In C, \<open>high = mid - 1\<close> wraps around when \<open>mid\<close> is 0, and the next round reads
  far behind the table.
\<close>

function match_char :: "bool \<Rightarrow> nat \<Rightarrow> char \<Rightarrow> nat \<Rightarrow> nat \<Rightarrow> (nat \<times> nat) option outcome" where
  "match_char dl k c low high =
     (if high < low then Inr None
      else
        let mid = low + (high - low) div 2
        in rbind (mnem_char mid k) (\<lambda>m.
             let m = ResolveLowerCase dl m
             in if ccode m < ccode c then match_char dl k c (mid + 1) high
                else if ccode c < ccode m then (if mid = 0 then Inl Undefined else match_char dl k c low (mid - 1))
                else
                  rbind (first_match dl k c low mid) (\<lambda>l.
                  rbind (last_match dl k c high mid) (\<lambda>h. Inr (Some (l, h))))))"
  by pat_completeness auto
termination by (relation "measure (\<lambda>(dl, k, c, low, high). Suc high - low)") auto

text \<open>The last entry up to \<open>high\<close> whose mnemonic is read on.\<close>

fun longest_match :: "bool \<Rightarrow> nat \<Rightarrow> nat \<Rightarrow> asm \<Rightarrow> nat outcome" where
  "longest_match dl k high s =
     rbind (mnem_rest high k) (\<lambda>r.
       if MatchRestOfKeyword dl (Input_GetMark s) r then Inr high
       else case high of 0 \<Rightarrow> Inl Undefined | Suc h \<Rightarrow> longest_match dl k h s)"

fun find_mnemonic :: "nat \<Rightarrow> bool \<Rightarrow> nat \<Rightarrow> nat \<Rightarrow> nat \<Rightarrow> asm \<Rightarrow> (nat option \<times> asm) outcome" where
  "find_mnemonic 0 dl k low high s = Inl OutOfFuel"
| "find_mnemonic (Suc fuel) dl k low high s =
     (let (c, s) = Input_GetC s
      in rbind (rassert (c \<noteq> NUL)) (\<lambda>_.
         rbind (match_char dl k c low high) (\<lambda>r.
           case r of
             None \<Rightarrow> Inr (None, s)
           | Some (low, high) \<Rightarrow>
               rbind (mnem_char low (k + 1)) (\<lambda>l.
                 if l = NUL \<and> IsPartiallyMatched (oDecodeTable ! low)
                 then
                   rbind (longest_match dl (k + 1) high s) (\<lambda>high.
                   rbind (rassert (low \<le> high)) (\<lambda>_.
                   rbind (mnem_rest high (k + 1)) (\<lambda>r.
                   rbind (Input_SkipN (length r) s) (\<lambda>s.
                     Inr (if IsPartiallyMatched (oDecodeTable ! high) \<or> ends_keyword (Input_Look s) then Some high else None, s)))))
                 else if ends_keyword (Input_Look s) then Inr (if l = NUL then Some low else None, s)
                 else
                   rbind (mnem_char high (k + 1)) (\<lambda>h.
                     if h \<noteq> NUL then find_mnemonic fuel dl (k + 1) low high s
                     else rbind (rassert (low = high)) (\<lambda>_. Inr (None, s)))))))"

definition doLowerCase :: "asm \<Rightarrow> bool" where
  "doLowerCase s \<longleftrightarrow> \<not> option_uppercase s \<and> ccode CHR ''a'' \<le> ccode (Input_Look s) \<and> ccode (Input_Look s) \<le> ccode CHR ''z''"

text \<open>The search of \<^verbatim>\<open>Decode\<close>.\<close>

definition decode_search :: "asm \<Rightarrow> (nat option \<times> asm) outcome" where
  "decode_search s =
     (let dl = doLowerCase s
      in rbind (find_mnemonic (Suc (length (input_pos s))) dl 0 0 (DECODE_ENTRIES - 1) s) (\<lambda>(r, s).
           Inr (case r of Some i \<Rightarrow> if dl \<and> \<not> LowerCaseIsOK (oDecodeTable ! i) then None else Some i | None \<Rightarrow> None, s)))"

end
