(* ===== verification/Mnemonic_Search.thy ===== *)
theory Mnemonic_Search
  imports Decoder "HOL-Library.Sublist"
begin

text \<open>
  The search for one more character in the table of mnemonics: the table is sorted, so that a column of a range of entries
  with a common beginning is sorted, and the search returns the part of the range with the character.  In lower case the
  first column is only sorted in part.
\<close>

section \<open>Sorted mnemonics\<close>

text \<open>The order of \<^verbatim>\<open>strcmp\<close>.\<close>

fun str_less :: "string \<Rightarrow> string \<Rightarrow> bool" where
  "str_less [] ys = (ys \<noteq> [])"
| "str_less (x # xs) [] = False"
| "str_less (x # xs) (y # ys) = (ccode x < ccode y \<or> x = y \<and> str_less xs ys)"

text \<open>The mnemonics in the case of the input, and the entries whose order the case keeps.\<close>

definition key :: "bool \<Rightarrow> decode_table_t \<Rightarrow> string" where
  "key dl e = map (ResolveLowerCase dl) (mnemonic e)"

definition seg :: "bool \<Rightarrow> nat set" where
  "seg dl = (if dl then {6..220} else {0..224})"

abbreviation ikey :: "bool \<Rightarrow> nat \<Rightarrow> string" where
  "ikey dl i \<equiv> key dl (oDecodeTable ! i)"

lemma entries: "length oDecodeTable = 225" "DECODE_ENTRIES = 225"
  by code_simp+

lemma successive_keys:
  "successively (\<lambda>e f. str_less (key False e) (key False f)) oDecodeTable"
  "successively (\<lambda>e f. str_less (key True e) (key True f)) (take 215 (drop 6 oDecodeTable))"
  by code_simp+

lemma key_chars: "list_all (\<lambda>e. list_all (\<lambda>c. \<not> ends_keyword c) (key dl e) \<and> key dl e \<noteq> []) oDecodeTable"
  by (induct dl) code_simp+

lemma ccode_inj: "ccode a = ccode b \<longleftrightarrow> a = b"
  by (simp add: ccode_def of_char_eq_iff)

lemma str_less_trans: "str_less xs ys \<Longrightarrow> str_less ys zs \<Longrightarrow> str_less xs zs"
proof (induction xs ys arbitrary: zs rule: str_less.induct)
  case (1 ys) then show ?case by (cases zs) (auto elim: str_less.elims)
next
  case (3 x xs y ys) then show ?case by (cases zs) auto
qed simp

lemma str_less_column:
  "str_less xs ys \<Longrightarrow> take k xs = take k ys \<Longrightarrow> k \<le> length xs \<Longrightarrow> ccode (peek xs k) \<le> ccode (peek ys k)"
proof (induction k arbitrary: xs ys)
  case 0
  have "0 \<le> ccode c" for c by (cases c) (simp add: ccode_def of_char_def)
  with 0 show ?case by (cases xs; cases ys) (auto simp: peek_def NUL_def, simp add: ccode_def)
next
  case (Suc k)
  then obtain x xs' where xs: "xs = x # xs'" by (cases xs) auto
  then obtain ys' where ys: "ys = x # ys'" using Suc.prems(2) by (cases ys) auto
  show ?case using Suc.IH [of xs' ys'] Suc.prems by (auto simp: xs ys peek_def split: if_splits)
qed

lemma sorted_keys:
  assumes "i \<in> seg dl" and "j \<in> seg dl" and "i < j"
  shows "str_less (ikey dl i) (ikey dl j)"
proof -
  have trans: "transp (\<lambda>e f. str_less (key dl e) (key dl f))" by (auto intro!: transpI elim: str_less_trans)
  show ?thesis
  proof (cases dl)
    case True
    have "sorted_wrt (\<lambda>e f. str_less (key dl e) (key dl f)) (take 215 (drop 6 oDecodeTable))"
      using successive_keys(2) successively_conv_sorted_wrt [OF trans] True by simp
    moreover have "i - 6 < j - 6" "j - 6 < length (take 215 (drop 6 oDecodeTable))" using assms True by (auto simp: seg_def entries)
    ultimately show ?thesis using assms True by (auto simp: sorted_wrt_iff_nth_less seg_def entries dest!: spec)
  next
    case False
    have "sorted_wrt (\<lambda>e f. str_less (key dl e) (key dl f)) oDecodeTable"
      using successive_keys(1) successively_conv_sorted_wrt [OF trans] False by simp
    then show ?thesis using assms False by (auto simp: sorted_wrt_iff_nth_less seg_def entries)
  qed
qed

lemma key_facts:
  assumes "i \<in> seg dl"
  shows "i < DECODE_ENTRIES" and "ikey dl i \<noteq> []" and "c \<in> set (ikey dl i) \<Longrightarrow> \<not> ends_keyword c"
  using assms key_chars [of dl] nth_mem [of i oDecodeTable]
  by (auto simp: seg_def entries list_all_iff split: if_splits)

lemma ResolveLowerCase_NUL: "ResolveLowerCase dl NUL = NUL"
  by (simp add: ResolveLowerCase_def tolower_def NUL_def ccode_def)

lemma mnem_char_key:
  assumes "i < DECODE_ENTRIES" and "k \<le> length (ikey dl i)"
  shows "\<exists>m. mnem_char i k = Inr m \<and> ResolveLowerCase dl m = peek (ikey dl i) k"
  using assms by (auto simp: mnem_char_def key_def peek_def ResolveLowerCase_NUL)

section \<open>The search for a character\<close>

text \<open>A column of the table.\<close>

definition column :: "bool \<Rightarrow> nat \<Rightarrow> (nat \<Rightarrow> char) \<Rightarrow> nat \<Rightarrow> nat \<Rightarrow> bool" where
  "column dl k f low high \<longleftrightarrow>
     (\<forall>i\<in>{low..high}. \<exists>m. mnem_char i k = Inr m \<and> ResolveLowerCase dl m = f i)
     \<and> (\<forall>i j. low \<le> i \<longrightarrow> i \<le> j \<longrightarrow> j \<le> high \<longrightarrow> ccode (f i) \<le> ccode (f j))"

lemma columnD:
  assumes "column dl k f low high" and "low \<le> i" and "i \<le> high"
  shows "\<exists>m. mnem_char i k = Inr m \<and> ResolveLowerCase dl m = f i"
  using assms by (simp add: column_def)

lemma column_mono: "column dl k f low high \<Longrightarrow> low \<le> i \<Longrightarrow> i \<le> j \<Longrightarrow> j \<le> high \<Longrightarrow> ccode (f i) \<le> ccode (f j)"
  by (auto simp: column_def)

lemma column_sub: "column dl k f low high \<Longrightarrow> low \<le> low' \<Longrightarrow> high' \<le> high \<Longrightarrow> column dl k f low' high'"
  by (auto simp: column_def)

declare first_match.simps [simp del] last_match.simps [simp del] match_char.simps [simp del]

lemma first_match_spec:
  assumes "column dl k f low high" and "low \<le> mid" and "mid \<le> high" and "f mid = c"
  shows "\<exists>l. first_match dl k c low mid = Inr l \<and> low \<le> l \<and> l \<le> mid \<and> (\<forall>i\<in>{low..mid}. f i = c \<longleftrightarrow> l \<le> i)"
  using assms
proof (induction dl k c low mid rule: first_match.induct)
  case (1 dl k c low mid)
  show ?case
  proof (cases "low < mid")
    case True
    obtain m where m: "mnem_char (mid - 1) k = Inr m" "ResolveLowerCase dl m = f (mid - 1)"
      using columnD [OF "1.prems"(1), of "mid - 1"] True "1.prems"(3) by force
    show ?thesis
    proof (cases "f (mid - 1) = c")
      case t: True
      have "low \<le> mid - 1" "mid - 1 \<le> high" using True "1.prems"(3) by auto
      from "1.IH" [OF True m(1) _ "1.prems"(1) this t] m(2) t
      obtain l where l: "first_match dl k c low (mid - 1) = Inr l" "low \<le> l" "l \<le> mid - 1"
        "\<forall>i\<in>{low..mid - 1}. f i = c \<longleftrightarrow> l \<le> i" by blast
      have "f i = c \<longleftrightarrow> l \<le> i" if "i \<in> {low..mid}" for i
        using l(3,4) that "1.prems"(4) by (cases "i = mid") auto
      then show ?thesis using l m t True by (auto simp: first_match.simps [of dl k c low mid])
    next
      case f: False
      have "f i = c \<longleftrightarrow> mid \<le> i" if "i \<in> {low..mid}" for i
      proof (cases "i = mid")
        case False
        then have i: "low \<le> i" "i \<le> mid - 1" "i < mid" using that by auto
        have "ccode (f i) \<le> ccode (f (mid - 1))" "ccode (f (mid - 1)) \<le> ccode (f mid)"
          using column_mono [OF "1.prems"(1)] i True "1.prems"(3) by auto
        moreover have "ccode (f (mid - 1)) \<noteq> ccode c" using f by (simp add: ccode_inj)
        ultimately show ?thesis using i "1.prems"(4) by auto
      qed (simp add: "1.prems"(4))
      then show ?thesis using m f True by (auto simp: first_match.simps [of dl k c low mid])
    qed
  next
    case False
    then show ?thesis using "1.prems"(2-4) by (simp add: first_match.simps [of dl k c low mid] first_match.simps [of dl k c mid mid])
  qed
qed

lemma last_match_spec:
  assumes "column dl k f low high" and "low \<le> mid" and "mid \<le> high" and "f mid = c"
  shows "\<exists>h. last_match dl k c high mid = Inr h \<and> mid \<le> h \<and> h \<le> high \<and> (\<forall>i\<in>{mid..high}. f i = c \<longleftrightarrow> i \<le> h)"
  using assms
proof (induction dl k c high mid rule: last_match.induct)
  case (1 dl k c high mid)
  show ?case
  proof (cases "mid < high")
    case True
    obtain m where m: "mnem_char (mid + 1) k = Inr m" "ResolveLowerCase dl m = f (mid + 1)"
      using columnD [OF "1.prems"(1), of "mid + 1"] True "1.prems"(2) by force
    show ?thesis
    proof (cases "f (mid + 1) = c")
      case t: True
      from "1.IH" [OF True m(1)] m(2) t "1.prems" True
      obtain h where h: "last_match dl k c high (mid + 1) = Inr h" "mid + 1 \<le> h" "h \<le> high"
        "\<forall>i\<in>{mid + 1..high}. f i = c \<longleftrightarrow> i \<le> h" by auto
      have "f i = c \<longleftrightarrow> i \<le> h" if "i \<in> {mid..high}" for i
        using h(2,4) that "1.prems"(4) by (cases "i = mid") auto
      then show ?thesis using h m t True by (auto simp: last_match.simps [of dl k c high mid])
    next
      case f: False
      have "f i = c \<longleftrightarrow> i \<le> mid" if "i \<in> {mid..high}" for i
      proof (cases "i = mid")
        case False
        then have i: "i \<le> high" "mid + 1 \<le> i" using that by auto
        have "ccode (f (mid + 1)) \<le> ccode (f i)" "ccode (f mid) \<le> ccode (f (mid + 1))"
          using column_mono [OF "1.prems"(1)] i "1.prems"(2) by auto
        moreover have "ccode (f (mid + 1)) \<noteq> ccode c" using f by (simp add: ccode_inj)
        ultimately show ?thesis using i "1.prems"(4) by auto
      qed (simp add: "1.prems"(4))
      then show ?thesis using m f True "1.prems" by (auto simp: last_match.simps [of dl k c high mid])
    qed
  next
    case False
    then show ?thesis using "1.prems"(2-4) by (simp add: last_match.simps [of dl k c high mid] last_match.simps [of dl k c high high])
  qed
qed

text \<open>What a search returns: the entries of a range with the character.\<close>

definition matched_range :: "(nat \<Rightarrow> bool) \<Rightarrow> (nat \<times> nat) option \<Rightarrow> bool" where
  "matched_range P r \<longleftrightarrow> (case r of None \<Rightarrow> \<forall>i. \<not> P i | Some (l, h) \<Rightarrow> l \<le> h \<and> (\<forall>i. P i \<longleftrightarrow> l \<le> i \<and> i \<le> h))"

lemma match_char_spec:
  assumes "column dl k f low high" and "low = 0 \<Longrightarrow> ccode (f 0) \<le> ccode c"
  shows "\<exists>r. match_char dl k c low high = Inr r \<and> matched_range (\<lambda>i. i \<in> {low..high} \<and> f i = c) r"
  using assms
proof (induction dl k c low high rule: match_char.induct)
  case (1 dl k c low high)
  show ?case
  proof (cases "high < low")
    case True
    then show ?thesis by (simp add: match_char.simps [of dl k c low high] matched_range_def)
  next
    case False
    let ?mid = "low + (high - low) div 2"
    have mid: "low \<le> ?mid" "?mid \<le> high" using False by auto
    obtain m where m: "mnem_char ?mid k = Inr m" "ResolveLowerCase dl m = f ?mid"
      using columnD [OF "1.prems"(1) mid] by blast
    note step = match_char.simps [of dl k c low high]
    have less: "f i \<noteq> c" if "ccode (f ?mid) < ccode c" "low \<le> i" "i \<le> ?mid" for i
      using column_mono [OF "1.prems"(1) that(2,3) mid(2)] that(1) by auto
    have greater: "f i \<noteq> c" if "ccode c < ccode (f ?mid)" "?mid \<le> i" "i \<le> high" for i
      using column_mono [OF "1.prems"(1) mid(1) that(2,3)] that(1) by auto
    consider "ccode (f ?mid) < ccode c" | "ccode c < ccode (f ?mid)" | "f ?mid = c"
      by (meson ccode_inj not_less_iff_gr_or_eq)
    then show ?thesis
    proof cases
      case 1
      have c: "column dl k f (?mid + 1) high" using column_sub [OF "1.prems"(1)] mid by auto
      obtain r where r: "match_char dl k c (?mid + 1) high = Inr r" "matched_range (\<lambda>i. i \<in> {?mid + 1..high} \<and> f i = c) r"
        using "1.IH"(1) [OF False refl m(1) refl] m(2) 1 c by auto
      have "(\<lambda>i. i \<in> {?mid + 1..high} \<and> f i = c) = (\<lambda>i. i \<in> {low..high} \<and> f i = c)"
        using less [OF 1] mid by (intro ext) (auto simp: not_less_eq_eq [symmetric])
      then show ?thesis using r m 1 False by (simp add: step Let_def)
    next
      case 2
      have "?mid \<noteq> 0"
      proof
        assume "?mid = 0"
        then have "low = 0" "f ?mid = f 0" by auto
        then show False using "1.prems"(2) 2 by simp
      qed
      have c: "column dl k f low (?mid - 1)" using column_sub [OF "1.prems"(1)] mid by auto
      obtain r where r: "match_char dl k c low (?mid - 1) = Inr r" "matched_range (\<lambda>i. i \<in> {low..?mid - 1} \<and> f i = c) r"
        using "1.IH"(2) [OF False refl m(1) refl] m(2) 2 c \<open>?mid \<noteq> 0\<close> "1.prems"(2) by auto
      have "(\<lambda>i. i \<in> {low..?mid - 1} \<and> f i = c) = (\<lambda>i. i \<in> {low..high} \<and> f i = c)"
      proof (rule ext)
        fix i
        show "(i \<in> {low..?mid - 1} \<and> f i = c) = (i \<in> {low..high} \<and> f i = c)"
          using greater [OF 2, of i] mid \<open>?mid \<noteq> 0\<close> by (cases "?mid \<le> i") auto
      qed
      then show ?thesis using r m 2 False \<open>?mid \<noteq> 0\<close> by (simp add: step Let_def)
    next
      case 3
      obtain l where l: "first_match dl k c low ?mid = Inr l" "low \<le> l" "l \<le> ?mid" "\<forall>i\<in>{low..?mid}. f i = c \<longleftrightarrow> l \<le> i"
        using first_match_spec [OF "1.prems"(1) mid 3] by blast
      obtain h where h: "last_match dl k c high ?mid = Inr h" "?mid \<le> h" "h \<le> high" "\<forall>i\<in>{?mid..high}. f i = c \<longleftrightarrow> i \<le> h"
        using last_match_spec [OF "1.prems"(1) mid 3] by blast
      have "i \<in> {low..high} \<and> f i = c \<longleftrightarrow> l \<le> i \<and> i \<le> h" for i
        using l h by (cases "i \<le> ?mid") auto
      then show ?thesis using l h m 3 False by (simp add: step Let_def matched_range_def)
    qed
  qed
qed

section \<open>The first letter in lower case\<close>

text \<open>
  In lower case the entries behind the letters are out of order, so that the search for the first letter is followed on
  the list of all first characters.
\<close>

definition first_chars :: string where
  "first_chars =
     ''!#%&*=aaaaaaaaaaaaaaaabbbbbbbbbcccccccccccccccdddddddddddddeeeeeeeeeeeeffffffffffgggiiiiiiiikllllllllllllllmmm''
     @ ''mmmmmmmmmmmmmmmnnnoooppppppppqqqqrrrrrrrrrrrrrrrrrssssssssssssssssssssssssssssssssssssssssssttttttuuuuuuwwwwwwy[]^|''"

lemma first_chars_map: "map (\<lambda>e. hd (key True e)) oDecodeTable = first_chars"
  by code_simp


lemma first_char:
  assumes "i < 225"
  shows "peek (ikey True i) 0 = first_chars ! i"
proof -
  have "ikey True i \<noteq> []" using key_chars [of True] nth_mem [of i oDecodeTable] assms by (auto simp: entries list_all_iff)
  moreover have "map (\<lambda>e. hd (key True e)) oDecodeTable ! i = hd (ikey True i)" using assms by (simp add: entries)
  ultimately show ?thesis by (simp add: first_chars_map peek_def hd_conv_nth)
qed

lemma first_columns: "sorted (map ccode (take 221 first_chars))"
  by (simp add: first_chars_def ccode_def)

lemma first_column: "high \<le> 220 \<Longrightarrow> column True 0 (\<lambda>i. peek (ikey True i) 0) low high"
  unfolding column_def
proof (intro conjI ballI allI impI)
  fix i assume "high \<le> 220" and "i \<in> {low..high}"
  then show "\<exists>m. mnem_char i 0 = Inr m \<and> ResolveLowerCase True m = peek (ikey True i) 0"
    by (intro mnem_char_key) (auto simp: entries)
next
  fix i j assume ij: "high \<le> 220" "low \<le> i" "i \<le> j" "j \<le> high"
  have "length first_chars = 225" by (simp add: first_chars_def)
  with sorted_nth_mono [OF first_columns ij(3)] ij
  show "ccode (peek (ikey True i) 0) \<le> ccode (peek (ikey True j) 0)" by (simp add: first_char)
qed

lemma last_match_cut:
  assumes "column dl k f low b" and "low \<le> mid" and "mid \<le> b" and "b \<le> high" and "f b \<noteq> c" and "f mid = c"
  shows "last_match dl k c high mid = last_match dl k c b mid"
  using assms
proof (induction "b - mid" arbitrary: mid)
  case (Suc n)
  then have less: "mid < b" "mid < high" by auto
  obtain m where m: "mnem_char (mid + 1) k = Inr m" "ResolveLowerCase dl m = f (mid + 1)"
    using columnD [OF Suc.prems(1), of "mid + 1"] less(1) Suc.prems(2) by force
  have "last_match dl k c high (mid + 1) = last_match dl k c b (mid + 1)" if "f (mid + 1) = c"
    using Suc.hyps(1) [of "mid + 1"] Suc.hyps(2) Suc.prems that less by auto
  then show ?case using less m by (simp add: last_match.simps [of dl k c high mid] last_match.simps [of dl k c b mid])
qed auto

text \<open>A search whose middle is in the sorted part, which ends at \<open>b\<close>.\<close>

lemma match_char_cut:
  assumes mid: "mid = low + (high - low) div 2" "low \<le> mid" "mid \<le> b" "b \<le> high"
    and col: "column dl k f low b" and low: "low = 0 \<Longrightarrow> ccode (f 0) \<le> ccode c"
    and no: "\<And>i. b \<le> i \<Longrightarrow> i \<le> high \<Longrightarrow> f i \<noteq> c"
    and right: "ccode (f mid) < ccode c \<Longrightarrow>
      \<exists>r. match_char dl k c (mid + 1) high = Inr r \<and> matched_range (\<lambda>i. i \<in> {mid + 1..high} \<and> f i = c) r"
  shows "\<exists>r. match_char dl k c low high = Inr r \<and> matched_range (\<lambda>i. i \<in> {low..high} \<and> f i = c) r"
proof -
  obtain m where m: "mnem_char mid k = Inr m" "ResolveLowerCase dl m = f mid" using columnD [OF col mid(2,3)] by blast
  note step = match_char.simps [of dl k c low high, folded mid(1)]
  have high: "\<not> high < low" using mid by simp
  consider "ccode (f mid) < ccode c" | "ccode c < ccode (f mid)" | "f mid = c"
    by (meson ccode_inj not_less_iff_gr_or_eq)
  then show ?thesis
  proof cases
    case 1
    have "i \<in> {mid + 1..high} \<and> f i = c \<longleftrightarrow> i \<in> {low..high} \<and> f i = c" for i
      using column_mono [OF col, of i mid] 1 mid by (cases "i \<le> mid") auto
    then show ?thesis using right [OF 1] m 1 high by (simp add: step)
  next
    case 2
    have "mid \<noteq> 0" using 2 low mid(2) by (metis leD le_zero_eq)
    have b: "mid - 1 \<le> b" using mid(3) by simp
    obtain r where r: "match_char dl k c low (mid - 1) = Inr r" "matched_range (\<lambda>i. i \<in> {low..mid - 1} \<and> f i = c) r"
      using match_char_spec [OF column_sub [OF col order_refl b] low] by blast
    have "i \<in> {low..mid - 1} \<and> f i = c \<longleftrightarrow> i \<in> {low..high} \<and> f i = c" for i
    proof -
      have "i \<le> mid - 1 \<longleftrightarrow> \<not> mid \<le> i" using \<open>mid \<noteq> 0\<close> by arith
      then show ?thesis using column_mono [OF col, of mid i] 2 mid(2-4) no [of i] by (cases "mid \<le> i"; cases "i \<le> b") auto
    qed
    then show ?thesis using r m 2 high \<open>mid \<noteq> 0\<close> by (simp add: step)
  next
    case 3
    obtain l where l: "first_match dl k c low mid = Inr l" "low \<le> l" "l \<le> mid" "\<forall>i\<in>{low..mid}. f i = c \<longleftrightarrow> l \<le> i"
      using first_match_spec [OF col mid(2,3) 3] by blast
    obtain h where h: "last_match dl k c b mid = Inr h" "mid \<le> h" "h \<le> b" "\<forall>i\<in>{mid..b}. f i = c \<longleftrightarrow> i \<le> h"
      using last_match_spec [OF col mid(2,3) 3] by blast
    have "last_match dl k c high mid = Inr h" using last_match_cut [OF col mid(2,3,4) _ 3] no [of b] mid h(1) by simp
    moreover have "i \<in> {low..high} \<and> f i = c \<longleftrightarrow> l \<le> i \<and> i \<le> h" for i
      using l h no [of i] mid by (cases "i \<le> mid"; cases "i \<le> b") auto
    ultimately show ?thesis using l h m 3 high by (simp add: step matched_range_def)
  qed
qed

lemma first_chars_at:
  "first_chars ! 0 = CHR ''!''" "first_chars ! 112 = CHR ''m''" "first_chars ! 168 = CHR ''s''" "first_chars ! 196 = CHR ''s''"
  "first_chars ! 210 = CHR ''u''" "first_chars ! 217 = CHR ''w''" "first_chars ! 218 = CHR ''w''" "first_chars ! 219 = CHR ''w''"
  "first_chars ! 220 = CHR ''y''" "first_chars ! 221 = CHR ''[''" "first_chars ! 222 = CHR '']''" "first_chars ! 223 = CHR ''^''"
  "first_chars ! 224 = CHR ''|''"
  by (simp_all add: first_chars_def)

text \<open>In lower case only the search for \<^verbatim>\<open>y\<close> leaves the letters too early.\<close>

lemma lower_letter:
  assumes "ccode CHR ''a'' \<le> ccode c" "ccode c \<le> ccode CHR ''z''" and "c \<noteq> CHR ''y''"
  shows "\<exists>r. match_char True 0 c 0 224 = Inr r \<and> matched_range (\<lambda>i. i \<in> {0..224} \<and> peek (ikey True i) 0 = c) r"
proof -
  let ?f = "\<lambda>i. peek (ikey True i) 0"
  let ?R = "\<lambda>l. \<exists>r. match_char True 0 c l 224 = Inr r \<and> matched_range (\<lambda>i. i \<in> {l..224} \<and> ?f i = c) r"
  have code: "97 \<le> ccode c" "ccode c \<le> 122" using assms(1,2) by (simp_all add: ccode_def)
  have y: "ccode c \<noteq> 121" using assms(3) ccode_inj [of c "CHR ''y''"] by (simp add: ccode_def)
  have at: "ccode (?f i) = ccode (first_chars ! i)" if "i < 225" for i using first_char [OF that] by simp
  have none: "?f i \<noteq> c" if "220 \<le> i" "i \<le> 224" for i
  proof
    assume "?f i = c"
    then have "ccode c = ccode (first_chars ! i)" using at [of i] that by simp
    moreover have "i = 220 \<or> i = 221 \<or> i = 222 \<or> i = 223 \<or> i = 224" using that by auto
    ultimately show False using code y by (auto simp: first_chars_at ccode_def)
  qed
  have cut: "?R l" if "m = l + (224 - l) div 2" "m \<le> 220" "l \<le> m" "ccode (?f m) < ccode c \<Longrightarrow> ?R (m + 1)" for l m
    by (rule match_char_cut [OF that(1,3,2) _ first_column _ none that(4)])
       (use at [of 0] code in \<open>auto simp: first_chars_at ccode_def\<close>)
  have behind: "?R l" if m: "m = l + (224 - l) div 2" "ccode (?f m) < ccode c" "\<forall>i\<in>{l..m}. ?f i \<noteq> c" "l \<le> m" "m < 224" "?R (m + 1)" for l m
  proof -
    obtain x where x: "mnem_char m 0 = Inr x" "ResolveLowerCase True x = ?f m"
      using mnem_char_key [of m 0 True] m(5) by (auto simp: entries)
    have "i \<in> {m + 1..224} \<and> ?f i = c \<longleftrightarrow> i \<in> {l..224} \<and> ?f i = c" for i
      using m(3,4) by (cases "i \<le> m") auto
    then show ?thesis using m(2,4,5,6) x by (simp add: match_char.simps [of True 0 c l 224] m(1) [symmetric])
  qed
  have 224: "?R 224"
  proof -
    obtain x where "mnem_char 224 0 = Inr x" "ResolveLowerCase True x = ?f 224"
      using mnem_char_key [of 224 0 True] by (auto simp: entries)
    moreover have "ccode c < ccode (?f 224)" using at [of 224] code by (simp add: first_chars_at ccode_def)
    ultimately show ?thesis using none [of 224]
      by (auto simp: match_char.simps [of True 0 c 224 224] match_char.simps [of True 0 c 224 223] matched_range_def)
  qed
  have 222: "?R 222"
    using behind [of 223 222] 224 none at [of 223] code by (auto simp: first_chars_at ccode_def)
  have 218: "?R 218" if "ccode CHR ''w'' < ccode c"
  proof -
    have "?f i \<noteq> c" if "218 \<le> i" "i \<le> 221" for i
    proof
      assume "?f i = c"
      then have "ccode c = ccode (first_chars ! i)" using at [of i] that by simp
      moreover have "i = 218 \<or> i = 219 \<or> 220 \<le> i" using that by auto
      ultimately show False using code y none [of i] that \<open>ccode CHR ''w'' < ccode c\<close> \<open>?f i = c\<close>
        by (auto simp: first_chars_at ccode_def)
    qed
    then show ?thesis using behind [of 221 218] 222 at [of 221] code by (auto simp: first_chars_at ccode_def)
  qed
  have 211: "?R 211" using cut [of 217 211] 218 at [of 217] by (simp add: first_chars_at)
  have 197: "?R 197" using cut [of 210 197] 211 by simp
  have 169: "?R 169" using cut [of 196 169] 197 by simp
  have 113: "?R 113" using cut [of 168 113] 169 by simp
  show ?thesis using cut [of 112 0] 113 by simp
qed

end
