(* ===== verification/Mnemonics.thy ===== *)
theory Mnemonics
  imports Mnemonic_Search
begin

text \<open>
  The search of \<^verbatim>\<open>Decode\<close> finds the entry of the longest mnemonic a line begins with; what it reads is always inside the
  table.
\<close>

section \<open>The search for a mnemonic\<close>

text \<open>The entry of a text: the longest mnemonic the text starts with, if it may be followed by more or the keyword ends behind it.\<close>

definition accepted :: "bool \<Rightarrow> string \<Rightarrow> nat \<Rightarrow> bool" where
  "accepted dl T i \<longleftrightarrow> IsPartiallyMatched (oDecodeTable ! i) \<or> ends_keyword (peek T (length (ikey dl i)))"

definition found :: "bool \<Rightarrow> string \<Rightarrow> nat \<Rightarrow> bool" where
  "found dl T i \<longleftrightarrow> i \<in> seg dl \<and> prefix (ikey dl i) T
     \<and> (\<forall>j\<in>seg dl. prefix (ikey dl j) T \<longrightarrow> length (ikey dl j) \<le> length (ikey dl i)) \<and> accepted dl T i"

definition starts :: "bool \<Rightarrow> string \<Rightarrow> nat \<Rightarrow> bool" where
  "starts dl p i \<longleftrightarrow> i \<in> seg dl \<and> prefix p (ikey dl i)"

lemma str_less_prefix: "str_less xs ys \<Longrightarrow> \<not> prefix ys xs"
  by (induction xs ys rule: str_less.induct) auto

lemma key_no_NUL: "i \<in> seg dl \<Longrightarrow> NUL \<notin> set (ikey dl i)"
  using key_facts(3) [of i dl NUL] by (auto simp: ends_keyword_def)

lemma same_key: "i \<in> seg dl \<Longrightarrow> j \<in> seg dl \<Longrightarrow> ikey dl i = ikey dl j \<Longrightarrow> i = j"
  using sorted_keys [of i dl j] sorted_keys [of j dl i] str_less_prefix [of "ikey dl i" "ikey dl j"]
    str_less_prefix [of "ikey dl j" "ikey dl i"] by (cases i j rule: linorder_cases) auto

lemma found_unique: "found dl T i \<Longrightarrow> found dl T j \<Longrightarrow> i = j"
proof -
  assume f: "found dl T i" "found dl T j"
  then have "length (ikey dl i) = length (ikey dl j)" by (meson found_def le_antisym)
  then have "ikey dl i = ikey dl j" using f by (metis found_def prefix_def append_eq_append_conv)
  then show "i = j" using f same_key by (meson found_def)
qed

lemma starts_next:
  assumes "c \<noteq> NUL"
  shows "starts dl (p @ [c]) i \<longleftrightarrow> starts dl p i \<and> peek (ikey dl i) (length p) = c"
proof -
  have "prefix (p @ [c]) xs \<longleftrightarrow> prefix p xs \<and> peek xs (length p) = c" for xs
    using assms by (auto simp: prefix_def peek_def nth_append) (metis hd_conv_nth append_Cons append_Nil hd_Cons_tl length_0_conv add_0_right list.sel(1) nth_Cons_0)
  then show ?thesis by (auto simp: starts_def)
qed

lemma starts_column:
  assumes "\<And>i. starts dl p i \<longleftrightarrow> low \<le> i \<and> i \<le> high"
  shows "column dl (length p) (\<lambda>i. peek (ikey dl i) (length p)) low high"
  unfolding column_def
proof (intro conjI ballI allI impI)
  fix i assume "i \<in> {low..high}"
  then have i: "i \<in> seg dl" "prefix p (ikey dl i)" using assms [of i] by (auto simp: starts_def)
  show "\<exists>m. mnem_char i (length p) = Inr m \<and> ResolveLowerCase dl m = peek (ikey dl i) (length p)"
    by (rule mnem_char_key [OF key_facts(1) [OF i(1)] prefix_length_le [OF i(2)]])
next
  fix i j assume ij: "low \<le> i" "i \<le> j" "j \<le> high"
  then have s: "i \<in> seg dl" "j \<in> seg dl" "prefix p (ikey dl i)" "prefix p (ikey dl j)"
    using assms [of i] assms [of j] by (auto simp: starts_def)
  show "ccode (peek (ikey dl i) (length p)) \<le> ccode (peek (ikey dl j) (length p))"
  proof (cases "i = j")
    case False
    then have "str_less (ikey dl i) (ikey dl j)" using sorted_keys s(1,2) ij(2) by auto
    from str_less_column [OF this] show ?thesis using s(3,4) by (auto simp: prefix_def)
  qed simp
qed

lemma match_next:
  assumes range: "\<And>i. starts dl p i \<longleftrightarrow> low \<le> i \<and> i \<le> high" and c: "c \<noteq> NUL"
    and first: "p = [] \<Longrightarrow> \<not> dl \<and> ccode CHR ''!'' \<le> ccode c" and "low \<le> high"
  shows "\<exists>r. match_char dl (length p) c low high = Inr r \<and> matched_range (starts dl (p @ [c])) r"
proof -
  have "ccode (peek (ikey dl 0) (length p)) \<le> ccode c" if "low = 0"
  proof -
    have s: "0 \<in> seg dl" "prefix p (ikey dl 0)" using range [of 0] assms(4) that by (auto simp: starts_def)
    then have dl: "\<not> dl" by (simp add: seg_def split: if_splits)
    then have key: "ikey dl 0 = ''!''" by (simp add: key_def oDecodeTable_def oDecodeTable_1_def ResolveLowerCase_def)
    have "0 \<le> ccode c" by (cases c) (simp add: ccode_def of_char_def)
    then show ?thesis using first s(2) unfolding key by (cases p) (auto simp: peek_def NUL_def ccode_def)
  qed
  from match_char_spec [OF starts_column [OF range] this] obtain r
    where "match_char dl (length p) c low high = Inr r"
      "matched_range (\<lambda>i. i \<in> {low..high} \<and> peek (ikey dl i) (length p) = c) r" by blast
  moreover have "(\<lambda>i. i \<in> {low..high} \<and> peek (ikey dl i) (length p) = c) = starts dl (p @ [c])"
    by (rule ext) (simp add: starts_next [OF c] range)
  ultimately show ?thesis by auto
qed

lemma MatchRestOfKeyword_iff:
  "NUL \<notin> set (map (ResolveLowerCase dl) r) \<Longrightarrow> MatchRestOfKeyword dl l r \<longleftrightarrow> prefix (map (ResolveLowerCase dl) r) l"
proof (induction r arbitrary: l)
  case (Cons c r)
  then show ?case by (cases l) (auto simp: peek_def)
qed simp

lemma mnem_rest_key:
  assumes "i \<in> seg dl" and "k \<le> length (ikey dl i)"
  shows "\<exists>r. mnem_rest i k = Inr r \<and> map (ResolveLowerCase dl) r = drop k (ikey dl i) \<and> length r = length (ikey dl i) - k"
  using assms key_facts(1) [OF assms(1)] by (auto simp: mnem_rest_def key_def drop_map)

declare longest_match.simps [simp del]

lemma longest_match_spec:
  assumes "\<And>i. low \<le> i \<Longrightarrow> i \<le> high \<Longrightarrow> i \<in> seg dl \<and> k \<le> length (ikey dl i)"
    and "low \<le> high" and "prefix (drop k (ikey dl low)) (input_pos s)"
  shows "\<exists>i. longest_match dl k high s = Inr i \<and> low \<le> i \<and> i \<le> high \<and> prefix (drop k (ikey dl i)) (input_pos s)
    \<and> (\<forall>j. i < j \<longrightarrow> j \<le> high \<longrightarrow> \<not> prefix (drop k (ikey dl j)) (input_pos s))"
  using assms
proof (induction high)
  case 0
  obtain r where r: "mnem_rest 0 k = Inr r" "map (ResolveLowerCase dl) r = drop k (ikey dl 0)"
    using mnem_rest_key [of 0 dl k] 0 by auto
  have "NUL \<notin> set (drop k (ikey dl 0))" using key_no_NUL [of 0 dl] 0 in_set_dropD by fastforce
  then have "MatchRestOfKeyword dl (input_pos s) r" using 0 r(2) MatchRestOfKeyword_iff [of dl r] by simp
  then show ?case using r 0 by (simp add: longest_match.simps [of dl k 0] Input_GetMark_def)
next
  case (Suc h)
  have seg: "Suc h \<in> seg dl" "k \<le> length (ikey dl (Suc h))" using Suc.prems(1) [of "Suc h"] Suc.prems(2) by auto
  obtain r where r: "mnem_rest (Suc h) k = Inr r" "map (ResolveLowerCase dl) r = drop k (ikey dl (Suc h))"
    using mnem_rest_key [OF seg] by auto
  have "NUL \<notin> set (drop k (ikey dl (Suc h)))" using key_no_NUL [OF seg(1)] in_set_dropD by fastforce
  then have m: "MatchRestOfKeyword dl (input_pos s) r \<longleftrightarrow> prefix (drop k (ikey dl (Suc h))) (input_pos s)"
    using r(2) MatchRestOfKeyword_iff [of dl r] by simp
  show ?case
  proof (cases "prefix (drop k (ikey dl (Suc h))) (input_pos s)")
    case True
    then show ?thesis using r m Suc.prems(2) by (auto simp: longest_match.simps [of dl k "Suc h"] Input_GetMark_def)
  next
    case False
    then have "low \<noteq> Suc h" using Suc.prems(3) by auto
    then obtain i where i: "longest_match dl k h s = Inr i" "low \<le> i" "i \<le> h" "prefix (drop k (ikey dl i)) (input_pos s)"
      "\<forall>j. i < j \<longrightarrow> j \<le> h \<longrightarrow> \<not> prefix (drop k (ikey dl j)) (input_pos s)"
      using Suc.IH Suc.prems by auto
    moreover have "\<not> prefix (drop k (ikey dl j)) (input_pos s)" if "i < j" "j \<le> Suc h" for j
      using i(5) that False by (cases "j = Suc h") auto
    ultimately show ?thesis using r m False by (auto simp: longest_match.simps [of dl k "Suc h"] Input_GetMark_def)
  qed
qed

lemma key_longer:
  assumes "i \<in> seg dl" and "prefix p (ikey dl i)"
  shows "\<exists>m. mnem_char i (length p) = Inr m \<and> (m = NUL \<longleftrightarrow> ikey dl i = p)"
proof -
  obtain m where m: "mnem_char i (length p) = Inr m" "ResolveLowerCase dl m = peek (ikey dl i) (length p)"
    using mnem_char_key [OF key_facts(1) [OF assms(1)] prefix_length_le [OF assms(2)]] by blast
  have "mnemonic (oDecodeTable ! i) = [] \<or> length (mnemonic (oDecodeTable ! i)) = length (ikey dl i)" by (simp add: key_def)
  have "m = peek (mnemonic (oDecodeTable ! i)) (length p)"
    using m(1) by (simp add: mnem_char_def split: if_splits)
  moreover have "x \<noteq> NUL" if "x \<in> set (mnemonic (oDecodeTable ! i))" for x
    using key_no_NUL [OF assms(1)] that ResolveLowerCase_NUL [of dl] by (auto simp: key_def image_iff)
  ultimately have "m = NUL \<longleftrightarrow> length (ikey dl i) \<le> length p" by (auto simp: peek_def key_def)
  also have "\<dots> \<longleftrightarrow> ikey dl i = p" using assms(2) by (auto simp: prefix_def)
  finally show ?thesis using m(1) by blast
qed

text \<open>The first entry of a range is the only one that may be read completely.\<close>

lemma range_first:
  assumes "\<And>i. starts dl p i \<longleftrightarrow> low \<le> i \<and> i \<le> high" and "low \<le> high" and "starts dl p i" and "ikey dl i = p"
  shows "i = low"
proof (rule ccontr)
  assume "i \<noteq> low"
  then have "low < i" "i \<in> seg dl" "low \<in> seg dl" "prefix p (ikey dl low)"
    using assms(1) [of i] assms(1) [of low] assms(2,3) by (auto simp: starts_def)
  then show False using sorted_keys [of low dl i] str_less_prefix [of "ikey dl low" "ikey dl i"] assms(4) by simp
qed

lemma prefix_step: "prefix xs (p @ c # ys) \<Longrightarrow> \<not> prefix xs p \<Longrightarrow> prefix (p @ [c]) xs"
  by (metis append.assoc append_Cons append_Nil prefix_append prefix_order.antisym prefix_same_cases prefix_snoc prefixI)

lemma longer_key:
  assumes "starts dl p j" and "ikey dl j \<noteq> p" and "prefix (ikey dl j) (p @ xs)"
  shows "\<not> ends_keyword (peek xs 0)"
proof -
  obtain zs where zs: "ikey dl j = p @ zs" using assms(1) by (auto simp: starts_def elim: prefixE)
  then obtain y ys where y: "ikey dl j = p @ y # ys" using assms(2) by (cases zs) auto
  then have "peek xs 0 = y" using assms(3) by (cases xs) (auto simp: peek_def)
  then show ?thesis using key_facts(3) [of j dl y] assms(1) y by (auto simp: starts_def)
qed

lemma find_mnemonic_finds:
  assumes match: "match_char dl (length p) c low high = Inr r" "matched_range (starts dl (p @ [c])) r"
    and line: "input_pos s = c # xs" "NUL \<notin> set (c # xs)" "length xs < fuel"
    and before: "\<And>i. i \<in> seg dl \<Longrightarrow> prefix (ikey dl i) p \<Longrightarrow> \<not> accepted dl (p @ c # xs) i"
  shows "\<exists>r t. find_mnemonic fuel dl (length p) low high s = Inr (r, t) \<and> (\<forall>i. r = Some i \<longleftrightarrow> found dl (p @ c # xs) i)
    \<and> (\<forall>i. r = Some i \<longrightarrow> t = s\<lparr>input_pos := drop (length (ikey dl i)) (p @ c # xs)\<rparr>)"
  using assms
proof (induction fuel arbitrary: p c low high r s xs)
  case (Suc fuel)
  let ?T = "p @ c # xs" and ?q = "p @ [c]" and ?s = "s\<lparr>input_pos := xs\<rparr>"
  have c: "c \<noteq> NUL" and xs: "NUL \<notin> set xs" using Suc.prems(4) by auto
  have get: "Input_GetC s = (c, ?s)" using Suc.prems(3) c by (simp add: Input_GetC_def Input_Look_def Input_Skip_def peek_def)
  have none: "\<not> found dl ?T i" if "\<And>j. starts dl ?q j \<Longrightarrow> \<not> found dl ?T j" for i
    using Suc.prems(6) prefix_step [of "ikey dl i" p c xs] that by (auto simp: found_def starts_def)
  show ?case
  proof (cases r)
    case None
    then have "\<not> found dl ?T i" for i using none Suc.prems(2) by (auto simp: matched_range_def)
    then show ?thesis using get c Suc.prems(1) None by auto
  next
    case (Some lh)
    obtain l h where lh: "lh = (l, h)" by fastforce
    have range: "l \<le> h" "starts dl ?q i \<longleftrightarrow> l \<le> i \<and> i \<le> h" for i
      using Suc.prems(2) by (auto simp: matched_range_def Some lh)
    have l: "l \<in> seg dl" "prefix ?q (ikey dl l)" and h: "h \<in> seg dl" "prefix ?q (ikey dl h)"
      using range(2) [of l] range(2) [of h] range(1) by (auto simp: starts_def)
    obtain ml where ml: "mnem_char l (Suc (length p)) = Inr ml" "ml = NUL \<longleftrightarrow> ikey dl l = ?q"
      using key_longer [OF l] by auto
    obtain mh where mh: "mnem_char h (Suc (length p)) = Inr mh" "mh = NUL \<longleftrightarrow> ikey dl h = ?q"
      using key_longer [OF h] by auto
    note run = get c Suc.prems(1) Some lh ml(1)
    have only: "j = l" "ikey dl l = ?q" if "starts dl ?q j" "ikey dl j = ?q" for j
      using range_first [OF range(2,1) that] that(2) by auto
    consider "ml = NUL" "IsPartiallyMatched (oDecodeTable ! l)"
      | "\<not> (ml = NUL \<and> IsPartiallyMatched (oDecodeTable ! l))" "ends_keyword (peek xs 0)"
      | "\<not> (ml = NUL \<and> IsPartiallyMatched (oDecodeTable ! l))" "\<not> ends_keyword (peek xs 0)" "mh \<noteq> NUL"
      | "\<not> (ml = NUL \<and> IsPartiallyMatched (oDecodeTable ! l))" "\<not> ends_keyword (peek xs 0)" "mh = NUL"
      by blast
    then show ?thesis
    proof cases
      case 1
      have "i \<in> seg dl \<and> Suc (length p) \<le> length (ikey dl i)" if "l \<le> i" "i \<le> h" for i
        using range(2) [of i] that prefix_length_le [of ?q "ikey dl i"] by (auto simp: starts_def)
      from longest_match_spec [OF this range(1), of ?s] obtain i
        where i: "longest_match dl (Suc (length p)) h ?s = Inr i" "l \<le> i" "i \<le> h" "prefix (drop (Suc (length p)) (ikey dl i)) xs"
          "\<forall>j. i < j \<longrightarrow> j \<le> h \<longrightarrow> \<not> prefix (drop (Suc (length p)) (ikey dl j)) xs"
        using 1(1) ml(2) by auto
      have s: "starts dl ?q i" using range(2) i by simp
      then obtain ys where ys: "ikey dl i = ?q @ ys" "i \<in> seg dl" by (auto simp: starts_def prefix_def)
      have drop: "prefix (drop (Suc (length p)) (ikey dl j)) xs \<longleftrightarrow> prefix (ikey dl j) ?T" if "starts dl ?q j" for j
        using that by (auto simp: starts_def prefix_def)
      have longest: "length (ikey dl j) \<le> length (ikey dl i)" if "j \<in> seg dl" "prefix (ikey dl j) ?T" for j
      proof (cases "prefix (ikey dl j) p")
        case True
        then show ?thesis using prefix_length_le ys(1) by fastforce
      next
        case False
        then have j: "starts dl ?q j" using prefix_step that by (auto simp: starts_def)
        then have "j \<le> i" using i(5) range(2) [of j] drop [OF j] that(2) by (meson not_le)
        then show ?thesis
          using sorted_keys [OF that(1) ys(2)] str_less_prefix [of "ikey dl j" "ikey dl i"] that(2) drop [OF s] i(4)
          by (metis le_neq_implies_less nat_le_linear prefix_length_prefix)
      qed
      obtain r where r: "mnem_rest i (Suc (length p)) = Inr r" "length r = length ys"
        using mnem_rest_key [OF ys(2), of "Suc (length p)"] ys(1) by auto
      have len: "length ys \<le> length xs" using i(4) ys(1) prefix_length_le by fastforce
      let ?ok = "IsPartiallyMatched (oDecodeTable ! i) \<or> ends_keyword (peek xs (length ys))"
      have found: "found dl ?T i \<longleftrightarrow> ?ok"
        using longest drop [OF s] i(4) ys by (auto simp: found_def accepted_def peek_def nth_append)
      have "\<not> found dl ?T j" if "j \<noteq> i" for j
      proof
        assume j: "found dl ?T j"
        then have "length (ikey dl j) = length (ikey dl i)" using longest [of j] ys(2) drop [OF s] i(4) by (auto simp: found_def intro!: le_antisym)
        then have "ikey dl j = ikey dl i" using j drop [OF s] i(4) by (metis found_def prefix_def append_eq_append_conv)
        then show False using same_key [of j dl i] j ys(2) that by (auto simp: found_def)
      qed
      then have found: "found dl ?T j \<longleftrightarrow> j = i \<and> ?ok" for j
        using found by (cases "j = i") auto
      have "find_mnemonic (Suc fuel) dl (length p) low high s
          = Inr (if ?ok then Some i else None, s\<lparr>input_pos := drop (length ys) xs\<rparr>)"
        using run 1 i(1,2) r len by (simp add: Input_SkipN_def Input_Look_def peek_def)
      then show ?thesis by (auto simp: found ys(1) simp del: find_mnemonic.simps)
    next
      case 2
      have only_l: "j = l \<and> ikey dl l = ?q" if "found dl ?T j" for j
      proof -
        have "starts dl ?q j" using none [of j] that Suc.prems(6) prefix_step [of "ikey dl j" p c xs] by (auto simp: found_def starts_def)
        then show ?thesis using longer_key [of dl ?q j xs] only that 2(2) by (auto simp: found_def)
      qed
      have found: "found dl ?T l" if "ikey dl l = ?q"
        unfolding found_def
      proof (intro conjI ballI impI)
        fix j assume j: "j \<in> seg dl" "prefix (ikey dl j) ?T"
        show "length (ikey dl j) \<le> length (ikey dl l)"
        proof (cases "prefix (ikey dl j) p")
          case True
          then show ?thesis using prefix_length_le [OF True] that by simp
        next
          case False
          then have "starts dl ?q j" using j prefix_step by (auto simp: starts_def)
          then show ?thesis using longer_key [of dl ?q j xs] 2(2) j(2) that by (cases "ikey dl j = ?q") auto
        qed
      qed (use l that 2(2) in \<open>auto simp: accepted_def peek_def nth_append\<close>)
      have "find_mnemonic (Suc fuel) dl (length p) low high s = Inr (if ml = NUL then Some l else None, ?s)"
        using run 2 by (auto simp: Input_Look_def)
      moreover have "found dl ?T j \<longleftrightarrow> j = l \<and> ml = NUL" for j
        using only_l [of j] found ml(2) by auto
      ultimately show ?thesis using ml(2) by (auto simp del: find_mnemonic.simps)
    next
      case 3
      obtain c' xs' where xs': "xs = c' # xs'" using 3(2) by (cases xs) (auto simp: peek_def ends_keyword_def)
      then have c': "c' \<noteq> NUL" "\<not> ends_keyword c'" using xs 3(2) by (auto simp: peek_def)
      obtain r' where r': "match_char dl (length ?q) c' l h = Inr r'" "matched_range (starts dl (?q @ [c'])) r'"
        using match_next [OF range(2) c'(1) _ range(1)] by auto
      have before: "\<not> accepted dl (?q @ c' # xs') i" if "i \<in> seg dl" "prefix (ikey dl i) ?q" for i
      proof (cases "prefix (ikey dl i) p")
        case True
        then show ?thesis using Suc.prems(6) that(1) by (simp add: xs')
      next
        case False
        then have "ikey dl i = ?q" using that(2) by (simp add: prefix_snoc)
        moreover from this have "i = l" using only [of i] that(1) by (simp add: starts_def)
        ultimately show ?thesis using 3(1) ml(2) c'(2) by (auto simp: accepted_def peek_def nth_append)
      qed
      have "input_pos ?s = c' # xs'" "NUL \<notin> set (c' # xs')" "length xs' < fuel" using xs xs' Suc.prems(5) by auto
      from Suc.IH [OF r' this before] show ?thesis
        using run 3 mh(1) by (auto simp: xs' Input_Look_def peek_def)
    next
      case 4
      have "h = l" using only(1) [of h] range mh(2) 4(3) by auto
      moreover have "\<not> accepted dl ?T l" if "ikey dl l = ?q"
        using 4(1,2) ml(2) that by (auto simp: accepted_def peek_def nth_append)
      ultimately have "\<not> found dl ?T j" if "starts dl ?q j" for j
        using range(2) [of j] mh(2) 4(3) that by (auto simp: found_def)
      then have "\<not> found dl ?T j" for j using none by blast
      then show ?thesis using run 4 mh \<open>h = l\<close> by (auto simp: Input_Look_def)
    qed
  qed
qed simp

section \<open>The search of a line\<close>

text \<open>The entry of a line among all entries of the table.\<close>

definition entry_of :: "bool \<Rightarrow> string \<Rightarrow> nat \<Rightarrow> bool" where
  "entry_of dl T i \<longleftrightarrow> i < DECODE_ENTRIES \<and> prefix (ikey dl i) T
     \<and> (\<forall>j<DECODE_ENTRIES. prefix (ikey dl j) T \<longrightarrow> length (ikey dl j) \<le> length (ikey dl i)) \<and> accepted dl T i"

text \<open>In lower case the entries outside of the letters do not apply to what begins with a letter.\<close>

lemma lower_seg:
  assumes "i < DECODE_ENTRIES" and "97 \<le> ccode c" "ccode c \<le> 122"
  shows "peek (ikey True i) 0 = c \<Longrightarrow> i \<in> seg True"
proof (rule ccontr)
  assume c: "peek (ikey True i) 0 = c" and "i \<notin> seg True"
  then have "i \<in> {0, 1, 2, 3, 4, 5, 221, 222, 223, 224}" using assms(1) by (auto simp: seg_def entries)
  then show False using c assms by (auto simp: first_char entries first_chars_def ccode_def)
qed

lemma found_entry:
  assumes "input = c # xs" and "dl \<Longrightarrow> 97 \<le> ccode c \<and> ccode c \<le> 122"
  shows "found dl input i \<longleftrightarrow> entry_of dl input i"
proof -
  have "i \<in> seg dl \<longleftrightarrow> i < DECODE_ENTRIES" if "prefix (ikey dl i) input" for i
  proof (cases dl)
    case True
    have "peek (ikey True i) 0 = c" if "i < DECODE_ENTRIES"
    proof -
      have "ikey True i \<noteq> []" using key_chars [of True] nth_mem [of i oDecodeTable] that by (auto simp: entries list_all_iff)
      then obtain y ys where "ikey True i = y # ys" by (meson neq_Nil_conv)
      then show ?thesis using \<open>prefix (ikey dl i) input\<close> assms(1) True by (simp add: peek_def)
    qed
    then show ?thesis using lower_seg [of i c] assms(2) key_facts(1) [of i dl] True by auto
  qed (auto simp: seg_def entries)
  then show ?thesis by (auto simp: found_def entry_of_def)
qed

lemma doLowerCase_code: "doLowerCase s \<Longrightarrow> input_pos s = c # xs \<Longrightarrow> 97 \<le> ccode c \<and> ccode c \<le> 122"
  by (simp add: doLowerCase_def Input_Look_def peek_def ccode_def)

lemma first_range:
  assumes "input_pos s = c # xs" and "NUL \<notin> set (c # xs)" and "ccode CHR ''!'' \<le> ccode c" and "\<not> (doLowerCase s \<and> c = CHR ''y'')"
  shows "\<exists>r. match_char (doLowerCase s) 0 c 0 224 = Inr r \<and> matched_range (starts (doLowerCase s) [c]) r"
proof (cases "doLowerCase s")
  case True
  have code: "97 \<le> ccode c" "ccode c \<le> 122" using doLowerCase_code [OF True assms(1)] by simp_all
  have c: "c \<noteq> NUL" using assms(2) by auto
  obtain r where r: "match_char True 0 c 0 224 = Inr r" "matched_range (\<lambda>i. i \<in> {0..224} \<and> peek (ikey True i) 0 = c) r"
    using lower_letter [of c] code assms(4) True by (auto simp: ccode_def)
  have "i \<in> {0..224} \<and> peek (ikey True i) 0 = c \<longleftrightarrow> starts True [c] i" for i
    using starts_next [OF c, of True "[]" i] lower_seg [of i c] code by (auto simp: starts_def entries seg_def)
  then show ?thesis using r True by simp
next
  case False
  have range: "starts False [] i \<longleftrightarrow> 0 \<le> i \<and> i \<le> 224" for i by (auto simp: starts_def seg_def)
  show ?thesis using match_next [OF range, of c] assms(2,3) False by auto
qed

text \<open>
  C7. Mnemonics.  The search of \<^verbatim>\<open>Decode\<close> in the sorted table, which narrows a range of entries with each character that is
  read, finds the entry of the longest mnemonic the line begins with, when it may be followed by more or the keyword ends
  behind it, and otherwise none; in lower case only instructions.  The line is left behind the mnemonic, and nothing
  outside of the table is read.  Lower case \<open>y\<close> and control characters are excepted.
\<close>

theorem decode_search_entry:
  assumes "input_pos s = c # xs" and "NUL \<notin> set (c # xs)" and "ccode CHR ''!'' \<le> ccode c" and "\<not> (doLowerCase s \<and> c = CHR ''y'')"
  shows "\<exists>r t. decode_search s = Inr (r, t)
    \<and> (\<forall>i. r = Some i \<longleftrightarrow> entry_of (doLowerCase s) (c # xs) i \<and> (doLowerCase s \<longrightarrow> instr (oDecodeTable ! i)))
    \<and> (\<forall>i. r = Some i \<longrightarrow> t = s\<lparr>input_pos := drop (length (mnemonic (oDecodeTable ! i))) (c # xs)\<rparr>)"
proof -
  let ?dl = "doLowerCase s"
  obtain r where r: "match_char ?dl (length ([] :: string)) c 0 224 = Inr r" "matched_range (starts ?dl ([] @ [c])) r"
    using first_range [OF assms] by auto
  have before: "\<not> accepted ?dl ([] @ c # xs) i" if "i \<in> seg ?dl" "prefix (ikey ?dl i) []" for i
    using key_facts(2) [OF that(1)] that(2) by simp
  have fuel: "length xs < Suc (length (input_pos s))" using assms(1) by simp
  obtain q t
    where "find_mnemonic (Suc (length (input_pos s))) ?dl 0 0 224 s = Inr (q, t)" "\<forall>i. q = Some i \<longleftrightarrow> found ?dl (c # xs) i"
      "\<forall>i. q = Some i \<longrightarrow> t = s\<lparr>input_pos := drop (length (ikey ?dl i)) (c # xs)\<rparr>"
    using find_mnemonic_finds [OF r assms(1,2) fuel before] by fastforce
  moreover have "found ?dl (c # xs) i \<longleftrightarrow> entry_of ?dl (c # xs) i" for i
    using found_entry [of "c # xs" c xs] doLowerCase_code [OF _ assms(1)] by blast
  ultimately have q: "find_mnemonic (Suc (length (input_pos s))) ?dl 0 0 224 s = Inr (q, t)" "entry_of ?dl (c # xs) i \<longleftrightarrow> q = Some i"
    "q = Some i \<Longrightarrow> t = s\<lparr>input_pos := drop (length (mnemonic (oDecodeTable ! i))) (c # xs)\<rparr>" for i
    by (simp_all add: key_def del: find_mnemonic.simps)
  then show ?thesis
    by (cases q) (auto simp: decode_search_def LowerCaseIsOK_def entries Let_def simp del: find_mnemonic.simps)
qed

lemma subt_entry:
  "mnemonic (oDecodeTable ! 196) = ''SUBT''"
  "list_all (\<lambda>e. prefix (key False e) ''SUBT x'' \<longrightarrow> length (key False e) \<le> 4) oDecodeTable"
  by (simp add: oDecodeTable_def oDecodeTable_1_def oDecodeTable_2_def, code_simp)

theorem decode_search_entry_witness:
  "\<exists>i t. decode_search (asm0\<lparr>input_pos := ''SUBT x''\<rparr>) = Inr (Some i, t) \<and> mnemonic (oDecodeTable ! i) = ''SUBT'' \<and> input_pos t = '' x''"
proof -
  let ?s = "asm0\<lparr>input_pos := ''SUBT x''\<rparr>"
  have dl: "\<not> doLowerCase ?s" by (simp add: doLowerCase_def Input_Look_def peek_def ccode_def)
  have key: "ikey False 196 = ''SUBT''" by (simp add: key_def subt_entry(1) ResolveLowerCase_def)
  have len: "length (ikey False 196) = 4" using key by simp
  have "entry_of False ''SUBT x'' 196"
    unfolding entry_of_def accepted_def len using subt_entry(2)
    by (auto simp: key entries list_all_length ends_keyword_def peek_def isspace_def ccode_def)
  then show ?thesis
    using decode_search_entry [of ?s "CHR ''S''" "''UBT x''"] dl subt_entry(1) by (auto simp: NUL_def ccode_def)
qed

lemma y_entries: "list_all (\<lambda>e. hd (key True e) = CHR ''y'' \<longrightarrow> length (key True e) = 5) oDecodeTable"
  by code_simp

lemma lower_y: "match_char True 0 CHR ''y'' 0 224 = Inr None"
proof -
  have step: "match_char True 0 CHR ''y'' low high =
      (if first_chars ! mid = CHR ''|'' then match_char True 0 CHR ''y'' low (mid - 1) else match_char True 0 CHR ''y'' (mid + 1) high)"
    if m: "mid = low + (high - low) div 2" "low \<le> high" "mid < 225" "0 < mid"
      "first_chars ! mid = CHR ''|'' \<or> ccode (first_chars ! mid) < ccode CHR ''y''" for low mid high
  proof -
    obtain m where "mnem_char mid 0 = Inr m" "ResolveLowerCase True m = first_chars ! mid"
      using mnem_char_key [of mid 0 True] first_char m(3) by (auto simp: entries)
    then show ?thesis using m(2-5) by (auto simp: match_char.simps [of True 0 "CHR ''y''" low high] Let_def m(1) [symmetric] ccode_def)
  qed
  have chars: "first_chars ! 112 = CHR ''m''" "first_chars ! 168 = CHR ''s''" "first_chars ! 196 = CHR ''s''" "first_chars ! 210 = CHR ''u''"
    "first_chars ! 217 = CHR ''w''" "first_chars ! 221 = CHR ''[''" "first_chars ! 223 = CHR ''^''" "first_chars ! 224 = CHR ''|''"
    by (simp_all add: first_chars_def)
  have "match_char True 0 CHR ''y'' 224 223 = Inr None" by (simp add: match_char.simps)
  then show ?thesis
    by (simp add: step [of 112 0 224] step [of 168 113 224] step [of 196 169 224] step [of 210 197 224] step [of 217 211 224]
        step [of 221 218 224] step [of 223 222 224] step [of 224 224 224] chars ccode_def)
qed

text \<open>
  C40. Lower case \<open>yield\<close>.  The entries \<open>[\<close>, \<open>]\<close> and \<open>^\<close> stand behind the letters, where they are out of order in lower case:
  although the line begins with the mnemonic of an instruction, the search finds nothing.
\<close>

theorem decode_yield:
  assumes "input_pos s = ''yield'' @ xs" and "\<not> option_uppercase s"
  shows "\<exists>i t. entry_of (doLowerCase s) (input_pos s) i \<and> instr (oDecodeTable ! i) \<and> decode_search s = Inr (None, t)"
proof -
  have e: "key True (oDecodeTable ! 220) = ''yield''" "instr (oDecodeTable ! 220)" "IsPartiallyMatched (oDecodeTable ! 220)"
    by (simp_all add: oDecodeTable_def oDecodeTable_1_def oDecodeTable_2_def key_def ResolveLowerCase_def tolower_def ccode_def char_of_def IsPartiallyMatched_def)
  have dl: "doLowerCase s" using assms by (simp add: doLowerCase_def Input_Look_def peek_def ccode_def)
  have "length (ikey True j) \<le> 5" if "prefix (ikey True j) (input_pos s)" "j < 225" for j
  proof -
    have "oDecodeTable ! j \<in> set oDecodeTable" using that(2) by (simp add: entries)
    then have "ikey True j \<noteq> []" "hd (ikey True j) = CHR ''y'' \<longrightarrow> length (ikey True j) = 5"
      using key_chars [of True] y_entries by (auto simp: list_all_iff)
    then show ?thesis using that(1) assms(1) by (cases "ikey True j") auto
  qed
  moreover have len: "length (ikey True 220) = 5" using e(1) by simp
  ultimately have "entry_of True (input_pos s) 220"
    unfolding entry_of_def accepted_def len using e assms(1) by (simp add: entries)
  moreover have "decode_search s = Inr (None, s\<lparr>input_pos := ''ield'' @ xs\<rparr>)"
    using assms dl lower_y by (simp add: decode_search_def entries Input_GetC_def Input_Look_def Input_Skip_def peek_def NUL_def)
  ultimately show ?thesis using e dl by auto
qed

theorem decode_yield_witness:
  "\<exists>i t. entry_of True ''yield'' i \<and> decode_search (asm0\<lparr>input_pos := ''yield''\<rparr>) = Inr (None, t)"
  using decode_yield [of "asm0\<lparr>input_pos := ''yield''\<rparr>" "[]"]
  by (auto simp: doLowerCase_def Input_Look_def peek_def ccode_def asm0_def)

end
