(* ===== verification/Data_Directives.thy ===== *)
theory Data_Directives
  imports Operands
begin

text \<open>
  Labels (\<^verbatim>\<open>ASM_DefineLabel\<close> of \<^verbatim>\<open>asm.c\<close>), mapping symbols (\<^verbatim>\<open>Area_MarkStartAs\<close> of \<^verbatim>\<open>area.c\<close>), the creation of relocations
  (\<^verbatim>\<open>reloc.c\<close>) and the directives that define data (\<^verbatim>\<open>directive_data.c\<close>).  Relocations are kept in the order of their
  creation; memory for them is never short.
\<close>

section \<open>Labels and mapping symbols\<close>

definition "SYMBOL_DATUM = (0x0100 :: u32)"

definition ASM_DefineLabel :: "nat \<Rightarrow> Lex \<Rightarrow> u32 \<Rightarrow> bool \<Rightarrow> asm \<Rightarrow> (symref option \<times> asm) outcome" where
  "ASM_DefineLabel fuel label offset isMapping s =
     (case label of
        LexNone \<Rightarrow> Inr (None, s)
      | _ \<Rightarrow>
          let isLocalLabel = (case label of LexId _ \<Rightarrow> False | _ \<Rightarrow> True)
          in rbind (if isLocalLabel then Lex_DefineLocalLabel fuel label s else Inr (label, s)) (\<lambda>(label, s).
               case label of
                 LexId str \<Rightarrow>
                   rbind (cur_sym s) (\<lambda>r.
                   rbind (sym_area s r) (\<lambda>a.
                     let symbolType = (if \<not> isMapping \<and> flag (area_type a) AREA_ABS then SYMBOL_ABSOLUTE else 0);
                         symbolType = (if flag (area_type a) AREA_CODE \<and> entryType a = eData then symbolType OR SYMBOL_DATUM else symbolType);
                         symbolType = (if isLocalLabel then symbolType OR SYMBOL_NO_EXPORT else symbolType);
                         (symbol, s) = Symbol_Get str s
                     in rbind (Symbol_Define fuel symbol symbolType (ValueSymbol 1 r offset) s) (\<lambda>(err, s).
                          Inr (if err then None else Some symbol, s))))
               | LexNone \<Rightarrow> if isLocalLabel then Inr (None, s) else Inl AssertFailed
               | _ \<Rightarrow> Inl AssertFailed))"

definition mapping_base :: "Area_eEntryType \<Rightarrow> string" where
  "mapping_base type =
     (case type of eARM \<Rightarrow> ''a$$'' | eData \<Rightarrow> ''d$$'' | eThumb \<Rightarrow> ''t$$'' | eThumbEE \<Rightarrow> ''t.x'' | eInvalid \<Rightarrow> [])"

definition Area_MarkStartAs :: "nat \<Rightarrow> symref option \<Rightarrow> u32 \<Rightarrow> Area_eEntryType \<Rightarrow> asm \<Rightarrow> asm outcome" where
  "Area_MarkStartAs fuel areaSymbol offset type s =
     rbind (rassert (type \<noteq> eInvalid)) (\<lambda>_.
       case areaSymbol of
         None \<Rightarrow> Inr s
       | Some r \<Rightarrow>
           if Area_IsImplicit s r then Inr s
           else
             rbind (sym_area s r) (\<lambda>a.
               if entryType a \<noteq> type
               then
                 rbind (ASM_DefineLabel fuel
                          (LexId (''$'' @ mapping_base type @ ''.'' @ sym_str (syms s r) @ ''.'' @ hex8 offset)) offset True
                          (set_area r (a\<lparr>entryType := type\<rparr>) s))
                   (\<lambda>(_, s). Inr s)
               else Inr s))"

section \<open>Relocations\<close>

definition "HOW2_INIT = (0x80000000 :: u32)"
definition "HOW2_BYTE = (0x00000000 :: u32)"
definition "HOW2_HALF = (0x01000000 :: u32)"
definition "HOW2_WORD = (0x02000000 :: u32)"
definition "HOW2_RELATIVE = (0x04000000 :: u32)"
definition "HOW2_SIDMASK = (0x00FFFFFF :: u32)"

definition "R_ARM_ABS32 = (2 :: u32)"
definition "R_ARM_ABS16 = (5 :: u32)"
definition "R_ARM_ABS8 = (8 :: u32)"

definition Reloc_EnableExplicitReloc :: "u32 \<Rightarrow> Area \<Rightarrow> Area" where
  "Reloc_EnableExplicitReloc offset a = a\<lparr>offsetForExplicitReloc := offset\<rparr>"

definition Reloc_DisableExplicitReloc :: "Area \<Rightarrow> Area" where
  "Reloc_DisableExplicitReloc a = a\<lparr>offsetForExplicitReloc := UINT32_MAX\<rparr>"

text \<open>The symbol of an absolute address; \<open>%x\<close> prints no leading zeros.\<close>

definition abs_name :: "u32 \<Rightarrow> string" where
  "abs_name i =
     (let digits = dropWhile (\<lambda>c. c = CHR ''0'') (map tolower (hex8 i)) in ''*ABS*0x'' @ (if digits = [] then ''0'' else digits))"

text \<open>The relocations at the end that have the offset are taken back, from the last on; \<open>rels\<close> is reversed.\<close>

fun rollback :: "u32 \<Rightarrow> symref option \<Rightarrow> RelocInt list \<Rightarrow> symref option \<times> RelocInt list" where
  "rollback offset relocSymP [] = (relocSymP, [])"
| "rollback offset relocSymP (x # xs) =
     (if rel_offset x = offset then rollback offset (if relocSymP = None then rel_symP x else relocSymP) xs else (relocSymP, x # xs))"

definition Reloc_CreateInternal :: "nat \<Rightarrow> u32 \<Rightarrow> u32 \<Rightarrow> Value option \<Rightarrow> bool \<Rightarrow> asm \<Rightarrow> asm outcome" where
  "Reloc_CreateInternal fuel how offset val replace s =
     (if gPhase s \<noteq> ePassTwo then Inr s
      else
        rbind (case val of
                 Some (ValueInt i t) \<Rightarrow>
                   if option_aof s then Inr (False, val, s)
                   else
                     let (r, s) = Symbol_Get (abs_name i) s
                     in rbind (Symbol_Define fuel r (SYMBOL_ABSOLUTE OR SYMBOL_KEEP) (ValueInt i t) s) (\<lambda>(err, s).
                          Inr (err, Some (ValueSymbol 1 r 0), s))
               | _ \<Rightarrow> Inr (False, val, s)) (\<lambda>(err, val, s).
          if err then Inr s
          else
            rbind (case val of
                     None \<Rightarrow> rbind (rassert (\<not> option_aof s)) (\<lambda>_. Inr (None, 1))
                   | Some (ValueSymbol f r _) \<Rightarrow>
                       rbind (rassert (0 <s f \<and> Area_IsMappingSymbol (sym_str (syms s r)) = eInvalid)) (\<lambda>_. Inr (Some r, unat f))
                   | _ \<Rightarrow> Inl AssertFailed) (\<lambda>(relocSymP, entriesNeeded).
            rbind (rassert (if option_aof s then how AND HOW2_SIDMASK = 0 else how < 256)) (\<lambda>_.
            rbind (cur_sym s) (\<lambda>c.
            rbind (sym_area s c) (\<lambda>a.
            rbind (rassert (offset \<le> curIdx a + 3)) (\<lambda>_.
              let (relocSymP, rels) =
                    (if replace then (let (p, xs) = rollback offset relocSymP (rev (relocIntP a)) in (p, rev xs))
                     else (relocSymP, relocIntP a))
              in rbind (rassert (rels = [] \<or> rel_offset (last rels) \<le> offset)) (\<lambda>_.
                   let rels = rels @ replicate entriesNeeded \<lparr>rel_how = how, rel_offset = offset, rel_symP = relocSymP\<rparr>;
                       s = set_area c (a\<lparr>relocIntP := rels\<rparr>) s
                   in case relocSymP of None \<Rightarrow> Inr s | Some r \<Rightarrow> Symbol_MarkToOutput r s))))))))"

definition Reloc_CreateAOF :: "nat \<Rightarrow> u32 \<Rightarrow> u32 \<Rightarrow> Value \<Rightarrow> asm \<Rightarrow> asm outcome" where
  "Reloc_CreateAOF fuel how offset v s = (if option_aof s then Reloc_CreateInternal fuel how offset (Some v) False s else Inr s)"

definition Reloc_CreateELF :: "nat \<Rightarrow> u32 \<Rightarrow> u32 \<Rightarrow> Value \<Rightarrow> asm \<Rightarrow> asm outcome" where
  "Reloc_CreateELF fuel how offset v s = (if \<not> option_aof s then Reloc_CreateInternal fuel how offset (Some v) False s else Inr s)"

section \<open>Integers\<close>

text \<open>The sign of a value: the next item of the program subtracts it.\<close>

definition code_factor :: "Code list \<Rightarrow> u32" where
  "code_factor rest = (case rest of CodeOperator eOp_Sub # _ \<Rightarrow> - 1 | _ \<Rightarrow> 1)"

text \<open>How many relocations there are, and how many against the current area.\<close>

fun count_relocs :: "nat \<Rightarrow> Code list \<Rightarrow> u32 \<Rightarrow> u32 \<Rightarrow> asm \<Rightarrow> (u32 \<times> u32) option outcome" where
  "count_relocs fuel [] relocs relative s = Inr (Some (relocs, relative))"
| "count_relocs fuel (CodeOperator op # rest) relocs relative s =
     (if op \<noteq> eOp_Add \<and> op \<noteq> eOp_Sub then Inr None else count_relocs fuel rest relocs relative s)"
| "count_relocs fuel (CodeValue v # rest) relocs relative s =
     rbind (Value_ResolveSymbol fuel True v s) (\<lambda>(err, v).
       if err then Inr None
       else case v of
              ValueInt _ _ \<Rightarrow> count_relocs fuel rest relocs relative s
            | ValueSymbol f r _ \<Rightarrow>
                let n = code_factor rest * f
                in if Some r = areaCurrentSymbol s then count_relocs fuel rest relocs (relative + n) s
                   else if n <s 0 then Inr None
                   else count_relocs fuel rest (relocs + n) relative s
            | _ \<Rightarrow> Inr None)"

text \<open>The relocations of one value.\<close>

fun create_relocs :: "nat \<Rightarrow> nat \<Rightarrow> u32 \<Rightarrow> u32 \<Rightarrow> u32 \<Rightarrow> Value \<Rightarrow> u32 \<Rightarrow> asm \<Rightarrow> (u32 \<times> asm) outcome" where
  "create_relocs fuel 0 howAOF howELF relocOffset v relative s = Inr (relative, s)"
| "create_relocs fuel (Suc numRelocs) howAOF howELF relocOffset v relative s =
     (let how2AOF = (if relative <s 0 then howAOF OR HOW2_RELATIVE else howAOF);
          relative = (if relative <s 0 then relative + 1 else relative)
      in rbind (Reloc_CreateAOF fuel how2AOF relocOffset v s) (\<lambda>s.
         rbind (Reloc_CreateELF fuel howELF relocOffset v s)
           (create_relocs fuel numRelocs howAOF howELF relocOffset v relative)))"

definition data_how :: "nat \<Rightarrow> (u32 \<times> u32) outcome" where
  "data_how sz =
     (if sz = 1 then Inr (HOW2_INIT OR HOW2_BYTE, R_ARM_ABS8)
      else if sz = 2 then Inr (HOW2_INIT OR HOW2_HALF, R_ARM_ABS16)
      else if sz = 4 then Inr (HOW2_INIT OR HOW2_WORD, R_ARM_ABS32)
      else Inl AssertFailed)"

fun data_word :: "nat \<Rightarrow> nat \<Rightarrow> u32 \<Rightarrow> Code list \<Rightarrow> u32 \<Rightarrow> u32 \<Rightarrow> u32 \<Rightarrow> asm \<Rightarrow> (u32 option \<times> asm) outcome" where
  "data_word fuel sz relocOffset [] armValue relocs relative s =
     rbind (rassert (relocs = 0 \<and> relative = 0)) (\<lambda>_. Inr (Some armValue, s))"
| "data_word fuel sz relocOffset (CodeOperator op # rest) armValue relocs relative s =
     (if op \<noteq> eOp_Add \<and> op \<noteq> eOp_Sub then Inr (None, s) else data_word fuel sz relocOffset rest armValue relocs relative s)"
| "data_word fuel sz relocOffset (CodeValue v # rest) armValue relocs relative s =
     rbind (Value_ResolveSymbol fuel True v s) (\<lambda>(err, v).
       if err then Inr (None, s)
       else case v of
              ValueInt i _ \<Rightarrow> data_word fuel sz relocOffset rest (armValue + code_factor rest * i) relocs relative s
            | ValueSymbol f r off \<Rightarrow>
                rbind (data_how sz) (\<lambda>(howAOF, howELF).
                  let (numRelocs, relocs, relative) =
                        (if Some r = areaCurrentSymbol s
                         then if 0 <s relative then (relative, relocs, 0) else (0, relocs, relative)
                         else (code_factor rest * f, relocs - code_factor rest * f, relative))
                  in rbind (create_relocs fuel (unat numRelocs) howAOF howELF relocOffset v relative s) (\<lambda>(relative, s).
                       data_word fuel sz relocOffset rest (armValue + code_factor rest * off) relocs relative s))
            | _ \<Rightarrow> Inr (None, s))"

definition swapped :: "nat \<Rightarrow> bool \<Rightarrow> u32 \<Rightarrow> u32" where
  "swapped sz swapHalfwords w = (if sz = 4 \<and> swapHalfwords then shr32 w 16 OR shl32 w 16 else w)"

definition DefineInt_HandleSymbols :: "nat \<Rightarrow> nat \<Rightarrow> bool \<Rightarrow> bool \<Rightarrow> u32 \<Rightarrow> Value \<Rightarrow> asm \<Rightarrow> (bool \<times> asm) outcome" where
  "DefineInt_HandleSymbols fuel sz allowUnaligned swapHalfwords offset v s =
     (case v of
        ValueCode c \<Rightarrow>
          rbind (count_relocs fuel c 0 0 s) (\<lambda>counts.
            case counts of
              None \<Rightarrow> Inr (True, s)
            | Some (relocs, relative) \<Rightarrow>
                rbind (rassert (0 \<le>s relocs)) (\<lambda>_.
                  if relative <s 0 \<and> relocs <s - relative then Inr (True, s)
                  else
                    let relocOffset = (if \<not> allowUnaligned then (offset + of_nat sz - 1) AND - of_nat sz else offset)
                    in rbind (data_word fuel sz relocOffset c 0 relocs relative s) (\<lambda>(r, s).
                         case r of
                           None \<Rightarrow> Inr (True, s)
                         | Some armValue \<Rightarrow>
                             rbind (Fix_Int sz armValue s) (\<lambda>(armValue, s).
                             rbind (Put_AlignDataWithOffset offset sz (swapped sz swapHalfwords armValue) 1 (\<not> allowUnaligned) s)
                               (\<lambda>s. Inr (False, s))))))
      | _ \<Rightarrow> Inl AssertFailed)"

fun put_string :: "string \<Rightarrow> u32 \<Rightarrow> nat \<Rightarrow> bool \<Rightarrow> asm \<Rightarrow> asm outcome" where
  "put_string [] offset sz align s = Inr s"
| "put_string (c # cs) offset sz align s =
     rbind (Put_AlignDataWithOffset offset sz (of_char c) 1 align s) (put_string cs (offset + 1) sz align)"

definition int_types :: "nat \<Rightarrow> asm \<Rightarrow> u32" where
  "int_types sz s =
     (if sz = 8 then tInt OR tInt64
      else (if sz = 1 then tInt OR tString else tInt) OR (if gPhase s \<noteq> ePassOne then tSymbol OR tCode else 0))"

text \<open>One entry: whether it failed, and the offset where an explicit relocation may go.\<close>

definition define_entry :: "nat \<Rightarrow> nat \<Rightarrow> bool \<Rightarrow> bool \<Rightarrow> u32 \<Rightarrow> Value \<Rightarrow> asm \<Rightarrow> (bool \<times> u32 \<times> asm) outcome" where
  "define_entry fuel sz allowUnaligned swapHalfwords offset v s =
     (case v of
        ValueString str \<Rightarrow>
          rbind (rassert (sz = 1)) (\<lambda>_.
          rbind (put_string str offset sz (\<not> allowUnaligned) s) (\<lambda>s.
            Inr (False, if length str = 1 then offset else UINT32_MAX, s)))
      | ValueInt i _ \<Rightarrow>
          rbind (if sz \<noteq> 8 then Fix_Int sz i s else Inr (i, s)) (\<lambda>(armValue, s).
          rbind (Put_AlignDataWithOffset offset sz (swapped sz swapHalfwords armValue) 1 (\<not> allowUnaligned) s) (\<lambda>s.
            Inr (False, offset, s)))
      | ValueInt64 val \<Rightarrow>
          rbind (rassert (sz = 8)) (\<lambda>_.
          rbind (Put_AlignDataWithOffset offset 4 (ucast val) 1 (\<not> allowUnaligned) s) (\<lambda>s.
          rbind (Put_AlignDataWithOffset (offset + 4) 4 (ucast (drop_bit 32 val)) 1 (\<not> allowUnaligned) s) (\<lambda>s.
            Inr (False, UINT32_MAX, s))))
      | ValueSymbol _ _ _ \<Rightarrow>
          rbind (DefineInt_HandleSymbols fuel sz allowUnaligned swapHalfwords offset (ValueCode [CodeValue v]) s) (\<lambda>(failed, s).
            Inr (failed, offset, s))
      | ValueCode _ \<Rightarrow>
          rbind (DefineInt_HandleSymbols fuel sz allowUnaligned swapHalfwords offset v s) (\<lambda>(failed, s). Inr (failed, offset, s))
      | _ \<Rightarrow> Inr (True, UINT32_MAX, s))"

fun define_entries :: "nat \<Rightarrow> nat \<Rightarrow> nat \<Rightarrow> bool \<Rightarrow> bool \<Rightarrow> asm \<Rightarrow> (u32 \<times> asm) outcome" where
  "define_entries 0 fuel sz allowUnaligned swapHalfwords s = Inl OutOfFuel"
| "define_entries (Suc n) fuel sz allowUnaligned swapHalfwords s =
     rbind (cur_area s) (\<lambda>a.
     let offset = curIdx a in
     rbind (evaluate fuel (int_types sz s) s) (\<lambda>(v, s).
     rbind (define_entry fuel sz allowUnaligned swapHalfwords offset v s) (\<lambda>(failed, prevOffset, s).
     rbind (if failed
            then
              rbind (if gPhase s \<noteq> ePassOne then Error ErrorError ''Illegal %s expression'' s else Inr s)
                (Put_AlignDataWithOffset offset sz 0 1 (\<not> allowUnaligned))
            else Inr s) (\<lambda>s.
       let (comma, s) = Input_Match (CHR '','') False (Input_SkipWS s)
       in if comma then define_entries n fuel sz allowUnaligned swapHalfwords s else Inr (prevOffset, s)))))"

definition DefineInt :: "nat \<Rightarrow> nat \<Rightarrow> bool \<Rightarrow> bool \<Rightarrow> asm \<Rightarrow> asm outcome" where
  "DefineInt fuel sz allowUnaligned swapHalfwords s =
     rbind (rassert (sz \<in> {1, 2, 4, 8})) (\<lambda>_.
     rbind (define_entries (Suc (length (input_pos s))) fuel sz allowUnaligned swapHalfwords s) (\<lambda>(prevOffset, s).
       if prevOffset \<noteq> UINT32_MAX
       then rbind (cur_sym s) (\<lambda>c. rbind (sym_area s c) (\<lambda>a. Inr (set_area c (Reloc_EnableExplicitReloc prevOffset a) s)))
       else Inr s))"

definition c_dcb :: "nat \<Rightarrow> asm \<Rightarrow> (bool \<times> asm) outcome" where
  "c_dcb fuel s = rbind (DefineInt fuel 1 True False s) (\<lambda>s. Inr (False, s))"

text \<open>The directives with an optional \<open>U\<close>.\<close>

definition with_U :: "(bool \<Rightarrow> asm \<Rightarrow> asm outcome) \<Rightarrow> bool \<Rightarrow> asm \<Rightarrow> (bool \<times> asm) outcome" where
  "with_U define doLowerCase s =
     (let (allowUnaligned, s) = Input_Match (cased doLowerCase (CHR ''U'')) False s
      in if \<not> ends_keyword (Input_Look s) then Inr (True, s)
         else rbind (define allowUnaligned s) (\<lambda>s. Inr (False, s)))"

definition c_dcw :: "nat \<Rightarrow> bool \<Rightarrow> asm \<Rightarrow> (bool \<times> asm) outcome" where
  "c_dcw fuel = with_U (\<lambda>allowUnaligned. DefineInt fuel 2 allowUnaligned False)"

definition c_ampersand :: "nat \<Rightarrow> asm \<Rightarrow> (bool \<times> asm) outcome" where
  "c_ampersand fuel s = rbind (DefineInt fuel 4 False False s) (\<lambda>s. Inr (False, s))"

definition c_dcd :: "nat \<Rightarrow> bool \<Rightarrow> asm \<Rightarrow> (bool \<times> asm) outcome" where
  "c_dcd fuel = with_U (\<lambda>allowUnaligned. DefineInt fuel 4 allowUnaligned False)"

definition c_dcq :: "nat \<Rightarrow> bool \<Rightarrow> asm \<Rightarrow> (bool \<times> asm) outcome" where
  "c_dcq fuel = with_U (\<lambda>allowUnaligned. DefineInt fuel 8 allowUnaligned False)"

definition c_dci :: "nat \<Rightarrow> bool \<Rightarrow> asm \<Rightarrow> (bool \<times> asm) outcome" where
  "c_dci fuel doLowerCase s =
     rbind (Option_GetInstrWidth doLowerCase s) (\<lambda>(instrWidth, s).
       if instrWidth = eInstrWidth_Unrecognized then Inr (True, s)
       else
         let isARM = (State_GetInstrType s = eInstrType_ARM)
         in rbind (cur_sym s) (\<lambda>c.
            rbind (sym_area s c) (\<lambda>a.
            rbind (IT_ApplyCond (it_cc (area_it a)) False (\<not> isARM) s) (\<lambda>s.
            rbind (Area_AlignArea c (if isARM then 4 else 2) (Some ''instruction'') s) (\<lambda>(_, s).
            rbind (DefineInt fuel (if isARM \<or> instrWidth = eInstrWidth_Enforce32bit then 4 else 2) True (\<not> isARM) s) (\<lambda>s.
              Inr (False, s)))))))"

section \<open>Floating point numbers\<close>

fun define_reals :: "nat \<Rightarrow> nat \<Rightarrow> nat \<Rightarrow> bool \<Rightarrow> asm \<Rightarrow> asm outcome" where
  "define_reals 0 fuel sz allowUnaligned s = Inl OutOfFuel"
| "define_reals (Suc n) fuel sz allowUnaligned s =
     rbind (cur_area s) (\<lambda>a.
     let offset = curIdx a in
     rbind (evaluate fuel tFloat s) (\<lambda>(v, s).
     rbind (case v of
              ValueFloat f \<Rightarrow> Put_FloatDataWithOffset offset sz f (\<not> allowUnaligned) s
            | _ \<Rightarrow>
                rbind (if gPhase s \<noteq> ePassOne then Error ErrorError ''Illegal %s expression'' s else Inr s)
                  (Put_FloatDataWithOffset offset sz 0 (\<not> allowUnaligned))) (\<lambda>s.
       let (comma, s) = Input_Match (CHR '','') False (Input_SkipWS s)
       in if comma then define_reals n fuel sz allowUnaligned s else Inr s)))"

definition DefineReal :: "nat \<Rightarrow> nat \<Rightarrow> bool \<Rightarrow> asm \<Rightarrow> asm outcome" where
  "DefineReal fuel sz allowUnaligned s =
     (if Target_GetFPUFeatures s = 0 then Error ErrorError ''No FPU selected'' s
      else define_reals (Suc (length (input_pos s))) fuel sz allowUnaligned s)"

definition c_dcfh :: "nat \<Rightarrow> bool \<Rightarrow> asm \<Rightarrow> (bool \<times> asm) outcome" where
  "c_dcfh fuel =
     with_U (\<lambda>allowUnaligned s. rbind (Target_CheckFPUFeature kFPUExt_FP16 True s) (\<lambda>(_, s). DefineReal fuel 2 allowUnaligned s))"

definition c_dcfs :: "nat \<Rightarrow> bool \<Rightarrow> asm \<Rightarrow> (bool \<times> asm) outcome" where
  "c_dcfs fuel = with_U (DefineReal fuel 4)"

definition c_dcfd :: "nat \<Rightarrow> bool \<Rightarrow> asm \<Rightarrow> (bool \<times> asm) outcome" where
  "c_dcfd fuel = with_U (DefineReal fuel 8)"

section \<open>Space\<close>

text \<open>The operands of \<^verbatim>\<open>FILL\<close> behind the number: value and size, or none after an error.\<close>

definition fill_operands :: "nat \<Rightarrow> asm \<Rightarrow> ((u32 \<times> nat) option \<times> asm) outcome" where
  "fill_operands fuel s =
     (let failed = (\<lambda>msg s. rbind (Error ErrorError msg s) (\<lambda>s. Inr (None, s))); (comma, s) = Input_Match (CHR '','') False s
      in if \<not> comma then Inr (Some (0, 1), s)
         else
           rbind (evaluate fuel tInt s) (\<lambda>(v, s).
             case v of
               ValueInt i _ \<Rightarrow>
                 let (comma, s) = Input_Match (CHR '','') False s
                 in if \<not> comma then Inr (Some (i, 1), s)
                    else
                      rbind (evaluate fuel tInt s) (\<lambda>(v, s).
                        case v of
                          ValueInt n _ \<Rightarrow>
                            if n \<notin> {1, 2, 4} then failed ''Reserve value size can only be 1, 2 or 4'' s
                            else Inr (Some (i, unat n), s)
                        | _ \<Rightarrow> failed ''Unresolved reserve value size not possible'' s)
             | _ \<Rightarrow> failed ''Unresolved reserve value not possible'' s))"

definition ReserveSpace :: "nat \<Rightarrow> bool \<Rightarrow> asm \<Rightarrow> asm outcome" where
  "ReserveSpace fuel isFill s =
     rbind (evaluate fuel tInt s) (\<lambda>(v, s).
       case v of
         ValueInt reps _ \<Rightarrow>
           rbind (if isFill then fill_operands fuel s else Inr (Some (0, 1), s)) (\<lambda>(r, s).
             case r of
               None \<Rightarrow> Inr s
             | Some (val, valueSize) \<Rightarrow>
                 rbind (if reps <s 0
                        then Error ErrorWarning ''Reserve space value is considered unsigned, i.e. reserving %u bytes now'' s
                        else Inr s) (\<lambda>s.
                 rbind (cur_area s) (\<lambda>a. Put_AlignDataWithOffset (curIdx a) valueSize val reps False s)))
       | _ \<Rightarrow> Error ErrorError ''Unresolved reserve not possible'' s)"

definition c_fill :: "nat \<Rightarrow> asm \<Rightarrow> (bool \<times> asm) outcome" where
  "c_fill fuel s = rbind (ReserveSpace fuel True s) (\<lambda>s. Inr (False, s))"

definition c_reserve :: "nat \<Rightarrow> asm \<Rightarrow> (bool \<times> asm) outcome" where
  "c_reserve fuel s = rbind (ReserveSpace fuel False s) (\<lambda>s. Inr (False, s))"

section \<open>ALIGN\<close>

definition GetDefaultAlignValueSize :: "asm \<Rightarrow> u32 outcome" where
  "GetDefaultAlignValueSize s =
     rbind (cur_area s) (\<lambda>a.
       Inr (if flag (area_type a) AREA_CODE then (if State_GetInstrType s = eInstrType_ARM then 4 else 2) else 1))"

text \<open>An operand behind a comma; there may be none.\<close>

definition align_operand :: "nat \<Rightarrow> string \<Rightarrow> asm \<Rightarrow> (u32 option \<times> asm) outcome" where
  "align_operand fuel msg s =
     (let s = Input_SkipWS s; wrong = (\<lambda>s. rbind (Error ErrorError msg s) (\<lambda>s. Inr (None, s)))
      in if Input_IsEolOrCommentStart s then Inr (None, s)
         else
           let (comma, s) = Input_Match (CHR '','') False s
           in if \<not> comma then wrong s
              else rbind (evaluate fuel tInt s) (\<lambda>(v, s).
                     case v of ValueInt i eIntType_PureInt \<Rightarrow> Inr (Some i, s) | _ \<Rightarrow> wrong s))"

definition align_value :: "nat \<Rightarrow> asm \<Rightarrow> (u32 \<times> asm) outcome" where
  "align_value fuel s =
     (let s = Input_SkipWS s
      in if Input_IsEolOrCommentStart s then Inr (4, s)
         else
           rbind (evaluate fuel tInt s) (\<lambda>(v, s).
             case v of
               ValueInt i eIntType_PureInt \<Rightarrow>
                 if i \<noteq> 0 \<and> i AND (i - 1) = 0 then Inr (i, s)
                 else rbind (Error ErrorError ''ALIGN value is not a power of two'' s) (\<lambda>s. Inr (4, s))
             | _ \<Rightarrow> rbind (Error ErrorError ''Unrecognized ALIGN value'' s) (\<lambda>s. Inr (4, s))))"

text \<open>The size of the fill value; 1, 2 or 4, or the size of an instruction.\<close>

definition align_value_size :: "nat \<Rightarrow> asm \<Rightarrow> (u32 \<times> asm) outcome" where
  "align_value_size fuel s =
     rbind (align_operand fuel ''Unrecognized ALIGN value size'' s) (\<lambda>(n, s).
     rbind (case n of
              None \<Rightarrow> Inr s
            | Some n \<Rightarrow>
                if n \<in> {1, 2, 4} then Inr s else Error ErrorError ''ALIGN value size needs to be 1, 2 or 4'' s) (\<lambda>s.
     case n of
       Some n \<Rightarrow> if n \<in> {1, 2, 4} then Inr (n, s) else rbind (GetDefaultAlignValueSize s) (\<lambda>d. Inr (d, s))
     | None \<Rightarrow> rbind (GetDefaultAlignValueSize s) (\<lambda>d. Inr (d, s))))"

definition next_aligned :: "u32 \<Rightarrow> u32 \<Rightarrow> u32 \<Rightarrow> u32" where
  "next_aligned curPos alignValue offsetValue = (curPos - offsetValue + alignValue - 1) div alignValue * alignValue + offsetValue"

text \<open>The bytes of the loop that fills; \<open>cur\<close> holds what is left of the fill value.\<close>

fun fill_bytes :: "nat \<Rightarrow> u32 \<Rightarrow> u32 \<Rightarrow> u32 \<Rightarrow> u32 \<Rightarrow> u8 list" where
  "fill_bytes 0 curPos sz fillValue cur = []"
| "fill_bytes (Suc n) curPos sz fillValue cur =
     (let cur = (if curPos AND (sz - 1) = 0 then fillValue else cur)
      in ucast cur # fill_bytes n (curPos + 1) sz fillValue (shr32 cur 8))"

definition first_fill :: "u32 \<Rightarrow> u32 \<Rightarrow> u32 \<Rightarrow> u32" where
  "first_fill curPos sz fillValue = shr32 fillValue (8 * unat (curPos AND (sz - 1)))"

text \<open>The loop of \<^verbatim>\<open>NOP\<close>s ends when the position is met; the fuel is what it may step over.\<close>

fun put_nops :: "nat \<Rightarrow> nat \<Rightarrow> u32 \<Rightarrow> u32 \<Rightarrow> u32 \<Rightarrow> asm \<Rightarrow> asm outcome" where
  "put_nops fuel sz nop curPos newPos s =
     (if curPos = newPos then Inr s
      else case fuel of
             0 \<Rightarrow> Inl OutOfFuel
           | Suc fuel \<Rightarrow> rbind (Put_Ins sz nop s) (put_nops fuel sz nop (curPos + of_nat sz) newPos))"

declare put_nops.simps [simp del]

definition nop_instr :: "asm \<Rightarrow> (u32 \<times> asm) outcome" where
  "nop_instr s =
     rbind (Target_CheckCPUFeature kCPUExt_v6K False s) (\<lambda>(v6K, s).
     rbind (if v6K then Inr (True, s) else Target_CheckCPUFeature kCPUExt_v6T2 False s) (\<lambda>(hint, s).
       Inr (if State_GetInstrType s = eInstrType_ARM then (if hint then 0xe320f000 else 0xE1A00000)
            else (if hint then 0xBF00 else 0x46c0), s)))"

definition align_fill :: "symref \<Rightarrow> u32 \<Rightarrow> u32 \<Rightarrow> u32 \<Rightarrow> u32 \<Rightarrow> asm \<Rightarrow> asm outcome" where
  "align_fill r curPos bytesToStuff sz fillValue s =
     rbind (sym_area s r) (\<lambda>a.
       if Area_IsNoInit a
       then rbind (if first_fill curPos sz fillValue \<noteq> 0
                   then Error ErrorError ''Trying to define a non-zero value in an uninitialised area'' s else Inr s) (\<lambda>s.
            rbind (sym_area s r) (\<lambda>a. Inr (set_area r (a\<lparr>curIdx := curIdx a + bytesToStuff\<rparr>) s)))
       else rbind (Area_Write r (unat (curIdx a))
                     (fill_bytes (unat bytesToStuff) curPos sz fillValue (first_fill curPos sz fillValue)) s) (\<lambda>s.
            rbind (sym_area s r) (\<lambda>a. Inr (set_area r (a\<lparr>curIdx := curIdx a + bytesToStuff\<rparr>) s))))"

text \<open>From where the operands are known; \<open>fillValue\<close> is none when it has not been given.\<close>

definition align_area :: "u32 \<Rightarrow> u32 \<Rightarrow> u32 option \<Rightarrow> u32 \<Rightarrow> asm \<Rightarrow> asm outcome" where
  "align_area alignValue offsetValue fillValue sz s =
     (let fill = (case fillValue of None \<Rightarrow> 0 | Some v \<Rightarrow> v)
      in rbind (Fix_CheckForOverflow (unat sz) fill) (\<lambda>ov.
         rbind (if ov then Error ErrorWarning ''Size value %d (= 0x%x) exceeds %d byte%s'' s else Inr s) (\<lambda>s.
         rbind (cur_sym s) (\<lambda>r.
         rbind (sym_area s r) (\<lambda>a.
         rbind (if flag (area_type a) AREA_ABS then Area_GetBaseAddress s r else Inr 0) (\<lambda>base.
           let curPos = base + curIdx a;
               newPos = next_aligned curPos alignValue offsetValue;
               bytesToStuff = newPos - curPos
           in rbind (Area_EnsureExtraSize r (unat bytesToStuff) s) (\<lambda>s.
              if flag (area_type a) AREA_INT_CODEALIGN \<and> fillValue = None \<and> offsetValue mod sz = 0 \<and> entryType a \<noteq> eData
              then rbind (rassert ((curPos - newPos) mod sz = 0)) (\<lambda>_.
                   rbind (nop_instr s) (\<lambda>(nop, s).
                     put_nops (unat bytesToStuff) (if State_GetInstrType s = eInstrType_ARM then 4 else 2) nop curPos newPos s))
              else align_fill r curPos bytesToStuff sz fill s)))))))"

definition c_align :: "nat \<Rightarrow> asm \<Rightarrow> (bool \<times> asm) outcome" where
  "c_align fuel s =
     rbind (align_value fuel s) (\<lambda>(alignValue, s).
     rbind (align_operand fuel ''Unrecognized ALIGN offset value'' s) (\<lambda>(off, s).
     rbind (align_operand fuel ''Unrecognized ALIGN fill value'' s) (\<lambda>(fillValue, s).
     rbind (align_value_size fuel s) (\<lambda>(sz, s).
     rbind (align_area alignValue (case off of None \<Rightarrow> 0 | Some i \<Rightarrow> i mod alignValue) fillValue sz s) (\<lambda>s.
       Inr (False, s))))))"

definition c_data :: "asm \<Rightarrow> (bool \<times> asm) outcome" where
  "c_data s = Inr (False, s)"

section \<open>RELOC\<close>

definition oARMRelocTypes :: "(string \<times> u32) list" where
  "oARMRelocTypes =
  [(''ABS12'', 6), (''ABS16'', 5), (''ABS32'', 2), (''ABS32_NOI'', 55), (''ABS8'', 8), (''ALU_PCREL_15_8'', 33),
   (''ALU_PCREL_23_15'', 34), (''ALU_PCREL_7_0'', 32), (''ALU_PC_G0'', 58), (''ALU_PC_G0_NC'', 57),
   (''ALU_PC_G1'', 60), (''ALU_PC_G1_NC'', 59), (''ALU_PC_G2'', 61), (''ALU_SBREL_19_12_NC'', 36),
   (''ALU_SBREL_27_20_CK'', 37), (''ALU_SB_G0'', 71), (''ALU_SB_G0_NC'', 70), (''ALU_SB_G1'', 73),
   (''ALU_SB_G1_NC'', 72), (''ALU_SB_G2'', 74), (''BASE_ABS'', 31), (''BASE_PREL'', 25), (''BREL_ADJ'', 12),
   (''CALL'', 28), (''COPY'', 20), (''GLOB_DAT'', 21), (''GNU_VTENTRY'', 100), (''GNU_VTINHERIT'', 101),
   (''GOTOFF12'', 98), (''GOTOFF32'', 24), (''GOTRELAX'', 99), (''GOT_ABS'', 95), (''GOT_BREL'', 26),
   (''GOT_BREL12'', 97), (''GOT_PREL'', 96), (''IRELATIVE'', 140), (''JUMP24'', 29), (''JUMP_SLOT'', 22),
   (''LDC_PC_G0'', 67), (''LDC_PC_G1'', 68), (''LDC_PC_G2'', 69), (''LDC_SB_G0'', 81), (''LDC_SB_G1'', 82),
   (''LDC_SB_G2'', 83), (''LDRS_PC_G0'', 64), (''LDRS_PC_G1'', 65), (''LDRS_PC_G2'', 66), (''LDRS_SB_G0'', 78),
   (''LDRS_SB_G1'', 79), (''LDRS_SB_G2'', 80), (''LDR_PC_G0'', 4), (''LDR_PC_G1'', 62), (''LDR_PC_G2'', 63),
   (''LDR_SBREL_11_0_NC'', 35), (''LDR_SB_G0'', 75), (''LDR_SB_G1'', 76), (''LDR_SB_G2'', 77), (''ME_TOO'', 128),
   (''MOVT_ABS'', 44), (''MOVT_BREL'', 85), (''MOVT_PREL'', 46), (''MOVW_ABS_NC'', 43), (''MOVW_BREL'', 86),
   (''MOVW_BREL_NC'', 84), (''MOVW_PREL_NC'', 45), (''NONE'', 0), (''PC24'', 1), (''PLT32'', 27),
   (''PLT32_ABS'', 94), (''PREL31'', 42), (''PRIVATE_0'', 112), (''PRIVATE_1'', 113), (''PRIVATE_10'', 122),
   (''PRIVATE_11'', 123), (''PRIVATE_12'', 124), (''PRIVATE_13'', 125), (''PRIVATE_14'', 126), (''PRIVATE_15'', 127),
   (''PRIVATE_2'', 114), (''PRIVATE_3'', 115), (''PRIVATE_4'', 116), (''PRIVATE_5'', 117), (''PRIVATE_6'', 118),
   (''PRIVATE_7'', 119), (''PRIVATE_8'', 120), (''PRIVATE_9'', 121), (''REL32'', 3), (''REL32_NOI'', 56),
   (''RELATIVE'', 23), (''SBREL31'', 39), (''SBREL32'', 9), (''SWI24'', 13), (''TARGET1'', 38), (''TARGET2'', 41),
   (''THM_ABS5'', 7), (''THM_ALU_PREL_11_0'', 53), (''THM_CALL'', 10), (''THM_GOT_BREL12'', 131),
   (''THM_JUMP11'', 102), (''THM_JUMP19'', 51), (''THM_JUMP24'', 30), (''THM_JUMP6'', 52), (''THM_JUMP8'', 103),
   (''THM_MOVT_ABS'', 48), (''THM_MOVT_BREL'', 88), (''THM_MOVT_PREL'', 50), (''THM_MOVW_ABS_NC'', 47),
   (''THM_MOVW_BREL'', 89), (''THM_MOVW_BREL_NC'', 87), (''THM_MOVW_PREL_NC'', 49), (''THM_PC12'', 54),
   (''THM_PC8'', 11), (''THM_SWI8'', 14), (''THM_TLS_CALL'', 93), (''THM_TLS_DESCSEQ16'', 129),
   (''THM_TLS_DESCSEQ32'', 130), (''THM_XPC22'', 16), (''TLS_CALL'', 91), (''TLS_DESC'', 13), (''TLS_DESCSEQ'', 92),
   (''TLS_DTPMOD32'', 17), (''TLS_DTPOFF32'', 18), (''TLS_GD32'', 104), (''TLS_GOTDESC'', 90), (''TLS_IE12GP'', 111),
   (''TLS_IE32'', 107), (''TLS_LDM32'', 105), (''TLS_LDO12'', 109), (''TLS_LDO32'', 106), (''TLS_LE12'', 110),
   (''TLS_LE32'', 108), (''TLS_TPOFF32'', 19), (''V4BX'', 40), (''XPC25'', 15)]"

text \<open>The binary search in a range of the table for the names that have a character at an index.\<close>

definition reloc_char :: "nat \<Rightarrow> nat \<Rightarrow> nat" where
  "reloc_char i idx = of_char (peek (fst (oARMRelocTypes ! i)) idx)"

function reloc_mid :: "nat \<Rightarrow> nat \<Rightarrow> nat \<Rightarrow> nat \<Rightarrow> (nat \<times> nat \<times> nat) option outcome" where
  "reloc_mid c idx low high =
     (if high < low then Inr None
      else
        let mid = low + (high - low) div 2; m = reloc_char mid idx
        in if m < c then reloc_mid c idx (mid + 1) high
           else if c < m then (if mid = 0 then Inl Undefined else reloc_mid c idx low (mid - 1))
           else Inr (Some (low, mid, high)))"
  by pat_completeness auto

termination
  by (relation "measure (\<lambda>(c, idx, low, high). Suc high - low)") auto

declare reloc_mid.simps [simp del]

text \<open>How far the entries with the character go.\<close>

fun reloc_down :: "nat \<Rightarrow> nat \<Rightarrow> nat \<Rightarrow> nat \<Rightarrow> nat" where
  "reloc_down c idx low i = (if low < i \<and> reloc_char (i - 1) idx = c then reloc_down c idx low (i - 1) else i)"

declare reloc_down.simps [simp del]

function reloc_up :: "nat \<Rightarrow> nat \<Rightarrow> nat \<Rightarrow> nat \<Rightarrow> nat" where
  "reloc_up c idx high i = (if i < high \<and> reloc_char (i + 1) idx = c then reloc_up c idx high (i + 1) else i)"
  by pat_completeness auto

termination
  by (relation "measure (\<lambda>(c, idx, high, i). high - i)") auto

declare reloc_up.simps [simp del]

text \<open>One round for each character; the fuel is more than the characters of the name.\<close>

fun reloc_rounds :: "nat \<Rightarrow> string \<Rightarrow> nat \<Rightarrow> nat \<Rightarrow> nat \<Rightarrow> u32 outcome" where
  "reloc_rounds 0 name idx low high = Inl OutOfFuel"
| "reloc_rounds (Suc fuel) name idx low high =
     (let c = of_char (peek name idx)
      in if c = 0 \<and> reloc_char low idx = 0 then Inr (snd (oARMRelocTypes ! low))
         else
           rbind (reloc_mid c idx low high) (\<lambda>r.
             case r of
               None \<Rightarrow> Inr UINT32_MAX
             | Some (low, mid, high) \<Rightarrow> reloc_rounds fuel name (idx + 1) (reloc_down c idx low mid) (reloc_up c idx high mid)))"

definition Reloc_GetRelocValue :: "string \<Rightarrow> u32 outcome" where
  "Reloc_GetRelocValue relocName =
     (if take 6 relocName \<noteq> ''R_ARM_'' then Inr UINT32_MAX
      else reloc_rounds (Suc (length relocName)) (drop 6 relocName) 0 0 (length oARMRelocTypes - 1))"

definition reloc_number :: "nat \<Rightarrow> asm \<Rightarrow> (u32 \<times> asm) outcome" where
  "reloc_number fuel s =
     rbind (evaluate fuel (tInt OR tSymbol) s) (\<lambda>(v, s).
     rbind (case v of
              ValueInt i t \<Rightarrow> Inr (if t = eIntType_PureInt \<and> i < 256 then i else UINT32_MAX)
            | ValueSymbol _ r _ \<Rightarrow> Reloc_GetRelocValue (sym_str (syms s r))
            | _ \<Rightarrow> Inr UINT32_MAX) (\<lambda>n.
       if n = UINT32_MAX
       then rbind (Error ErrorError ''Unknown ELF relocation number or name'' s) (\<lambda>s. Inr (0, s))
       else Inr (n, s)))"

definition reloc_symbol :: "nat \<Rightarrow> asm \<Rightarrow> (Value option \<times> asm) outcome" where
  "reloc_symbol fuel s =
     (let (comma, s) = Input_Match (CHR '','') True (Input_SkipWS s)
      in if \<not> comma then Inr (None, s)
         else
           rbind (evaluate fuel tSymbol s) (\<lambda>(v, s).
             case v of
               ValueSymbol _ _ off \<Rightarrow>
                 rbind (if off \<noteq> 0 then Error ErrorError ''An offset can not be specified'' s else Inr s) (\<lambda>s. Inr (Some v, s))
             | _ \<Rightarrow> rbind (Error ErrorError ''Not a symbol'' s) (\<lambda>s. Inr (None, s))))"

definition c_reloc :: "nat \<Rightarrow> asm \<Rightarrow> (bool \<times> asm) outcome" where
  "c_reloc fuel s =
     (if gPhase s \<noteq> ePassTwo then Inr (False, Input_Rest s)
      else
        rbind (reloc_number fuel s) (\<lambda>(relocNum, s).
        rbind (reloc_symbol fuel s) (\<lambda>(v, s).
        rbind (if option_aof s then Inr s
               else
                 rbind (cur_area s) (\<lambda>a.
                   if offsetForExplicitReloc a = UINT32_MAX
                   then Error ErrorError ''Relocation offset can not be determined'' s
                   else Reloc_CreateInternal fuel relocNum (offsetForExplicitReloc a) v True s)) (\<lambda>s.
          Inr (False, s)))))"

end
