(* ===== verification/Align.thy ===== *)
theory Align
  imports Data_Directives
begin

text \<open>
  \<^verbatim>\<open>ALIGN\<close> of \<^verbatim>\<open>directive_data.c\<close>: where the location moves to and the bytes it passes over.
\<close>

text \<open>The byte of a repeated value that belongs at an address.\<close>

definition pattern_byte :: "u32 \<Rightarrow> u32 \<Rightarrow> u32 \<Rightarrow> u8" where
  "pattern_byte sz fillValue pos = ucast (shr32 fillValue (8 * (unat pos mod unat sz)))"

lemma size_power:
  assumes "sz \<in> {1, 2, 4 :: u32}"
  obtains j where "sz - 1 = mask j" "unat sz = 2 ^ j" "j \<le> 2"
proof -
  have "(sz = 1 \<and> sz - 1 = mask 0) \<or> (sz = 2 \<and> sz - 1 = mask 1) \<or> (sz = 4 \<and> sz - 1 = mask 2)"
    using assms by (auto simp: mask_eq_exp_minus_1)
  then show ?thesis using that [of 0] that [of 1] that [of 2] by auto
qed

lemma size_mask:
  assumes "sz \<in> {1, 2, 4 :: u32}"
  shows "unat (p AND (sz - 1)) = unat p mod unat sz"
proof -
  obtain j where "sz - 1 = mask j" "unat sz = 2 ^ j" using size_power [OF assms] .
  then show ?thesis by (simp add: unat_and_mask)
qed

lemma size_next:
  assumes "sz \<in> {1, 2, 4 :: u32}"
  shows "(p + 1) AND (sz - 1) = 0 \<or> unat (p + 1) mod unat sz = Suc (unat p mod unat sz)"
proof -
  obtain j where j: "unat sz = 2 ^ j" "j \<le> 2" using size_power [OF assms] by metis
  have "unat (p + 1) = (unat p + 1) mod 2 ^ 32" by (simp add: unat_word_ariths)
  moreover have "(2 :: nat) ^ j dvd 2 ^ 32" using j(2) by (intro le_imp_power_dvd) simp
  ultimately have "unat (p + 1) mod unat sz = Suc (unat p) mod unat sz" by (simp add: j mod_mod_cancel)
  moreover have "(p + 1) AND (sz - 1) = 0 \<longleftrightarrow> unat (p + 1) mod unat sz = 0"
    using size_mask [OF assms, of "p + 1"] by (metis unat_0 word_unat_eq_iff)
  ultimately show ?thesis by (simp add: mod_Suc split: if_splits)
qed

lemma fill_bytes_from:
  assumes "sz \<in> {1, 2, 4 :: u32}" and "p AND (sz - 1) = 0 \<or> cur = shr32 v (8 * (unat p mod unat sz))"
  shows "fill_bytes n p sz v cur = map (\<lambda>i. pattern_byte sz v (p + of_nat i)) [0..<n]"
  using assms(2)
proof (induction n arbitrary: p cur)
  case (Suc n)
  let ?cur = "if p AND (sz - 1) = 0 then v else cur"
  have cur: "?cur = shr32 v (8 * (unat p mod unat sz))"
    using Suc.prems size_mask [OF assms(1), of p] by auto
  have "fill_bytes n (p + 1) sz v (shr32 ?cur 8) = map (\<lambda>i. pattern_byte sz v (p + 1 + of_nat i)) [0..<n]"
    using size_next [OF assms(1), of p] by (intro Suc.IH) (auto simp: cur drop_bit_drop_bit add.commute)
  then show ?case
    by (simp add: cur pattern_byte_def map_upt_Suc ac_simps del: upt_Suc)
qed simp

lemma fill_bytes_pattern:
  assumes "sz \<in> {1, 2, 4 :: u32}"
  shows "fill_bytes n p sz v (first_fill p sz v) = map (\<lambda>i. pattern_byte sz v (p + of_nat i)) [0..<n]"
  by (rule fill_bytes_from [OF assms]) (simp add: first_fill_def size_mask [OF assms])

lemma next_aligned_nat:
  assumes "k < 32" and "unat off < 2 ^ k" and "unat p + 2 ^ k \<le> 2 ^ 32"
  shows "unat (next_aligned p (2 ^ k) off) = (unat p + 2 ^ k - 1 - unat off) div 2 ^ k * 2 ^ k + unat off"
proof -
  define x where "x = unat p + 2 ^ k - 1 - unat off"
  have k: "unat (2 ^ k :: u32) = 2 ^ k" using assms(1) by (simp add: unat_power2)
  have "p - off + 2 ^ k - 1 = of_nat x"
    using assms(2) by (simp add: x_def of_nat_diff algebra_simps)
  moreover have x: "x < 2 ^ 32" using assms(3) by (simp add: x_def)
  ultimately have ux: "unat (p - off + 2 ^ k - 1) = x" by (simp add: unsigned_of_nat take_bit_nat_eq_self)
  have "x div 2 ^ k * 2 ^ k + unat off \<le> x + unat off" by simp
  also have "\<dots> < 2 ^ 32" using assms(2,3) by (simp add: x_def)
  finally have small: "x div 2 ^ k * 2 ^ k + unat off < 2 ^ 32" .
  then have "unat (of_nat (x div 2 ^ k * 2 ^ k) + off) = x div 2 ^ k * 2 ^ k + unat off"
    using unat_add_small [of off "x div 2 ^ k * 2 ^ k"] by (simp add: add.commute)
  moreover have "(p - off + 2 ^ k - 1) div 2 ^ k * 2 ^ k = of_nat (x div 2 ^ k * 2 ^ k)"
    using ux k by (simp add: word_unat_eq_iff [where 'a = 32] unat_div_distrib unsigned_of_nat unat_word_ariths take_bit_eq_mod mod_simps)
  ultimately show ?thesis by (simp add: next_aligned_def x_def)
qed


lemma next_aligned_least:
  assumes "k < 32" and "unat off < 2 ^ k" and "unat p + 2 ^ k \<le> 2 ^ 32"
  shows "unat p \<le> unat (next_aligned p (2 ^ k) off)" and "unat (next_aligned p (2 ^ k) off) < unat p + 2 ^ k"
    and "unat (next_aligned p (2 ^ k) off) mod 2 ^ k = unat off"
proof -
  define x where "x = unat p + 2 ^ k - 1 - unat off"
  have n: "unat (next_aligned p (2 ^ k) off) = x div 2 ^ k * 2 ^ k + unat off"
    using next_aligned_nat [OF assms] by (simp add: x_def)
  have "x div 2 ^ k * 2 ^ k + x mod 2 ^ k = x" by (rule div_mult_mod_eq)
  moreover have "x mod 2 ^ k < 2 ^ k" by simp
  moreover have "x + unat off + 1 = unat p + 2 ^ k" using assms(2) by (simp add: x_def)
  ultimately show "unat p \<le> unat (next_aligned p (2 ^ k) off)" "unat (next_aligned p (2 ^ k) off) < unat p + 2 ^ k"
    unfolding n by linarith+
  show "unat (next_aligned p (2 ^ k) off) mod 2 ^ k = unat off" using assms(2) by (simp add: n)
qed

text \<open>Bytes written behind the index, and the index moved over them.\<close>

definition filled :: "u32 \<Rightarrow> u32 \<Rightarrow> u32 \<Rightarrow> nat \<Rightarrow> Area \<Rightarrow> Area \<Rightarrow> bool" where
  "filled sz fillValue pos n a a' \<longleftrightarrow>
     unat (curIdx a') = unat (curIdx a) + n
     \<and> image_read (unat (curIdx a)) n (image a') = Some (map (\<lambda>i. Some (pattern_byte sz fillValue (pos + of_nat i))) [0..<n])
     \<and> image_read 0 (unat (curIdx a)) (image a') = image_read 0 (unat (curIdx a)) (image a)"

lemma align_fill_filled:
  assumes a: "sym_area s r = Inr a" and wf: "wf_area a" and init: "\<not> Area_IsNoInit a" and one: "gPhase s = ePassOne"
    and sz: "sz \<in> {1, 2, 4}" and n: "unat (curIdx a) + unat n < 2 ^ 32"
  shows "\<not> crashes (rbind (Area_EnsureExtraSize r (unat n) s) (align_fill r pos n sz v))
    \<and> (\<forall>t. rbind (Area_EnsureExtraSize r (unat n) s) (align_fill r pos n sz v) = Inr t \<longrightarrow>
         (\<exists>a'. same_but_errors (set_area r a' s) t \<and> wf_area a' \<and> filled sz v pos (unat n) a a'))"
proof -
  let ?bytes = "fill_bytes (unat n) pos sz v (first_fill pos sz v)"
  have len: "length ?bytes = unat n" by (simp add: fill_bytes_pattern [OF sz])
  have fill: "\<exists>a'. align_fill r pos n sz v u = Inr (set_area r a' u) \<and> same_but_errors (set_area r a' s) (set_area r a' u)
      \<and> wf_area a' \<and> filled sz v pos (unat n) a a'"
    if u: "Area_EnsureExtraSize r (unat n) s = Inr u" for u
  proof -
    obtain k where k: "same_but_errors (set_area r (grown k a) s) u" "unat (curIdx a) + unat n \<le> imagesize a + k"
      using EnsureExtraSize_spec [OF a u wf] init by auto
    have au: "sym_area u r = Inr (grown k a)" using sym_area_same [OF k(1)] by simp
    obtain img where img: "image_write (unat (curIdx a)) ?bytes (image (grown k a)) = Some img"
      using img.store_total [of "unat (curIdx a)" ?bytes "image (grown k a)"] k(2) by (auto simp: len)
    define a' where "a' = (grown k a)\<lparr>image := img, curIdx := curIdx a + n\<rparr>"
    have idx: "unat (curIdx a') = unat (curIdx a) + unat n"
      using unat_add_small [OF n] by (simp add: a'_def)
    have "align_fill r pos n sz v u = Inr (set_area r a' u)"
      using img init by (simp add: align_fill_def au Area_Write_def Area_IsNoInit_def a'_def grown_def del: area_reads)
    moreover have "same_but_errors (set_area r a' s) (set_area r a' u)" using same_set_area [OF k(1), of r a'] by simp
    moreover have "wf_area a'"
      using img.store_extent [OF img] k(2) init idx
      by (simp add: wf_area_def a'_def Area_IsNoInit_def grown_def)
    moreover have "filled sz v pos (unat n) a a'"
      using img.load_written [OF img] img.load_elsewhere [OF img, of 0 "unat (curIdx a)"] idx
        image_read_grown [of 0 "unat (curIdx a)" a k] wf init
      by (simp add: filled_def a'_def wf_area_def len fill_bytes_pattern [OF sz] comp_def)
    ultimately show ?thesis by blast
  qed
  have "\<not> crashes (Area_EnsureExtraSize r (unat n) s)" using EnsureExtraSize_not_crashes [OF a wf] one by blast
  then have "\<not> crashes (rbind (Area_EnsureExtraSize r (unat n) s) (align_fill r pos n sz v))"
    by (rule not_crashes_rbindI) (use fill in fastforce)
  then show ?thesis using fill by (auto simp: rbind_eq_Inr)
qed

text \<open>
  C38. \<^verbatim>\<open>ALIGN\<close>.  In pass one the location moves to the least address from the current one on that is the offset modulo the
  power of two; the bytes passed over are those of the fill value repeated in memory from address 0 on, whatever
  address they start at, and nothing before them changes.  (Only where instructions are aligned in an area with
  \<^verbatim>\<open>CODEALIGN\<close> without a fill value it is different.)
\<close>

theorem align_area_fills:
  assumes "areaCurrentSymbol s = Some r" and "sym_area s r = Inr a" and "wf_area a" and "\<not> Area_IsNoInit a"
    and "gPhase s = ePassOne" and "if flag (area_type a) AREA_ABS then Area_GetBaseAddress s r = Inr base else base = 0"
    and "k < 32" and "unat off < 2 ^ k" and "unat base + unat (curIdx a) + 2 ^ k \<le> 2 ^ 32" and "sz \<in> {1, 2, 4}"
    and "fillValue \<noteq> None \<or> \<not> flag (area_type a) AREA_INT_CODEALIGN \<or> entryType a = eData"
  shows "\<not> crashes (align_area (2 ^ k) off fillValue sz s)
    \<and> (\<forall>t. align_area (2 ^ k) off fillValue sz s = Inr t \<longrightarrow>
         (\<exists>n a'. n < 2 ^ k \<and> (unat base + unat (curIdx a) + n) mod 2 ^ k = unat off
            \<and> same_but_errors (set_area r a' s) t \<and> wf_area a'
            \<and> filled sz (case fillValue of None \<Rightarrow> 0 | Some v \<Rightarrow> v) (base + curIdx a) n a a'))"
proof -
  let ?v = "case fillValue of None \<Rightarrow> 0 | Some v \<Rightarrow> v"
  define pos where "pos = base + curIdx a"
  define n where "n = next_aligned pos (2 ^ k) off - pos"
  have "(0 :: nat) < 2 ^ k" by simp
  then have "unat base + unat (curIdx a) < 2 ^ 32" using assms(9) by linarith
  then have pos: "unat pos = unat base + unat (curIdx a)"
    using unat_add_small [of base "unat (curIdx a)"] by (simp add: pos_def)
  note least = next_aligned_least [OF assms(7,8), of pos]
  have n: "unat n = unat (next_aligned pos (2 ^ k) off) - unat pos"
    using least(1) assms(9) by (simp add: n_def pos unat_sub_if')
  then have bound: "unat n < 2 ^ k" "(unat pos + unat n) mod 2 ^ k = unat off"
    using least assms(9) by (auto simp: pos)
  have quiet: "Error ErrorWarning m s = Inr s" for m using assms(5) by (simp add: Error_def Error_SuppressMsg_def)
  have ov: "\<exists>b. Fix_CheckForOverflow (unat sz) ?v = Inr b" using assms(10) by (auto simp: Fix_CheckForOverflow_def)
  have base: "(if flag (area_type a) AREA_ABS then Area_GetBaseAddress s r else Inr 0) = Inr base"
    using assms(6) by (auto split: if_splits)
  have "align_area (2 ^ k) off fillValue sz s = rbind (Area_EnsureExtraSize r (unat n) s) (align_fill r pos n sz ?v)"
    using ov assms(1,2,11) quiet base
    by (auto simp: align_area_def Let_def cur_sym_def pos_def n_def simp del: area_reads)
  moreover have "unat (curIdx a) + unat n < 2 ^ 32" using bound(1) assms(9) by linarith
  ultimately show ?thesis
    using align_fill_filled [OF assms(2-5,10), of n pos ?v] bound unfolding pos_def [symmetric] pos [symmetric]
    by (metis (no_types, lifting))
qed


theorem align_area_fills_witness:
  "\<exists>t a'. align_area (2 ^ 3) 5 (Some 0x44332211) 4 (asm_code ePassOne) = Inr t \<and> sym_area t 0 = Inr a' \<and> curIdx a' = 13
    \<and> image_read 6 7 (image a') = Some (map Some [0x33, 0x44, 0x11, 0x22, 0x33, 0x44, 0x11])"
proof -
  let ?run = "align_area (2 ^ 3) 5 (Some 0x44332211) 4 (asm_code ePassOne)"
  have "returned (rbind ?run (\<lambda>_. Inr ())) = Some ()" by code_simp
  then obtain t where t: "?run = Inr t" by (auto simp: rbind_eq_Inr)
  have "\<not> flag (area_type area_code) AREA_ABS" "\<not> flag (area_type area_code) AREA_INT_CODEALIGN" "curIdx area_code = 6"
    by (simp_all add: area_code_def flag_def area_flag_defs)
  then obtain n a' where n: "n < 8" "(6 + n) mod 8 = 5" and a': "same_but_errors (set_area 0 a' (asm_code ePassOne)) t"
    "filled 4 0x44332211 6 n area_code a'"
    using align_area_fills [of "asm_code ePassOne" 0 area_code 0 3 5 4 "Some 0x44332211"] t by auto
  have seven: "n = 7" using n by presburger
  have "map (\<lambda>i. Some (pattern_byte 4 0x44332211 (6 + of_nat i))) [0..<7] = map Some [0x33, 0x44, 0x11, 0x22, 0x33, 0x44, 0x11]"
    by code_simp
  then have "image_read 6 7 (image a') = Some (map Some [0x33, 0x44, 0x11, 0x22, 0x33, 0x44, 0x11])" "unat (curIdx a') = 13"
    using a'(2) by (simp_all add: filled_def seven \<open>curIdx area_code = 6\<close>)
  moreover have "curIdx a' = 13" using \<open>unat (curIdx a') = 13\<close> by (simp add: word_unat_eq_iff)
  moreover have "sym_area t 0 = Inr a'" using sym_area_same [OF a'(1)] by simp
  ultimately show ?thesis using t by blast
qed

end
