(* ===== verification/Data_Relocs.thy ===== *)
theory Data_Relocs
  imports Data_Directives
begin

text \<open>
  What the linker makes of a word with relocations that \<^verbatim>\<open>DefineInt_HandleSymbols\<close> has created: the value of the expression.
\<close>

section \<open>Creating a relocation\<close>

definition resolves_same :: "asm \<Rightarrow> asm \<Rightarrow> bool" where
  "resolves_same s t \<longleftrightarrow>
     (\<forall>q. attr_value (syms t q) = attr_value (syms s q)
        \<and> flag (attr_type (syms t q)) SYMBOL_DEFINED = flag (attr_type (syms s q)) SYMBOL_DEFINED
        \<and> flag (attr_type (syms t q)) SYMBOL_AREA = flag (attr_type (syms s q)) SYMBOL_AREA
        \<and> map_option area_type (attr_area (syms t q)) = map_option area_type (attr_area (syms s q)))"







text \<open>What changes besides: relocations of the current area, and how symbols are marked.\<close>

definition reloc_frame :: "symref \<Rightarrow> RelocInt list \<Rightarrow> asm \<Rightarrow> asm \<Rightarrow> bool" where
  "reloc_frame c rels s t \<longleftrightarrow>
     gPhase t = gPhase s \<and> option_aof t = option_aof s \<and> areaCurrentSymbol t = areaCurrentSymbol s
     \<and> oNumErrors t = oNumErrors s \<and> resolves_same s t \<and> (\<forall>q. sym_str (syms t q) = sym_str (syms s q))
     \<and> (\<forall>a. sym_area s c = Inr a \<longrightarrow> sym_area t c = Inr (a\<lparr>relocIntP := relocIntP a @ rels\<rparr>))"

lemma reloc_frame_refl [simp]: "reloc_frame c [] s s"
  by (simp add: reloc_frame_def resolves_same_def)














section \<open>Sums\<close>

text \<open>The program of a sum whose terms are added to the left, and what its values are once resolved.\<close>

definition term_code :: "bool \<times> Value \<Rightarrow> Code list" where
  "term_code = (\<lambda>(neg, v). [CodeValue v, CodeOperator (if neg then eOp_Sub else eOp_Add)])"

definition sum_code :: "Value \<Rightarrow> (bool \<times> Value) list \<Rightarrow> Code list" where
  "sum_code v ts = CodeValue v # concat (map term_code ts)"

definition sign :: "bool \<Rightarrow> u32" where
  "sign neg = (if neg then - 1 else 1)"









lemma sign_negative [simp]: "sign neg <s 0 \<longleftrightarrow> neg"
  by (simp add: sign_def word_sless_alt)











section \<open>The value of a word\<close>


lemma code_factor_terms: "code_factor (concat (map term_code ts)) = 1"
  by (cases ts) (auto simp: code_factor_def term_code_def split: prod.splits)

lemma sum_code_terms:
  shows count_sum_code: "count_relocs fuel (sum_code v ts) = count_relocs fuel (concat (map term_code ((False, v) # ts)))"
    and data_sum_code: "data_word fuel 4 offset (sum_code v ts) = data_word fuel 4 offset (concat (map term_code ((False, v) # ts)))"
proof -
  have count: "count_relocs fuel (CodeOperator eOp_Add # rest) = count_relocs fuel rest" for rest by (intro ext) simp
  have data: "data_word fuel 4 offset (CodeOperator eOp_Add # rest) = data_word fuel 4 offset rest" for rest by (intro ext) simp
  have f: "code_factor (CodeOperator eOp_Add # rest) = 1" for rest by (simp add: code_factor_def)
  show "count_relocs fuel (sum_code v ts) = count_relocs fuel (concat (map term_code ((False, v) # ts)))"
    by (intro ext) (simp only: sum_code_def term_code_def prod.case if_False list.map concat.simps append.simps
      count_relocs.simps(3) count f code_factor_terms [unfolded term_code_def])
  show "data_word fuel 4 offset (sum_code v ts) = data_word fuel 4 offset (concat (map term_code ((False, v) # ts)))"
    by (intro ext) (simp only: sum_code_def term_code_def prod.case if_False list.map concat.simps append.simps
      data_word.simps(3) data f code_factor_terms [unfolded term_code_def])
qed








end
