(* ===== verification/Spec2Isabelle.thy ===== *)
theory Spec2Isabelle
  imports Object_Stack Macro_Text Option_Language Register_Lists Mnemonics Align Data_Relocs
begin

text \<open>
  A verification library for \<^verbatim>\<open>asasm\<close>, the ObjAsm compatible ARM assembler of GCCSDK
  (\<^verbatim>\<open>tools/asasm/src\<close>; all file names below are relative to it).

  \<^bold>\<open>The program.\<close>  \<^verbatim>\<open>asasm\<close> reads its source twice.  A stack of parsable objects (files, cached files, macro calls)
  yields lines; each line has its variables substituted and is decoded into label, mnemonic and operands.  Operands are
  expressions: they are parsed into a postfix program, evaluated to a value, and a value that still names undefined
  symbols becomes a relocation.  Instructions and data are put into the current area, whose offset gives labels their
  values.  Directives change the symbol table, the areas, the conditional blocks and the instruction set.  The state is
  a set of file-scope variables; an error of the tag \<^verbatim>\<open>ErrorAbort\<close> leaves through \<^verbatim>\<open>longjmp\<close>.

  \<^bold>\<open>The model.\<close>  The record \<open>asm\<close> has one field for each file-scope variable, or one field for those of a file.
  A C function is a definition of the same name that takes the state last and returns it in \<open>'a outcome\<close>: \<open>Inr\<close>
  with result and state, or \<open>Inl\<close> of \<open>Fixup\<close> (the \<^verbatim>\<open>longjmp\<close>, with the state it happens in), \<open>AssertFailed\<close>
  (an \<^verbatim>\<open>assert\<close>), \<open>Undefined\<close> (C leaves the behaviour undefined) or \<open>OutOfFuel\<close>.  Machine integers are words; \<^verbatim>\<open>size_t\<close>
  and counters that cannot wrap are natural numbers.  Pointers to symbols are the natural numbers \<open>symref\<close>, the heap of
  symbols is \<open>syms\<close>.  Strings are lists of characters without NUL.  What the host answers (files that can be opened,
  success of \<^verbatim>\<open>realloc()\<close>, the text of \<^verbatim>\<open>%p\<close>, the version) are fields of the state without any assumption.  Where the
  program evaluates a shift that C leaves undefined on nearly every input (\<^verbatim>\<open>help_cpu.c\<close>), the result is a field too
  (\<open>Host_Ops\<close>), and \<open>host_ok\<close>, that it is what the Arm and x86 processors make of it, is a hypothesis of the theorems that
  depend on it.

  \<^bold>\<open>The theories\<close>, in the order of the imports:

  \<^item> \<open>Prelude\<close>: results, word and list lemmas.  \<open>ARM_Float\<close>: the arithmetic of \<^verbatim>\<open>double\<close> on its bits.
  \<^item> \<open>Asm_State\<close>: the data of \<^verbatim>\<open>value.h\<close>, \<^verbatim>\<open>symbol.h\<close>, \<^verbatim>\<open>area.h\<close>, \<^verbatim>\<open>filestack.h\<close>, \<^verbatim>\<open>macros.h\<close> and others, the state,
    and the error functions of \<^verbatim>\<open>error.c\<close>.
  \<^item> \<open>Symbol_Table\<close> (\<^verbatim>\<open>symbol.c\<close>): the hash table of chains.  It refines a finite map from names to symbols; the
    locale of its contract is interpreted there.
  \<^item> \<open>Areas\<close> (\<^verbatim>\<open>area.c\<close>): growth ends with room for what was asked for, alignment stays inside the image, the list of
    areas is reversed in place.
  \<^item> \<open>Help_CPU\<close>, \<open>Fix\<close> (\<^verbatim>\<open>help_cpu.c\<close>, \<^verbatim>\<open>fix.c\<close>): encodings of constants, shifts and offsets decode to what was asked
    for, on hosts that are \<open>host_ok\<close>; the exchange of mnemonics keeps the result, except for \<^verbatim>\<open>ADC\<close> and \<^verbatim>\<open>SBC\<close>, where it
    is off by one.
  \<^item> \<open>Target_State\<close> (\<^verbatim>\<open>targetcpu.c\<close>, \<^verbatim>\<open>state.c\<close>): after any sequence of its directives the instruction set state is the one
    the last of them stands for.
  \<^item> \<open>Put\<close> (\<^verbatim>\<open>put.c\<close>): the bytes that are put, read back; half precision is rounded correctly; \<^verbatim>\<open>MOVW\<close> and \<^verbatim>\<open>MOVT\<close>.
  \<^item> \<open>IT\<close> (\<^verbatim>\<open>it.c\<close>): the mask of an IT instruction decodes to the conditions of its block; an invariant over all steps.
  \<^item> \<open>Values\<close>, \<open>Reloc_Split\<close> (\<^verbatim>\<open>value.c\<close>, \<^verbatim>\<open>reloc.c\<close>): resolution of symbols ends on acyclic definitions and keeps the
    number a value stands for; the split into relocation and addend is what the linker adds up.
  \<^item> \<open>Eval\<close> (\<^verbatim>\<open>eval.c\<close>): all operators, with what they compute.
  \<^item> \<open>Code_Stream\<close> (\<^verbatim>\<open>code.c\<close>, \<^verbatim>\<open>value.c\<close>): programs in the static array and their evaluation on the static stack compute
    the value of the expression tree; comparisons of symbols overwrite both; the only ways operators can fail.
  \<^item> \<open>Input\<close>, \<open>Local_Labels\<close>, \<open>Builtins\<close>, \<open>Lexer\<close> (\<^verbatim>\<open>input.c\<close>, \<^verbatim>\<open>local.c\<close>, \<^verbatim>\<open>lex.c\<close>): the current line and its lexical
    elements.  \<open>Expr\<close>, \<open>Grammar\<close>, \<open>Parser\<close> (\<^verbatim>\<open>expr.c\<close>): the parser follows the operator priorities, proved over the
    locale \<open>expression_lexer\<close>, which \<open>Lexing\<close> interprets with the analysis of \<^verbatim>\<open>lex.c\<close>.  \<open>Literals\<close>: what integer
    literals are read as.
  \<^item> \<open>Variables\<close> (\<^verbatim>\<open>variables.c\<close>): variables of macros are restored.  \<open>Evaluation\<close>: expressions leave the reader alone.
  \<^item> \<open>Source_Lines\<close> (\<^verbatim>\<open>filestack.c\<close>, \<^verbatim>\<open>macros.c\<close>): the three ways to get a line; disk and cache agree.
  \<^item> \<open>Substitution\<close> (\<^verbatim>\<open>input.c\<close>): the next line, with predefined variables and the substitution of variables.
  \<^item> \<open>Conditional\<close> (\<^verbatim>\<open>whileif.c\<close>): \<^verbatim>\<open>IF\<close>, \<^verbatim>\<open>ELSE\<close>, \<^verbatim>\<open>ELIF\<close>, \<^verbatim>\<open>ENDIF\<close>, \<^verbatim>\<open>WHILE\<close> and \<^verbatim>\<open>WEND\<close>.
    \<open>Conditional_Blocks\<close>: the blocks of a parsable object are its own, an invariant over all directives, and none is left
    at its end.  \<open>Conditional_Skip\<close>: lines are skipped along the structure of the text; \<^verbatim>\<open>WEND\<close> enters a loop again.
  \<^item> \<open>Macros\<close> (\<^verbatim>\<open>macros.c\<close>, \<^verbatim>\<open>filestack.c\<close>, \<^verbatim>\<open>asm.c\<close>): definition and call of macros and the stack of parsable objects.
    \<open>Macro_Names\<close>: no call is ambiguous.  \<open>Macro_Text\<close>: a call is the textual substitution of its arguments.
    \<open>Object_Stack\<close>: nothing that is assembled in an object changes the conditional blocks of its callers.
  \<^item> \<open>Options\<close> (\<^verbatim>\<open>option.c\<close>): conditions, flags, widths and modes behind a mnemonic.  \<open>Option_Language\<close>: the functions
    accept exactly the texts of a grammar.  \<open>Operands\<close> (\<^verbatim>\<open>get.c\<close>): registers, register lists, shifts and constants.
    \<open>Register_Lists\<close>: the word of a register list has the bits of the registers that are named.
  \<^item> \<open>Data_Directives\<close> (\<^verbatim>\<open>directive_data.c\<close>, \<^verbatim>\<open>reloc.c\<close>, \<^verbatim>\<open>asm.c\<close>, \<^verbatim>\<open>area.c\<close>): the directives that define data, \<^verbatim>\<open>ALIGN\<close> and
    \<^verbatim>\<open>RELOC\<close>, the relocations they create, labels and mapping symbols.  \<open>Align\<close>: where \<^verbatim>\<open>ALIGN\<close> moves to and what it fills
    in.  \<open>Data_Relocs\<close>: the word of a sum and its relocations are linked to the value of the sum.
  \<^item> \<open>Decoder\<close> (\<^verbatim>\<open>decode.c\<close>): the table of mnemonics and directives and the search in it.  \<open>Mnemonic_Search\<close>: the search for
    one more character.  \<open>Mnemonics\<close>: the search finds the longest mnemonic; lower case \<^verbatim>\<open>yield\<close> is not found.

  \<^bold>\<open>Fuel.\<close>  The parser has eight levels of calls for each character of the line, which its theorem shows to be enough.
  The lexical analysis, the lines of files and the chains of the hash table have fuel from the length of what they
  read.  The evaluation, the resolution of symbols, the substitution of variables and the skipping of lines take the
  fuel as an argument, as they need not end: symbols may be defined by each other and variables may contain themselves;
  theorems say for which inputs they end (\<open>Input_ArgSub_cycle\<close>: and for which they never do).  The stacks have the sizes
  of the C arrays.

  \<^bold>\<open>Not modelled.\<close>  The functions of the mnemonics (\<^verbatim>\<open>m_*.c\<close>) and the other directives are mostly sequences of calls
  of what is modelled.  The output of AOF and ELF files, the command line and file names (\<^verbatim>\<open>output.c\<close>, \<^verbatim>\<open>main.c\<close>, \<^verbatim>\<open>os.c\<close>,
  \<^verbatim>\<open>filename.c\<close>) are I/O; \<^verbatim>\<open>libelf\<close> is a library that the sources only call.  Printing, the values in messages, and the
  release of memory are left out; a message is its format string.  The other tools of the repository are separate
  programs or vendored code.
\<close>

end
